(* ===== verification/Prelude.thy ===== *)
theory Prelude
  imports Main "HOL-Library.Word"
begin

text \<open>
  Shared vocabulary of the development: the fixed-width integers of
  \<^verbatim>\<open>common/common_types.h\<close>, the bit fields of \<^verbatim>\<open>common/bit_field.h\<close>, and the
  list and word facts that several components use. The facts that components
  unfold together are collected under \<open>model_simps\<close> (unfolding rules of small
  accessors) and \<open>bounds_simps\<close> (conversions between words and numbers).
\<close>

unbundle bit_operations_syntax

named_theorems model_simps "unfolding rules of small accessors of the models"
named_theorems bounds_simps "conversions between machine words and numbers"

type_synonym u8 = "8 word"
type_synonym u16 = "16 word"
type_synonym u32 = "32 word"
type_synonym u64 = "64 word"

section \<open>Bit fields\<close>

text \<open>
  \<^verbatim>\<open>BitField<Position, Bits, T>\<close> over unsigned storage: \<^verbatim>\<open>mask\<close>,
  \<^verbatim>\<open>FormatValue\<close>, \<^verbatim>\<open>ExtractValue\<close> and \<^verbatim>\<open>Assign\<close>.
\<close>

definition bf_mask :: "nat \<Rightarrow> nat \<Rightarrow> 'a::len word" where
  "bf_mask position bits = push_bit position (mask bits)"

definition FormatValue :: "nat \<Rightarrow> nat \<Rightarrow> 'a::len word \<Rightarrow> 'a word" where
  "FormatValue position bits v = push_bit position v AND bf_mask position bits"

definition ExtractValue :: "nat \<Rightarrow> nat \<Rightarrow> 'a::len word \<Rightarrow> 'a word" where
  "ExtractValue position bits storage = drop_bit position (storage AND bf_mask position bits)"

definition BitField_Assign :: "nat \<Rightarrow> nat \<Rightarrow> 'a::len word \<Rightarrow> 'a word \<Rightarrow> 'a word" where
  "BitField_Assign position bits storage v =
     (storage AND NOT (bf_mask position bits)) OR FormatValue position bits v"

text \<open>The signed case: shift the field to the top, then shift right arithmetically.\<close>

definition ExtractValue_signed :: "nat \<Rightarrow> nat \<Rightarrow> 'a::len word \<Rightarrow> 'a word" where
  "ExtractValue_signed position bits storage =
     (let shift = LENGTH('a) - bits
      in signed_drop_bit shift (push_bit (shift - position) storage))"

lemma bit_bf_mask:
  "bit (bf_mask p n :: 'a::len word) i \<longleftrightarrow> p \<le> i \<and> i < p + n \<and> i < LENGTH('a)"
  by (auto simp: bf_mask_def bit_simps)

lemma ExtractValue_eq: "ExtractValue p n w = take_bit n (drop_bit p w)"
  by (rule bit_word_eqI) (auto simp: ExtractValue_def bit_bf_mask bit_simps dest: bit_imp_le_length)

lemma ExtractValue_Assign_same:
  "p + n \<le> LENGTH('a) \<Longrightarrow>
   ExtractValue p n (BitField_Assign p n w v :: 'a::len word) = take_bit n v"
  by (rule bit_word_eqI)
     (auto simp: ExtractValue_def BitField_Assign_def FormatValue_def bit_bf_mask bit_simps
       dest: bit_imp_le_length)

lemma ExtractValue_Assign_other:
  "q + m \<le> p \<or> p + n \<le> q \<Longrightarrow>
   ExtractValue q m (BitField_Assign p n w v :: 'a::len word) = ExtractValue q m w"
  by (rule bit_word_eqI)
     (auto simp: ExtractValue_def BitField_Assign_def FormatValue_def bit_bf_mask bit_simps
       dest: bit_imp_le_length)

lemma unat_ExtractValue_less: "unat (ExtractValue p n w) < 2 ^ n"
  by (simp add: ExtractValue_eq unsigned_take_bit_eq)

section \<open>Words and numbers\<close>

lemma take_bit_id_less:
  "unat (w :: 'a::len word) < 2 ^ n \<Longrightarrow> take_bit n w = w"
  by (simp add: word_unat_eq_iff unsigned_take_bit_eq take_bit_nat_eq_self)

lemma unat_ucast_up:
  "LENGTH('a) \<le> LENGTH('b) \<Longrightarrow> unat (ucast (w :: 'a::len word) :: 'b::len word) = unat w"
  by (simp add: unsigned_ucast_eq take_bit_nat_eq_self
      order_less_le_trans [OF unsigned_less [where 'a = nat] power_increasing])

lemma unat_word_of_nat: "n < 2 ^ LENGTH('a) \<Longrightarrow> unat (word_of_nat n :: 'a::len word) = n"
  by (simp add: unsigned_of_nat take_bit_nat_eq_self)

lemma div_same: "a mod n + i < n \<Longrightarrow> (a + i) div n = a div (n :: nat)"
  using div_add1_eq [of a i n] div_less by (cases "n = 0") auto

lemma unat_u64_of_nat: "n < 2 ^ 64 \<Longrightarrow> unat (word_of_nat n :: u64) = n"
  by (rule unat_word_of_nat) simp

lemma unat_drop_page: "unat (drop_bit 12 (w :: u64)) = unat w div 4096"
  using unsigned_less [of w, where 'a = nat]
  by (subst unsigned_drop_bit_eq) (simp add: drop_bit_eq_div take_bit_nat_eq_self)

lemma drop_page: "drop_bit 12 (w :: u64) = word_of_nat (unat w div 4096)"
  unfolding unat_drop_page [symmetric] by simp

lemma and_page_mask: "(w :: u64) AND 4095 = take_bit 12 w"
  by (simp only: take_bit_eq_mask mask_eq_exp_minus_1) simp

lemma page_offset_word: "(ucast (w AND 4095 :: u64) :: 12 word) = word_of_nat (unat w mod 4096)"
proof -
  have "unat (w AND 4095) = unat w mod 4096"
    unfolding and_page_mask by (subst unsigned_take_bit_eq) (simp add: take_bit_eq_mod)
  then show ?thesis by (simp only: word_unat_eq_iff unsigned_ucast_eq unsigned_of_nat of_nat_id)
qed

lemma unat_push_bit_1:
  assumes "b < 64"
  shows "unat (push_bit b 1 :: u64) = 2 ^ b"
proof -
  have "unat (push_bit b 1 :: u64) = take_bit 64 (push_bit b 1 :: nat)"
    by (subst unsigned_push_bit_eq) simp
  with assms show ?thesis by (simp add: push_bit_eq_mult)
qed

lemma unat_inc: "unat w + 1 < 2 ^ LENGTH('a) \<Longrightarrow> unat (w + 1 :: 'a::len word) = unat w + 1"
  by (metis add.commute unat_word_ariths(1) mod_less unat_1)

lemma unat_dec: "0 < unat w \<Longrightarrow> unat (w - 1 :: 'a::len word) = unat w - 1"
  by (metis unat_minus_one unat_eq_zero less_numeral_extra(3))

lemma sint_of_nat_small:
  "k < 2 ^ (LENGTH('a) - 1) \<Longrightarrow> sint (word_of_nat k :: 'a::len word) = int k"
proof -
  assume k: "k < 2 ^ (LENGTH('a) - 1)"
  then have "int k < 2 ^ (LENGTH('a) - 1)" by (metis of_nat_less_numeral_power_cancel_iff)
  then have "signed_take_bit (LENGTH('a) - 1) (int k) = int k"
    by (intro signed_take_bit_int_eq_self) (simp_all add: order_trans [of _ 0])
  then show ?thesis by (simp add: signed_of_nat)
qed

section \<open>Values in memory\<close>

text \<open>The first \<open>n\<close> bytes of a 64-bit object in host (little-endian) memory.\<close>

definition low_bytes :: "nat \<Rightarrow> u64 \<Rightarrow> u8 list" where
  "low_bytes n w = map (\<lambda>i. ucast (drop_bit (8 * i) w)) [0..<n]"

primrec word_of_bytes :: "u8 list \<Rightarrow> u64" where
  "word_of_bytes [] = 0"
| "word_of_bytes (b # bs) = ucast b OR push_bit 8 (word_of_bytes bs)"

section \<open>Lists\<close>

lemma count_list_update:
  "i < length xs \<Longrightarrow>
   count_list (xs[i := y]) z =
     count_list xs z - (if xs ! i = z then 1 else 0) + (if y = z then 1 else 0)"
proof (induction xs arbitrary: i)
  case Nil
  then show ?case by simp
next
  case (Cons x xs)
  show ?case
  proof (cases i)
    case 0
    then show ?thesis by simp
  next
    case (Suc j)
    with Cons.prems have j: "j < length xs" by simp
    have pos: "xs ! j = z \<Longrightarrow> 0 < count_list xs z"
      using j by (metis count_list_0_iff gr0I nth_mem)
    show ?thesis using Suc Cons.IH [OF j] pos by auto
  qed
qed

lemma nth_in_count: "i < length xs \<Longrightarrow> xs ! i = z \<Longrightarrow> 0 < count_list xs z"
  by (metis count_list_0_iff gr0I nth_mem)

end
