(* ===== verification/KHandleTable.thy ===== *)
theory KHandleTable
  imports Prelude
begin

text \<open>
  The process handle table, \<^verbatim>\<open>core/hle/kernel/k_handle_table.h\<close> and
  \<^verbatim>\<open>k_handle_table.cpp\<close>. The table's arrays, its intrusive free list (threaded
  through the \<^verbatim>\<open>EntryInfo\<close> union) and its serial numbers are kept as the code has
  them; the union is one 16-bit word, read as \<^verbatim>\<open>linear_id\<close> by \<open>GetLinearId\<close> and as
  \<^verbatim>\<open>next_free_index\<close> by \<open>GetNextFreeIndex\<close>. Objects are opaque; the calls the table
  makes on them (\<^verbatim>\<open>Open\<close>, \<^verbatim>\<open>Close\<close>, \<^verbatim>\<open>UnregisterInUseObject\<close>) are recorded in
  \<open>m_calls\<close>, newest first. \<^verbatim>\<open>ASSERT\<close> logs and continues (the default setting), so it
  has no branch here. The spin lock makes each operation one atomic step.
\<close>

unbundle bit_operations_syntax

section \<open>Data\<close>

type_synonym Handle = u32

datatype Result = ResultSuccess | ResultOutOfMemory | ResultOutOfHandles

datatype 'o object_call = Open 'o | Close 'o | UnregisterInUseObject 'o

record 'o khandle_table =
  m_entry_infos :: "u16 list"
  m_objects :: "'o option list"
  m_free_head_index :: int
  m_table_size :: u16
  m_max_count :: u16
  m_next_linear_id :: u16
  m_count :: u16
  m_calls :: "'o object_call list"

definition MaxTableSize :: nat where
  "MaxTableSize = 1024"

definition MinLinearId :: u16 where
  "MinLinearId = 1"

definition MaxLinearId :: u16 where
  "MaxLinearId = 0x7FFF"

definition GetLinearId :: "u16 \<Rightarrow> u16" where
  "GetLinearId info = info"

definition GetNextFreeIndex :: "u16 \<Rightarrow> int" where
  "GetNextFreeIndex info = sint info"

definition HandlePack_index :: "Handle \<Rightarrow> u32" where
  "HandlePack_index h = ExtractValue 0 15 h"

definition HandlePack_linear_id :: "Handle \<Rightarrow> u32" where
  "HandlePack_linear_id h = ExtractValue 15 15 h"

definition HandlePack_reserved :: "Handle \<Rightarrow> u32" where
  "HandlePack_reserved h = ExtractValue 30 2 h"

definition EncodeHandle :: "u16 \<Rightarrow> u16 \<Rightarrow> Handle" where
  "EncodeHandle index linear_id =
     (let h0 = 0;
          h1 = BitField_Assign 0 15 h0 (ucast index);
          h2 = BitField_Assign 15 15 h1 (ucast linear_id)
      in BitField_Assign 30 2 h2 0)"

definition PseudoHandle_CurrentThread :: Handle where
  "PseudoHandle_CurrentThread = 0xFFFF8000"

definition PseudoHandle_CurrentProcess :: Handle where
  "PseudoHandle_CurrentProcess = 0xFFFF8001"

definition IsPseudoHandle :: "Handle \<Rightarrow> bool" where
  "IsPseudoHandle h \<longleftrightarrow> h = PseudoHandle_CurrentProcess \<or> h = PseudoHandle_CurrentThread"

section \<open>Operations\<close>

text \<open>The zero-initialised table, as its members' initialisers leave it.\<close>

definition KHandleTable_ctor :: "'o khandle_table" where
  "KHandleTable_ctor =
     \<lparr> m_entry_infos = replicate MaxTableSize 0, m_objects = replicate MaxTableSize None,
       m_free_head_index = 0, m_table_size = 0, m_max_count = 0, m_next_linear_id = 0,
       m_count = 0, m_calls = [] \<rparr>"

text \<open>The loop of \<^verbatim>\<open>Initialize\<close> that frees every entry, from index \<open>i\<close> to \<open>i + k\<close>.\<close>

primrec Initialize_loop :: "nat \<Rightarrow> nat \<Rightarrow> 'o khandle_table \<Rightarrow> 'o khandle_table" where
  "Initialize_loop 0 i t = t"
| "Initialize_loop (Suc k) i t =
     Initialize_loop k (Suc i)
       (t\<lparr> m_objects := (m_objects t)[i := None],
          m_entry_infos := (m_entry_infos t)[i := word_of_int (int i - 1)],
          m_free_head_index := int i \<rparr>)"

definition Initialize :: "int \<Rightarrow> 'o khandle_table \<Rightarrow> Result \<times> 'o khandle_table" where
  "Initialize tsize t =
     (if \<not> tsize \<le> int MaxTableSize then (ResultOutOfMemory, t)
      else
        let t1 = t\<lparr> m_max_count := 0,
                   m_table_size := word_of_int (if tsize \<le> 0 then int MaxTableSize else tsize),
                   m_next_linear_id := MinLinearId,
                   m_count := 0,
                   m_free_head_index := -1 \<rparr>
        in (ResultSuccess, Initialize_loop (unat (m_table_size t1)) 0 t1))"

definition AllocateEntry :: "'o khandle_table \<Rightarrow> int \<times> 'o khandle_table" where
  "AllocateEntry t =
     (let index = m_free_head_index t;
          t1 = t\<lparr> m_free_head_index := GetNextFreeIndex (m_entry_infos t ! nat index) \<rparr>;
          t2 = t1\<lparr> m_count := m_count t1 + 1 \<rparr>;
          t3 = t2\<lparr> m_max_count := max (m_max_count t2) (m_count t2) \<rparr>
      in (index, t3))"

definition FreeEntry :: "nat \<Rightarrow> 'o khandle_table \<Rightarrow> 'o khandle_table" where
  "FreeEntry index t =
     t\<lparr> m_objects := (m_objects t)[index := None],
       m_entry_infos := (m_entry_infos t)[index := word_of_int (m_free_head_index t)],
       m_free_head_index := int index,
       m_count := m_count t - 1 \<rparr>"

definition AllocateLinearId :: "'o khandle_table \<Rightarrow> u16 \<times> 'o khandle_table" where
  "AllocateLinearId t =
     (let id = m_next_linear_id t;
          t1 = t\<lparr> m_next_linear_id := m_next_linear_id t + 1 \<rparr>;
          t2 = (if m_next_linear_id t1 > MaxLinearId
                then t1\<lparr> m_next_linear_id := MinLinearId \<rparr> else t1)
      in (id, t2))"

definition IsValidHandle :: "'o khandle_table \<Rightarrow> Handle \<Rightarrow> bool" where
  "IsValidHandle t h =
     (let raw_value = h; index = HandlePack_index h; linear_id = HandlePack_linear_id h
      in if raw_value = 0 then False
         else if linear_id = 0 then False
         else if index \<ge> ucast (m_table_size t) then False
         else if m_objects t ! unat index = None then False
         else if ucast (GetLinearId (m_entry_infos t ! unat index)) \<noteq> linear_id then False
         else True)"

definition GetObjectImpl :: "'o khandle_table \<Rightarrow> Handle \<Rightarrow> 'o option" where
  "GetObjectImpl t h =
     (if HandlePack_reserved h \<noteq> 0 then None
      else if IsValidHandle t h then m_objects t ! unat (HandlePack_index h)
      else None)"

definition GetObjectByIndexImpl :: "'o khandle_table \<Rightarrow> nat \<Rightarrow> (Handle \<times> 'o) option" where
  "GetObjectByIndexImpl t index =
     (if index \<ge> unat (m_table_size t) then None
      else case m_objects t ! index of
             Some obj \<Rightarrow> Some (EncodeHandle (word_of_nat index)
                                (GetLinearId (m_entry_infos t ! index)), obj)
           | None \<Rightarrow> None)"

text \<open>
  \<^verbatim>\<open>Finalize\<close>: the table size is taken away under the lock, then every object still
  in the table is closed, in index order.
\<close>

primrec Finalize_loop :: "nat \<Rightarrow> nat \<Rightarrow> 'o khandle_table \<Rightarrow> 'o khandle_table" where
  "Finalize_loop 0 i t = t"
| "Finalize_loop (Suc k) i t =
     Finalize_loop k (Suc i)
       (case m_objects t ! i of
          Some obj \<Rightarrow> t\<lparr> m_calls := Close obj # m_calls t \<rparr>
        | None \<Rightarrow> t)"

definition Finalize :: "'o khandle_table \<Rightarrow> Result \<times> 'o khandle_table" where
  "Finalize t =
     (let saved_table_size = m_table_size t
      in (ResultSuccess, Finalize_loop (unat saved_table_size) 0 (t\<lparr> m_table_size := 0 \<rparr>)))"

definition Remove :: "Handle \<Rightarrow> 'o khandle_table \<Rightarrow> bool \<times> 'o khandle_table" where
  "Remove h t =
     (if IsPseudoHandle h then (False, t)
      else if HandlePack_reserved h \<noteq> 0 then (False, t)
      else if IsValidHandle t h then
        (let index = unat (HandlePack_index h)
         in case m_objects t ! index of
              Some obj \<Rightarrow>
                (let t1 = FreeEntry index t
                 in (True, t1\<lparr> m_calls := Close obj # UnregisterInUseObject obj # m_calls t1 \<rparr>))
            | None \<Rightarrow> (False, t))
      else (False, t))"

definition Add :: "'o \<Rightarrow> 'o khandle_table \<Rightarrow> (Result + Handle) \<times> 'o khandle_table" where
  "Add obj t =
     (if \<not> m_count t < m_table_size t then (Inl ResultOutOfHandles, t)
      else
        let (linear_id, t1) = AllocateLinearId t;
            (index, t2) = AllocateEntry t1;
            t3 = t2\<lparr> m_entry_infos := (m_entry_infos t2)[nat index := linear_id],
                    m_objects := (m_objects t2)[nat index := Some obj],
                    m_calls := Open obj # m_calls t2 \<rparr>
        in (Inr (EncodeHandle (word_of_int index) linear_id), t3))"

definition Reserve :: "'o khandle_table \<Rightarrow> (Result + Handle) \<times> 'o khandle_table" where
  "Reserve t =
     (if \<not> m_count t < m_table_size t then (Inl ResultOutOfHandles, t)
      else
        let (index, t1) = AllocateEntry t;
            (linear_id, t2) = AllocateLinearId t1
        in (Inr (EncodeHandle (word_of_int index) linear_id), t2))"

definition Unreserve :: "Handle \<Rightarrow> 'o khandle_table \<Rightarrow> 'o khandle_table" where
  "Unreserve h t =
     (let index = HandlePack_index h
      in if index < ucast (m_table_size t) then FreeEntry (unat index) t else t)"

definition Register :: "Handle \<Rightarrow> 'o \<Rightarrow> 'o khandle_table \<Rightarrow> 'o khandle_table" where
  "Register h obj t =
     (let index = HandlePack_index h; linear_id = HandlePack_linear_id h
      in if index < ucast (m_table_size t)
         then t\<lparr> m_entry_infos := (m_entry_infos t)[unat index := ucast linear_id],
                m_objects := (m_objects t)[unat index := Some obj],
                m_calls := Open obj # m_calls t \<rparr>
         else t)"

text \<open>
  \<^verbatim>\<open>GetObject<T>\<close> and \<^verbatim>\<open>GetObjectForIpc\<close> answer pseudo-handles from the current thread;
  \<open>cur_process\<close> and \<open>cur_thread\<close> are what the scheduler reports. \<open>cast\<close> is
  \<^verbatim>\<open>DynamicCast<T*>\<close> (always true for \<^verbatim>\<open>T = KAutoObject\<close>); the two Booleans are the
  compile-time conditions \<^verbatim>\<open>std::derived_from<KProcess, T>\<close> and
  \<^verbatim>\<open>std::derived_from<KThread, T>\<close>, tested in that order.
\<close>

definition GetObjectWithoutPseudoHandle :: "('o \<Rightarrow> bool) \<Rightarrow> 'o khandle_table \<Rightarrow> Handle \<Rightarrow> 'o option" where
  "GetObjectWithoutPseudoHandle cast t h =
     (case GetObjectImpl t h of
        Some obj \<Rightarrow> if cast obj then Some obj else None
      | None \<Rightarrow> None)"

definition GetObject ::
  "bool \<Rightarrow> bool \<Rightarrow> ('o \<Rightarrow> bool) \<Rightarrow> 'o \<Rightarrow> 'o \<Rightarrow> 'o khandle_table \<Rightarrow> Handle \<Rightarrow> 'o option" where
  "GetObject process_derives thread_derives cast cur_process cur_thread t h =
     (if process_derives then
        (if h = PseudoHandle_CurrentProcess then Some cur_process
         else GetObjectWithoutPseudoHandle cast t h)
      else if thread_derives then
        (if h = PseudoHandle_CurrentThread then Some cur_thread
         else GetObjectWithoutPseudoHandle cast t h)
      else GetObjectWithoutPseudoHandle cast t h)"

definition GetObjectForIpc :: "'o khandle_table \<Rightarrow> Handle \<Rightarrow> 'o \<Rightarrow> 'o \<Rightarrow> 'o option" where
  "GetObjectForIpc t h cur_process cur_thread =
     (if h = PseudoHandle_CurrentProcess then Some cur_process
      else if h = PseudoHandle_CurrentThread then Some cur_thread
      else GetObjectImpl t h)"

text \<open>
  \<^verbatim>\<open>GetMultipleObjects<T>\<close>: objects are opened one by one until a handle does not
  resolve or its object is not a \<^verbatim>\<open>T\<close> (\<open>cast\<close> is \<^verbatim>\<open>DynamicCast<T*>\<close>); on failure the
  objects opened so far are closed again, in order.
\<close>

primrec GetMultipleObjects_loop ::
  "('o \<Rightarrow> bool) \<Rightarrow> 'o khandle_table \<Rightarrow> Handle list \<Rightarrow> 'o list" where
  "GetMultipleObjects_loop cast t [] = []"
| "GetMultipleObjects_loop cast t (h # hs) =
     (case GetObjectImpl t h of
        None \<Rightarrow> []
      | Some obj \<Rightarrow> if cast obj then obj # GetMultipleObjects_loop cast t hs else [])"

definition GetMultipleObjects ::
  "('o \<Rightarrow> bool) \<Rightarrow> Handle list \<Rightarrow> 'o khandle_table \<Rightarrow> 'o list option \<times> 'o khandle_table" where
  "GetMultipleObjects cast handles t =
     (let out = GetMultipleObjects_loop cast t handles;
          t1 = t\<lparr> m_calls := rev (map Open out) @ m_calls t \<rparr>
      in if length out = length handles then (Some out, t1)
         else (None, t1\<lparr> m_calls := rev (map Close out) @ m_calls t1 \<rparr>))"

section \<open>The table invariant\<close>

text \<open>The free list, read from the head index through the entries' next-free links.\<close>

fun free_walk :: "nat \<Rightarrow> u16 list \<Rightarrow> int \<Rightarrow> nat list" where
  "free_walk 0 infos h = []"
| "free_walk (Suc n) infos h =
     (if h < 0 then [] else nat h # free_walk n infos (GetNextFreeIndex (infos ! nat h)))"

definition free_list :: "'o khandle_table \<Rightarrow> nat list" where
  "free_list t = free_walk (unat (m_table_size t) - unat (m_count t))
                   (m_entry_infos t) (m_free_head_index t)"

fun free_chain :: "u16 list \<Rightarrow> int \<Rightarrow> nat list \<Rightarrow> bool" where
  "free_chain infos h [] = (h = -1)"
| "free_chain infos h (i # is) = (h = int i \<and> free_chain infos (GetNextFreeIndex (infos ! i)) is)"

text \<open>
  Well-formed tables: the arrays have their size, the free list is a proper chain of
  distinct in-range entries without an object, entries and the count add up to the table
  size, and the serial number of every live entry is a valid one.
\<close>

definition ht_wf :: "'o khandle_table \<Rightarrow> bool" where
  "ht_wf t \<longleftrightarrow>
     length (m_entry_infos t) = MaxTableSize \<and> length (m_objects t) = MaxTableSize \<and>
     unat (m_table_size t) \<le> MaxTableSize \<and> m_count t \<le> m_table_size t \<and>
     MinLinearId \<le> m_next_linear_id t \<and> m_next_linear_id t \<le> MaxLinearId \<and>
     free_chain (m_entry_infos t) (m_free_head_index t) (free_list t) \<and>
     length (free_list t) = unat (m_table_size t) - unat (m_count t) \<and>
     distinct (free_list t) \<and>
     list_all (\<lambda>i. i < unat (m_table_size t) \<and> m_objects t ! i = None) (free_list t) \<and>
     list_all (\<lambda>i. m_objects t ! i \<noteq> None \<longrightarrow>
        MinLinearId \<le> m_entry_infos t ! i \<and> m_entry_infos t ! i \<le> MaxLinearId)
       [0..<unat (m_table_size t)]"

text \<open>A handle that was reserved and is not yet registered or given back.\<close>

definition is_reserved :: "Handle \<Rightarrow> 'o khandle_table \<Rightarrow> bool" where
  "is_reserved h t \<longleftrightarrow>
     HandlePack_reserved h = 0 \<and> HandlePack_linear_id h \<noteq> 0 \<and>
     unat (HandlePack_index h) < unat (m_table_size t) \<and>
     m_objects t ! unat (HandlePack_index h) = None \<and>
     unat (HandlePack_index h) \<notin> set (free_list t)"

text \<open>References the table holds on an object: calls of \<^verbatim>\<open>Open\<close> less calls of \<^verbatim>\<open>Close\<close>.\<close>

definition ref_balance :: "'o khandle_table \<Rightarrow> 'o \<Rightarrow> int" where
  "ref_balance t ob = int (count_list (m_calls t) (Open ob)) - int (count_list (m_calls t) (Close ob))"

definition live_entries :: "'o khandle_table \<Rightarrow> 'o \<Rightarrow> nat" where
  "live_entries t ob = count_list (take (unat (m_table_size t)) (m_objects t)) (Some ob)"

lemmas ht_const_defs = MaxTableSize_def MinLinearId_def MaxLinearId_def

lemma free_chain_walk: "free_chain infos h fl \<Longrightarrow> free_walk (length fl) infos h = fl"
  by (induction fl arbitrary: h) auto

lemma free_chain_update:
  "free_chain infos h fl \<Longrightarrow> i \<notin> set fl \<Longrightarrow> free_chain (infos[i := x]) h fl"
  by (induction fl arbitrary: h) auto

lemma free_list_eq:
  "free_chain (m_entry_infos t) (m_free_head_index t) fl \<Longrightarrow>
   length fl = unat (m_table_size t) - unat (m_count t) \<Longrightarrow> free_list t = fl"
  using free_chain_walk [of "m_entry_infos t" "m_free_head_index t" fl] by (simp add: free_list_def)

lemma ht_wfI:
  assumes "length (m_entry_infos t) = MaxTableSize" "length (m_objects t) = MaxTableSize"
    "unat (m_table_size t) \<le> MaxTableSize" "m_count t \<le> m_table_size t"
    "MinLinearId \<le> m_next_linear_id t" "m_next_linear_id t \<le> MaxLinearId"
    "free_chain (m_entry_infos t) (m_free_head_index t) fl"
    "length fl = unat (m_table_size t) - unat (m_count t)" "distinct fl"
    "\<And>i. i \<in> set fl \<Longrightarrow> i < unat (m_table_size t) \<and> m_objects t ! i = None"
    "\<And>i. i < unat (m_table_size t) \<Longrightarrow> m_objects t ! i \<noteq> None \<Longrightarrow>
       MinLinearId \<le> m_entry_infos t ! i \<and> m_entry_infos t ! i \<le> MaxLinearId"
  shows "ht_wf t"
proof -
  have fl: "free_list t = fl" by (rule free_list_eq) (fact assms)+
  show ?thesis
    unfolding ht_wf_def fl list_all_iff using assms by auto
qed

lemma ht_wfD:
  assumes "ht_wf t"
  shows "length (m_entry_infos t) = MaxTableSize" "length (m_objects t) = MaxTableSize"
    "unat (m_table_size t) \<le> MaxTableSize" "m_count t \<le> m_table_size t"
    "MinLinearId \<le> m_next_linear_id t" "m_next_linear_id t \<le> MaxLinearId"
    "free_chain (m_entry_infos t) (m_free_head_index t) (free_list t)"
    "length (free_list t) = unat (m_table_size t) - unat (m_count t)" "distinct (free_list t)"
    "\<And>i. i \<in> set (free_list t) \<Longrightarrow> i < unat (m_table_size t) \<and> m_objects t ! i = None"
    "\<And>i. i < unat (m_table_size t) \<Longrightarrow> m_objects t ! i \<noteq> None \<Longrightarrow>
       MinLinearId \<le> m_entry_infos t ! i \<and> m_entry_infos t ! i \<le> MaxLinearId"
  using assms by (auto simp: ht_wf_def list_all_iff)

section \<open>Handles\<close>

lemma ucast_take_bit_u16: "take_bit 15 (ucast (w :: u16) :: u32) = ucast w" if "unat w < 2 ^ 15"
  using that by (intro take_bit_id_less) (simp add: unat_ucast_up)

lemma EncodeHandle_fields:
  assumes "unat index < 2 ^ 15" "unat lid < 2 ^ 15"
  shows "HandlePack_index (EncodeHandle index lid) = ucast index"
    "HandlePack_linear_id (EncodeHandle index lid) = ucast lid"
    "HandlePack_reserved (EncodeHandle index lid) = 0"
  using assms
  by (simp_all add: EncodeHandle_def HandlePack_index_def HandlePack_linear_id_def
      HandlePack_reserved_def Let_def ExtractValue_Assign_other ExtractValue_Assign_same
      ucast_take_bit_u16)

lemma bit_ExtractValue:
  "bit (ExtractValue p n w) i \<longleftrightarrow> i < n \<and> bit w (p + i)"
  by (simp add: ExtractValue_eq bit_simps ac_simps)

lemma handle_eqI:
  assumes "HandlePack_index h = HandlePack_index h'" "HandlePack_linear_id h = HandlePack_linear_id h'"
    "HandlePack_reserved h = HandlePack_reserved h'"
  shows "h = h'"
proof (rule bit_word_eqI)
  fix n assume n: "n < LENGTH(32)"
  have eq: "bit (ExtractValue p m h) k = bit (ExtractValue p m h') k"
    if "(p, m) \<in> {(0, 15), (15, 15), (30, 2)}" for p m k
    using assms that by (auto simp: HandlePack_index_def HandlePack_linear_id_def HandlePack_reserved_def)
  consider "n < 15" | "15 \<le> n" "n < 30" | "30 \<le> n" by linarith
  then show "bit h n = bit h' n"
  proof cases
    case 1 with eq [of 0 15 n] show ?thesis by (simp add: bit_ExtractValue)
  next
    case 2
    then have "n - 15 < 15" by linarith
    with 2 eq [of 15 15 "n - 15"] show ?thesis by (simp add: bit_ExtractValue)
  next
    case 3
    with n have "n - 30 < 2" by simp
    with 3 eq [of 30 2 "n - 30"] show ?thesis by (simp add: bit_ExtractValue)
  qed
qed

lemma HandlePack_index_less: "unat (HandlePack_index h) < 2 ^ 15"
  unfolding HandlePack_index_def by (rule unat_ExtractValue_less)

section \<open>Allocation and release of entries\<close>

lemma free_list_nonempty:
  assumes wf: "ht_wf t" and room: "m_count t < m_table_size t"
  obtains i fl where "free_list t = i # fl" "m_free_head_index t = int i"
    "i < unat (m_table_size t)" "i < MaxTableSize" "m_objects t ! i = None" "i \<notin> set fl" "distinct fl"
    "free_chain (m_entry_infos t) (GetNextFreeIndex (m_entry_infos t ! i)) fl"
    "length fl = unat (m_table_size t) - unat (m_count t) - 1"
proof -
  note D = ht_wfD [OF wf]
  have "unat (m_count t) < unat (m_table_size t)" using room by (simp add: word_less_nat_alt)
  with D(8) have "free_list t \<noteq> []" by auto
  then obtain i fl where fl: "free_list t = i # fl" by (cases "free_list t") auto
  show ?thesis
  proof (rule that [of i fl])
    show "i < MaxTableSize" using D(3) D(10) [of i] fl by auto
    show "length fl = unat (m_table_size t) - unat (m_count t) - 1" using D(8) fl by auto
  qed (use D(7) D(9) D(10) [of i] fl in auto)
qed

lemma linear_id_step:
  assumes "MinLinearId \<le> lid" "lid \<le> MaxLinearId"
  defines "nxt \<equiv> (if lid + 1 > MaxLinearId then MinLinearId else lid + 1)"
  shows "MinLinearId \<le> nxt" "nxt \<le> MaxLinearId" "nxt \<noteq> lid" "unat lid < 2 ^ 15" "lid \<noteq> 0"
proof -
  have lid: "1 \<le> unat lid" "unat lid \<le> 32767"
    using assms(1,2) by (simp_all add: ht_const_defs word_le_nat_alt)
  have "unat (lid + 1) = unat lid + 1" using lid by (intro unat_inc) simp
  then show "MinLinearId \<le> nxt" "nxt \<le> MaxLinearId" "nxt \<noteq> lid" "unat lid < 2 ^ 15" "lid \<noteq> 0"
    using lid by (auto simp: nxt_def ht_const_defs word_le_nat_alt word_less_nat_alt word_unat_eq_iff)
qed

lemma AllocateLinearId_eq:
  "AllocateLinearId t =
     (m_next_linear_id t,
      t\<lparr> m_next_linear_id :=
          (if m_next_linear_id t + 1 > MaxLinearId then MinLinearId else m_next_linear_id t + 1) \<rparr>)"
  by (simp add: AllocateLinearId_def Let_def)

lemma count_step:
  assumes "m_count t < m_table_size t" "unat (m_table_size t) \<le> MaxTableSize"
  shows "unat (m_count t + 1) = unat (m_count t) + 1" "m_count t + 1 \<le> m_table_size t"
proof -
  show 1: "unat (m_count t + 1) = unat (m_count t) + 1"
    using assms by (intro unat_inc) (simp add: word_less_nat_alt ht_const_defs)
  show "m_count t + 1 \<le> m_table_size t"
    using assms(1) by (simp add: word_less_nat_alt word_le_nat_alt 1)
qed

lemma reserve_step_wf:
  assumes wf: "ht_wf t" and room: "m_count t < m_table_size t"
    and fl: "free_list t = i # fl"
    and t': "m_entry_infos t' = m_entry_infos t" "m_objects t' = m_objects t"
      "m_free_head_index t' = GetNextFreeIndex (m_entry_infos t ! i)"
      "m_table_size t' = m_table_size t" "m_count t' = m_count t + 1"
      "MinLinearId \<le> m_next_linear_id t'" "m_next_linear_id t' \<le> MaxLinearId"
  shows "ht_wf t'" "free_list t' = fl"
proof -
  note D = ht_wfD [OF wf]
  obtain fl' where A: "free_list t = i # fl'" "i \<notin> set fl'" "distinct fl'"
    "free_chain (m_entry_infos t) (GetNextFreeIndex (m_entry_infos t ! i)) fl'"
    "length fl' = unat (m_table_size t) - unat (m_count t) - 1"
    using free_list_nonempty [OF wf room] fl by (metis list.inject)
  have fl': "fl' = fl" using A(1) fl by simp
  note cs = count_step [OF room D(3)]
  show "free_list t' = fl"
    by (rule free_list_eq) (use A fl' t' cs(1) in auto)
  show "ht_wf t'"
    by (rule ht_wfI [where fl = fl]) (use A fl' t' cs D fl in auto)
qed

lemma Reserve_eq:
  assumes wf: "ht_wf t" and room: "m_count t < m_table_size t"
  obtains i fl t' where "free_list t = i # fl" "i < unat (m_table_size t)" "i < MaxTableSize"
    "m_objects t ! i = None"
    "Reserve t = (Inr (EncodeHandle (word_of_nat i) (m_next_linear_id t)), t')"
    "ht_wf t'" "free_list t' = fl" "m_objects t' = m_objects t" "m_entry_infos t' = m_entry_infos t"
    "m_table_size t' = m_table_size t" "m_calls t' = m_calls t" "m_next_linear_id t' \<noteq> m_next_linear_id t"
    "m_count t' = m_count t + 1"
proof -
  note D = ht_wfD [OF wf]
  obtain i fl where A: "free_list t = i # fl" "m_free_head_index t = int i"
    "i < unat (m_table_size t)" "i < MaxTableSize" "m_objects t ! i = None"
    using free_list_nonempty [OF wf room] by metis
  let ?nl = "if m_next_linear_id t + 1 > MaxLinearId then MinLinearId else m_next_linear_id t + 1"
  let ?t' = "t\<lparr> m_free_head_index := GetNextFreeIndex (m_entry_infos t ! i),
     m_count := m_count t + 1, m_max_count := max (m_max_count t) (m_count t + 1),
     m_next_linear_id := ?nl \<rparr>"
  note L = linear_id_step [OF D(5,6)]
  have R: "Reserve t = (Inr (EncodeHandle (word_of_nat i) (m_next_linear_id t)), ?t')"
    using room A(2) by (simp add: Reserve_def AllocateEntry_def AllocateLinearId_eq Let_def)
  have W: "ht_wf ?t'" "free_list ?t' = fl"
    by (rule reserve_step_wf [OF wf room A(1)]; use L in simp)+
  show ?thesis by (rule that [OF A(1,3,4,5) R W]) (use L(3) in simp_all)
qed

lemma ucast_less_iff:
  "(ucast (a :: u16) :: u32) \<le> b \<longleftrightarrow> unat a \<le> unat b"
  "b < (ucast a :: u32) \<longleftrightarrow> unat b < unat a"
  by (simp_all add: word_le_nat_alt word_less_nat_alt unat_ucast_up)

lemma GetObjectImpl_Some_iff:
  "GetObjectImpl t h = Some ob \<longleftrightarrow>
     HandlePack_reserved h = 0 \<and> HandlePack_linear_id h \<noteq> 0 \<and>
     unat (HandlePack_index h) < unat (m_table_size t) \<and>
     m_objects t ! unat (HandlePack_index h) = Some ob \<and>
     ucast (m_entry_infos t ! unat (HandlePack_index h)) = HandlePack_linear_id h"
proof -
  have "h = 0 \<Longrightarrow> HandlePack_linear_id h = 0"
    by (simp add: HandlePack_linear_id_def ExtractValue_def)
  then show ?thesis
    by (auto simp: GetObjectImpl_def IsValidHandle_def Let_def GetLinearId_def ucast_less_iff)
qed

lemma ucast_u32_u16_inverse: "unat w < 2 ^ 15 \<Longrightarrow> ucast (ucast (w :: u32) :: u16) = w"
  by (simp add: word_unat_eq_iff unsigned_ucast_eq take_bit_id_less)

lemma Register_wf:
  assumes wf: "ht_wf t" and res: "is_reserved h t"
  shows "ht_wf (Register h ob t)"
proof -
  note D = ht_wfD [OF wf]
  let ?i = "unat (HandlePack_index h)"
  have R: "HandlePack_linear_id h \<noteq> 0" "?i < unat (m_table_size t)" "?i \<notin> set (free_list t)"
    using res by (auto simp: is_reserved_def)
  have lid: "unat (HandlePack_linear_id h) < 2 ^ 15"
    unfolding HandlePack_linear_id_def by (rule unat_ExtractValue_less)
  have lid': "unat (ucast (HandlePack_linear_id h) :: u16) = unat (HandlePack_linear_id h)"
    using lid by (simp add: unsigned_ucast_eq take_bit_nat_eq_self)
  have lid_ok: "MinLinearId \<le> ucast (HandlePack_linear_id h) \<and> ucast (HandlePack_linear_id h) \<le> MaxLinearId"
    using lid R(1) lid' by (auto simp: ht_const_defs word_le_nat_alt Suc_le_eq unat_gt_0)
  show ?thesis
    using D R lid_ok
    by (intro ht_wfI [where fl = "free_list t"])
       (auto simp: Register_def Let_def ucast_less_iff free_chain_update nth_list_update)
qed

lemma Register_lookup:
  assumes wf: "ht_wf t" and res: "is_reserved h t"
  shows "GetObjectImpl (Register h ob t) = (GetObjectImpl t)(h \<mapsto> ob)"
proof
  fix k
  note D = ht_wfD [OF wf]
  let ?i = "unat (HandlePack_index h)"
  have R: "HandlePack_reserved h = 0" "HandlePack_linear_id h \<noteq> 0" "?i < unat (m_table_size t)"
    "m_objects t ! ?i = None"
    using res by (auto simp: is_reserved_def)
  have lid: "ucast (ucast (HandlePack_linear_id h) :: u16) = HandlePack_linear_id h"
    by (rule ucast_u32_u16_inverse)
       (simp add: HandlePack_linear_id_def unat_ExtractValue_less [of 15 15, simplified])
  have len: "?i < length (m_objects t)" "?i < length (m_entry_infos t)" using R D by auto
  show "GetObjectImpl (Register h ob t) k = ((GetObjectImpl t)(h \<mapsto> ob)) k"
  proof (cases "k = h")
    case True
    then show ?thesis
      using R len lid by (simp add: GetObjectImpl_Some_iff Register_def Let_def ucast_less_iff)
  next
    case False
    have "GetObjectImpl (Register h ob t) k = Some x \<longleftrightarrow> GetObjectImpl t k = Some x" for x
    proof (cases "HandlePack_index k = HandlePack_index h")
      case True
      with False R(1) have "HandlePack_reserved k = 0 \<Longrightarrow> HandlePack_linear_id k \<noteq> HandlePack_linear_id h"
        using handle_eqI by metis
      with True R len lid show ?thesis
        by (auto simp: GetObjectImpl_Some_iff Register_def Let_def ucast_less_iff)
    next
      case False
      then have "unat (HandlePack_index k) \<noteq> ?i" by (simp add: word_unat_eq_iff)
      then show ?thesis
        by (simp add: GetObjectImpl_Some_iff Register_def Let_def)
    qed
    with False show ?thesis by (simp, metis not_None_eq)
  qed
qed

lemma head_index_roundtrip:
  assumes "ht_wf t"
  shows "GetNextFreeIndex (word_of_int (m_free_head_index t)) = m_free_head_index t"
proof (cases "free_list t")
  case Nil
  with ht_wfD(7) [OF assms] have "m_free_head_index t = -1" by simp
  then show ?thesis by (simp add: GetNextFreeIndex_def)
next
  case (Cons i fl)
  with ht_wfD(3,7,10) [OF assms] have "m_free_head_index t = int i" "i < MaxTableSize" by fastforce+
  then show ?thesis using sint_of_nat_small [of i, where 'a = 16]
    by (simp add: GetNextFreeIndex_def ht_const_defs)
qed

lemma FreeEntry_wf:
  assumes wf: "ht_wf t" and i: "i < unat (m_table_size t)" "i \<notin> set (free_list t)"
  shows "ht_wf (FreeEntry i t)" "free_list (FreeEntry i t) = i # free_list t"
proof -
  note D = ht_wfD [OF wf]
  have "set (i # free_list t) \<subseteq> {0..<unat (m_table_size t)}" using D(10) i by auto
  then have "card (set (i # free_list t)) \<le> unat (m_table_size t)"
    using card_mono [of "{0..<unat (m_table_size t)}"] by fastforce
  then have len: "length (free_list t) + 1 \<le> unat (m_table_size t)"
    using D(9) i(2) by (simp add: distinct_card)
  then have c: "0 < unat (m_count t)" using D(8) by linarith
  have c1: "unat (m_count t - 1) = unat (m_count t) - 1" using c by (rule unat_dec)
  have cle: "unat (m_count t) \<le> unat (m_table_size t)" using D(4) by (simp add: word_le_nat_alt)
  have ch: "free_chain (m_entry_infos (FreeEntry i t)) (m_free_head_index (FreeEntry i t)) (i # free_list t)"
    using i D head_index_roundtrip [OF wf]
    by (simp add: FreeEntry_def free_chain_update)
  have ln: "length (i # free_list t) =
      unat (m_table_size (FreeEntry i t)) - unat (m_count (FreeEntry i t))"
    using D(8) c c1 cle by (simp add: FreeEntry_def)
  show "free_list (FreeEntry i t) = i # free_list t" by (rule free_list_eq [OF ch ln])
  have le: "m_count (FreeEntry i t) \<le> m_table_size (FreeEntry i t)"
    using cle c1 by (simp add: FreeEntry_def word_le_nat_alt)
  show "ht_wf (FreeEntry i t)"
    using D i ch ln le
    by (intro ht_wfI [where fl = "i # free_list t"])
       (auto simp: FreeEntry_def nth_list_update)
qed

lemma FreeEntry_lookup:
  assumes wf: "ht_wf t" and i: "i < unat (m_table_size t)"
  shows "GetObjectImpl (FreeEntry i t) h =
    (if unat (HandlePack_index h) = i then None else GetObjectImpl t h)"
proof -
  have "i < length (m_objects t)" using i ht_wfD(2,3) [OF wf] by simp
  then have "GetObjectImpl (FreeEntry i t) h = Some x \<longleftrightarrow>
      unat (HandlePack_index h) \<noteq> i \<and> GetObjectImpl t h = Some x" for x
    by (cases "unat (HandlePack_index h) = i") (auto simp: GetObjectImpl_Some_iff FreeEntry_def)
  then show ?thesis by (metis not_None_eq)
qed

section \<open>Reserve, Add and Remove\<close>

lemma encoded_index:
  assumes "i < MaxTableSize" "unat lid < 2 ^ 15"
  shows "unat (HandlePack_index (EncodeHandle (word_of_nat i) lid)) = i"
    "HandlePack_linear_id (EncodeHandle (word_of_nat i) lid) = ucast lid"
    "HandlePack_reserved (EncodeHandle (word_of_nat i) lid) = 0"
proof -
  have i: "unat (word_of_nat i :: u16) = i"
    using assms(1) by (simp add: ht_const_defs unsigned_of_nat take_bit_nat_eq_self)
  then have "unat (word_of_nat i :: u16) < 2 ^ 15" using assms(1) by (simp add: ht_const_defs)
  note E = EncodeHandle_fields [OF this assms(2)]
  show "unat (HandlePack_index (EncodeHandle (word_of_nat i) lid)) = i"
    unfolding E(1) by (simp add: unat_ucast_up i)
  show "HandlePack_linear_id (EncodeHandle (word_of_nat i) lid) = ucast lid"
    "HandlePack_reserved (EncodeHandle (word_of_nat i) lid) = 0" by (fact E(2,3))+
qed

lemma Reserve_reserved:
  assumes wf: "ht_wf t" and R: "Reserve t = (Inr h, t')"
  shows "ht_wf t'" "is_reserved h t'" "m_objects t' = m_objects t"
    "GetObjectImpl t' = GetObjectImpl t" "m_table_size t' = m_table_size t" "m_calls t' = m_calls t"
    "HandlePack_linear_id h = ucast (m_next_linear_id t)" "GetObjectImpl t h = None"
proof -
  have room: "m_count t < m_table_size t" using R by (simp add: Reserve_def split: if_splits)
  obtain i fl where A: "free_list t = i # fl" "i < unat (m_table_size t)" "i < MaxTableSize"
    "m_objects t ! i = None" "h = EncodeHandle (word_of_nat i) (m_next_linear_id t)"
    "ht_wf t'" "free_list t' = fl" "m_objects t' = m_objects t" "m_entry_infos t' = m_entry_infos t"
    "m_table_size t' = m_table_size t" "m_calls t' = m_calls t"
    using Reserve_eq [OF wf room] R by (metis Pair_inject sum.inject(2))
  note L = linear_id_step(4,5) [OF ht_wfD(5,6) [OF wf]]
  note E = encoded_index [OF A(3) L(1)]
  have nz: "ucast (m_next_linear_id t) \<noteq> (0 :: u32)"
    using L(2) by (simp add: word_unat_eq_iff unat_ucast_up)
  have "i \<notin> set fl" using A(1) ht_wfD(9) [OF wf] by simp
  then show "is_reserved h t'"
    using A E nz by (simp add: is_reserved_def)
  show "GetObjectImpl t' = GetObjectImpl t"
    by (rule ext) (simp add: GetObjectImpl_def IsValidHandle_def A Let_def)
  show "HandlePack_linear_id h = ucast (m_next_linear_id t)" using A(5) E(2) by simp
  show "GetObjectImpl t h = None"
    using GetObjectImpl_Some_iff [of t h] A(4,5) E(1) by (metis not_None_eq option.distinct(1))
  show "ht_wf t'" "m_objects t' = m_objects t" "m_table_size t' = m_table_size t"
    "m_calls t' = m_calls t" by (fact A)+
qed

lemma ucast_u16_u32_inverse: "ucast (ucast (w :: u16) :: u32) = w"
  by (rule bit_word_eqI) (simp add: bit_simps)

lemma Add_Reserve_Register:
  assumes wf: "ht_wf t"
  shows "Add ob t = (case Reserve t of (Inl e, t') \<Rightarrow> (Inl e, t') | (Inr h, t') \<Rightarrow> (Inr h, Register h ob t'))"
proof (cases "m_count t < m_table_size t")
  case False
  then show ?thesis by (simp add: Add_def Reserve_def)
next
  case room: True
  obtain i fl where A: "free_list t = i # fl" "m_free_head_index t = int i"
    "i < unat (m_table_size t)" "i < MaxTableSize"
    using free_list_nonempty [OF wf room] by metis
  note L = linear_id_step(4,5) [OF ht_wfD(5,6) [OF wf]]
  note E = encoded_index [OF A(4) L(1)]
  show ?thesis
    using room A(2,3) E
    by (cases t) (simp add: Add_def Reserve_def AllocateEntry_def AllocateLinearId_eq Let_def
        Register_def ucast_less_iff ucast_u16_u32_inverse)
qed

lemma Add_outcome:
  assumes wf: "ht_wf t" and A: "Add ob t = (Inr h, t')"
  shows "ht_wf t'" "GetObjectImpl t h = None" "GetObjectImpl t' = (GetObjectImpl t)(h \<mapsto> ob)"
    "HandlePack_linear_id h = ucast (m_next_linear_id t)"
proof -
  obtain t1 where R: "Reserve t = (Inr h, t1)" and t': "t' = Register h ob t1"
    using A Add_Reserve_Register [OF wf, of ob] by (auto split: prod.splits sum.splits)
  note RR = Reserve_reserved [OF wf R]
  show "ht_wf t'" unfolding t' by (rule Register_wf [OF RR(1,2)])
  show "GetObjectImpl t h = None" by (fact RR(8))
  show "GetObjectImpl t' = (GetObjectImpl t)(h \<mapsto> ob)"
    unfolding t' Register_lookup [OF RR(1,2)] RR(4) ..
  show "HandlePack_linear_id h = ucast (m_next_linear_id t)" by (fact RR(7))
qed

lemma Add_full: "\<not> m_count t < m_table_size t \<Longrightarrow> Add ob t = (Inl ResultOutOfHandles, t)"
  by (simp add: Add_def)

lemma Add_succeeds:
  "m_count t < m_table_size t \<Longrightarrow> \<exists>h t'. Add ob t = (Inr h, t')"
  by (simp add: Add_def split: prod.splits)

lemma pseudo_handle_unresolved:
  assumes "IsPseudoHandle h"
  shows "HandlePack_reserved h \<noteq> 0"
  using assms
  by (auto simp: IsPseudoHandle_def PseudoHandle_CurrentProcess_def PseudoHandle_CurrentThread_def
      HandlePack_reserved_def ExtractValue_eq take_bit_eq_mask mask_eq_exp_minus_1)

lemma live_not_free:
  "ht_wf t \<Longrightarrow> m_objects t ! i \<noteq> None \<Longrightarrow> i \<notin> set (free_list t)"
  using ht_wfD(10) by fastforce

lemma Remove_None: "GetObjectImpl t h = None \<Longrightarrow> Remove h t = (False, t)"
  by (auto simp: Remove_def GetObjectImpl_def Let_def split: if_splits option.splits)

lemma Remove_Some:
  assumes g: "GetObjectImpl t h = Some ob"
  shows "Remove h t = (True, (FreeEntry (unat (HandlePack_index h)) t)
    \<lparr> m_calls := Close ob # UnregisterInUseObject ob # m_calls t \<rparr>)"
  using g pseudo_handle_unresolved [of h] GetObjectImpl_Some_iff [THEN iffD1, OF g]
  by (auto simp: Remove_def GetObjectImpl_def Let_def FreeEntry_def split: if_splits)

lemma wf_calls_irrelevant:
  "ht_wf (t\<lparr> m_calls := c \<rparr>) = ht_wf t" "GetObjectImpl (t\<lparr> m_calls := c \<rparr>) = GetObjectImpl t"
  "free_list (t\<lparr> m_calls := c \<rparr>) = free_list t"
  by (simp_all add: ht_wf_def free_list_def GetObjectImpl_def IsValidHandle_def fun_eq_iff Let_def)

lemma Remove_outcome:
  assumes wf: "ht_wf t" and R: "Remove h t = (b, t')"
  shows "ht_wf t'" "b = (GetObjectImpl t h \<noteq> None)" "GetObjectImpl t' = (GetObjectImpl t)(h := None)"
proof -
  have "ht_wf t' \<and> b = (GetObjectImpl t h \<noteq> None) \<and> GetObjectImpl t' = (GetObjectImpl t)(h := None)"
  proof (cases "GetObjectImpl t h")
    case None
    then show ?thesis using R wf by (simp add: Remove_None fun_upd_idem)
  next
    case (Some ob)
    note G = GetObjectImpl_Some_iff [THEN iffD1, OF Some]
    let ?i = "unat (HandlePack_index h)"
    have i: "?i < unat (m_table_size t)" "?i \<notin> set (free_list t)"
      using G live_not_free [OF wf] by auto
    have same: "GetObjectImpl t k = None" if "unat (HandlePack_index k) = ?i" "k \<noteq> h" for k
    proof (rule ccontr)
      assume "GetObjectImpl t k \<noteq> None"
      then obtain y where "GetObjectImpl t k = Some y" by blast
      note K = GetObjectImpl_Some_iff [THEN iffD1, OF this]
      have ix: "HandlePack_index k = HandlePack_index h" using that(1) by (simp add: word_unat_eq_iff)
      have "k = h"
        by (rule handle_eqI [OF ix]) (use K G in \<open>simp_all add: ix\<close>)
      with that(2) show False ..
    qed
    have "GetObjectImpl (FreeEntry ?i t) = (GetObjectImpl t)(h := None)"
    proof
      fix k
      show "GetObjectImpl (FreeEntry ?i t) k = ((GetObjectImpl t)(h := None)) k"
        using same [of k] by (cases "k = h") (simp_all add: FreeEntry_lookup [OF wf i(1)])
    qed
    then show ?thesis
      using R Some FreeEntry_wf [OF wf i] by (auto simp: Remove_Some wf_calls_irrelevant)
  qed
  then show "ht_wf t'" "b = (GetObjectImpl t h \<noteq> None)"
    "GetObjectImpl t' = (GetObjectImpl t)(h := None)" by blast+
qed

section \<open>Initialisation\<close>

lemma Initialize_loop_frame:
  "m_table_size (Initialize_loop k i t) = m_table_size t"
  "m_max_count (Initialize_loop k i t) = m_max_count t"
  "m_count (Initialize_loop k i t) = m_count t"
  "m_next_linear_id (Initialize_loop k i t) = m_next_linear_id t"
  "m_calls (Initialize_loop k i t) = m_calls t"
  "length (m_objects (Initialize_loop k i t)) = length (m_objects t)"
  "length (m_entry_infos (Initialize_loop k i t)) = length (m_entry_infos t)"
  by (induction k arbitrary: i t) simp_all

lemma Initialize_loop_chain:
  assumes "i + k \<le> MaxTableSize" "length (m_objects t) = MaxTableSize"
    "length (m_entry_infos t) = MaxTableSize"
    "free_chain (m_entry_infos t) (m_free_head_index t) (rev [0..<i])"
    "\<And>j. j < i \<Longrightarrow> m_objects t ! j = None" "m_free_head_index t = int i - 1"
  shows "free_chain (m_entry_infos (Initialize_loop k i t))
           (m_free_head_index (Initialize_loop k i t)) (rev [0..<i + k]) \<and>
         (\<forall>j < i + k. m_objects (Initialize_loop k i t) ! j = None)"
  using assms
proof (induction k arbitrary: i t)
  case 0
  then show ?case by simp
next
  case (Suc k)
  let ?t = "t\<lparr> m_objects := (m_objects t)[i := None],
          m_entry_infos := (m_entry_infos t)[i := word_of_int (int i - 1)],
          m_free_head_index := int i \<rparr>"
  have i: "i < MaxTableSize" using Suc.prems(1) by simp
  have si: "GetNextFreeIndex (word_of_int (int i - 1)) = int i - 1"
  proof (cases i)
    case 0
    then show ?thesis by (simp add: GetNextFreeIndex_def)
  next
    case (Suc j)
    then show ?thesis using i sint_of_nat_small [of j, where 'a = 16]
      by (simp add: GetNextFreeIndex_def ht_const_defs)
  qed
  have "free_chain (m_entry_infos (Initialize_loop k (Suc i) ?t))
           (m_free_head_index (Initialize_loop k (Suc i) ?t)) (rev [0..<Suc i + k]) \<and>
         (\<forall>j < Suc i + k. m_objects (Initialize_loop k (Suc i) ?t) ! j = None)"
  proof (rule Suc.IH)
    show "free_chain (m_entry_infos ?t) (m_free_head_index ?t) (rev [0..<Suc i])"
      using Suc.prems i si by (simp add: free_chain_update)
    show "m_objects ?t ! j = None" if "j < Suc i" for j
      using that i Suc.prems(2,5) by (cases "j = i") auto
  qed (use Suc.prems in simp_all)
  then show ?case by simp
qed

lemma Initialize_loop_wf:
  assumes len: "length (m_objects t) = MaxTableSize" "length (m_entry_infos t) = MaxTableSize"
    and k: "k \<le> MaxTableSize" "unat (m_table_size t) = k" and c: "m_count t = 0"
    and n: "m_next_linear_id t = MinLinearId" and h: "m_free_head_index t = -1"
  defines "t' \<equiv> Initialize_loop k 0 t"
  shows "ht_wf t'" "GetObjectImpl t' = Map.empty" "\<forall>j < k. m_objects t' ! j = None"
proof -
  have "free_chain (m_entry_infos t') (m_free_head_index t') (rev [0..<0 + k]) \<and>
      (\<forall>j < 0 + k. m_objects t' ! j = None)"
    unfolding t'_def by (rule Initialize_loop_chain) (use k len h in simp_all)
  then have C: "free_chain (m_entry_infos t') (m_free_head_index t') (rev [0..<k])"
    "\<forall>j < k. m_objects t' ! j = None" by simp_all
  note f = Initialize_loop_frame [of k 0 t, folded t'_def]
  show "ht_wf t'"
    by (rule ht_wfI [where fl = "rev [0..<k]"])
       (use C k len c n in \<open>simp_all add: f ht_const_defs\<close>)
  show "\<forall>j < k. m_objects t' ! j = None" by (fact C(2))
  show "GetObjectImpl t' = Map.empty"
  proof
    fix hh
    show "GetObjectImpl t' hh = None"
    proof (rule ccontr)
      assume "GetObjectImpl t' hh \<noteq> None"
      then obtain ob where "GetObjectImpl t' hh = Some ob" by blast
      from GetObjectImpl_Some_iff [THEN iffD1, OF this] C(2) k f(1) show False by auto
    qed
  qed
qed

definition init_size :: "int \<Rightarrow> nat" where
  "init_size n = (if n \<le> 0 then MaxTableSize else nat n)"

lemma Initialize_outcome:
  assumes len: "length (m_objects t) = MaxTableSize" "length (m_entry_infos t) = MaxTableSize"
    and le: "n \<le> int MaxTableSize"
  obtains t' where "Initialize n t = (ResultSuccess, t')" "ht_wf t'" "GetObjectImpl t' = Map.empty"
    "unat (m_table_size t') = init_size n" "m_count t' = 0" "m_calls t' = m_calls t"
    "\<forall>j < unat (m_table_size t'). m_objects t' ! j = None"
proof -
  let ?ts = "word_of_int (if n \<le> 0 then int MaxTableSize else n) :: u16"
  define t1 where "t1 = t\<lparr> m_max_count := 0, m_table_size := ?ts, m_next_linear_id := MinLinearId,
                   m_count := 0, m_free_head_index := -1 \<rparr>"
  have k: "init_size n \<le> MaxTableSize" using le by (auto simp: init_size_def)
  have "?ts = word_of_nat (init_size n)" by (auto simp: init_size_def)
  then have ts: "unat ?ts = init_size n"
    using k by (simp add: unsigned_of_nat take_bit_nat_eq_self ht_const_defs del: word_of_nat_eq_0_iff)
  have ts1: "unat (m_table_size t1) = init_size n" using ts by (simp add: t1_def)
  have I: "Initialize n t = (ResultSuccess, Initialize_loop (init_size n) 0 t1)"
    using le ts1 by (simp only: Initialize_def Let_def t1_def [symmetric]) simp
  note W = Initialize_loop_wf [of t1, OF _ _ k ts1]
  show ?thesis
  proof (rule that [OF I])
    show "ht_wf (Initialize_loop (init_size n) 0 t1)" by (rule W(1)) (simp_all add: t1_def len)
    show "GetObjectImpl (Initialize_loop (init_size n) 0 t1) = Map.empty"
      by (rule W(2)) (simp_all add: t1_def len)
    have "\<forall>j < init_size n. m_objects (Initialize_loop (init_size n) 0 t1) ! j = None"
      by (rule W(3)) (simp_all add: t1_def len)
    then show "\<forall>j < unat (m_table_size (Initialize_loop (init_size n) 0 t1)).
        m_objects (Initialize_loop (init_size n) 0 t1) ! j = None"
      by (simp only: Initialize_loop_frame ts1)
  qed (simp_all only: Initialize_loop_frame ts1, simp_all add: t1_def)
qed

section \<open>The interface of the table\<close>

text \<open>
  What the kernel's system calls rely on: a finite map from handles to objects. The
  contract is stated on any table; the handle table is interpreted below.
\<close>

locale object_table =
  fixes invar :: "'t \<Rightarrow> bool"
    and lookup :: "'t \<Rightarrow> 'h \<Rightarrow> 'o option"
    and add :: "'o \<Rightarrow> 't \<Rightarrow> ('e + 'h) \<times> 't"
    and remove :: "'h \<Rightarrow> 't \<Rightarrow> bool \<times> 't"
  assumes add_ok: "invar t \<Longrightarrow> add x t = (Inr h, t') \<Longrightarrow>
      invar t' \<and> lookup t h = None \<and> lookup t' = (lookup t)(h \<mapsto> x)"
    and add_error: "add x t = (Inl e, t') \<Longrightarrow> t' = t"
    and remove_ok: "invar t \<Longrightarrow> remove h t = (b, t') \<Longrightarrow>
      invar t' \<and> b = (lookup t h \<noteq> None) \<and> lookup t' = (lookup t)(h := None)"
begin

lemma add_then_remove:
  assumes "invar t" "add x t = (Inr h, t1)" "remove h t1 = (b, t2)"
  shows "b \<and> invar t2 \<and> lookup t2 = lookup t"
proof -
  from add_ok [OF assms(1,2)] have A: "invar t1" "lookup t h = None" "lookup t1 = (lookup t)(h \<mapsto> x)"
    by auto
  from remove_ok [OF A(1) assms(3)] A(2,3) show ?thesis by (auto simp: fun_upd_idem)
qed

lemma two_adds_distinct:
  assumes "invar t" "add x t = (Inr h, t1)" "add y t1 = (Inr k, t2)"
  shows "h \<noteq> k \<and> lookup t2 h = Some x \<and> lookup t2 k = Some y"
proof -
  from add_ok [OF assms(1,2)] have A: "invar t1" "lookup t1 h = Some x" by auto
  from add_ok [OF A(1) assms(3)] have "lookup t1 k = None" "lookup t2 = (lookup t1)(k \<mapsto> y)"
    by auto
  with A(2) show ?thesis by auto
qed

lemma double_remove_fails:
  assumes "invar t" "remove h t = (b, t1)" "remove h t1 = (c, t2)"
  shows "\<not> c \<and> lookup t2 = lookup t1"
proof -
  from remove_ok [OF assms(1,2)] have A: "invar t1" "lookup t1 h = None" by auto
  from remove_ok [OF A(1) assms(3)] A(2) show ?thesis by (auto simp: fun_upd_idem)
qed

end

interpretation handles: object_table ht_wf GetObjectImpl Add Remove
proof unfold_locales
  fix t t' :: "'a khandle_table" and x h e b
  show "ht_wf t' \<and> GetObjectImpl t h = None \<and> GetObjectImpl t' = (GetObjectImpl t)(h \<mapsto> x)"
    if "ht_wf t" "Add x t = (Inr h, t')"
    using Add_outcome [OF that] by blast
  show "t' = t" if "Add x t = (Inl e, t')"
    using that by (simp add: Add_def split: if_splits prod.splits)
  show "ht_wf t' \<and> b = (GetObjectImpl t h \<noteq> None) \<and> GetObjectImpl t' = (GetObjectImpl t)(h := None)"
    if "ht_wf t" "Remove h t = (b, t')"
    using Remove_outcome [OF that] by blast
qed

section \<open>Serial numbers and stale handles\<close>

datatype 'o table_op = OpAdd 'o | OpRemove Handle | OpReserve

primrec exec_op :: "'o table_op \<Rightarrow> 'o khandle_table \<Rightarrow> 'o khandle_table" where
  "exec_op (OpAdd ob) t = snd (Add ob t)"
| "exec_op (OpRemove h) t = snd (Remove h t)"
| "exec_op OpReserve t = snd (Reserve t)"

primrec run_ops :: "'o table_op list \<Rightarrow> 'o khandle_table \<Rightarrow> 'o khandle_table" where
  "run_ops [] t = t"
| "run_ops (c # cs) t = run_ops cs (exec_op c t)"

primrec allocs :: "'o table_op list \<Rightarrow> nat" where
  "allocs [] = 0"
| "allocs (c # cs) = (case c of OpRemove h \<Rightarrow> 0 | _ \<Rightarrow> 1) + allocs cs"

text \<open>How many serial numbers ago the handle's own serial number was given out.\<close>

definition serial_distance :: "Handle \<Rightarrow> 'o khandle_table \<Rightarrow> nat" where
  "serial_distance h t =
     (unat (m_next_linear_id t) + 32767 - unat (HandlePack_linear_id h)) mod 32767"

lemma run_ops_append: "run_ops (cs @ ds) t = run_ops ds (run_ops cs t)"
  by (induction cs arbitrary: t) simp_all

lemma allocs_append: "allocs (cs @ ds) = allocs cs + allocs ds"
  by (induction cs) simp_all

lemma exec_op_wf: "ht_wf t \<Longrightarrow> ht_wf (exec_op c t)"
proof (cases c)
  case (OpAdd x)
  assume wf: "ht_wf t"
  obtain r t' where A: "Add x t = (r, t')" by (cases "Add x t")
  then show ?thesis
    using wf OpAdd handles.add_error [of x t _ t'] handles.add_ok [OF wf, of x _ t'] by (cases r) auto
next
  case (OpRemove h)
  assume wf: "ht_wf t"
  obtain b t' where "Remove h t = (b, t')" by (cases "Remove h t")
  then show ?thesis using OpRemove handles.remove_ok [OF wf] by auto
next
  case OpReserve
  assume wf: "ht_wf t"
  obtain r t' where R: "Reserve t = (r, t')" by (cases "Reserve t")
  then show ?thesis
    using wf OpReserve Reserve_reserved(1) [OF wf] by (cases r) (auto simp: Reserve_def split: if_splits prod.splits)
qed

lemma next_linear_id_step:
  "m_next_linear_id (exec_op c t) \<in> {m_next_linear_id t,
     (if m_next_linear_id t + 1 > MaxLinearId then MinLinearId else m_next_linear_id t + 1)}"
  "c = OpRemove h \<Longrightarrow> m_next_linear_id (exec_op c t) = m_next_linear_id t"
  by (cases c; auto simp: Add_def Reserve_def Remove_def AllocateEntry_def AllocateLinearId_eq
      FreeEntry_def Let_def split: prod.splits option.splits)+

lemma serial_step:
  assumes "1 \<le> unat n" "unat n \<le> 32767" "1 \<le> l" "l \<le> (32767 :: nat)"
  defines "n' \<equiv> (if n + 1 > MaxLinearId then MinLinearId else n + 1)"
  shows "(unat n' + 32767 - l) mod 32767 = Suc ((unat n + 32767 - l) mod 32767) mod 32767"
proof (cases "unat n = 32767")
  case True
  then have "n = 0x7FFF" by (simp add: word_unat_eq_iff)
  then have "unat n' = 1" by (simp add: n'_def ht_const_defs)
  have "(1 + 32767 - l) mod 32767 = Suc ((32767 - l) mod 32767 + 0) mod 32767"
  proof -
    have "1 + 32767 - l = Suc (32767 - l)" using assms(4) by linarith
    then show ?thesis by (simp only: mod_Suc_eq add_0_right)
  qed
  moreover have "(32767 + 32767 - l) mod 32767 = (32767 - l) mod 32767"
    using assms(3,4) by (metis Nat.add_diff_assoc mod_add_self1)
  ultimately show ?thesis using True \<open>unat n' = 1\<close> by simp
next
  case False
  then have lt: "unat n < 32767" using assms(2) by simp
  have "unat (n + 1) = unat n + 1" using lt by (intro unat_inc) simp
  then have "unat n' = Suc (unat n)" using lt by (simp add: n'_def ht_const_defs word_less_nat_alt)
  then have "unat n' + 32767 - l = Suc (unat n + 32767 - l)" using assms(4) by linarith
  then show ?thesis by (simp only: mod_Suc_eq)
qed


lemma serial_distance_step:
  assumes wf: "ht_wf t" and l: "HandlePack_linear_id h \<noteq> 0"
  shows "serial_distance h (exec_op c t) \<in>
    {serial_distance h t, Suc (serial_distance h t) mod 32767}"
    "c = OpRemove k \<Longrightarrow> serial_distance h (exec_op c t) = serial_distance h t"
proof -
  have n: "1 \<le> unat (m_next_linear_id t)" "unat (m_next_linear_id t) \<le> 32767"
    using ht_wfD(5,6) [OF wf] by (simp_all add: ht_const_defs word_le_nat_alt)
  have "unat (HandlePack_linear_id h) < 2 ^ 15"
    unfolding HandlePack_linear_id_def by (rule unat_ExtractValue_less)
  with l have l': "1 \<le> unat (HandlePack_linear_id h)" "unat (HandlePack_linear_id h) \<le> 32767"
    by (simp_all add: Suc_le_eq unat_gt_0)
  show "serial_distance h (exec_op c t) \<in> {serial_distance h t, Suc (serial_distance h t) mod 32767}"
    using next_linear_id_step(1) [of c t] serial_step [OF n l'] by (auto simp: serial_distance_def)
  show "c = OpRemove k \<Longrightarrow> serial_distance h (exec_op c t) = serial_distance h t"
    using next_linear_id_step(2) [of c k t] by (simp add: serial_distance_def)
qed

lemma exec_op_keeps_unresolved:
  assumes wf: "ht_wf t" and n: "GetObjectImpl t h = None"
    and d: "serial_distance h t \<noteq> 0 \<or> (\<exists>k. c = OpRemove k)"
  shows "GetObjectImpl (exec_op c t) h = None"
proof (cases c)
  case (OpAdd x)
  obtain r t' where A: "Add x t = (r, t')" by (cases "Add x t")
  show ?thesis
  proof (cases r)
    case (Inl e)
    then show ?thesis using A OpAdd n handles.add_error [of x t e t'] by simp
  next
    case (Inr k)
    have "HandlePack_linear_id k = ucast (m_next_linear_id t)"
      using Add_outcome(4) [OF wf] A Inr by simp
    moreover have "unat (HandlePack_linear_id h) \<noteq> unat (m_next_linear_id t)"
      using d OpAdd by (auto simp: serial_distance_def)
    ultimately have "k \<noteq> h" by (auto simp: unat_ucast_up)
    then show ?thesis using A Inr OpAdd n handles.add_ok [OF wf, of x k t'] by simp
  qed
next
  case (OpRemove k)
  obtain b t' where "Remove k t = (b, t')" by (cases "Remove k t")
  then show ?thesis using OpRemove n handles.remove_ok [OF wf, of k b t'] by simp
next
  case OpReserve
  obtain r t' where R: "Reserve t = (r, t')" by (cases "Reserve t")
  show ?thesis
  proof (cases r)
    case (Inl e)
    then show ?thesis using R OpReserve n by (auto simp: Reserve_def split: if_splits prod.splits)
  next
    case (Inr k)
    then show ?thesis using R OpReserve n Reserve_reserved(4) [OF wf, of k t'] by simp
  qed
qed

lemma run_ops_keeps_unresolved:
  assumes "ht_wf t" "GetObjectImpl t h = None" "HandlePack_linear_id h \<noteq> 0"
    "allocs cs > 0 \<longrightarrow> 0 < serial_distance h t \<and> serial_distance h t + allocs cs \<le> 32767"
  shows "GetObjectImpl (run_ops cs t) h = None"
  using assms
proof (induction cs arbitrary: t)
  case Nil
  then show ?case by simp
next
  case (Cons c cs)
  note S = serial_distance_step [OF Cons.prems(1,3), of c]
  have n: "GetObjectImpl (exec_op c t) h = None"
    using Cons.prems by (intro exec_op_keeps_unresolved) (cases c; auto)+
  have "allocs cs > 0 \<longrightarrow> 0 < serial_distance h (exec_op c t) \<and>
      serial_distance h (exec_op c t) + allocs cs \<le> 32767"
  proof (cases "\<exists>k. c = OpRemove k")
    case True
    then obtain k where "c = OpRemove k" by blast
    with S(2) Cons.prems(4) show ?thesis by auto
  next
    case False
    with Cons.prems(4) have "allocs cs > 0 \<longrightarrow> Suc (serial_distance h t) < 32767 \<and>
        Suc (serial_distance h t) + allocs cs \<le> 32767 \<and> 0 < serial_distance h t"
      by (cases c) auto
    with S(1) show ?thesis by auto
  qed
  with Cons.IH [OF exec_op_wf [OF Cons.prems(1)] n Cons.prems(3)] show ?case by simp
qed

lemma run_ops_distance:
  assumes "ht_wf t" "HandlePack_linear_id h \<noteq> 0" "serial_distance h t + allocs cs \<le> 32766"
  shows "ht_wf (run_ops cs t) \<and> serial_distance h (run_ops cs t) \<le> serial_distance h t + allocs cs
    \<and> serial_distance h t \<le> serial_distance h (run_ops cs t)"
  using assms
proof (induction cs arbitrary: t)
  case Nil
  then show ?case by simp
next
  case (Cons c cs)
  note S = serial_distance_step [OF Cons.prems(1,2), of c]
  have b: "serial_distance h t \<le> serial_distance h (exec_op c t)"
    "serial_distance h (exec_op c t) + allocs cs \<le> serial_distance h t + allocs (c # cs)"
  proof -
    consider k where "c = OpRemove k" | "\<nexists>k. c = OpRemove k" by blast
    then have "serial_distance h t \<le> serial_distance h (exec_op c t) \<and>
      serial_distance h (exec_op c t) + allocs cs \<le> serial_distance h t + allocs (c # cs)"
    proof cases
      case (1 k)
      then show ?thesis using S(2) by simp
    next
      case 2
      then have "Suc (serial_distance h t) < 32767" "allocs (c # cs) = Suc (allocs cs)"
        using Cons.prems(3) by (cases c; auto)+
      with S(1) show ?thesis by auto
    qed
    then show "serial_distance h t \<le> serial_distance h (exec_op c t)"
      "serial_distance h (exec_op c t) + allocs cs \<le> serial_distance h t + allocs (c # cs)" by blast+
  qed
  have "ht_wf (run_ops cs (exec_op c t)) \<and>
      serial_distance h (run_ops cs (exec_op c t)) \<le> serial_distance h (exec_op c t) + allocs cs \<and>
      serial_distance h (exec_op c t) \<le> serial_distance h (run_ops cs (exec_op c t))"
    using Cons.prems(2,3) b(2) by (intro Cons.IH exec_op_wf Cons.prems(1)) auto
  then show ?case using b unfolding run_ops.simps by linarith
qed

section \<open>Reference counting\<close>

definition refs_balanced :: "'o khandle_table \<Rightarrow> bool" where
  "refs_balanced t \<longleftrightarrow> (\<forall>ob. ref_balance t ob = int (live_entries t ob))"

lemma live_entries_update:
  assumes "i < unat (m_table_size t)" "length (m_objects t) = MaxTableSize"
    "unat (m_table_size t) \<le> MaxTableSize"
  shows "count_list (take (unat (m_table_size t)) ((m_objects t)[i := y])) (Some ob) =
     live_entries t ob - (if m_objects t ! i = Some ob then 1 else 0) + (if y = Some ob then 1 else 0)"
proof -
  have "take (unat (m_table_size t)) ((m_objects t)[i := y]) =
      (take (unat (m_table_size t)) (m_objects t))[i := y]"
    by (simp add: take_update_swap)
  then show ?thesis
    using assms by (simp add: live_entries_def count_list_update)
qed

lemma live_entry_pos:
  assumes "i < unat (m_table_size t)" "length (m_objects t) = MaxTableSize"
    "unat (m_table_size t) \<le> MaxTableSize" "m_objects t ! i = Some ob"
  shows "0 < live_entries t ob"
  unfolding live_entries_def using assms by (intro nth_in_count [of i]) simp_all

lemma Register_balanced:
  assumes wf: "ht_wf t" and res: "is_reserved h t" and b: "refs_balanced t"
  shows "refs_balanced (Register h ob t)"
proof -
  note D = ht_wfD(2,3) [OF wf]
  have R: "unat (HandlePack_index h) < unat (m_table_size t)"
    "m_objects t ! unat (HandlePack_index h) = None"
    using res by (auto simp: is_reserved_def)
  show ?thesis
    using b R live_entries_update [OF R(1) D]
    by (auto simp: refs_balanced_def ref_balance_def Register_def Let_def ucast_less_iff
        live_entries_def)
qed

lemma Add_balanced:
  assumes wf: "ht_wf t" and b: "refs_balanced t"
  shows "refs_balanced (snd (Add ob t))"
proof -
  obtain r t1 where R: "Reserve t = (r, t1)" by (cases "Reserve t")
  show ?thesis
  proof (cases r)
    case (Inl e)
    then have "t1 = t" using R by (auto simp: Reserve_def split: if_splits prod.splits)
    then show ?thesis using R Inl b by (simp add: Add_Reserve_Register [OF wf])
  next
    case (Inr h)
    note RR = Reserve_reserved [OF wf R [unfolded Inr]]
    have "refs_balanced t1"
      using b RR(3,5,6) by (simp add: refs_balanced_def ref_balance_def live_entries_def)
    then show ?thesis
      using R Inr Register_balanced [OF RR(1,2)] by (simp add: Add_Reserve_Register [OF wf])
  qed
qed

lemma Remove_balanced:
  assumes wf: "ht_wf t" and b: "refs_balanced t"
  shows "refs_balanced (snd (Remove h t))"
proof (cases "GetObjectImpl t h")
  case None
  then show ?thesis using b by (simp add: Remove_None)
next
  case (Some ob)
  note D = ht_wfD(2,3) [OF wf]
  note G = GetObjectImpl_Some_iff [THEN iffD1, OF Some]
  let ?i = "unat (HandlePack_index h)"
  have G: "?i < unat (m_table_size t)" "m_objects t ! ?i = Some ob" using G by auto
  show ?thesis
    using b G live_entries_update [OF G(1) D, of None] live_entry_pos [OF G(1) D G(2)]
    by (auto simp: Remove_Some [OF Some] refs_balanced_def ref_balance_def FreeEntry_def
        live_entries_def)
qed

lemma Finalize_loop_calls:
  "m_calls (Finalize_loop k i t) = rev (map Close (List.map_filter (\<lambda>j. m_objects t ! j) [i..<i + k])) @ m_calls t"
proof (induction k arbitrary: i t)
  case 0
  then show ?case by (simp add: map_filter_simps)
next
  case (Suc k)
  have "[i..<i + Suc k] = i # [Suc i..<Suc i + k]" by (simp add: upt_conv_Cons)
  then show ?case
    using Suc.IH by (cases "m_objects t ! i") (simp_all add: map_filter_simps)
qed

lemma Finalize_loop_frame:
  "m_table_size (Finalize_loop k i t) = m_table_size t" "m_objects (Finalize_loop k i t) = m_objects t"
  by (induction k arbitrary: i t) (auto split: option.splits)

lemma count_closes:
  "count_list (map Close (List.map_filter (\<lambda>j. xs ! j) [0..<n])) (Close ob) = count_list (take n xs) (Some ob)"
  "count_list (map Close (List.map_filter (\<lambda>j. xs ! j) [0..<n])) (Open ob) = 0"
  if "n \<le> length xs"
proof -
  have t: "map (\<lambda>j. xs ! j) [0..<n] = take n xs" using that by (intro nth_equalityI) simp_all
  have f: "List.map_filter (\<lambda>j. xs ! j) js = List.map_filter (\<lambda>x. x) (map (\<lambda>j. xs ! j) js)" for js
    by (induction js) (auto simp: map_filter_simps split: option.splits)
  have c: "count_list (map Close (List.map_filter (\<lambda>x. x) ys)) (Close ob) = count_list ys (Some ob)" for ys
    by (induction ys) (auto simp: map_filter_simps split: option.splits)
  have z: "count_list (map Close ys) (Open ob) = 0" for ys :: "'a list"
    by (induction ys) auto
  show "count_list (map Close (List.map_filter (\<lambda>j. xs ! j) [0..<n])) (Close ob) = count_list (take n xs) (Some ob)"
    unfolding f t by (rule c)
  show "count_list (map Close (List.map_filter (\<lambda>j. xs ! j) [0..<n])) (Open ob) = 0"
    by (rule z)
qed

lemma Finalize_balanced:
  assumes wf: "ht_wf t" and b: "refs_balanced t" and F: "Finalize t = (r, t')"
  shows "ref_balance t' ob = 0 \<and> m_table_size t' = 0 \<and> live_entries t' ob = 0"
proof -
  note D = ht_wfD(2,3) [OF wf]
  have t': "t' = Finalize_loop (unat (m_table_size t)) 0 (t\<lparr> m_table_size := 0 \<rparr>)"
    using F by (simp add: Finalize_def Let_def)
  show ?thesis
    using b [unfolded refs_balanced_def, THEN spec, of ob]
      count_closes [of "unat (m_table_size t)" "m_objects t" ob] D
    by (simp add: t' ref_balance_def Finalize_loop_calls Finalize_loop_frame live_entries_def)
qed

section \<open>Properties\<close>

lemma ctor_lengths:
  "length (m_objects KHandleTable_ctor) = MaxTableSize"
  "length (m_entry_infos KHandleTable_ctor) = MaxTableSize"
  by (simp_all add: KHandleTable_ctor_def)

lemma Initialize_unique_outcome:
  assumes "Initialize n KHandleTable_ctor = (ResultSuccess, t)"
  shows "ht_wf t" "GetObjectImpl t = Map.empty" "refs_balanced t" "m_count t = 0"
    "unat (m_table_size t) = init_size n"
proof -
  have "n \<le> int MaxTableSize" using assms by (simp add: Initialize_def split: if_splits)
  from Initialize_outcome [OF ctor_lengths this] obtain t' where
    T: "Initialize n KHandleTable_ctor = (ResultSuccess, t' :: 'a khandle_table)" "ht_wf t'"
    "GetObjectImpl t' = Map.empty" "unat (m_table_size t') = init_size n" "m_count t' = 0"
    "m_calls t' = m_calls KHandleTable_ctor" "\<forall>j < unat (m_table_size t'). m_objects t' ! j = None"
    by blast
  have tt: "t = t'" using assms T(1) by simp
  show "ht_wf t" "GetObjectImpl t = Map.empty" "m_count t = 0"
    "unat (m_table_size t) = init_size n" using tt T(2-5) by auto
  have "live_entries t' ob = 0" for ob
    unfolding live_entries_def count_list_0_iff using T(7) by (auto simp: in_set_conv_nth)
  then show "refs_balanced t"
    using tt T(6) by (simp add: refs_balanced_def ref_balance_def KHandleTable_ctor_def)
qed

lemma run_ops_balanced: "ht_wf t \<Longrightarrow> refs_balanced t \<Longrightarrow> ht_wf (run_ops cs t) \<and> refs_balanced (run_ops cs t)"
proof (induction cs arbitrary: t)
  case Nil
  then show ?case by simp
next
  case (Cons c cs)
  have "refs_balanced (exec_op c t)"
  proof (cases c)
    case OpReserve
    obtain r t' where R: "Reserve t = (r, t')" by (cases "Reserve t")
    show ?thesis
    proof (cases r)
      case (Inl e)
      then show ?thesis using R OpReserve Cons.prems(2)
        by (auto simp: Reserve_def split: if_splits prod.splits)
    next
      case (Inr h)
      note RR = Reserve_reserved(3,5,6) [OF Cons.prems(1) R [unfolded Inr]]
      show ?thesis using R OpReserve Cons.prems(2) RR
        by (simp add: refs_balanced_def ref_balance_def live_entries_def)
    qed
  qed (use Cons.prems Add_balanced Remove_balanced in auto)
  with Cons.IH [OF exec_op_wf [OF Cons.prems(1)]] show ?case by simp
qed

definition small_table :: "nat khandle_table" where
  "small_table = snd (Initialize 2 KHandleTable_ctor)"

lemma small_table_init: "Initialize 2 KHandleTable_ctor = (ResultSuccess, small_table)"
  by (subst prod.collapse [symmetric], rule arg_cong2 [where f = Pair])
     (code_simp, simp add: small_table_def)

lemma small_table_wf: "ht_wf small_table"
  by (rule Initialize_unique_outcome(1) [OF small_table_init])

text \<open>
  Property C1. The handle table implements a finite map from handles to objects: on a
  well-formed table \<^verbatim>\<open>Add\<close> either reports \<^verbatim>\<open>ResultOutOfHandles\<close> on a full table and
  changes nothing, or returns a handle that did not resolve before and binds exactly that
  handle to the object; \<^verbatim>\<open>Remove\<close> succeeds exactly on a handle that resolves and unbinds
  exactly that handle. Both keep the table well formed.
\<close>

theorem handle_table_refines_map:
  assumes "ht_wf t"
  shows "(case Add ob t of
           (Inl e, t') \<Rightarrow> e = ResultOutOfHandles \<and> m_count t = m_table_size t \<and> t' = t
         | (Inr h, t') \<Rightarrow> ht_wf t' \<and> GetObjectImpl t h = None \<and>
                          GetObjectImpl t' = (GetObjectImpl t)(h \<mapsto> ob)) \<and>
         (case Remove k t of
           (b, t') \<Rightarrow> ht_wf t' \<and> b = (GetObjectImpl t k \<noteq> None) \<and>
                      GetObjectImpl t' = (GetObjectImpl t)(k := None))"
proof (rule conjI)
  show "case Add ob t of
           (Inl e, t') \<Rightarrow> e = ResultOutOfHandles \<and> m_count t = m_table_size t \<and> t' = t
         | (Inr h, t') \<Rightarrow> ht_wf t' \<and> GetObjectImpl t h = None \<and>
                          GetObjectImpl t' = (GetObjectImpl t)(h \<mapsto> ob)"
  proof (cases "m_count t < m_table_size t")
    case True
    then obtain h t' where "Add ob t = (Inr h, t')" using Add_succeeds [OF True, of ob] by auto
    with handles.add_ok [OF assms] show ?thesis by simp
  next
    case False
    then show ?thesis using ht_wfD(4) [OF assms] by (simp add: Add_full)
  qed
  show "case Remove k t of
           (b, t') \<Rightarrow> ht_wf t' \<and> b = (GetObjectImpl t k \<noteq> None) \<and>
                      GetObjectImpl t' = (GetObjectImpl t)(k := None)"
    using handles.remove_ok [OF assms] by (auto split: prod.splits)
qed

theorem handle_table_refines_map_witness:
  "ht_wf small_table \<and>
   (case Add 7 small_table of
      (Inl e, t') \<Rightarrow> e = ResultOutOfHandles \<and> m_count small_table = m_table_size small_table \<and> t' = small_table
    | (Inr h, t') \<Rightarrow> ht_wf t' \<and> GetObjectImpl small_table h = None \<and>
                     GetObjectImpl t' = (GetObjectImpl small_table)(h \<mapsto> 7)) \<and>
   fst (Add 7 small_table) = Inr 0x8001 \<and> fst (Remove 0x8001 (snd (Add 7 small_table)))"
proof -
  have 1: "fst (Add 7 small_table) = Inr 0x8001" by code_simp
  have 2: "fst (Remove 0x8001 (snd (Add 7 small_table)))" by code_simp
  show ?thesis
    using small_table_wf 1 2
      handle_table_refines_map [OF small_table_wf, where ob = 7 and k = "0x8001", THEN conjunct1]
    by (intro conjI)
qed

text \<open>
  Property C2. Stale handles stay dead: after a handle from \<^verbatim>\<open>Add\<close> is removed, it resolves
  to nothing, through any sequence of \<^verbatim>\<open>Add\<close>, \<^verbatim>\<open>Remove\<close> and \<^verbatim>\<open>Reserve\<close> before and after, as long
  as these hand out fewer than 32766 serial numbers. \<^verbatim>\<open>Register\<close> is not among the operations: a
  caller that registers an object under that very handle makes it resolve.
\<close>

theorem stale_handle_never_resolves:
  assumes wf: "ht_wf t" and A: "Add ob t = (Inr h, t1)"
    and few: "allocs cs + allocs ds < 32766"
  shows "GetObjectImpl (run_ops (cs @ OpRemove h # ds) t1) h = None"
proof -
  note O = Add_outcome [OF wf A]
  have n: "1 \<le> unat (m_next_linear_id t)" "unat (m_next_linear_id t) \<le> 32767"
    using ht_wfD(5,6) [OF wf] by (simp_all add: ht_const_defs word_le_nat_alt)
  have l: "unat (HandlePack_linear_id h) = unat (m_next_linear_id t)"
    using O(4) by (simp add: unat_ucast_up)
  then have l0: "HandlePack_linear_id h \<noteq> 0" using n by auto
  have d0: "serial_distance h t = 0" by (simp add: serial_distance_def l)
  have room: "m_count t < m_table_size t" using A by (simp add: Add_def split: if_splits)
  have "m_next_linear_id t1 =
     (if m_next_linear_id t + 1 > MaxLinearId then MinLinearId else m_next_linear_id t + 1)"
    using A room by (auto simp: Add_def AllocateEntry_def AllocateLinearId_eq Let_def)
  then have d1: "serial_distance h t1 = 1"
    using serial_step [OF n n] by (simp add: serial_distance_def l)
  let ?u = "run_ops cs t1"
  have U: "ht_wf ?u" "1 \<le> serial_distance h ?u" "serial_distance h ?u \<le> 1 + allocs cs"
    using run_ops_distance [OF O(1) l0, of cs] d1 few by auto
  let ?v = "exec_op (OpRemove h) ?u"
  obtain b v where R: "Remove h ?u = (b, v)" by (cases "Remove h ?u")
  have V: "ht_wf ?v" "GetObjectImpl ?v h = None"
    using R handles.remove_ok [OF U(1) R] by auto
  have dv: "serial_distance h ?v = serial_distance h ?u"
    by (rule serial_distance_step(2) [OF U(1) l0]) simp
  have "GetObjectImpl (run_ops ds ?v) h = None"
    by (rule run_ops_keeps_unresolved [OF V l0]) (use dv U few in auto)
  then show ?thesis by (simp add: run_ops_append)
qed

theorem stale_handle_never_resolves_witness:
  "ht_wf small_table \<and> Add 7 small_table = (Inr 0x8001, snd (Add 7 small_table)) \<and>
   GetObjectImpl (run_ops ([OpAdd 8] @ OpRemove 0x8001 # [OpAdd 9]) (snd (Add 7 small_table))) 0x8001 = None"
proof -
  have A: "Add 7 small_table = (Inr 0x8001, snd (Add 7 small_table))"
    by (subst prod.collapse [symmetric], rule arg_cong2 [where f = Pair]) (code_simp, rule refl)
  have f: "allocs [OpAdd (8 :: nat)] + allocs [OpAdd 9] < 32766" by simp
  show ?thesis
    using small_table_wf A stale_handle_never_resolves [OF small_table_wf A f] by blast
qed

text \<open>
  Property C19. The table neither leaks nor over-releases references: starting from
  \<^verbatim>\<open>Initialize\<close>, through any sequence of additions, removals and reservations, the calls
  of \<^verbatim>\<open>Open\<close> less the calls of \<^verbatim>\<open>Close\<close> on every object equal the entries that hold it,
  and \<^verbatim>\<open>Finalize\<close> brings the difference to zero.
\<close>

theorem handle_table_reference_balance:
  assumes "Initialize n KHandleTable_ctor = (ResultSuccess, t)" and "Finalize (run_ops cs t) = (r, t')"
  shows "ref_balance (run_ops cs t) ob = int (live_entries (run_ops cs t) ob) \<and> ref_balance t' ob = 0"
proof -
  note I = Initialize_unique_outcome [OF assms(1)]
  from run_ops_balanced [OF I(1,3), of cs] have R: "ht_wf (run_ops cs t)" "refs_balanced (run_ops cs t)"
    by auto
  then show ?thesis
    using Finalize_balanced [OF R assms(2), of ob] by (simp add: refs_balanced_def)
qed

theorem handle_table_reference_balance_witness:
  "Initialize 2 KHandleTable_ctor = (ResultSuccess, small_table) \<and>
   ref_balance (run_ops [OpAdd 7, OpAdd 7] small_table) 7 = 2 \<and>
   ref_balance (snd (Finalize (run_ops [OpAdd 7, OpAdd 7] small_table))) 7 = 0"
proof -
  have "ref_balance (run_ops [OpAdd 7, OpAdd 7] small_table) 7 = 2" by code_simp
  then show ?thesis
    using small_table_init
      handle_table_reference_balance [OF small_table_init prod.collapse [symmetric], of "[OpAdd 7, OpAdd 7]" 7]
    by blast
qed

text \<open>
  Property C30. The two-step protocol agrees with \<^verbatim>\<open>Add\<close>: a reserved handle resolves to
  nothing and leaves every other handle alone; registering an object on it gives exactly
  what \<^verbatim>\<open>Add\<close> gives; giving it back with \<^verbatim>\<open>Unreserve\<close> restores the count and puts the
  entry at the head of the free list.
\<close>

theorem reserve_register_protocol:
  assumes wf: "ht_wf t" and R: "Reserve t = (Inr h, t1)"
  shows "GetObjectImpl t1 = GetObjectImpl t \<and> GetObjectImpl t1 h = None \<and>
         Add ob t = (Inr h, Register h ob t1) \<and>
         ht_wf (Unreserve h t1) \<and> GetObjectImpl (Unreserve h t1) = GetObjectImpl t \<and>
         m_count (Unreserve h t1) = m_count t \<and>
         free_list (Unreserve h t1) = free_list t"
proof -
  note RR = Reserve_reserved [OF wf R]
  have room: "m_count t < m_table_size t" using R by (simp add: Reserve_def split: if_splits)
  let ?i = "unat (HandlePack_index h)"
  have i: "?i < unat (m_table_size t1)" "?i \<notin> set (free_list t1)" "m_objects t1 ! ?i = None"
    using RR(2) by (auto simp: is_reserved_def)
  have U: "Unreserve h t1 = FreeEntry ?i t1" using i(1) by (simp add: Unreserve_def ucast_less_iff)
  have L: "GetObjectImpl (FreeEntry ?i t1) = GetObjectImpl t1"
  proof
    fix k
    show "GetObjectImpl (FreeEntry ?i t1) k = GetObjectImpl t1 k"
      using i(3) GetObjectImpl_Some_iff [of t1 k]
      by (simp add: FreeEntry_lookup [OF RR(1) i(1)]) (metis not_None_eq option.distinct(1))
  qed
  obtain j fl where J: "free_list t = j # fl" "j < MaxTableSize" "free_list t1 = fl"
    "h = EncodeHandle (word_of_nat j) (m_next_linear_id t)" "m_count t1 = m_count t + 1"
    using Reserve_eq [OF wf room] R by (metis Pair_inject sum.inject(2))
  have "?i = j"
    using encoded_index(1) [OF J(2)] J(4) linear_id_step(4) [OF ht_wfD(5,6) [OF wf]] by simp
  moreover have "m_count (FreeEntry ?i t1) = m_count t" using J(5) by (simp add: FreeEntry_def)
  ultimately show ?thesis
    using RR FreeEntry_wf [OF RR(1) i(1,2)] L U J R by (simp add: Add_Reserve_Register [OF wf])
qed

theorem reserve_register_protocol_witness:
  "ht_wf small_table \<and> Reserve small_table = (Inr 0x8001, snd (Reserve small_table)) \<and>
   Add 7 small_table = (Inr 0x8001, Register 0x8001 7 (snd (Reserve small_table))) \<and>
   free_list (Unreserve 0x8001 (snd (Reserve small_table))) = [1, 0]"
proof -
  have R: "Reserve small_table = (Inr 0x8001, snd (Reserve small_table))"
    by (subst prod.collapse [symmetric], rule arg_cong2 [where f = Pair]) (code_simp, rule refl)
  have "free_list small_table = [1, 0]" by code_simp
  then show ?thesis
    using small_table_wf R reserve_register_protocol [OF small_table_wf R, of 7] by metis
qed

text \<open>
  \<^verbatim>\<open>Initialize\<close> accepts every size up to 1024 (a non-positive size meaning the
  maximum), builds a well-formed empty table whose every entry is free, and refuses a
  larger size without touching the table.
\<close>

theorem handle_table_initialize:
  assumes "length (m_objects t) = MaxTableSize" "length (m_entry_infos t) = MaxTableSize"
  shows "if n \<le> int MaxTableSize
         then \<exists>t'. Initialize n t = (ResultSuccess, t') \<and> ht_wf t' \<and> GetObjectImpl t' = Map.empty \<and>
                length (free_list t') = (if n \<le> 0 then MaxTableSize else nat n)
         else Initialize n t = (ResultOutOfMemory, t)"
proof (cases "n \<le> int MaxTableSize")
  case True
  from Initialize_outcome [OF assms True] obtain t' where
    T: "Initialize n t = (ResultSuccess, t')" "ht_wf t'" "GetObjectImpl t' = Map.empty"
    "unat (m_table_size t') = init_size n" "m_count t' = 0" by blast
  have "length (free_list t') = (if n \<le> 0 then MaxTableSize else nat n)"
    using ht_wfD(8) [OF T(2)] T(4,5) by (simp add: init_size_def)
  with True T show ?thesis by auto
next
  case False
  then show ?thesis by (simp add: Initialize_def)
qed

theorem handle_table_initialize_witness:
  "length (m_objects (KHandleTable_ctor :: nat khandle_table)) = MaxTableSize \<and>
   (\<exists>t'. Initialize 2 (KHandleTable_ctor :: nat khandle_table) = (ResultSuccess, t') \<and> ht_wf t' \<and>
      length (free_list t') = 2)"
  using handle_table_initialize [where t = "KHandleTable_ctor :: nat khandle_table" and n = 2,
    OF ctor_lengths] ctor_lengths(1) [where 'a = nat]
  by (auto simp: MaxTableSize_def)

text \<open>
  \<^verbatim>\<open>GetMultipleObjects\<close> is all or nothing: it returns the objects of all the
  handles, in order and each opened once, exactly when every handle resolves to an object
  of the wanted type; otherwise every object it opened is closed again.
\<close>

theorem get_multiple_objects_all_or_nothing:
  "case GetMultipleObjects cast hs t of
     (Some out, t') \<Rightarrow> map (GetObjectImpl t) hs = map Some out \<and> list_all cast out \<and>
        (\<forall>ob. ref_balance t' ob = ref_balance t ob + int (count_list out ob))
   | (None, t') \<Rightarrow> (\<exists>h \<in> set hs. case GetObjectImpl t h of None \<Rightarrow> True | Some ob \<Rightarrow> \<not> cast ob) \<and>
        (\<forall>ob. ref_balance t' ob = ref_balance t ob)"
proof -
  let ?out = "GetMultipleObjects_loop cast t hs"
  have len: "length (GetMultipleObjects_loop cast t hs) \<le> length hs" for hs
    by (induction hs) (auto split: option.splits)
  have full: "map (GetObjectImpl t) hs = map Some (GetMultipleObjects_loop cast t hs) \<and>
      list_all cast (GetMultipleObjects_loop cast t hs)"
    if "length (GetMultipleObjects_loop cast t hs) = length hs" for hs
    using that by (induction hs) (auto split: option.splits if_splits)
  have part: "\<exists>h \<in> set hs. case GetObjectImpl t h of None \<Rightarrow> True | Some ob \<Rightarrow> \<not> cast ob"
    if "length (GetMultipleObjects_loop cast t hs) \<noteq> length hs" for hs
    using that by (induction hs) (auto split: option.splits if_splits)
  have co: "count_list (map Open xs) (Open ob) = count_list xs ob"
    "count_list (map Close xs) (Close ob) = count_list xs ob"
    "count_list (map Open xs) (Close ob) = 0" "count_list (map Close xs) (Open ob) = 0"
    for xs and ob :: 'a
    by (induction xs) auto
  show ?thesis
    using full [of hs] part [of hs]
    by (auto simp: GetMultipleObjects_def Let_def ref_balance_def co)
qed

end
