(* ===== verification/KResourceLimit.thy ===== *)
theory KResourceLimit
  imports Prelude
begin

text \<open>
  Resource limits of the kernel, \<^verbatim>\<open>core/hle/kernel/k_resource_limit.cpp\<close>, with the scoped
  reservation of \<^verbatim>\<open>k_scoped_resource_reservation.h\<close>. Amounts are 64-bit words read as signed
  numbers, so that wrap-around is the machine's.

  \<^verbatim>\<open>Reserve\<close> may wait on a condition variable, which releases the lock: one pass through its
  loop is \<open>Reserve_turn\<close>, and a call is \<open>Reserve\<close> followed by \<open>Reserve_resume\<close> each time the
  thread wakes up. The tick of the hardware timer is an argument of each turn. \<open>limit_step\<close>
  interleaves the calls of any number of threads. What \<^verbatim>\<open>Release\<close> asserts of its arguments is
  a guard of its step. Nothing in the code asserts that the hints given back keep pace with the
  values given back, which the assertion \<^verbatim>\<open>hint <= current\<close> of the next operation needs: that is
  a discipline of the callers, \<open>hints_first\<close>, and only what needs it assumes it.
\<close>

type_synonym s64 = u64
type_synonym s32 = u32

section \<open>The resource limit\<close>

datatype LimitableResource =
    PhysicalMemoryMax | ThreadCountMax | EventCountMax | TransferMemoryCountMax | SessionCountMax

primrec resource_index :: "LimitableResource \<Rightarrow> nat" where
  "resource_index PhysicalMemoryMax = 0"
| "resource_index ThreadCountMax = 1"
| "resource_index EventCountMax = 2"
| "resource_index TransferMemoryCountMax = 3"
| "resource_index SessionCountMax = 4"

definition LimitableResource_Count :: nat where "LimitableResource_Count = 5"

record KResourceLimit =
  m_limit_values :: "s64 list"
  m_current_values :: "s64 list"
  m_current_hints :: "s64 list"
  m_peak_values :: "s64 list"
  m_waiter_count :: s32

definition KResourceLimit_ctor :: KResourceLimit where
  "KResourceLimit_ctor =
     (let zeros = replicate LimitableResource_Count 0
      in \<lparr> m_limit_values = zeros, m_current_values = zeros, m_current_hints = zeros,
           m_peak_values = zeros, m_waiter_count = 0 \<rparr>)"

datatype limit_result = Limit_Success | ResultInvalidState

definition DefaultTimeout :: s64 where "DefaultTimeout = 10000000000"

definition GetLimitValue :: "LimitableResource \<Rightarrow> KResourceLimit \<Rightarrow> s64" where
  "GetLimitValue which s = m_limit_values s ! resource_index which"

definition GetCurrentValue :: "LimitableResource \<Rightarrow> KResourceLimit \<Rightarrow> s64" where
  "GetCurrentValue which s = m_current_values s ! resource_index which"

definition GetPeakValue :: "LimitableResource \<Rightarrow> KResourceLimit \<Rightarrow> s64" where
  "GetPeakValue which s = m_peak_values s ! resource_index which"

definition GetFreeValue :: "LimitableResource \<Rightarrow> KResourceLimit \<Rightarrow> s64" where
  "GetFreeValue which s =
     m_limit_values s ! resource_index which - m_current_values s ! resource_index which"

definition SetLimitValue :: "LimitableResource \<Rightarrow> s64 \<Rightarrow> KResourceLimit \<Rightarrow> limit_result \<times> KResourceLimit" where
  "SetLimitValue which value s =
     (let index = resource_index which
      in if \<not> sint (m_current_values s ! index) \<le> sint value then (ResultInvalidState, s)
         else (Limit_Success,
               s\<lparr> m_limit_values := (m_limit_values s)[index := value],
                 m_peak_values := (m_peak_values s)[index := m_current_values s ! index] \<rparr>))"

text \<open>One pass through the loop: \<open>Some b\<close> returns \<open>b\<close>, \<open>None\<close> waits.\<close>

definition Reserve_turn ::
  "LimitableResource \<Rightarrow> s64 \<Rightarrow> s64 \<Rightarrow> s64 \<Rightarrow> KResourceLimit \<Rightarrow> bool option \<times> KResourceLimit" where
  "Reserve_turn which value timeout tick s =
     (let index = resource_index which;
          current = m_current_values s ! index;
          hint = m_current_hints s ! index;
          limit = m_limit_values s ! index
      in if sint (current + value) \<le> sint current then (Some False, s)
         else if sint (current + value) \<le> sint limit then
           (Some True,
            s\<lparr> m_current_values := (m_current_values s)[index := current + value],
              m_current_hints := (m_current_hints s)[index := hint + value],
              m_peak_values := (m_peak_values s)
                [index := if sint (m_peak_values s ! index) < sint (current + value)
                          then current + value else m_peak_values s ! index] \<rparr>)
         else if sint (hint + value) \<le> sint limit \<and> (sint timeout < 0 \<or> sint tick < sint timeout) then
           (None, s\<lparr> m_waiter_count := m_waiter_count s + 1 \<rparr>)
         else (Some False, s))"

definition Reserve ::
  "LimitableResource \<Rightarrow> s64 \<Rightarrow> s64 \<Rightarrow> s64 \<Rightarrow> KResourceLimit \<Rightarrow> bool option \<times> KResourceLimit" where
  "Reserve which value timeout tick s =
     (if sint (m_current_hints s ! resource_index which) \<ge> sint (m_limit_values s ! resource_index which)
      then (Some False, s)
      else Reserve_turn which value timeout tick s)"

definition Reserve_default ::
  "LimitableResource \<Rightarrow> s64 \<Rightarrow> s64 \<Rightarrow> KResourceLimit \<Rightarrow> bool option \<times> KResourceLimit" where
  "Reserve_default which value tick s = Reserve which value (tick + DefaultTimeout) tick s"

definition Reserve_resume ::
  "LimitableResource \<Rightarrow> s64 \<Rightarrow> s64 \<Rightarrow> s64 \<Rightarrow> KResourceLimit \<Rightarrow> bool option \<times> KResourceLimit" where
  "Reserve_resume which value timeout tick s =
     Reserve_turn which value timeout tick (s\<lparr> m_waiter_count := m_waiter_count s - 1 \<rparr>)"

text \<open>The flag says whether the condition variable is broadcast.\<close>

definition Release_hint :: "LimitableResource \<Rightarrow> s64 \<Rightarrow> s64 \<Rightarrow> KResourceLimit \<Rightarrow> bool \<times> KResourceLimit" where
  "Release_hint which value hint s =
     (let index = resource_index which
      in (m_waiter_count s \<noteq> 0,
          s\<lparr> m_current_values := (m_current_values s)[index := m_current_values s ! index - value],
            m_current_hints := (m_current_hints s)[index := m_current_hints s ! index - hint] \<rparr>))"

definition Release :: "LimitableResource \<Rightarrow> s64 \<Rightarrow> KResourceLimit \<Rightarrow> bool \<times> KResourceLimit" where
  "Release which value s = Release_hint which value value s"

definition CreateResourceLimitForProcess :: "s64 \<Rightarrow> KResourceLimit" where
  "CreateResourceLimitForProcess physical_memory_size =
     (let s0 = KResourceLimit_ctor;
          s1 = snd (SetLimitValue PhysicalMemoryMax physical_memory_size s0);
          s2 = snd (SetLimitValue ThreadCountMax 800 s1);
          s3 = snd (SetLimitValue EventCountMax 900 s2);
          s4 = snd (SetLimitValue TransferMemoryCountMax 200 s3)
      in snd (SetLimitValue SessionCountMax 1133 s4))"

section \<open>Scoped reservations\<close>

text \<open>The limit is absent for a null pointer; \<open>None\<close> as outcome: the constructor waits.\<close>

record KScopedResourceReservation =
  scoped_limit :: bool
  scoped_value :: s64
  scoped_resource :: LimitableResource
  scoped_succeeded :: bool

definition Scoped_ctor ::
  "bool \<Rightarrow> LimitableResource \<Rightarrow> s64 \<Rightarrow> s64 \<Rightarrow> s64 \<Rightarrow> KResourceLimit \<Rightarrow>
   KScopedResourceReservation option \<times> KResourceLimit" where
  "Scoped_ctor l r v timeout tick s =
     (let scope = \<lparr> scoped_limit = l, scoped_value = v, scoped_resource = r, scoped_succeeded = False \<rparr>
      in if l \<and> v \<noteq> 0
         then (case Reserve r v timeout tick s of
                 (Some b, s') \<Rightarrow> (Some (scope\<lparr> scoped_succeeded := b \<rparr>), s')
               | (None, s') \<Rightarrow> (None, s'))
         else (Some (scope\<lparr> scoped_succeeded := True \<rparr>), s))"

definition Scoped_dtor :: "KScopedResourceReservation \<Rightarrow> KResourceLimit \<Rightarrow> KResourceLimit" where
  "Scoped_dtor scope s =
     (if scoped_limit scope \<and> scoped_value scope \<noteq> 0 \<and> scoped_succeeded scope
      then snd (Release (scoped_resource scope) (scoped_value scope) s) else s)"

definition Scoped_Commit :: "KScopedResourceReservation \<Rightarrow> KScopedResourceReservation" where
  "Scoped_Commit scope = scope\<lparr> scoped_limit := False \<rparr>"

definition Scoped_Succeeded :: "KScopedResourceReservation \<Rightarrow> bool" where
  "Scoped_Succeeded scope = scoped_succeeded scope"

section \<open>The invariant\<close>

abbreviation limit_of :: "KResourceLimit \<Rightarrow> LimitableResource \<Rightarrow> int" where
  "limit_of s r \<equiv> sint (m_limit_values s ! resource_index r)"

abbreviation current_of :: "KResourceLimit \<Rightarrow> LimitableResource \<Rightarrow> int" where
  "current_of s r \<equiv> sint (m_current_values s ! resource_index r)"

abbreviation hint_of :: "KResourceLimit \<Rightarrow> LimitableResource \<Rightarrow> int" where
  "hint_of s r \<equiv> sint (m_current_hints s ! resource_index r)"

abbreviation peak_of :: "KResourceLimit \<Rightarrow> LimitableResource \<Rightarrow> int" where
  "peak_of s r \<equiv> sint (m_peak_values s ! resource_index r)"

text \<open>What always holds, and what holds in addition while the hints keep pace.\<close>

definition levels_wf :: "KResourceLimit \<Rightarrow> bool" where
  "levels_wf s \<longleftrightarrow>
     length (m_limit_values s) = LimitableResource_Count \<and>
     length (m_current_values s) = LimitableResource_Count \<and>
     length (m_current_hints s) = LimitableResource_Count \<and>
     length (m_peak_values s) = LimitableResource_Count \<and>
     (\<forall>r. 0 \<le> current_of s r \<and> current_of s r \<le> peak_of s r \<and> peak_of s r \<le> limit_of s r)"

definition limit_wf :: "KResourceLimit \<Rightarrow> bool" where
  "limit_wf s \<longleftrightarrow> levels_wf s \<and> (\<forall>r. 0 \<le> hint_of s r \<and> hint_of s r \<le> current_of s r)"

lemma resource_index_less [simp]: "resource_index r < LimitableResource_Count"
  by (cases r) (simp_all add: LimitableResource_Count_def)

lemma resource_index_eq [simp]: "resource_index r = resource_index r' \<longleftrightarrow> r = r'"
  by (cases r; cases r'; simp)

lemma levels_wf_parts:
  assumes "levels_wf s"
  shows "0 \<le> current_of s r" "current_of s r \<le> peak_of s r" "peak_of s r \<le> limit_of s r"
    "current_of s r \<le> limit_of s r"
  using assms by (auto simp: levels_wf_def intro: order_trans)

lemma levels_wf_lengths:
  assumes "levels_wf s"
  shows "length (m_limit_values s) = LimitableResource_Count" "length (m_current_values s) = LimitableResource_Count"
    "length (m_current_hints s) = LimitableResource_Count" "length (m_peak_values s) = LimitableResource_Count"
  using assms by (simp_all add: levels_wf_def)

lemma limit_wf_levels: "limit_wf s \<Longrightarrow> levels_wf s"
  by (simp add: limit_wf_def)

lemma limit_wf_parts:
  assumes "limit_wf s"
  shows "0 \<le> hint_of s r" "hint_of s r \<le> current_of s r" "current_of s r \<le> peak_of s r"
    "peak_of s r \<le> limit_of s r" "0 \<le> current_of s r" "current_of s r \<le> limit_of s r"
  using assms levels_wf_parts [of s r] by (simp_all add: limit_wf_def)

lemma s64_bounds: "- (2 ^ 63) \<le> sint (x :: s64)" "sint (x :: s64) < 2 ^ 63"
  using sint_range_size [of x] by (simp_all add: word_size)

lemma sint_add_exact:
  assumes "- (2 ^ 63) \<le> sint x + sint y" "sint x + sint y < 2 ^ 63"
  shows "sint (x + y :: s64) = sint x + sint y"
proof -
  have "signed_take_bit 63 (sint x + sint y) = sint x + sint y"
    using assms by (intro signed_take_bit_int_eq_self) simp_all
  then show ?thesis by (simp add: sint_word_ariths)
qed

lemma sint_diff_exact:
  assumes "- (2 ^ 63) \<le> sint x - sint y" "sint x - sint y < 2 ^ 63"
  shows "sint (x - y :: s64) = sint x - sint y"
proof -
  have "signed_take_bit 63 (sint x - sint y) = sint x - sint y"
    using assms by (intro signed_take_bit_int_eq_self) simp_all
  then show ?thesis by (simp add: sint_word_ariths)
qed

text \<open>The overflow test of \<^verbatim>\<open>Reserve\<close>: for a current value that is not negative it passes exactly
  for positive amounts whose sum fits.\<close>

lemma overflow_test:
  assumes "0 \<le> sint (current :: s64)"
  shows "sint (current + value) \<le> sint current \<longleftrightarrow> sint value \<le> 0 \<or> 2 ^ 63 \<le> sint current + sint value"
proof -
  note b = s64_bounds [of current] s64_bounds [of "value"]
  show ?thesis
  proof (cases "sint current + sint value < 2 ^ 63")
    case True
    then show ?thesis using sint_add_exact [of current "value"] b assms by simp
  next
    case False
    have "sint (current + value) = signed_take_bit 63 (sint current + sint value)"
      by (simp add: sint_word_ariths)
    also have "signed_take_bit 63 (sint current + sint value) = sint current + sint value - 2 ^ 64"
    proof -
      have "signed_take_bit 63 (sint current + sint value) = signed_take_bit 63 (sint current + sint value - 2 ^ 64)"
        by (simp add: signed_take_bit_eq_iff_take_bit_eq take_bit_eq_mod)
      also have "\<dots> = sint current + sint value - 2 ^ 64"
        using False b by (intro signed_take_bit_int_eq_self) simp_all
      finally show ?thesis .
    qed
    finally show ?thesis using False b assms by simp
  qed
qed

section \<open>What the operations do\<close>

text \<open>A granted reservation.\<close>

definition grant :: "LimitableResource \<Rightarrow> s64 \<Rightarrow> KResourceLimit \<Rightarrow> KResourceLimit" where
  "grant which value s =
     (let index = resource_index which; new = m_current_values s ! index + value
      in s\<lparr> m_current_values := (m_current_values s)[index := new],
           m_current_hints := (m_current_hints s)[index := m_current_hints s ! index + value],
           m_peak_values := (m_peak_values s)
             [index := if sint (m_peak_values s ! index) < sint new then new else m_peak_values s ! index] \<rparr>)"

definition may_wait :: "LimitableResource \<Rightarrow> s64 \<Rightarrow> s64 \<Rightarrow> s64 \<Rightarrow> KResourceLimit \<Rightarrow> bool" where
  "may_wait which value timeout tick s \<longleftrightarrow>
     0 < sint value \<and> current_of s which + sint value < 2 ^ 63 \<and>
     hint_of s which + sint value \<le> limit_of s which \<and> (sint timeout < 0 \<or> sint tick < sint timeout)"

lemma Reserve_turn_cases:
  assumes "limit_wf s"
  shows "Reserve_turn which value timeout tick s =
    (if 0 < sint value \<and> current_of s which + sint value \<le> limit_of s which then (Some True, grant which value s)
     else if may_wait which value timeout tick s then (None, s\<lparr> m_waiter_count := m_waiter_count s + 1 \<rparr>)
     else (Some False, s))"
proof -
  let ?c = "m_current_values s ! resource_index which" and ?h = "m_current_hints s ! resource_index which"
  note p = limit_wf_parts [OF assms, of which]
  note o = overflow_test [OF p(5), of "value"]
  show ?thesis
  proof (cases "0 < sint value \<and> sint ?c + sint value < 2 ^ 63")
    case True
    then have "sint (?c + value) = sint ?c + sint value" using p(5) by (intro sint_add_exact) simp_all
    moreover have "sint (?h + value) = sint ?h + sint value"
      using True p(1,2) by (intro sint_add_exact) simp_all
    ultimately show ?thesis using True o by (simp add: Reserve_turn_def grant_def may_wait_def Let_def)
  next
    case False
    have "limit_of s which < 2 ^ 63" by (rule s64_bounds)
    with False o show ?thesis by (auto simp: Reserve_turn_def may_wait_def Let_def)
  qed
qed

lemma Reserve_cases:
  assumes "limit_wf s"
  shows "Reserve which value timeout tick s = Reserve_turn which value timeout tick s"
  using limit_wf_parts [OF assms, of which] by (simp add: Reserve_def Reserve_turn_cases [OF assms] may_wait_def)

text \<open>Whatever the hints are, a turn grants exactly the positive amounts that fit.\<close>

lemma Reserve_turn_grants:
  assumes "levels_wf s" "Reserve_turn which value timeout tick s = (outcome, s')"
  shows "0 < sint value \<and> current_of s which + sint value \<le> limit_of s which \<and>
      outcome = Some True \<and> s' = grant which value s \<or>
    limit_of s which < current_of s which + sint value \<and> outcome = None \<and>
      s' = s\<lparr> m_waiter_count := m_waiter_count s + 1 \<rparr> \<or>
    (sint value \<le> 0 \<or> limit_of s which < current_of s which + sint value) \<and> outcome = Some False \<and> s' = s"
proof -
  let ?c = "m_current_values s ! resource_index which"
  note p = levels_wf_parts [OF assms(1), of which]
  note o = overflow_test [OF p(1), of "value"]
  show ?thesis
  proof (cases "0 < sint value \<and> sint ?c + sint value < 2 ^ 63")
    case True
    then have "sint (?c + value) = sint ?c + sint value" using p(1) by (intro sint_add_exact) simp_all
    then show ?thesis
      using True o assms(2) by (auto simp: Reserve_turn_def grant_def Let_def split: if_splits)
  next
    case False
    have "limit_of s which < 2 ^ 63" by (rule s64_bounds)
    with False o assms(2) show ?thesis by (auto simp: Reserve_turn_def Let_def)
  qed
qed

lemma Reserve_split:
  "Reserve which value timeout tick s = (outcome, s') \<Longrightarrow>
   outcome = Some False \<and> s' = s \<or> Reserve_turn which value timeout tick s = (outcome, s')"
  by (simp add: Reserve_def split: if_splits)

lemma grant_value_levels:
  assumes "levels_wf s" "0 < sint value" "current_of s which + sint value \<le> limit_of s which"
  shows "current_of (grant which value s) r = current_of s r + (if r = which then sint value else 0)"
    "peak_of (grant which value s) r = (if r = which then max (peak_of s r) (current_of s r + sint value) else peak_of s r)"
    "limit_of (grant which value s) r = limit_of s r"
proof -
  let ?c = "m_current_values s ! resource_index which"
  note p = levels_wf_parts [OF assms(1), of which] and l = levels_wf_lengths [OF assms(1)]
  have b: "limit_of s which < 2 ^ 63" by (rule s64_bounds)
  have "sint (?c + value) = sint ?c + sint value"
    using p b assms by (intro sint_add_exact; simp)
  then show "current_of (grant which value s) r = current_of s r + (if r = which then sint value else 0)"
    "peak_of (grant which value s) r = (if r = which then max (peak_of s r) (current_of s r + sint value) else peak_of s r)"
    "limit_of (grant which value s) r = limit_of s r"
    using l by (auto simp: grant_def Let_def nth_list_update)
qed

lemma grant_levels:
  assumes "limit_wf s" "0 < sint value" "current_of s which + sint value \<le> limit_of s which"
  shows "current_of (grant which value s) r = current_of s r + (if r = which then sint value else 0)"
    "hint_of (grant which value s) r = hint_of s r + (if r = which then sint value else 0)"
    "limit_of (grant which value s) r = limit_of s r"
proof -
  let ?h = "m_current_hints s ! resource_index which"
  note p = limit_wf_parts [OF assms(1), of which] and wf = limit_wf_levels [OF assms(1)]
  show "current_of (grant which value s) r = current_of s r + (if r = which then sint value else 0)"
    "limit_of (grant which value s) r = limit_of s r"
    by (rule grant_value_levels [OF wf assms(2,3)])+
  have b: "limit_of s which < 2 ^ 63" by (rule s64_bounds)
  have "sint (?h + value) = sint ?h + sint value"
    using p b assms by (intro sint_add_exact; simp)
  then show "hint_of (grant which value s) r = hint_of s r + (if r = which then sint value else 0)"
    using levels_wf_lengths [OF wf] by (auto simp: grant_def Let_def nth_list_update)
qed

lemma grant_levels_wf:
  assumes "levels_wf s" "0 < sint value" "current_of s which + sint value \<le> limit_of s which"
  shows "levels_wf (grant which value s)"
proof -
  note g = grant_value_levels [OF assms]
  have "0 \<le> current_of (grant which value s) r \<and>
      current_of (grant which value s) r \<le> peak_of (grant which value s) r \<and>
      peak_of (grant which value s) r \<le> limit_of (grant which value s) r" for r
    using levels_wf_parts [OF assms(1), of r] assms(2,3) unfolding g by auto
  then show ?thesis
    using levels_wf_lengths [OF assms(1)] unfolding levels_wf_def by (simp add: grant_def Let_def)
qed

lemma grant_wf:
  assumes "limit_wf s" "0 < sint value" "current_of s which + sint value \<le> limit_of s which"
  shows "limit_wf (grant which value s)"
  using grant_levels_wf [OF limit_wf_levels [OF assms(1)] assms(2,3)] limit_wf_parts(1,2) [OF assms(1)] assms(2)
  unfolding limit_wf_def grant_levels [OF assms] by auto

lemma levels_wf_waiters [simp]: "levels_wf (s\<lparr> m_waiter_count := n \<rparr>) = levels_wf s"
  by (simp add: levels_wf_def)

lemma limit_wf_waiters [simp]: "limit_wf (s\<lparr> m_waiter_count := n \<rparr>) = limit_wf s"
  by (simp add: limit_wf_def)

text \<open>What \<^verbatim>\<open>Release\<close> asserts of its arguments.\<close>

definition may_release :: "LimitableResource \<Rightarrow> s64 \<Rightarrow> s64 \<Rightarrow> KResourceLimit \<Rightarrow> bool" where
  "may_release which value hint s \<longleftrightarrow>
     0 \<le> sint value \<and> 0 \<le> sint hint \<and> sint value \<le> current_of s which \<and> sint hint \<le> hint_of s which"

lemma Release_levels:
  assumes "levels_wf s" "may_release which value hint s"
  shows "current_of (snd (Release_hint which value hint s)) r = current_of s r - (if r = which then sint value else 0)"
    "hint_of (snd (Release_hint which value hint s)) r = hint_of s r - (if r = which then sint hint else 0)"
    "peak_of (snd (Release_hint which value hint s)) r = peak_of s r"
    "limit_of (snd (Release_hint which value hint s)) r = limit_of s r"
proof -
  let ?c = "m_current_values s ! resource_index which" and ?h = "m_current_hints s ! resource_index which"
  note l = levels_wf_lengths [OF assms(1)]
  have "sint (?c - value) = sint ?c - sint value" "sint (?h - hint) = sint ?h - sint hint"
    using assms(2) s64_bounds(2) [of ?c] s64_bounds(2) [of ?h] unfolding may_release_def
    by (intro sint_diff_exact; linarith)+
  then show "current_of (snd (Release_hint which value hint s)) r = current_of s r - (if r = which then sint value else 0)"
    "hint_of (snd (Release_hint which value hint s)) r = hint_of s r - (if r = which then sint hint else 0)"
    "peak_of (snd (Release_hint which value hint s)) r = peak_of s r"
    "limit_of (snd (Release_hint which value hint s)) r = limit_of s r"
    using l by (auto simp: Release_hint_def Let_def nth_list_update)
qed

lemma Release_levels_wf:
  assumes "levels_wf s" "may_release which value hint s"
  shows "levels_wf (snd (Release_hint which value hint s))"
proof -
  let ?s = "snd (Release_hint which value hint s)"
  note g = Release_levels [OF assms]
  have "0 \<le> current_of ?s r \<and> current_of ?s r \<le> peak_of ?s r \<and> peak_of ?s r \<le> limit_of ?s r" for r
    using levels_wf_parts [OF assms(1), of r] assms(2) unfolding g may_release_def by (auto split: if_splits)
  then show ?thesis
    using levels_wf_lengths [OF assms(1)] unfolding levels_wf_def by (simp add: Release_hint_def Let_def)
qed

lemma SetLimitValue_levels_wf: "levels_wf s \<Longrightarrow> levels_wf (snd (SetLimitValue which value s))"
  by (auto simp: levels_wf_def SetLimitValue_def Let_def nth_list_update)

lemma SetLimitValue_same [simp]:
  "m_current_values (snd (SetLimitValue which value s)) = m_current_values s"
  "m_current_hints (snd (SetLimitValue which value s)) = m_current_hints s"
  "m_waiter_count (snd (SetLimitValue which value s)) = m_waiter_count s"
  by (simp_all add: SetLimitValue_def Let_def)

lemma SetLimitValue_wf: "limit_wf s \<Longrightarrow> limit_wf (snd (SetLimitValue which value s))"
  by (simp add: limit_wf_def SetLimitValue_levels_wf)

lemma CreateResourceLimitForProcess_wf: "limit_wf (CreateResourceLimitForProcess phys)"
proof -
  have "limit_wf KResourceLimit_ctor"
    by (simp add: limit_wf_def levels_wf_def KResourceLimit_ctor_def Let_def)
  then show ?thesis by (simp add: CreateResourceLimitForProcess_def Let_def SetLimitValue_wf)
qed

lemma CreateResourceLimitForProcess_idle:
  "current_of (CreateResourceLimitForProcess phys) r = 0" "hint_of (CreateResourceLimitForProcess phys) r = 0"
  "m_waiter_count (CreateResourceLimitForProcess phys) = 0"
  unfolding CreateResourceLimitForProcess_def Let_def SetLimitValue_same by (simp_all add: KResourceLimit_ctor_def Let_def)

section \<open>Many threads\<close>

record request =
  req_resource :: LimitableResource
  req_value :: s64
  req_timeout :: s64

text \<open>A waiting thread with its request and whether a broadcast has reached it.\<close>

type_synonym waiter = "nat \<times> request \<times> bool"

record limit_system =
  limit :: KResourceLimit
  waiting :: "waiter list"
  timer :: s64

datatype limit_event =
    Call_Reserve nat request
  | Wake nat
  | Call_Release LimitableResource s64 s64
  | Call_SetLimit LimitableResource s64
  | Tick s64

definition park :: "nat \<Rightarrow> request \<Rightarrow> bool option \<Rightarrow> waiter list" where
  "park t req outcome = (if outcome = None then [(t, req, False)] else [])"

text \<open>
  A thread may wake up at any time (its timeout, its termination or a broadcast). The number
  of threads is below the range of the counter.
\<close>

inductive limit_step :: "limit_event \<Rightarrow> limit_system \<Rightarrow> limit_system \<Rightarrow> bool" where
  call: "t \<notin> fst ` set (waiting S) \<Longrightarrow> length (waiting S) + 1 < 2 ^ 31 \<Longrightarrow>
    Reserve (req_resource req) (req_value req) (req_timeout req) (timer S) (limit S) = (outcome, s') \<Longrightarrow>
    limit_step (Call_Reserve t req) S (S\<lparr> limit := s', waiting := waiting S @ park t req outcome \<rparr>)"
| wake: "waiting S = xs @ (t, req, signalled) # ys \<Longrightarrow>
    Reserve_resume (req_resource req) (req_value req) (req_timeout req) (timer S) (limit S) = (outcome, s') \<Longrightarrow>
    limit_step (Wake t) S (S\<lparr> limit := s', waiting := xs @ ys @ park t req outcome \<rparr>)"
| release: "may_release which value hint (limit S) \<Longrightarrow>
    Release_hint which value hint (limit S) = (broadcast, s') \<Longrightarrow>
    limit_step (Call_Release which value hint) S
      (S\<lparr> limit := s', waiting := map (\<lambda>(t, req, b). (t, req, b \<or> broadcast)) (waiting S) \<rparr>)"
| set_limit: "SetLimitValue which value (limit S) = (result, s') \<Longrightarrow>
    limit_step (Call_SetLimit which value) S (S\<lparr> limit := s' \<rparr>)"
| tick: "sint (timer S) \<le> sint now \<Longrightarrow> limit_step (Tick now) S (S\<lparr> timer := now \<rparr>)"

inductive_cases limit_stepE: "limit_step ev S S'"

inductive limit_run :: "limit_event list \<Rightarrow> limit_system \<Rightarrow> limit_system \<Rightarrow> bool" where
  none: "limit_run [] S S"
| more: "limit_run es S S' \<Longrightarrow> limit_step ev S' S'' \<Longrightarrow> limit_run (es @ [ev]) S S''"

definition limit_system_init :: "s64 \<Rightarrow> limit_system" where
  "limit_system_init phys = \<lparr> limit = CreateResourceLimitForProcess phys, waiting = [], timer = 0 \<rparr>"

definition waiters_counted :: "limit_system \<Rightarrow> bool" where
  "waiters_counted S \<longleftrightarrow>
     length (waiting S) < 2 ^ 31 \<and> m_waiter_count (limit S) = word_of_nat (length (waiting S))"

lemma Reserve_turn_inv:
  assumes "levels_wf s" "Reserve_turn which value timeout tick s = (outcome, s')"
  shows "levels_wf s'" "m_waiter_count s' = m_waiter_count s + (if outcome = None then 1 else 0)"
  using Reserve_turn_grants [OF assms] grant_levels_wf [OF assms(1), of "value" which] assms(1)
  by (auto simp: grant_def Let_def)

lemma Reserve_inv:
  assumes "levels_wf s" "Reserve which value timeout tick s = (outcome, s')"
  shows "levels_wf s'" "m_waiter_count s' = m_waiter_count s + (if outcome = None then 1 else 0)"
  using Reserve_split [OF assms(2)] Reserve_turn_inv [OF assms(1)] assms(1) by auto

lemma limit_step_inv:
  assumes "limit_step ev S S'" "levels_wf (limit S)" "waiters_counted S"
  shows "levels_wf (limit S') \<and> waiters_counted S'"
  using assms(1)
proof cases
  case (call t req outcome s')
  show ?thesis
    using call(2,4) Reserve_inv [OF assms(2) call(5)] assms(3) by (auto simp: waiters_counted_def park_def)
next
  case (wake xs t req signalled ys outcome s')
  let ?s = "(limit S)\<lparr> m_waiter_count := m_waiter_count (limit S) - 1 \<rparr>"
  have wf: "levels_wf ?s" using assms(2) by simp
  have r: "Reserve_turn (req_resource req) (req_value req) (req_timeout req) (timer S) ?s = (outcome, s')"
    using wake(4) by (simp add: Reserve_resume_def)
  show ?thesis
    using wake(2,3) Reserve_turn_inv [OF wf r] assms(3) by (auto simp: waiters_counted_def park_def)
next
  case (release which val hint broadcast s')
  then have "s' = snd (Release_hint which val hint (limit S))" by simp
  then show ?thesis
    using release Release_levels_wf [OF assms(2) release(3)] assms(3)
    by (simp add: waiters_counted_def Release_hint_def Let_def)
next
  case (set_limit which val result s')
  show ?thesis
    using set_limit(1,2) SetLimitValue_levels_wf [OF assms(2), of which val] SetLimitValue_same [of which val "limit S"]
      assms(3) by (simp add: waiters_counted_def set_limit(3))
next
  case (tick now)
  then show ?thesis using assms(2,3) by (simp add: waiters_counted_def)
qed

lemma limit_run_inv:
  "limit_run es S S' \<Longrightarrow> levels_wf (limit S) \<Longrightarrow> waiters_counted S \<Longrightarrow> levels_wf (limit S') \<and> waiters_counted S'"
  by (induction rule: limit_run.induct) (auto dest: limit_step_inv)

lemma limit_init: "levels_wf (limit (limit_system_init phys))" "waiters_counted (limit_system_init phys)"
  by (simp_all add: limit_system_init_def limit_wf_levels CreateResourceLimitForProcess_wf
      waiters_counted_def CreateResourceLimitForProcess_idle)

text \<open>
  The discipline of the callers: at no time has more been given back of a resource than was
  hinted at. How far the hints are ahead is the sum over the releases.
\<close>

definition hint_lead :: "LimitableResource \<Rightarrow> limit_event \<Rightarrow> int" where
  "hint_lead r ev =
     (case ev of Call_Release which value hint \<Rightarrow> if which = r then sint hint - sint value else 0 | _ \<Rightarrow> 0)"

definition hints_ahead :: "LimitableResource \<Rightarrow> limit_event list \<Rightarrow> int" where
  "hints_ahead r es = sum_list (map (hint_lead r) es)"

definition hints_first :: "limit_event list \<Rightarrow> bool" where
  "hints_first es \<longleftrightarrow> list_all (\<lambda>n. \<forall>r. 0 \<le> hints_ahead r (take n es)) [0..<Suc (length es)]"

lemma hints_first_snoc: "hints_first (es @ [ev]) \<longleftrightarrow> hints_first es \<and> (\<forall>r. 0 \<le> hints_ahead r (es @ [ev]))"
  by (auto simp: hints_first_def list_all_iff less_Suc_eq_le le_Suc_eq)

lemma Reserve_turn_gap:
  assumes "limit_wf s" "Reserve_turn which value timeout tick s = (outcome, s')"
  shows "limit_wf s'" "current_of s' r - hint_of s' r = current_of s r - hint_of s r"
  using Reserve_turn_grants [OF limit_wf_levels [OF assms(1)] assms(2)]
    grant_wf [OF assms(1), of "value" which] grant_levels [OF assms(1), of "value" which r] assms(1)
  by auto

lemma Reserve_gap:
  assumes "limit_wf s" "Reserve which value timeout tick s = (outcome, s')"
  shows "limit_wf s'" "current_of s' r - hint_of s' r = current_of s r - hint_of s r"
  using Reserve_split [OF assms(2)] Reserve_turn_gap [OF assms(1)] assms(1) by auto

text \<open>Each step moves the distance between the current value and the hint by the lead of its event.\<close>

lemma limit_step_gap:
  assumes "limit_step ev S S'" "limit_wf (limit S)"
  shows "0 \<le> hint_of (limit S') r \<and> current_of (limit S') r - hint_of (limit S') r =
    current_of (limit S) r - hint_of (limit S) r + hint_lead r ev"
  using assms(1)
proof cases
  case (call t req outcome s')
  then show ?thesis
    using Reserve_gap [OF assms(2) call(5)] limit_wf_parts(1) [of s' r] by (simp add: hint_lead_def)
next
  case (wake xs t req signalled ys outcome s')
  let ?s = "(limit S)\<lparr> m_waiter_count := m_waiter_count (limit S) - 1 \<rparr>"
  have wf: "limit_wf ?s" using assms(2) by simp
  have r: "Reserve_turn (req_resource req) (req_value req) (req_timeout req) (timer S) ?s = (outcome, s')"
    using wake(4) by (simp add: Reserve_resume_def)
  show ?thesis
    using wake(1,2) Reserve_turn_gap [OF wf r] limit_wf_parts(1) [of s' r] by (simp add: hint_lead_def)
next
  case (release which val hint broadcast s')
  then have s': "s' = snd (Release_hint which val hint (limit S))" by simp
  show ?thesis
    using release(1-3) Release_levels [OF limit_wf_levels [OF assms(2)] release(3), of r]
      limit_wf_parts(1) [OF assms(2), of r]
    unfolding s' [symmetric] by (auto simp: hint_lead_def may_release_def)
next
  case (set_limit which val result s')
  show ?thesis
    using set_limit(1,2) SetLimitValue_same [of which val "limit S"] limit_wf_parts(1) [OF assms(2), of r]
    by (simp add: hint_lead_def set_limit(3))
next
  case (tick now)
  then show ?thesis using limit_wf_parts(1) [OF assms(2), of r] by (simp add: hint_lead_def)
qed

lemma limit_run_gap:
  "limit_run es S S' \<Longrightarrow> S = limit_system_init phys \<Longrightarrow> hints_first es \<Longrightarrow>
   limit_wf (limit S') \<and> (\<forall>r. current_of (limit S') r - hint_of (limit S') r = hints_ahead r es)"
proof (induction rule: limit_run.induct)
  case (none S)
  then show ?case
    by (simp add: limit_system_init_def CreateResourceLimitForProcess_wf CreateResourceLimitForProcess_idle hints_ahead_def)
next
  case (more es S S' ev S'')
  have h: "hints_first es" "\<And>r. 0 \<le> hints_ahead r (es @ [ev])" using more.prems(2) by (simp_all add: hints_first_snoc)
  have IH: "limit_wf (limit S')" "\<And>r. current_of (limit S') r - hint_of (limit S') r = hints_ahead r es"
    using more.IH [OF more.prems(1) h(1)] by simp_all
  have g: "0 \<le> hint_of (limit S'') r" "current_of (limit S'') r - hint_of (limit S'') r = hints_ahead r (es @ [ev])" for r
    using limit_step_gap [OF more.hyps(2) IH(1), of r] IH(2) [of r] by (simp_all add: hints_ahead_def)
  have "hint_of (limit S'') r \<le> current_of (limit S'') r" for r using g(2) [of r] h(2) [of r] by simp
  moreover have "levels_wf (limit S'')"
    using limit_run_inv [OF limit_run.more [OF more.hyps]] limit_init more.prems(1) by simp
  ultimately show ?case using g by (simp add: limit_wf_def)
qed

text \<open>A sleeping thread no broadcast has reached cannot be granted its request.\<close>

definition held_back :: "KResourceLimit \<Rightarrow> waiter \<Rightarrow> bool" where
  "held_back s w = (case w of (t, req, signalled) \<Rightarrow> signalled \<or>
     limit_of s (req_resource req) < current_of s (req_resource req) + sint (req_value req))"

definition no_one_stranded :: "limit_system \<Rightarrow> bool" where
  "no_one_stranded S \<longleftrightarrow> list_all (held_back (limit S)) (waiting S)"

lemma Reserve_turn_stranded:
  assumes "levels_wf s" "Reserve_turn which value timeout tick s = (outcome, s')"
  shows "current_of s r \<le> current_of s' r \<and> limit_of s' r = limit_of s r"
    "outcome = None \<Longrightarrow> limit_of s' which < current_of s' which + sint value"
  using Reserve_turn_grants [OF assms] grant_value_levels(1,3) [OF assms(1), of "value" which r] by auto

lemma Reserve_stranded:
  assumes "levels_wf s" "Reserve which value timeout tick s = (outcome, s')"
  shows "current_of s r \<le> current_of s' r \<and> limit_of s' r = limit_of s r"
    "outcome = None \<Longrightarrow> limit_of s' which < current_of s' which + sint value"
  using Reserve_split [OF assms(2)] Reserve_turn_stranded [OF assms(1)] by auto

lemma held_back_mono:
  assumes "list_all (held_back s) ws" "\<And>r. current_of s r \<le> current_of s' r \<and> limit_of s' r = limit_of s r"
  shows "list_all (held_back s') ws"
proof (rule list.pred_mono_strong [OF assms(1)])
  fix w assume "held_back s w"
  then show "held_back s' w"
    using assms(2) [of "req_resource (fst (snd w))"] by (auto simp: held_back_def split: prod.splits)
qed

lemma held_back_waiters [simp]: "held_back (s\<lparr> m_waiter_count := n \<rparr>) = held_back s"
  by (simp add: held_back_def fun_eq_iff)

lemma parked_held_back:
  assumes "\<And>r. current_of s r \<le> current_of s' r \<and> limit_of s' r = limit_of s r"
    "outcome = None \<Longrightarrow> limit_of s' (req_resource req) < current_of s' (req_resource req) + sint (req_value req)"
  shows "list_all (held_back s) ws \<Longrightarrow> list_all (held_back s') ws" "list_all (held_back s') (park t req outcome)"
  using held_back_mono assms by (auto simp: park_def held_back_def)

lemma limit_step_stranded:
  assumes "limit_step ev S S'" "levels_wf (limit S)" "waiters_counted S" "no_one_stranded S"
    "\<And>which value. ev \<noteq> Call_SetLimit which value"
  shows "no_one_stranded S'"
  using assms(1)
proof cases
  case (call t req outcome s')
  show ?thesis
    using call(2) assms(4) parked_held_back [OF Reserve_stranded [OF assms(2) call(5)]]
    by (simp add: no_one_stranded_def)
next
  case (wake xs t req signalled ys outcome s')
  let ?s = "(limit S)\<lparr> m_waiter_count := m_waiter_count (limit S) - 1 \<rparr>"
  have wf: "levels_wf ?s" using assms(2) by simp
  have r: "Reserve_turn (req_resource req) (req_value req) (req_timeout req) (timer S) ?s = (outcome, s')"
    using wake(4) by (simp add: Reserve_resume_def)
  show ?thesis
    using wake(2,3) assms(4) parked_held_back [OF Reserve_turn_stranded [OF wf r]]
    by (simp add: no_one_stranded_def)
next
  case (release which val hint broadcast s')
  have "broadcast \<or> waiting S = []"
    using release(4) assms(3) unat_word_of_nat [of "length (waiting S)", where 'a = 32]
    by (auto simp: Release_hint_def Let_def waiters_counted_def)
  then show ?thesis using release(2) by (auto simp: no_one_stranded_def held_back_def list_all_iff)
next
  case (set_limit which val result s')
  then show ?thesis using assms(5) by simp
next
  case (tick now)
  then show ?thesis using assms(4) by (simp add: no_one_stranded_def)
qed

lemma limit_run_stranded:
  "limit_run es S S' \<Longrightarrow> levels_wf (limit S) \<Longrightarrow> waiters_counted S \<Longrightarrow> no_one_stranded S \<Longrightarrow>
   list_all (\<lambda>ev. \<nexists>which value. ev = Call_SetLimit which value) es \<Longrightarrow> no_one_stranded S'"
proof (induction rule: limit_run.induct)
  case (more es S S' ev S'')
  then show ?case using limit_step_stranded [OF more.hyps(2)] limit_run_inv [OF more.hyps(1)] by auto
qed simp

section \<open>Properties\<close>

text \<open>
  Property C16. Accounting stays in bounds: in every state that any number of threads reach by
  reserving, waiting, waking up, releasing with any arguments that pass the assertions of
  \<^verbatim>\<open>Release\<close> on them, and changing limits, each resource has \<open>0 \<le> current \<le> peak \<le> limit\<close> as signed
  64-bit numbers, the free value is exactly the difference, and the waiter counter is the number
  of sleeping threads. If moreover the callers never give back more of a resource than they have
  hinted at, then the hint is between zero and the current value, as the other assertions
  demand, and falls short of it by exactly what was hinted at and not yet given back.
\<close>

theorem resource_accounting_bounds:
  assumes "limit_run es (limit_system_init phys) S"
  shows "0 \<le> sint (GetCurrentValue r (limit S)) \<and>
    sint (GetCurrentValue r (limit S)) \<le> sint (GetPeakValue r (limit S)) \<and>
    sint (GetPeakValue r (limit S)) \<le> sint (GetLimitValue r (limit S)) \<and>
    sint (GetFreeValue r (limit S)) = sint (GetLimitValue r (limit S)) - sint (GetCurrentValue r (limit S)) \<and>
    unat (m_waiter_count (limit S)) = length (waiting S) \<and>
    (hints_first es \<longrightarrow> 0 \<le> hint_of (limit S) r \<and> 0 \<le> hints_ahead r es \<and>
      hint_of (limit S) r = sint (GetCurrentValue r (limit S)) - hints_ahead r es)"
proof -
  from limit_run_inv [OF assms limit_init] have wf: "levels_wf (limit S)" and "waiters_counted S" by simp_all
  then have "unat (m_waiter_count (limit S)) = length (waiting S)"
    by (simp add: waiters_counted_def unat_word_of_nat)
  moreover have "sint (GetFreeValue r (limit S)) = limit_of (limit S) r - current_of (limit S) r"
    using levels_wf_parts [OF wf, of r] s64_bounds(2) [of "m_limit_values (limit S) ! resource_index r"]
    unfolding GetFreeValue_def by (intro sint_diff_exact) linarith+
  moreover have "0 \<le> hint_of (limit S) r \<and> 0 \<le> hints_ahead r es \<and>
      hint_of (limit S) r = current_of (limit S) r - hints_ahead r es" if "hints_first es"
  proof -
    have w: "limit_wf (limit S)" and g: "current_of (limit S) r - hint_of (limit S) r = hints_ahead r es"
      using limit_run_gap [OF assms refl that] by simp_all
    show ?thesis using limit_wf_parts(1,2) [OF w, of r] g by simp
  qed
  ultimately show ?thesis
    using levels_wf_parts [OF wf, of r] unfolding GetCurrentValue_def GetPeakValue_def GetLimitValue_def by blast
qed

text \<open>
  Property C27. The answer of \<^verbatim>\<open>Reserve\<close> in exact arithmetic, wrap-around included: it grants at
  once exactly the positive amounts that fit under the limit and adds them to the current
  value and the hint; it waits exactly for amounts that would fit once the releases already
  hinted at arrive, before the timeout and without overflow; everything else, the amount zero
  in particular, is refused and changes nothing.
\<close>

theorem reserve_exact:
  assumes "limit_wf s"
  shows "fst (Reserve which value timeout tick s) =
      (if 0 < sint value \<and> current_of s which + sint value \<le> limit_of s which then Some True
       else if 0 < sint value \<and> current_of s which + sint value < 2 ^ 63 \<and>
         hint_of s which + sint value \<le> limit_of s which \<and> (sint timeout < 0 \<or> sint tick < sint timeout)
       then None else Some False) \<and>
    (fst (Reserve which value timeout tick s) = Some False \<longrightarrow> snd (Reserve which value timeout tick s) = s) \<and>
    (fst (Reserve which value timeout tick s) = Some True \<longrightarrow>
      current_of (snd (Reserve which value timeout tick s)) r = current_of s r + (if r = which then sint value else 0) \<and>
      hint_of (snd (Reserve which value timeout tick s)) r = hint_of s r + (if r = which then sint value else 0) \<and>
      limit_of (snd (Reserve which value timeout tick s)) r = limit_of s r \<and>
      limit_wf (snd (Reserve which value timeout tick s)))"
  using grant_levels [OF assms, of "value" which r] grant_wf [OF assms, of "value" which]
  by (simp add: Reserve_cases [OF assms] Reserve_turn_cases [OF assms] may_wait_def)

text \<open>
  Property C22. No wake-up is lost as long as no limit is raised: when a thread sleeps in
  \<^verbatim>\<open>Reserve\<close> and no broadcast has reached it since it went to sleep, resuming it would not
  grant its request, at whatever tick.
\<close>

theorem release_wakes_every_waiter:
  assumes "limit_run es (limit_system_init phys) S"
    "list_all (\<lambda>ev. \<nexists>which value. ev = Call_SetLimit which value) es" "(t, req, False) \<in> set (waiting S)"
  shows "fst (Reserve_resume (req_resource req) (req_value req) (req_timeout req) tick (limit S)) \<noteq> Some True"
proof -
  let ?s = "(limit S)\<lparr> m_waiter_count := m_waiter_count (limit S) - 1 \<rparr>"
  have wf: "levels_wf ?s" using limit_run_inv [OF assms(1) limit_init] by simp
  have "no_one_stranded S"
    using limit_run_stranded [OF assms(1) limit_init _ assms(2)]
    by (simp add: no_one_stranded_def limit_system_init_def)
  then have "limit_of (limit S) (req_resource req) < current_of (limit S) (req_resource req) + sint (req_value req)"
    using assms(3) by (auto simp: no_one_stranded_def held_back_def list_all_iff)
  moreover obtain outcome s' where
    e: "Reserve_turn (req_resource req) (req_value req) (req_timeout req) tick ?s = (outcome, s')"
    by (rule prod.exhaust)
  ultimately show ?thesis
    using Reserve_turn_grants [OF wf e] by (auto simp: Reserve_resume_def)
qed

text \<open>
  A scoped reservation balances: destroying it without \<^verbatim>\<open>Commit\<close> gives back the
  current value and the hint of every resource, whether the reservation succeeded, failed or
  was empty; after \<^verbatim>\<open>Commit\<close> the destructor does nothing and the amount stays reserved.
\<close>

theorem scoped_reservation_balances:
  assumes "limit_wf s" "Scoped_ctor l which value timeout tick s = (Some scope, s')"
  shows "limit_wf (Scoped_dtor scope s') \<and>
    current_of (Scoped_dtor scope s') r = current_of s r \<and> hint_of (Scoped_dtor scope s') r = hint_of s r \<and>
    limit_of (Scoped_dtor scope s') r = limit_of s r \<and> Scoped_dtor (Scoped_Commit scope) s' = s' \<and>
    current_of s' r =
      current_of s r + (if r = which \<and> l \<and> Scoped_Succeeded scope then sint value else 0)"
proof (cases "l \<and> value \<noteq> 0 \<and> fst (Reserve which value timeout tick s) = Some True")
  case True
  then have g: "0 < sint value" "current_of s which + sint value \<le> limit_of s which"
    using assms(1) by (auto simp: Reserve_cases Reserve_turn_cases split: if_splits)
  have s': "s' = grant which value s" and scope: "scope =
      \<lparr> scoped_limit = True, scoped_value = value, scoped_resource = which, scoped_succeeded = True \<rparr>"
    using True assms g by (simp_all add: Scoped_ctor_def Reserve_cases Reserve_turn_cases)
  note lv = grant_levels [OF assms(1) g]
  have wf: "limit_wf s'" using grant_wf [OF assms(1) g] s' by simp
  have "may_release which value value s'"
    using g limit_wf_parts [OF assms(1), of which] unfolding may_release_def s' lv by simp
  note rl = Release_levels [OF limit_wf_levels [OF wf] this] Release_levels_wf [OF limit_wf_levels [OF wf] this]
  have "Scoped_dtor scope s' = snd (Release_hint which value value s')"
    using True scope by (simp add: Scoped_dtor_def Release_def)
  moreover have "limit_wf (snd (Release_hint which value value s'))"
    using rl limit_wf_parts(1,2) [OF assms(1)] lv by (simp add: limit_wf_def s')
  ultimately show ?thesis
    using True rl lv by (simp add: s' scope Scoped_dtor_def Scoped_Commit_def Scoped_Succeeded_def)
next
  case False
  have "s' = s \<and> (l \<longrightarrow> value \<noteq> 0 \<longrightarrow> \<not> scoped_succeeded scope) \<and> scoped_limit scope = l \<and> scoped_value scope = value"
    using False assms by (auto simp: Scoped_ctor_def Reserve_cases Reserve_turn_cases Let_def split: if_splits)
  then show ?thesis
    using assms(1) by (auto simp: Scoped_dtor_def Scoped_Commit_def Scoped_Succeeded_def)
qed

section \<open>Witnesses\<close>

text \<open>
  Two threads and 1133 sessions: the first takes 1000, the second waits for 200 after 500 of
  the hint are given back, and a release wakes it.
\<close>

definition session_request :: "s64 \<Rightarrow> request" where
  "session_request v = \<lparr> req_resource = SessionCountMax, req_value = v, req_timeout = - 1 \<rparr>"

definition limit_values_now :: "s64 \<Rightarrow> s64 list" where
  "limit_values_now phys = [phys, 800, 900, 200, 1133]"

definition limit_after :: "s64 \<Rightarrow> s64 \<Rightarrow> s64 \<Rightarrow> s32 \<Rightarrow> KResourceLimit" where
  "limit_after phys current hint n =
     \<lparr> m_limit_values = limit_values_now phys, m_current_values = [0, 0, 0, 0, current],
       m_current_hints = [0, 0, 0, 0, hint], m_peak_values = [0, 0, 0, 0, 1000], m_waiter_count = n \<rparr>"

lemma create_limits:
  "CreateResourceLimitForProcess 0x1000 =
     \<lparr> m_limit_values = limit_values_now 0x1000, m_current_values = [0, 0, 0, 0, 0],
       m_current_hints = [0, 0, 0, 0, 0], m_peak_values = [0, 0, 0, 0, 0], m_waiter_count = 0 \<rparr>"
  by code_simp

definition waiting_system :: limit_system where
  "waiting_system =
     \<lparr> limit = limit_after 0x1000 1000 500 1, waiting = [(2, session_request 200, False)], timer = 0 \<rparr>"

definition waiting_events :: "limit_event list" where
  "waiting_events =
     [Call_Reserve 1 (session_request 1000), Call_Release SessionCountMax 0 500,
      Call_Reserve 2 (session_request 200)]"

lemma waiting_run: "limit_run waiting_events (limit_system_init 0x1000) waiting_system"
proof -
  let ?S1 = "\<lparr> limit = limit_after 0x1000 1000 1000 0, waiting = [], timer = 0 \<rparr>"
  let ?S2 = "\<lparr> limit = limit_after 0x1000 1000 500 0, waiting = [], timer = 0 \<rparr>"
  let ?S0 = "limit_system_init 0x1000"
  have "Reserve SessionCountMax 1000 (- 1) 0 (CreateResourceLimitForProcess 0x1000) =
      (Some True, limit_after 0x1000 1000 1000 0)" by code_simp
  then have 1: "limit_step (Call_Reserve 1 (session_request 1000)) ?S0 ?S1"
    using limit_step.call [of 1 ?S0 "session_request 1000" "Some True" "limit_after 0x1000 1000 1000 0"]
    by (simp add: limit_system_init_def session_request_def park_def)
  have "Release_hint SessionCountMax 0 500 (limit_after 0x1000 1000 1000 0) =
      (False, limit_after 0x1000 1000 500 0)" by code_simp
  moreover have "may_release SessionCountMax 0 500 (limit_after 0x1000 1000 1000 0)"
    by (simp add: may_release_def limit_after_def)
  ultimately have 2: "limit_step (Call_Release SessionCountMax 0 500) ?S1 ?S2"
    using limit_step.release [of SessionCountMax 0 500 ?S1 False "limit_after 0x1000 1000 500 0"] by simp
  have "Reserve SessionCountMax 200 (- 1) 0 (limit_after 0x1000 1000 500 0) =
      (None, limit_after 0x1000 1000 500 1)" by code_simp
  then have 3: "limit_step (Call_Reserve 2 (session_request 200)) ?S2 waiting_system"
    using limit_step.call [of 2 ?S2 "session_request 200" None "limit_after 0x1000 1000 500 1"]
    by (simp add: waiting_system_def session_request_def park_def)
  from limit_run.more [OF limit_run.more [OF limit_run.more [OF limit_run.none 1] 2] 3]
  show ?thesis by (simp add: waiting_events_def)
qed

lemma waiting_hints_first: "hints_first waiting_events"
  by (simp add: hints_first_def waiting_events_def hints_ahead_def hint_lead_def upt_rec)

lemma limit_after_wf: "limit_wf (limit_after 0x1000 1000 500 1)"
  using limit_run_gap [OF waiting_run refl waiting_hints_first] by (simp add: waiting_system_def)

theorem resource_accounting_bounds_witness:
  "limit_run waiting_events (limit_system_init 0x1000) waiting_system \<and>
   sint (GetFreeValue SessionCountMax (limit waiting_system)) = 133 \<and>
   unat (m_waiter_count (limit waiting_system)) = length (waiting waiting_system) \<and>
   hints_ahead SessionCountMax waiting_events = 500 \<and> hint_of (limit waiting_system) SessionCountMax = 500"
proof -
  have "sint (GetLimitValue SessionCountMax (limit waiting_system)) = 1133"
    "sint (GetCurrentValue SessionCountMax (limit waiting_system)) = 1000" by code_simp+
  moreover have "hints_ahead SessionCountMax waiting_events = 500"
    by (simp add: hints_ahead_def waiting_events_def hint_lead_def)
  ultimately show ?thesis
    using resource_accounting_bounds [OF waiting_run, of SessionCountMax] waiting_run waiting_hints_first by simp
qed

theorem reserve_exact_witness:
  "fst (Reserve SessionCountMax 133 5 7 (limit_after 0x1000 1000 500 1)) = Some True \<and>
   fst (Reserve SessionCountMax 134 9 7 (limit_after 0x1000 1000 500 1)) = None \<and>
   fst (Reserve SessionCountMax 0 9 7 (limit_after 0x1000 1000 500 1)) = Some False \<and>
   fst (Reserve SessionCountMax 0x7FFFFFFFFFFFFFFF 9 7 (limit_after 0x1000 1000 500 1)) = Some False"
proof -
  have c: "m_current_values (limit_after 0x1000 1000 500 1) ! 4 = 1000"
    "m_current_hints (limit_after 0x1000 1000 500 1) ! 4 = 500"
    "m_limit_values (limit_after 0x1000 1000 500 1) ! 4 = 1133" by code_simp+
  show ?thesis
    using reserve_exact [OF limit_after_wf, of SessionCountMax 133 5 7]
      reserve_exact [OF limit_after_wf, of SessionCountMax 134 9 7]
      reserve_exact [OF limit_after_wf, of SessionCountMax 0 9 7]
      reserve_exact [OF limit_after_wf, of SessionCountMax "0x7FFFFFFFFFFFFFFF" 9 7]
    by (simp add: c)
qed

theorem release_wakes_every_waiter_witness:
  "(2, session_request 200, False) \<in> set (waiting waiting_system) \<and>
   fst (Reserve_resume SessionCountMax 200 (- 1) 50 (limit waiting_system)) \<noteq> Some True"
proof -
  have m: "(2, session_request 200, False) \<in> set (waiting waiting_system)" by (simp add: waiting_system_def)
  have "list_all (\<lambda>ev. \<nexists>which value. ev = Call_SetLimit which value) waiting_events"
    by (simp add: waiting_events_def)
  from release_wakes_every_waiter [OF waiting_run this m, of 50] show ?thesis
    using m by (simp add: session_request_def)
qed

theorem scoped_reservation_balances_witness:
  "\<exists>scope s'. Scoped_ctor True SessionCountMax 100 5 7 (limit_after 0x1000 1000 500 1) = (Some scope, s') \<and>
     Scoped_Succeeded scope \<and> current_of s' SessionCountMax = 1100 \<and>
     current_of (Scoped_dtor scope s') SessionCountMax = 1000"
proof -
  let ?r = "Scoped_ctor True SessionCountMax 100 5 7 (limit_after 0x1000 1000 500 1)"
  have "case ?r of (Some scope, s') \<Rightarrow> Scoped_Succeeded scope | _ \<Rightarrow> False" by code_simp
  then obtain scope s' where r: "?r = (Some scope, s')" "Scoped_Succeeded scope"
    by (auto split: prod.splits option.splits)
  have "current_of (limit_after 0x1000 1000 500 1) SessionCountMax = 1000" by code_simp
  then show ?thesis
    using r scoped_reservation_balances [OF limit_after_wf r(1), of SessionCountMax] by auto
qed

end
