(* ===== verification/KMemoryBlock.thy ===== *)
theory KMemoryBlock
  imports Prelude
begin

text \<open>
  Memory blocks of the kernel, \<^verbatim>\<open>core/hle/kernel/k_memory_block.h\<close>: the flags of memory states,
  permissions and attributes, and every operation of \<^verbatim>\<open>KMemoryBlock\<close>. \<^verbatim>\<open>KMemoryInfo\<close> is a copy
  of a block's fields; its accessors are those of the block. The assertions of the code log and
  go on; where a property needs one it is a hypothesis. The link of a block in its tree is
  not part of the block here.
\<close>

unbundle bit_operations_syntax

section \<open>States, permissions and attributes\<close>

definition State_None :: u32 where
  "State_None = 0"

definition State_Mask :: u32 where
  "State_Mask = 0xFF"

definition State_All :: u32 where
  "State_All = NOT State_None"

definition State_FlagCanReprotect :: u32 where
  "State_FlagCanReprotect = push_bit 8 1"

definition State_FlagCanDebug :: u32 where
  "State_FlagCanDebug = push_bit 9 1"

definition State_FlagCanUseIpc :: u32 where
  "State_FlagCanUseIpc = push_bit 10 1"

definition State_FlagCanUseNonDeviceIpc :: u32 where
  "State_FlagCanUseNonDeviceIpc = push_bit 11 1"

definition State_FlagCanUseNonSecureIpc :: u32 where
  "State_FlagCanUseNonSecureIpc = push_bit 12 1"

definition State_FlagMapped :: u32 where
  "State_FlagMapped = push_bit 13 1"

definition State_FlagCode :: u32 where
  "State_FlagCode = push_bit 14 1"

definition State_FlagCanAlias :: u32 where
  "State_FlagCanAlias = push_bit 15 1"

definition State_FlagCanCodeAlias :: u32 where
  "State_FlagCanCodeAlias = push_bit 16 1"

definition State_FlagCanTransfer :: u32 where
  "State_FlagCanTransfer = push_bit 17 1"

definition State_FlagCanQueryPhysical :: u32 where
  "State_FlagCanQueryPhysical = push_bit 18 1"

definition State_FlagCanDeviceMap :: u32 where
  "State_FlagCanDeviceMap = push_bit 19 1"

definition State_FlagCanAlignedDeviceMap :: u32 where
  "State_FlagCanAlignedDeviceMap = push_bit 20 1"

definition State_FlagCanIpcUserBuffer :: u32 where
  "State_FlagCanIpcUserBuffer = push_bit 21 1"

definition State_FlagReferenceCounted :: u32 where
  "State_FlagReferenceCounted = push_bit 22 1"

definition State_FlagCanMapProcess :: u32 where
  "State_FlagCanMapProcess = push_bit 23 1"

definition State_FlagCanChangeAttribute :: u32 where
  "State_FlagCanChangeAttribute = push_bit 24 1"

definition State_FlagCanCodeMemory :: u32 where
  "State_FlagCanCodeMemory = push_bit 25 1"

definition State_FlagLinearMapped :: u32 where
  "State_FlagLinearMapped = push_bit 26 1"

definition State_FlagCanPermissionLock :: u32 where
  "State_FlagCanPermissionLock = push_bit 27 1"

definition State_FlagsData :: u32 where
  "State_FlagsData =
     State_FlagCanReprotect OR State_FlagCanUseIpc OR State_FlagCanUseNonDeviceIpc
     OR State_FlagCanUseNonSecureIpc OR State_FlagMapped OR State_FlagCanAlias
     OR State_FlagCanTransfer OR State_FlagCanQueryPhysical OR State_FlagCanDeviceMap
     OR State_FlagCanAlignedDeviceMap OR State_FlagCanIpcUserBuffer
     OR State_FlagReferenceCounted OR State_FlagCanChangeAttribute OR State_FlagLinearMapped"

definition State_FlagsCode :: u32 where
  "State_FlagsCode =
     State_FlagCanDebug OR State_FlagCanUseIpc OR State_FlagCanUseNonDeviceIpc
     OR State_FlagCanUseNonSecureIpc OR State_FlagMapped OR State_FlagCode
     OR State_FlagCanQueryPhysical OR State_FlagCanDeviceMap OR State_FlagCanAlignedDeviceMap
     OR State_FlagReferenceCounted OR State_FlagLinearMapped"

definition State_FlagsMisc :: u32 where
  "State_FlagsMisc =
     State_FlagMapped OR State_FlagReferenceCounted OR State_FlagCanQueryPhysical
     OR State_FlagCanDeviceMap OR State_FlagLinearMapped"

definition State_Free :: u32 where
  "State_Free = 0"

definition State_IoMemory :: u32 where
  "State_IoMemory =
     1 OR State_FlagMapped OR State_FlagCanDeviceMap OR State_FlagCanAlignedDeviceMap"

definition State_IoRegister :: u32 where
  "State_IoRegister = 1 OR State_FlagCanDeviceMap OR State_FlagCanAlignedDeviceMap"

definition State_Static :: u32 where
  "State_Static = 2 OR State_FlagMapped OR State_FlagCanQueryPhysical"

definition State_Code :: u32 where
  "State_Code = 3 OR State_FlagsCode OR State_FlagCanMapProcess"

definition State_CodeData :: u32 where
  "State_CodeData =
     4 OR State_FlagsData OR State_FlagCanMapProcess OR State_FlagCanCodeMemory
     OR State_FlagCanPermissionLock"

definition State_Normal :: u32 where
  "State_Normal = 5 OR State_FlagsData OR State_FlagCanCodeMemory"

definition State_Shared :: u32 where
  "State_Shared =
     6 OR State_FlagMapped OR State_FlagReferenceCounted OR State_FlagLinearMapped"

definition State_AliasCode :: u32 where
  "State_AliasCode =
     8 OR State_FlagsCode OR State_FlagCanMapProcess OR State_FlagCanCodeAlias"

definition State_AliasCodeData :: u32 where
  "State_AliasCodeData =
     9 OR State_FlagsData OR State_FlagCanMapProcess OR State_FlagCanCodeAlias
     OR State_FlagCanCodeMemory OR State_FlagCanPermissionLock"

definition State_Ipc :: u32 where
  "State_Ipc =
     10 OR State_FlagsMisc OR State_FlagCanAlignedDeviceMap OR State_FlagCanUseIpc
     OR State_FlagCanUseNonSecureIpc OR State_FlagCanUseNonDeviceIpc"

definition State_Stack :: u32 where
  "State_Stack =
     11 OR State_FlagsMisc OR State_FlagCanAlignedDeviceMap OR State_FlagCanUseIpc
     OR State_FlagCanUseNonSecureIpc OR State_FlagCanUseNonDeviceIpc"

definition State_ThreadLocal :: u32 where
  "State_ThreadLocal = 12 OR State_FlagLinearMapped"

definition State_Transferred :: u32 where
  "State_Transferred =
     13 OR State_FlagsMisc OR State_FlagCanAlignedDeviceMap OR State_FlagCanChangeAttribute
     OR State_FlagCanUseIpc OR State_FlagCanUseNonSecureIpc OR State_FlagCanUseNonDeviceIpc"

definition State_SharedTransferred :: u32 where
  "State_SharedTransferred =
     14 OR State_FlagsMisc OR State_FlagCanAlignedDeviceMap OR State_FlagCanUseNonSecureIpc
     OR State_FlagCanUseNonDeviceIpc"

definition State_SharedCode :: u32 where
  "State_SharedCode =
     15 OR State_FlagMapped OR State_FlagReferenceCounted OR State_FlagLinearMapped
     OR State_FlagCanUseNonSecureIpc OR State_FlagCanUseNonDeviceIpc"

definition State_Inaccessible :: u32 where
  "State_Inaccessible = 16"

definition State_NonSecureIpc :: u32 where
  "State_NonSecureIpc =
     17 OR State_FlagsMisc OR State_FlagCanAlignedDeviceMap OR State_FlagCanUseNonSecureIpc
     OR State_FlagCanUseNonDeviceIpc"

definition State_NonDeviceIpc :: u32 where
  "State_NonDeviceIpc = 18 OR State_FlagsMisc OR State_FlagCanUseNonDeviceIpc"

definition State_Kernel :: u32 where
  "State_Kernel = 19"

definition State_GeneratedCode :: u32 where
  "State_GeneratedCode =
     20 OR State_FlagMapped OR State_FlagReferenceCounted OR State_FlagCanDebug
     OR State_FlagLinearMapped"

definition State_CodeOut :: u32 where
  "State_CodeOut =
     21 OR State_FlagMapped OR State_FlagReferenceCounted OR State_FlagLinearMapped"

definition State_Coverage :: u32 where
  "State_Coverage = 22 OR State_FlagMapped"

definition State_Insecure :: u32 where
  "State_Insecure =
     23 OR State_FlagMapped OR State_FlagReferenceCounted OR State_FlagLinearMapped
     OR State_FlagCanChangeAttribute OR State_FlagCanDeviceMap
     OR State_FlagCanAlignedDeviceMap OR State_FlagCanQueryPhysical
     OR State_FlagCanUseNonSecureIpc OR State_FlagCanUseNonDeviceIpc"

lemmas state_defs = State_None_def State_Mask_def State_All_def State_FlagCanReprotect_def State_FlagCanDebug_def State_FlagCanUseIpc_def
  State_FlagCanUseNonDeviceIpc_def State_FlagCanUseNonSecureIpc_def State_FlagMapped_def State_FlagCode_def State_FlagCanAlias_def State_FlagCanCodeAlias_def
  State_FlagCanTransfer_def State_FlagCanQueryPhysical_def State_FlagCanDeviceMap_def State_FlagCanAlignedDeviceMap_def State_FlagCanIpcUserBuffer_def State_FlagReferenceCounted_def
  State_FlagCanMapProcess_def State_FlagCanChangeAttribute_def State_FlagCanCodeMemory_def State_FlagLinearMapped_def State_FlagCanPermissionLock_def State_FlagsData_def
  State_FlagsCode_def State_FlagsMisc_def State_Free_def State_IoMemory_def State_IoRegister_def State_Static_def
  State_Code_def State_CodeData_def State_Normal_def State_Shared_def State_AliasCode_def State_AliasCodeData_def
  State_Ipc_def State_Stack_def State_ThreadLocal_def State_Transferred_def State_SharedTransferred_def State_SharedCode_def
  State_Inaccessible_def State_NonSecureIpc_def State_NonDeviceIpc_def State_Kernel_def State_GeneratedCode_def State_CodeOut_def
  State_Coverage_def State_Insecure_def

text \<open>The values the code asserts at compile time.\<close>

lemma state_values:
  "State_Free = 0x00000000" "State_IoMemory = 0x00182001" "State_IoRegister = 0x00180001"
  "State_Static = 0x00042002" "State_Code = 0x04DC7E03" "State_CodeData = 0x0FFEBD04"
  "State_Normal = 0x077EBD05" "State_Shared = 0x04402006" "State_AliasCode = 0x04DD7E08"
  "State_AliasCodeData = 0x0FFFBD09" "State_Ipc = 0x045C3C0A" "State_Stack = 0x045C3C0B"
  "State_ThreadLocal = 0x0400000C" "State_Transferred = 0x055C3C0D" "State_SharedTransferred = 0x045C380E"
  "State_SharedCode = 0x0440380F" "State_Inaccessible = 0x00000010" "State_NonSecureIpc = 0x045C3811"
  "State_NonDeviceIpc = 0x044C2812" "State_Kernel = 0x00000013" "State_GeneratedCode = 0x04402214"
  "State_CodeOut = 0x04402015" "State_Coverage = 0x00002016" "State_Insecure = 0x055C3817"
  by (simp_all add: state_defs)

definition Perm_None :: u8 where "Perm_None = 0"
definition Perm_KernelRead :: u8 where "Perm_KernelRead = push_bit 3 1"
definition Perm_KernelWrite :: u8 where "Perm_KernelWrite = push_bit 3 2"
definition Perm_KernelExecute :: u8 where "Perm_KernelExecute = push_bit 3 4"
definition Perm_NotMapped :: u8 where "Perm_NotMapped = push_bit 6 1"
definition Perm_UserRead :: u8 where "Perm_UserRead = 1 OR Perm_KernelRead"
definition Perm_UserWrite :: u8 where "Perm_UserWrite = 2 OR Perm_KernelWrite"
definition Perm_UserExecute :: u8 where "Perm_UserExecute = 4"
definition Perm_UserReadWrite :: u8 where "Perm_UserReadWrite = Perm_UserRead OR Perm_UserWrite"
definition Perm_UserMask :: u8 where "Perm_UserMask = 1 OR 2 OR 4"
definition Perm_IpcLockChangeMask :: u8 where "Perm_IpcLockChangeMask = Perm_NotMapped OR Perm_UserReadWrite"

definition ConvertToKMemoryPermission :: "u32 \<Rightarrow> u8" where
  "ConvertToKMemoryPermission perm =
     (ucast perm AND Perm_UserMask) OR Perm_KernelRead OR push_bit 3 (ucast perm AND Perm_UserWrite) OR
     (if perm = 0 then Perm_NotMapped else Perm_None)"

definition Attr_None :: u8 where "Attr_None = 0"
definition Attr_Locked :: u8 where "Attr_Locked = push_bit 0 1"
definition Attr_IpcLocked :: u8 where "Attr_IpcLocked = push_bit 1 1"
definition Attr_DeviceShared :: u8 where "Attr_DeviceShared = push_bit 2 1"
definition Attr_Uncached :: u8 where "Attr_Uncached = push_bit 3 1"
definition Attr_PermissionLocked :: u8 where "Attr_PermissionLocked = push_bit 4 1"

definition Merge_None :: u8 where "Merge_None = 0"
definition Merge_Normal :: u8 where "Merge_Normal = push_bit 0 1"
definition Merge_DeviceLeft :: u8 where "Merge_DeviceLeft = push_bit 1 1"
definition Merge_IpcLeft :: u8 where "Merge_IpcLeft = push_bit 2 1"
definition Merge_Locked :: u8 where "Merge_Locked = push_bit 3 1"
definition Merge_DeviceRight :: u8 where "Merge_DeviceRight = push_bit 4 1"
definition Merge_AllLeft :: u8 where
  "Merge_AllLeft = Merge_Normal OR Merge_DeviceLeft OR Merge_IpcLeft OR Merge_Locked"
definition Merge_AllRight :: u8 where "Merge_AllRight = Merge_DeviceRight"

lemmas perm_defs = Perm_None_def Perm_KernelRead_def Perm_KernelWrite_def Perm_KernelExecute_def
  Perm_NotMapped_def Perm_UserRead_def Perm_UserWrite_def Perm_UserExecute_def Perm_UserReadWrite_def
  Perm_UserMask_def Perm_IpcLockChangeMask_def

lemmas attr_defs = Attr_None_def Attr_Locked_def Attr_IpcLocked_def Attr_DeviceShared_def
  Attr_Uncached_def Attr_PermissionLocked_def

lemmas merge_defs = Merge_None_def Merge_Normal_def Merge_DeviceLeft_def Merge_IpcLeft_def
  Merge_Locked_def Merge_DeviceRight_def Merge_AllLeft_def Merge_AllRight_def

section \<open>Blocks\<close>

definition PageSize :: u64 where "PageSize = push_bit 12 1"

record KMemoryBlock =
  m_device_disable_merge_left_count :: u16
  m_device_disable_merge_right_count :: u16
  m_address :: u64
  m_num_pages :: u64
  m_memory_state :: u32
  m_ipc_lock_count :: u16
  m_device_use_count :: u16
  m_ipc_disable_merge_count :: u16
  m_permission :: u8
  m_original_permission :: u8
  m_attribute :: u8
  m_disable_merge_attribute :: u8

definition GetSize :: "KMemoryBlock \<Rightarrow> u64" where
  "GetSize b = m_num_pages b * PageSize"

definition GetEndAddress :: "KMemoryBlock \<Rightarrow> u64" where
  "GetEndAddress b = m_address b + GetSize b"

definition GetLastAddress :: "KMemoryBlock \<Rightarrow> u64" where
  "GetLastAddress b = GetEndAddress b - 1"

text \<open>\<^verbatim>\<open>Initialize\<close> keeps the count of the block it is called on that the code does not reset.\<close>

definition Block_Initialize :: "u64 \<Rightarrow> u64 \<Rightarrow> u32 \<Rightarrow> u8 \<Rightarrow> u8 \<Rightarrow> KMemoryBlock \<Rightarrow> KMemoryBlock" where
  "Block_Initialize addr np ms p attr b =
     b\<lparr> m_device_disable_merge_left_count := 0, m_device_disable_merge_right_count := 0,
       m_address := addr, m_num_pages := np, m_memory_state := ms, m_ipc_lock_count := 0,
       m_device_use_count := 0, m_permission := p, m_original_permission := Perm_None,
       m_attribute := attr, m_disable_merge_attribute := Merge_None \<rparr>"

definition HasProperties :: "u32 \<Rightarrow> u8 \<Rightarrow> u8 \<Rightarrow> KMemoryBlock \<Rightarrow> bool" where
  "HasProperties s p a b \<longleftrightarrow>
     (let AttributeIgnoreMask = Attr_IpcLocked OR Attr_DeviceShared
      in m_memory_state b = s \<and> m_permission b = p \<and>
         m_attribute b OR AttributeIgnoreMask = a OR AttributeIgnoreMask)"

definition HasSameProperties :: "KMemoryBlock \<Rightarrow> KMemoryBlock \<Rightarrow> bool" where
  "HasSameProperties b rhs \<longleftrightarrow>
     m_memory_state b = m_memory_state rhs \<and> m_permission b = m_permission rhs \<and>
     m_original_permission b = m_original_permission rhs \<and> m_attribute b = m_attribute rhs \<and>
     m_ipc_lock_count b = m_ipc_lock_count rhs \<and> m_device_use_count b = m_device_use_count rhs"

definition CanMergeWith :: "KMemoryBlock \<Rightarrow> KMemoryBlock \<Rightarrow> bool" where
  "CanMergeWith b rhs \<longleftrightarrow>
     HasSameProperties b rhs \<and> m_disable_merge_attribute b AND Merge_AllRight = Merge_None \<and>
     m_disable_merge_attribute rhs AND Merge_AllLeft = Merge_None"

definition Block_Add :: "KMemoryBlock \<Rightarrow> KMemoryBlock \<Rightarrow> KMemoryBlock" where
  "Block_Add b added_block =
     b\<lparr> m_num_pages := m_num_pages b + m_num_pages added_block,
       m_disable_merge_attribute := m_disable_merge_attribute b OR m_disable_merge_attribute added_block,
       m_device_disable_merge_right_count := m_device_disable_merge_right_count added_block \<rparr>"

definition Block_Update ::
  "u32 \<Rightarrow> u8 \<Rightarrow> u8 \<Rightarrow> bool \<Rightarrow> u8 \<Rightarrow> u8 \<Rightarrow> KMemoryBlock \<Rightarrow> KMemoryBlock" where
  "Block_Update s p a set_disable_merge_attr set_mask clear_mask b =
     (let b1 = b\<lparr> m_memory_state := s, m_permission := p,
                 m_attribute := a OR (m_attribute b AND (Attr_IpcLocked OR Attr_DeviceShared)) \<rparr>;
          b2 = (if set_disable_merge_attr \<and> set_mask \<noteq> 0
                then b1\<lparr> m_disable_merge_attribute := m_disable_merge_attribute b1 OR set_mask \<rparr> else b1)
      in if clear_mask \<noteq> 0
         then b2\<lparr> m_disable_merge_attribute := m_disable_merge_attribute b2 AND NOT clear_mask \<rparr> else b2)"

definition Block_UpdateAttribute :: "u8 \<Rightarrow> u8 \<Rightarrow> KMemoryBlock \<Rightarrow> KMemoryBlock" where
  "Block_UpdateAttribute mask' attr b =
     b\<lparr> m_attribute := (m_attribute b AND NOT mask') OR attr \<rparr>"

text \<open>The new block, which becomes the left part, and the rest.\<close>

definition Split :: "u64 \<Rightarrow> KMemoryBlock \<Rightarrow> KMemoryBlock \<times> KMemoryBlock" where
  "Split addr b =
     (let block =
        \<lparr> m_device_disable_merge_left_count = m_device_disable_merge_left_count b,
          m_device_disable_merge_right_count = 0,
          m_address = m_address b,
          m_num_pages = (addr - m_address b) div PageSize,
          m_memory_state = m_memory_state b,
          m_ipc_lock_count = m_ipc_lock_count b,
          m_device_use_count = m_device_use_count b,
          m_ipc_disable_merge_count = m_ipc_disable_merge_count b,
          m_permission = m_permission b,
          m_original_permission = m_original_permission b,
          m_attribute = m_attribute b,
          m_disable_merge_attribute = m_disable_merge_attribute b AND Merge_AllLeft \<rparr>
      in (block,
          b\<lparr> m_address := addr, m_num_pages := m_num_pages b - m_num_pages block,
            m_ipc_disable_merge_count := 0, m_device_disable_merge_left_count := 0,
            m_disable_merge_attribute := m_disable_merge_attribute b AND Merge_AllRight \<rparr>))"

section \<open>Sharing with devices\<close>

definition ForShareLeft :: "bool \<Rightarrow> KMemoryBlock \<Rightarrow> KMemoryBlock" where
  "ForShareLeft left b =
     (if left
      then b\<lparr> m_disable_merge_attribute := m_disable_merge_attribute b OR Merge_DeviceLeft,
             m_device_disable_merge_left_count := m_device_disable_merge_left_count b + 1 \<rparr>
      else b)"

definition ForShareRight :: "bool \<Rightarrow> KMemoryBlock \<Rightarrow> KMemoryBlock" where
  "ForShareRight right b =
     (if right
      then b\<lparr> m_disable_merge_attribute := m_disable_merge_attribute b OR Merge_DeviceRight,
             m_device_disable_merge_right_count := m_device_disable_merge_right_count b + 1 \<rparr>
      else b)"

definition ForShare :: "bool \<Rightarrow> bool \<Rightarrow> KMemoryBlock \<Rightarrow> KMemoryBlock" where
  "ForShare left right b = ForShareRight right (ForShareLeft left b)"

definition ShareToDevice :: "u8 \<Rightarrow> bool \<Rightarrow> bool \<Rightarrow> KMemoryBlock \<Rightarrow> KMemoryBlock" where
  "ShareToDevice new_perm left right b =
     ForShare left right
       (b\<lparr> m_device_use_count := m_device_use_count b + 1,
          m_attribute := m_attribute b OR Attr_DeviceShared \<rparr>)"

definition ForUnshareLeft :: "bool \<Rightarrow> KMemoryBlock \<Rightarrow> KMemoryBlock" where
  "ForUnshareLeft left b =
     (if left \<and> m_device_disable_merge_left_count b = 0 then b
      else
        let b1 = (if left
                  then b\<lparr> m_device_disable_merge_left_count := m_device_disable_merge_left_count b - 1 \<rparr>
                  else b);
            b2 = b1\<lparr> m_device_disable_merge_left_count :=
                       min (m_device_disable_merge_left_count b1) (m_device_use_count b1) \<rparr>
        in if m_device_disable_merge_left_count b2 = 0
           then b2\<lparr> m_disable_merge_attribute := m_disable_merge_attribute b2 AND NOT Merge_DeviceLeft \<rparr>
           else b2)"

definition ForUnshareRight :: "bool \<Rightarrow> KMemoryBlock \<Rightarrow> KMemoryBlock" where
  "ForUnshareRight right b =
     (if right
      then
        let b1 = b\<lparr> m_device_disable_merge_right_count := m_device_disable_merge_right_count b - 1 \<rparr>
        in if m_device_disable_merge_right_count b = 1
           then b1\<lparr> m_disable_merge_attribute := m_disable_merge_attribute b1 AND NOT Merge_DeviceRight \<rparr>
           else b1
      else b)"

definition ForUnshare :: "bool \<Rightarrow> bool \<Rightarrow> KMemoryBlock \<Rightarrow> KMemoryBlock" where
  "ForUnshare left right b = ForUnshareRight right (ForUnshareLeft left b)"

definition unuse_device :: "KMemoryBlock \<Rightarrow> KMemoryBlock" where
  "unuse_device b =
     (let b1 = b\<lparr> m_device_use_count := m_device_use_count b - 1 \<rparr>
      in if m_device_use_count b = 1
         then b1\<lparr> m_attribute := m_attribute b1 AND NOT Attr_DeviceShared \<rparr> else b1)"

definition UnshareToDevice :: "u8 \<Rightarrow> bool \<Rightarrow> bool \<Rightarrow> KMemoryBlock \<Rightarrow> KMemoryBlock" where
  "UnshareToDevice new_perm left right b = ForUnshare left right (unuse_device b)"

definition UnshareToDeviceRight :: "u8 \<Rightarrow> bool \<Rightarrow> bool \<Rightarrow> KMemoryBlock \<Rightarrow> KMemoryBlock" where
  "UnshareToDeviceRight new_perm left right b = ForUnshareRight right (unuse_device b)"

section \<open>Locking for IPC\<close>

definition LockForIpc :: "u8 \<Rightarrow> bool \<Rightarrow> bool \<Rightarrow> KMemoryBlock \<Rightarrow> KMemoryBlock" where
  "LockForIpc new_perm left right b =
     (let b1 = b\<lparr> m_ipc_lock_count := m_ipc_lock_count b + 1 \<rparr>;
          b2 = (if m_ipc_lock_count b1 = 1
                then b1\<lparr> m_original_permission := m_permission b1,
                        m_permission := (new_perm AND Perm_IpcLockChangeMask) OR
                                        (m_permission b1 AND NOT Perm_IpcLockChangeMask) \<rparr>
                else b1);
          b3 = b2\<lparr> m_attribute := m_attribute b2 OR Attr_IpcLocked \<rparr>
      in if left
         then b3\<lparr> m_disable_merge_attribute := m_disable_merge_attribute b3 OR Merge_IpcLeft,
                 m_ipc_disable_merge_count := m_ipc_disable_merge_count b3 + 1 \<rparr>
         else b3)"

definition UnlockForIpc :: "u8 \<Rightarrow> bool \<Rightarrow> bool \<Rightarrow> KMemoryBlock \<Rightarrow> KMemoryBlock" where
  "UnlockForIpc new_perm left right b =
     (let b1 = b\<lparr> m_ipc_lock_count := m_ipc_lock_count b - 1 \<rparr>;
          b2 = (if m_ipc_lock_count b = 1
                then b1\<lparr> m_permission := m_original_permission b1, m_original_permission := Perm_None,
                        m_attribute := m_attribute b1 AND NOT Attr_IpcLocked \<rparr>
                else b1)
      in if left
         then
           let b3 = b2\<lparr> m_ipc_disable_merge_count := m_ipc_disable_merge_count b2 - 1 \<rparr>
           in if m_ipc_disable_merge_count b2 = 1
              then b3\<lparr> m_disable_merge_attribute := m_disable_merge_attribute b3 AND NOT Merge_IpcLeft \<rparr>
              else b3
         else b2)"

end
