(* ===== verification/KMemoryBlockManager.thy ===== *)
theory KMemoryBlockManager
  imports KMemoryBlock
begin

text \<open>
  The memory block manager of the kernel, \<^verbatim>\<open>core/hle/kernel/k_memory_block_manager.cpp\<close>: the
  address space of a process as a sequence of blocks, split and merged as the state,
  permission and attributes of page ranges change.

  The red-black tree is the list of its blocks in order; an iterator is a position in it, so
  a loop works on the blocks from its iterator on. Dereferencing the end iterator, stepping
  back from the first block and taking more blocks than the update allocator holds are
  errors. The four update loops of the code differ in the test that selects a block and in
  the change made to it; \<open>update_loop\<close> takes both as arguments. A loop visits each block at most
  once, so the number of blocks plus one is enough fuel.
\<close>

unbundle bit_operations_syntax

section \<open>State\<close>

datatype block_error = EndOfTree | BeforeBegin | NoBlockLeft | OutOfFuel

definition MaxBlocks :: nat where "MaxBlocks = 2"

record UpdateAllocator =
  m_index :: nat
  freed_to_slab :: nat

record KMemoryBlockManager =
  m_memory_block_tree :: "KMemoryBlock list"
  m_start_address :: u64
  m_end_address :: u64

definition UpdateAllocator_ctor :: "nat \<Rightarrow> UpdateAllocator" where
  "UpdateAllocator_ctor num_blocks = \<lparr> m_index = MaxBlocks - num_blocks, freed_to_slab = 0 \<rparr>"

definition Allocate :: "UpdateAllocator \<Rightarrow> block_error + UpdateAllocator" where
  "Allocate al = (if m_index al < MaxBlocks then Inr (al\<lparr> m_index := m_index al + 1 \<rparr>) else Inl NoBlockLeft)"

definition Free :: "UpdateAllocator \<Rightarrow> UpdateAllocator" where
  "Free al =
     (if m_index al = 0 then al\<lparr> freed_to_slab := freed_to_slab al + 1 \<rparr>
      else al\<lparr> m_index := m_index al - 1 \<rparr>)"

section \<open>Finding\<close>

text \<open>The blocks before the iterator and those from it on; none when the address is in no block.\<close>

definition holds_address :: "u64 \<Rightarrow> KMemoryBlock \<Rightarrow> bool" where
  "holds_address address b \<longleftrightarrow> m_address b \<le> address \<and> address \<le> GetLastAddress b"

definition FindIterator :: "u64 \<Rightarrow> KMemoryBlock list \<Rightarrow> KMemoryBlock list \<times> KMemoryBlock list" where
  "FindIterator address tree =
     (takeWhile (\<lambda>b. \<not> holds_address address b) tree, dropWhile (\<lambda>b. \<not> holds_address address b) tree)"

definition FindBlock :: "u64 \<Rightarrow> KMemoryBlockManager \<Rightarrow> KMemoryBlock option" where
  "FindBlock address m =
     (case snd (FindIterator address (m_memory_block_tree m)) of [] \<Rightarrow> None | b # rest \<Rightarrow> Some b)"

text \<open>The tree takes one block of the slab, with whatever it holds; \<open>None\<close> when there is none.\<close>

definition Manager_Initialize ::
  "u64 \<Rightarrow> u64 \<Rightarrow> KMemoryBlock option \<Rightarrow> KMemoryBlockManager \<Rightarrow> bool \<times> KMemoryBlockManager" where
  "Manager_Initialize st nd slab m =
     (case slab of
        None \<Rightarrow> (False, m)
      | Some start_block \<Rightarrow>
          (True,
           m\<lparr> m_start_address := st, m_end_address := nd,
             m_memory_block_tree :=
               [Block_Initialize st ((nd - st) div PageSize) State_Free Perm_None Attr_None start_block] \<rparr>))"

definition Manager_Finalize :: "KMemoryBlockManager \<Rightarrow> (u64 \<times> u64) list \<times> KMemoryBlockManager" where
  "Manager_Finalize m =
     (map (\<lambda>b. (m_address b, GetSize b)) (m_memory_block_tree m), m\<lparr> m_memory_block_tree := [] \<rparr>)"

definition AlignDown :: "u64 \<Rightarrow> u64 \<Rightarrow> u64" where
  "AlignDown v n = v - v mod n"

text \<open>The candidate area in a free block.\<close>

definition free_area :: "u64 \<Rightarrow> u64 \<Rightarrow> u64 \<Rightarrow> u64 \<Rightarrow> KMemoryBlock \<Rightarrow> u64" where
  "free_area region_start alignment offset guard_pages b =
     (let area0 = (if m_address b \<le> region_start then region_start else m_address b) + guard_pages * PageSize;
          offset_area = AlignDown area0 alignment + offset
      in if area0 \<le> offset_area then offset_area else offset_area + alignment)"

primrec FindFreeArea_loop ::
  "u64 \<Rightarrow> u64 \<Rightarrow> u64 \<Rightarrow> u64 \<Rightarrow> u64 \<Rightarrow> u64 \<Rightarrow> KMemoryBlock list \<Rightarrow> u64" where
  "FindFreeArea_loop region_start region_last num_pages alignment offset guard_pages [] = 0"
| "FindFreeArea_loop region_start region_last num_pages alignment offset guard_pages (b # bs) =
     (if region_last < m_address b then 0
      else if m_memory_state b \<noteq> State_Free
      then FindFreeArea_loop region_start region_last num_pages alignment offset guard_pages bs
      else
        let area = free_area region_start alignment offset guard_pages b;
            area_end = area + num_pages * PageSize + guard_pages * PageSize;
            area_last = area_end - 1
        in if m_address b \<le> area \<and> area < area_last \<and> area_last \<le> region_last \<and> area_last \<le> GetLastAddress b
           then area
           else FindFreeArea_loop region_start region_last num_pages alignment offset guard_pages bs)"

definition FindFreeArea ::
  "u64 \<Rightarrow> u64 \<Rightarrow> u64 \<Rightarrow> u64 \<Rightarrow> u64 \<Rightarrow> u64 \<Rightarrow> KMemoryBlockManager \<Rightarrow> u64" where
  "FindFreeArea region_start region_num_pages num_pages alignment offset guard_pages m =
     (if num_pages > 0
      then FindFreeArea_loop region_start (region_start + region_num_pages * PageSize - 1) num_pages
             alignment offset guard_pages (snd (FindIterator region_start (m_memory_block_tree m)))
      else 0)"

section \<open>Updating\<close>

fun coalesce_loop ::
  "u64 \<Rightarrow> UpdateAllocator \<Rightarrow> KMemoryBlock list \<Rightarrow> KMemoryBlock list \<times> UpdateAllocator" where
  "coalesce_loop limit al (prev # it # rest) =
     (if CanMergeWith prev it
      then
        let merged = Block_Add prev it; al1 = Free al
        in if limit < GetEndAddress merged then (merged # rest, al1)
           else coalesce_loop limit al1 (merged # rest)
      else if limit < GetEndAddress it then (prev # it # rest, al)
      else case coalesce_loop limit al (it # rest) of (bs, al1) \<Rightarrow> (prev # bs, al1))"
| "coalesce_loop limit al bs = (bs, al)"

definition CoalesceForUpdate ::
  "u64 \<Rightarrow> u64 \<Rightarrow> u64 \<Rightarrow> UpdateAllocator \<Rightarrow> KMemoryBlock list \<Rightarrow>
   block_error + KMemoryBlock list \<times> UpdateAllocator" where
  "CoalesceForUpdate start address num_pages al tree =
     (let (before, rest) = FindIterator address tree; limit = address + num_pages * PageSize
      in if rest = [] then Inl EndOfTree
         else if address \<noteq> start then
           (if before = [] then Inl BeforeBegin
            else case coalesce_loop limit al (last before # rest) of
                   (bs, al1) \<Rightarrow> Inr (butlast before @ bs, al1))
         else case coalesce_loop limit al rest of (bs, al1) \<Rightarrow> Inr (before @ bs, al1))"

text \<open>Splitting off what lies before the current address and what lies behind the range.\<close>

definition split_before ::
  "u64 \<Rightarrow> KMemoryBlock \<Rightarrow> UpdateAllocator \<Rightarrow> block_error + KMemoryBlock list \<times> KMemoryBlock \<times> UpdateAllocator" where
  "split_before cur_address b al =
     (if m_address b \<noteq> cur_address
      then (case Allocate al of
              Inl e \<Rightarrow> Inl e
            | Inr al1 \<Rightarrow> (case Split cur_address b of (new_block, b1) \<Rightarrow> Inr ([new_block], b1, al1)))
      else Inr ([], b, al))"

definition split_after ::
  "u64 \<Rightarrow> u64 \<Rightarrow> KMemoryBlock \<Rightarrow> UpdateAllocator \<Rightarrow> block_error + KMemoryBlock \<times> KMemoryBlock list \<times> UpdateAllocator" where
  "split_after cur_address remaining_size b al =
     (if GetSize b > remaining_size
      then (case Allocate al of
              Inl e \<Rightarrow> Inl e
            | Inr al1 \<Rightarrow> (case Split (cur_address + remaining_size) b of (new_block, b1) \<Rightarrow> Inr (new_block, [b1], al1)))
      else Inr (b, [], al))"

primrec update_loop ::
  "nat \<Rightarrow> (KMemoryBlock \<Rightarrow> bool) \<Rightarrow> (KMemoryBlock \<Rightarrow> KMemoryBlock) \<Rightarrow> u64 \<Rightarrow> u64 \<Rightarrow> KMemoryBlock list \<Rightarrow>
   UpdateAllocator \<Rightarrow> block_error + KMemoryBlock list \<times> UpdateAllocator" where
  "update_loop 0 needs change cur_address remaining_pages bs al = Inl OutOfFuel"
| "update_loop (Suc fuel) needs change cur_address remaining_pages bs al =
     (if remaining_pages = 0 then Inr (bs, al)
      else case bs of
        [] \<Rightarrow> Inl EndOfTree
      | b # rest \<Rightarrow>
          let remaining_size = remaining_pages * PageSize
          in if \<not> needs b then
               (if cur_address + remaining_size < GetEndAddress b then Inr (bs, al)
                else map_sum id (apfst (Cons b))
                       (update_loop fuel needs change (GetEndAddress b)
                          ((cur_address + remaining_size - GetEndAddress b) div PageSize) rest al))
             else
               (case split_before cur_address b al of
                  Inl e \<Rightarrow> Inl e
                | Inr (pre, b1, al1) \<Rightarrow>
                    (case split_after cur_address remaining_size b1 al1 of
                       Inl e \<Rightarrow> Inl e
                     | Inr (b2, post, al2) \<Rightarrow>
                         map_sum id (apfst (\<lambda>bs'. pre @ change b2 # bs'))
                           (update_loop fuel needs change (cur_address + GetSize b2)
                              (remaining_pages - GetSize b2 div PageSize) (post @ rest) al2))))"

definition update_range ::
  "(KMemoryBlock \<Rightarrow> bool) \<Rightarrow> (KMemoryBlock \<Rightarrow> KMemoryBlock) \<Rightarrow> UpdateAllocator \<Rightarrow> u64 \<Rightarrow> u64 \<Rightarrow>
   KMemoryBlockManager \<Rightarrow> block_error + KMemoryBlockManager \<times> UpdateAllocator" where
  "update_range needs change al address num_pages m =
     (let (before, rest) = FindIterator address (m_memory_block_tree m)
      in case update_loop (length rest + 1) needs change address num_pages rest al of
           Inl e \<Rightarrow> Inl e
         | Inr (rest1, al1) \<Rightarrow>
             map_sum id (apfst (\<lambda>tree. m\<lparr> m_memory_block_tree := tree \<rparr>))
               (CoalesceForUpdate (m_start_address m) address num_pages al1 (before @ rest1)))"

definition Manager_Update ::
  "UpdateAllocator \<Rightarrow> u64 \<Rightarrow> u64 \<Rightarrow> u32 \<Rightarrow> u8 \<Rightarrow> u8 \<Rightarrow> u8 \<Rightarrow> u8 \<Rightarrow> KMemoryBlockManager \<Rightarrow>
   block_error + KMemoryBlockManager \<times> UpdateAllocator" where
  "Manager_Update al address num_pages state perm attr set_disable_attr clear_disable_attr =
     update_range (\<lambda>b. \<not> HasProperties state perm attr b)
       (\<lambda>b. Block_Update state perm attr (m_address b = address) set_disable_attr clear_disable_attr b)
       al address num_pages"

definition UpdateIfMatch ::
  "UpdateAllocator \<Rightarrow> u64 \<Rightarrow> u64 \<Rightarrow> u32 \<Rightarrow> u8 \<Rightarrow> u8 \<Rightarrow> u32 \<Rightarrow> u8 \<Rightarrow> u8 \<Rightarrow> u8 \<Rightarrow> u8 \<Rightarrow>
   KMemoryBlockManager \<Rightarrow> block_error + KMemoryBlockManager \<times> UpdateAllocator" where
  "UpdateIfMatch al address num_pages test_state test_perm test_attr state perm attr
     set_disable_attr clear_disable_attr =
     update_range (\<lambda>b. HasProperties test_state test_perm test_attr b \<and> \<not> HasProperties state perm attr b)
       (Block_Update state perm attr False set_disable_attr clear_disable_attr) al address num_pages"

definition UpdateLock ::
  "UpdateAllocator \<Rightarrow> u64 \<Rightarrow> u64 \<Rightarrow> (u8 \<Rightarrow> bool \<Rightarrow> bool \<Rightarrow> KMemoryBlock \<Rightarrow> KMemoryBlock) \<Rightarrow> u8 \<Rightarrow>
   KMemoryBlockManager \<Rightarrow> block_error + KMemoryBlockManager \<times> UpdateAllocator" where
  "UpdateLock al address num_pages lock_func perm =
     update_range (\<lambda>b. True)
       (\<lambda>b. lock_func perm (m_address b = address) (GetEndAddress b = address + num_pages * PageSize) b)
       al address num_pages"

definition Manager_UpdateAttribute ::
  "UpdateAllocator \<Rightarrow> u64 \<Rightarrow> u64 \<Rightarrow> u8 \<Rightarrow> u8 \<Rightarrow> KMemoryBlockManager \<Rightarrow>
   block_error + KMemoryBlockManager \<times> UpdateAllocator" where
  "Manager_UpdateAttribute al address num_pages mask' attr =
     update_range (\<lambda>b. m_attribute b AND mask' \<noteq> attr) (Block_UpdateAttribute mask' attr) al address num_pages"

section \<open>Checking\<close>

definition counts_match :: "KMemoryBlock \<Rightarrow> bool" where
  "counts_match b \<longleftrightarrow>
     \<not> (m_attribute b AND Attr_IpcLocked \<noteq> Attr_None \<and> m_ipc_lock_count b = 0) \<and>
     \<not> (m_attribute b AND Attr_DeviceShared \<noteq> Attr_None \<and> m_device_use_count b = 0)"

fun CheckState_loop :: "KMemoryBlock list \<Rightarrow> bool" where
  "CheckState_loop (prev # it # rest) =
     (if CanMergeWith prev it then False
      else if GetEndAddress prev \<noteq> m_address it then False
      else if \<not> counts_match it then False
      else CheckState_loop (it # rest))"
| "CheckState_loop [prev] = counts_match prev"
| "CheckState_loop [] = True"

definition CheckState :: "KMemoryBlockManager \<Rightarrow> bool" where
  "CheckState m = CheckState_loop (m_memory_block_tree m)"

end
