(* ===== verification/PageTable.thy ===== *)
theory PageTable
  imports Prelude
begin

text \<open>
  The emulator's view of a guest address space, \<^verbatim>\<open>Common::PageTable\<close> (\<^verbatim>\<open>common/page_table.h\<close>,
  \<^verbatim>\<open>common/page_table.cpp\<close>): per page a host pointer tagged with the page type in its low
  two bits, the physical backing address and the block the page belongs to. Pointers and
  backing addresses are stored relative to the page's virtual address, so that adding the
  virtual address gives the target.
\<close>

unbundle bit_operations_syntax

section \<open>Page entries\<close>

datatype PageType = Unmapped | Memory | DebugMemory | RasterizerCachedMemory

primrec PageType_code :: "PageType \<Rightarrow> u64" where
  "PageType_code Unmapped = 0"
| "PageType_code Memory = 1"
| "PageType_code DebugMemory = 2"
| "PageType_code RasterizerCachedMemory = 3"

definition ATTRIBUTE_BITS :: nat where
  "ATTRIBUTE_BITS = 2"

definition PageInfo_Store :: "u64 \<Rightarrow> PageType \<Rightarrow> u64" where
  "PageInfo_Store pointer t = pointer OR PageType_code t"

definition ExtractPointer :: "u64 \<Rightarrow> u64" where
  "ExtractPointer raw = raw AND push_bit ATTRIBUTE_BITS (NOT 0)"

definition ExtractType :: "u64 \<Rightarrow> PageType" where
  "ExtractType raw =
     (let t = raw AND (push_bit ATTRIBUTE_BITS 1 - 1)
      in if t = 0 then Unmapped else if t = 1 then Memory
         else if t = 2 then DebugMemory else RasterizerCachedMemory)"

section \<open>The table\<close>

record PageTable =
  pointers :: "u64 list"
  blocks :: "u64 list"
  backing_addr :: "u64 list"
  current_address_space_width_in_bits :: nat
  fastmem_arena :: bool
  page_size :: u64

definition PageTable_ctor :: PageTable where
  "PageTable_ctor = \<lparr> pointers = [], blocks = [], backing_addr = [],
     current_address_space_width_in_bits = 0, fastmem_arena = False, page_size = 0 \<rparr>"

text \<open>\<^verbatim>\<open>VirtualBuffer::resize\<close>: fresh zero pages unless the size stays the same.\<close>

definition VirtualBuffer_resize :: "nat \<Rightarrow> u64 list \<Rightarrow> u64 list" where
  "VirtualBuffer_resize count buf = (if count = length buf then buf else replicate count 0)"

definition Resize :: "nat \<Rightarrow> nat \<Rightarrow> PageTable \<Rightarrow> PageTable" where
  "Resize address_space_width_in_bits page_size_in_bits t =
     (let n = 2 ^ (address_space_width_in_bits - page_size_in_bits)
      in t\<lparr> pointers := VirtualBuffer_resize n (pointers t),
           backing_addr := VirtualBuffer_resize n (backing_addr t),
           blocks := VirtualBuffer_resize n (blocks t),
           current_address_space_width_in_bits := address_space_width_in_bits,
           page_size := push_bit page_size_in_bits 1 \<rparr>)"

definition GetAddressSpaceBits :: "PageTable \<Rightarrow> nat" where
  "GetAddressSpaceBits t = current_address_space_width_in_bits t"

definition GetPhysicalAddress :: "PageTable \<Rightarrow> u64 \<Rightarrow> u64 option" where
  "GetPhysicalAddress t virt_addr =
     (if virt_addr > push_bit (GetAddressSpaceBits t) 1 then None
      else Some (backing_addr t ! unat (virt_addr div page_size t) + virt_addr))"

section \<open>Traversal\<close>

record TraversalEntry =
  phys_addr :: u64
  block_size :: u64

record TraversalContext =
  next_page :: u64
  next_offset :: u64

definition ContinueTraversal ::
  "PageTable \<Rightarrow> TraversalContext \<Rightarrow> bool \<times> TraversalEntry \<times> TraversalContext" where
  "ContinueTraversal t ctx =
     (let ctx' = \<lparr> next_page = next_page ctx + 1, next_offset = next_offset ctx + page_size t \<rparr>;
          invalid = \<lparr> phys_addr = 0, block_size = page_size t \<rparr>;
          page = unat (next_page ctx)
      in if page \<ge> length (backing_addr t) then (False, invalid, ctx')
         else if backing_addr t ! page = 0 then (False, invalid, ctx')
         else (True, invalid\<lparr> phys_addr := backing_addr t ! page + next_offset ctx \<rparr>, ctx'))"

definition BeginTraversal ::
  "PageTable \<Rightarrow> u64 \<Rightarrow> bool \<times> TraversalEntry \<times> TraversalContext" where
  "BeginTraversal t address =
     ContinueTraversal t \<lparr> next_page = address div page_size t, next_offset = address \<rparr>"

end
