(* ===== verification/KPageGroup.thy ===== *)
theory KPageGroup
  imports KMemoryBlockManager PageTable
begin

text \<open>
  Page groups, \<^verbatim>\<open>core/hle/kernel/k_page_group.h\<close> and \<^verbatim>\<open>.cpp\<close>: lists of runs of physical pages, with
  the two functions of \<^verbatim>\<open>KPageTableBase\<close> that make the group of a range of guest memory and that
  compare a group with it. The linked list is a list, its memory a number of block infos
  still available. Whether a physical address belongs to the heap is an argument, a question to the
  memory layout. The loops over a range take fuel, one turn per page and one more.
\<close>

unbundle bit_operations_syntax

section \<open>Results\<close>

datatype kernel_result = ResultInvalidSize | ResultInvalidAddress | ResultOutOfResource | ResultOutOfMemory
  | ResultInvalidCurrentMemory | ResultInvalidNewMemoryPermission | ResultInvalidMemoryRegion
  | ResultInvalidCombination

text \<open>A call fails with a result, or the emulator does.\<close>

datatype kernel_error = Failed kernel_result | Crashed block_error | Unreachable

section \<open>Block infos and groups\<close>

record KBlockInfo =
  m_page_index :: u32
  bi_num_pages :: u32

type_synonym KPageGroup = "KBlockInfo list"

definition BlockInfo_Initialize :: "u64 \<Rightarrow> u64 \<Rightarrow> KBlockInfo" where
  "BlockInfo_Initialize addr np = \<lparr> m_page_index = ucast (addr div PageSize), bi_num_pages = ucast np \<rparr>"

definition BlockInfo_GetAddress :: "KBlockInfo \<Rightarrow> u64" where
  "BlockInfo_GetAddress b = ucast (m_page_index b) * PageSize"

definition BlockInfo_GetNumPages :: "KBlockInfo \<Rightarrow> u64" where
  "BlockInfo_GetNumPages b = ucast (bi_num_pages b)"

definition BlockInfo_GetSize :: "KBlockInfo \<Rightarrow> u64" where
  "BlockInfo_GetSize b = BlockInfo_GetNumPages b * PageSize"

definition BlockInfo_GetEndAddress :: "KBlockInfo \<Rightarrow> u64" where
  "BlockInfo_GetEndAddress b = ucast (m_page_index b + bi_num_pages b) * PageSize"

definition TryConcatenate :: "u64 \<Rightarrow> u64 \<Rightarrow> KBlockInfo \<Rightarrow> bool \<times> KBlockInfo" where
  "TryConcatenate addr np b =
     (if addr \<noteq> 0 \<and> addr = BlockInfo_GetEndAddress b
      then (True, b\<lparr> bi_num_pages := bi_num_pages b + ucast np \<rparr>)
      else (False, b))"

definition PageGroup_GetNumPages :: "KPageGroup \<Rightarrow> u64" where
  "PageGroup_GetNumPages pg = fold (\<lambda>it num_pages. num_pages + BlockInfo_GetNumPages it) pg 0"

definition AddBlock :: "u64 \<Rightarrow> u64 \<Rightarrow> nat \<Rightarrow> KPageGroup \<Rightarrow> kernel_error + KPageGroup \<times> nat" where
  "AddBlock addr num_pages available pg =
     (if num_pages = 0 then Inr (pg, available)
      else if pg \<noteq> [] \<and> fst (TryConcatenate addr num_pages (last pg))
      then Inr (butlast pg @ [snd (TryConcatenate addr num_pages (last pg))], available)
      else if available = 0 then Inl (Failed ResultOutOfResource)
      else Inr (pg @ [BlockInfo_Initialize addr num_pages], available - 1))"

fun PageGroup_IsEquivalentTo :: "KPageGroup \<Rightarrow> KPageGroup \<Rightarrow> bool" where
  "PageGroup_IsEquivalentTo (l # ls) (r # rs) =
     (if m_page_index l = m_page_index r \<and> bi_num_pages l = bi_num_pages r
      then PageGroup_IsEquivalentTo ls rs else False)"
| "PageGroup_IsEquivalentTo ls rs \<longleftrightarrow> ls = [] \<and> rs = []"

section \<open>The group of a range\<close>

text \<open>A failure leaves the blocks added so far in the group, which the error carries.\<close>

primrec MakePageGroup_loop ::
  "nat \<Rightarrow> PageTable \<Rightarrow> (u64 \<Rightarrow> bool) \<Rightarrow> u64 \<Rightarrow> TraversalContext \<Rightarrow> u64 \<Rightarrow> u64 \<Rightarrow> u64 \<Rightarrow> KPageGroup \<Rightarrow> nat \<Rightarrow>
   (kernel_error \<times> KPageGroup) + u64 \<times> u64 \<times> u64 \<times> KPageGroup \<times> nat" where
  "MakePageGroup_loop 0 impl is_heap sz context' cur_addr cur_size tot_size pg available = Inl (Crashed OutOfFuel, pg)"
| "MakePageGroup_loop (Suc fuel) impl is_heap sz context' cur_addr cur_size tot_size pg available =
     (if \<not> tot_size < sz then Inr (cur_addr, cur_size, tot_size, pg, available)
      else case ContinueTraversal impl context' of
        (ok, next_entry, context1) \<Rightarrow>
          if \<not> ok then Inl (Failed ResultInvalidCurrentMemory, pg)
          else if phys_addr next_entry \<noteq> cur_addr + cur_size then
            (if \<not> is_heap cur_addr then Inl (Failed ResultInvalidCurrentMemory, pg)
             else case AddBlock cur_addr (cur_size div PageSize) available pg of
                    Inl e \<Rightarrow> Inl (e, pg)
                  | Inr (pg1, available1) \<Rightarrow>
                      MakePageGroup_loop fuel impl is_heap sz context1 (phys_addr next_entry) (block_size next_entry)
                        (tot_size + block_size next_entry) pg1 available1)
          else MakePageGroup_loop fuel impl is_heap sz context1 cur_addr (cur_size + block_size next_entry)
                 (tot_size + block_size next_entry) pg available)"

definition MakePageGroup ::
  "PageTable \<Rightarrow> (u64 \<Rightarrow> bool) \<Rightarrow> KPageGroup \<Rightarrow> u64 \<Rightarrow> u64 \<Rightarrow> nat \<Rightarrow> (kernel_error \<times> KPageGroup) + KPageGroup \<times> nat" where
  "MakePageGroup impl is_heap pg addr num_pages available =
     (let sz = num_pages * PageSize
      in if pg \<noteq> [] then Inl (Failed ResultInvalidCurrentMemory, pg)
         else case BeginTraversal impl addr of
           (ok, next_entry, context') \<Rightarrow>
             if \<not> ok then Inl (Failed ResultInvalidCurrentMemory, pg)
             else
               let cur_addr = phys_addr next_entry;
                   cur_size = block_size next_entry - (cur_addr AND (block_size next_entry - 1))
               in case MakePageGroup_loop (unat num_pages + 1) impl is_heap sz context' cur_addr cur_size cur_size pg available of
                    Inl e \<Rightarrow> Inl e
                  | Inr (cur_addr1, cur_size1, tot_size1, pg1, available1) \<Rightarrow>
                      let cur_size2 = (if tot_size1 > sz then cur_size1 - (tot_size1 - sz) else cur_size1)
                      in if \<not> is_heap cur_addr1 then Inl (Failed ResultInvalidCurrentMemory, pg1)
                         else map_sum (\<lambda>e. (e, pg1)) id (AddBlock cur_addr1 (cur_size2 div PageSize) available1 pg1))"

text \<open>The position in the group: the blocks after the current one, and what is left of that.\<close>

type_synonym group_position = "KBlockInfo list \<times> u64 \<times> u64"

definition UpdateCurrentIterator :: "group_position \<Rightarrow> group_position option" where
  "UpdateCurrentIterator pos =
     (case pos of (rest, cur_block_address, cur_block_pages) \<Rightarrow>
        if cur_block_pages = 0 then
          (case rest of
             [] \<Rightarrow> None
           | b # bs \<Rightarrow> Some (bs, BlockInfo_GetAddress b, BlockInfo_GetNumPages b))
        else Some pos)"

primrec IsValidPageGroup_loop ::
  "nat \<Rightarrow> PageTable \<Rightarrow> (u64 \<Rightarrow> bool) \<Rightarrow> u64 \<Rightarrow> TraversalContext \<Rightarrow> u64 \<Rightarrow> u64 \<Rightarrow> u64 \<Rightarrow> group_position \<Rightarrow>
   (u64 \<times> u64 \<times> u64 \<times> group_position) option" where
  "IsValidPageGroup_loop 0 impl is_heap sz context' cur_addr cur_size tot_size pos = None"
| "IsValidPageGroup_loop (Suc fuel) impl is_heap sz context' cur_addr cur_size tot_size pos =
     (if \<not> tot_size < sz then Some (cur_addr, cur_size, tot_size, pos)
      else case ContinueTraversal impl context' of
        (ok, next_entry, context1) \<Rightarrow>
          if \<not> ok then None
          else if phys_addr next_entry \<noteq> cur_addr + cur_size then
            (let cur_pages = cur_size div PageSize
             in if \<not> is_heap cur_addr then None
                else case UpdateCurrentIterator pos of
                       None \<Rightarrow> None
                     | Some (rest, cur_block_address, cur_block_pages) \<Rightarrow>
                         if cur_block_address \<noteq> cur_addr \<or> cur_block_pages < cur_pages then None
                         else IsValidPageGroup_loop fuel impl is_heap sz context1 (phys_addr next_entry)
                                (block_size next_entry) (tot_size + block_size next_entry)
                                (rest, cur_block_address + cur_size, cur_block_pages - cur_pages))
          else IsValidPageGroup_loop fuel impl is_heap sz context1 cur_addr (cur_size + block_size next_entry)
                 (tot_size + block_size next_entry) pos)"

text \<open>Running out of fuel counts as refusing the group; the fuel lemmas of \<open>KPageGroupProofs\<close> show that one turn per page and one more is enough.\<close>

definition IsValidPageGroup :: "PageTable \<Rightarrow> (u64 \<Rightarrow> bool) \<Rightarrow> KPageGroup \<Rightarrow> u64 \<Rightarrow> u64 \<Rightarrow> bool" where
  "IsValidPageGroup impl is_heap pg addr num_pages =
     (let sz = num_pages * PageSize
      in case pg of
           [] \<Rightarrow> False
         | b # bs \<Rightarrow>
             (case BeginTraversal impl addr of
                (ok, next_entry, context') \<Rightarrow>
                  if \<not> ok then False
                  else
                    let cur_addr = phys_addr next_entry;
                        cur_size = block_size next_entry - (cur_addr AND (block_size next_entry - 1))
                    in case IsValidPageGroup_loop (unat num_pages + 1) impl is_heap sz context' cur_addr cur_size
                              cur_size (bs, BlockInfo_GetAddress b, BlockInfo_GetNumPages b) of
                         None \<Rightarrow> False
                       | Some (cur_addr1, cur_size1, tot_size1, pos) \<Rightarrow>
                           let cur_size2 = (if tot_size1 > sz then cur_size1 - (tot_size1 - sz) else cur_size1)
                           in if \<not> is_heap cur_addr1 then False
                              else case UpdateCurrentIterator pos of
                                     None \<Rightarrow> False
                                   | Some (rest, cur_block_address, cur_block_pages) \<Rightarrow>
                                       cur_block_address = cur_addr1 \<and> cur_block_pages = cur_size2 div PageSize))"

end
