(* ===== verification/GuestMemory.thy ===== *)
theory GuestMemory
  imports PageTable
begin

text \<open>
  The guest memory subsystem, \<^verbatim>\<open>Core::Memory::Memory::Impl\<close> of \<^verbatim>\<open>core/memory.cpp\<close>: mapping
  pages, walking a block of guest memory page by page, reading, writing, zeroing and copying
  blocks, the scalar accessors, cache maintenance, and marking pages as debugged or cached
  by the rasterizer.

  Host memory is a function from 64-bit host addresses to bytes; the calls on the fastmem
  buffer (\<^verbatim>\<open>Common::HostMemory\<close>) are recorded in a list. The GPU's reaction to an access of a
  rasterizer-cached page is a parameter, a record of two arbitrary state transformers.
  An access through a null pointer and the exception of the cache operations are errors.
\<close>

unbundle bit_operations_syntax

section \<open>State\<close>

definition YUZU_PAGEBITS :: nat where
  "YUZU_PAGEBITS = 12"

definition YUZU_PAGESIZE :: u64 where
  "YUZU_PAGESIZE = push_bit YUZU_PAGEBITS 1"

definition YUZU_PAGEMASK :: u64 where
  "YUZU_PAGEMASK = YUZU_PAGESIZE - 1"

definition DramBase :: u64 where
  "DramBase = 0x80000000"

type_synonym MemoryPermission = u32

abbreviation Permission_Read :: MemoryPermission where "Permission_Read \<equiv> 1"
abbreviation Permission_Write :: MemoryPermission where "Permission_Write \<equiv> 2"

datatype buffer_call =
    Buffer_Map u64 u64 u64 MemoryPermission bool
  | Buffer_Unmap u64 u64 bool
  | Buffer_Protect u64 u64 MemoryPermission

record 'g Memory_Impl =
  current_page_table :: PageTable
  buffer_calls :: "buffer_call list"
  backing_base :: u64
  backing_size :: nat
  host_memory :: "u64 \<Rightarrow> u8"
  gpu_state :: 'g

text \<open>
  The GPU side of an access to rasterizer-cached memory, given the host pointer and the
  size: what \<^verbatim>\<open>ApplyOpOnPointer\<close> with \<^verbatim>\<open>OnCPURead\<close> and with \<^verbatim>\<open>OnCPUWrite\<close> does.
\<close>

record 'g GPU =
  OnCPURead :: "u64 \<Rightarrow> nat \<Rightarrow> 'g Memory_Impl \<Rightarrow> 'g Memory_Impl"
  OnCPUWrite :: "u64 \<Rightarrow> nat \<Rightarrow> 'g Memory_Impl \<Rightarrow> 'g Memory_Impl"

datatype mem_error = InvalidMemoryException | NullPointerAccess

section \<open>Host memory\<close>

definition DeviceMemory_GetPointer :: "'g Memory_Impl \<Rightarrow> u64 \<Rightarrow> u64" where
  "DeviceMemory_GetPointer m addr = backing_base m + (addr - DramBase)"

definition read_host :: "(u64 \<Rightarrow> u8) \<Rightarrow> u64 \<Rightarrow> nat \<Rightarrow> u8 list" where
  "read_host hm p n = map (\<lambda>i. hm (p + word_of_nat i)) [0..<n]"

definition write_host :: "u64 \<Rightarrow> u8 list \<Rightarrow> (u64 \<Rightarrow> u8) \<Rightarrow> (u64 \<Rightarrow> u8)" where
  "write_host p bs hm = (\<lambda>q. if unat (q - p) < length bs then bs ! unat (q - p) else hm q)"

section \<open>Mapping\<close>

definition AddressSpaceContains :: "PageTable \<Rightarrow> u64 \<Rightarrow> u64 \<Rightarrow> bool" where
  "AddressSpaceContains table addr len =
     (let max_addr = push_bit (GetAddressSpaceBits table) 1
      in addr + len \<ge> addr \<and> addr + len \<le> max_addr)"

primrec MapPages_clear :: "nat \<Rightarrow> u64 \<Rightarrow> PageType \<Rightarrow> PageTable \<Rightarrow> PageTable" where
  "MapPages_clear 0 base t pt = pt"
| "MapPages_clear (Suc n) base t pt =
     MapPages_clear n (base + 1) t
       (pt\<lparr> pointers := (pointers pt)[unat base := PageInfo_Store 0 t],
           backing_addr := (backing_addr pt)[unat base := 0],
           blocks := (blocks pt)[unat base := 0] \<rparr>)"

primrec MapPages_set ::
  "nat \<Rightarrow> 'g Memory_Impl \<Rightarrow> u64 \<Rightarrow> u64 \<Rightarrow> u64 \<Rightarrow> PageType \<Rightarrow> PageTable \<Rightarrow> PageTable" where
  "MapPages_set 0 m orig_base base target t pt = pt"
| "MapPages_set (Suc n) m orig_base base target t pt =
     (let host_ptr = DeviceMemory_GetPointer m target - push_bit YUZU_PAGEBITS base;
          backing = target - push_bit YUZU_PAGEBITS base
      in MapPages_set n m orig_base (base + 1) (target + YUZU_PAGESIZE) t
           (pt\<lparr> pointers := (pointers pt)[unat base := PageInfo_Store host_ptr t],
               backing_addr := (backing_addr pt)[unat base := backing],
               blocks := (blocks pt)[unat base := push_bit YUZU_PAGEBITS orig_base] \<rparr>))"

definition MapPages ::
  "'g Memory_Impl \<Rightarrow> PageTable \<Rightarrow> u64 \<Rightarrow> u64 \<Rightarrow> u64 \<Rightarrow> PageType \<Rightarrow> PageTable" where
  "MapPages m pt base len target t =
     (if target = 0 then MapPages_clear (unat len) base t pt
      else MapPages_set (unat len) m base base target t pt)"

text \<open>
  The table is an argument by reference, which may or may not be the current one; the
  result is the new table and the memory with the recorded buffer call.
\<close>

definition MapMemoryRegion ::
  "PageTable \<Rightarrow> u64 \<Rightarrow> u64 \<Rightarrow> u64 \<Rightarrow> MemoryPermission \<Rightarrow> bool \<Rightarrow> 'g Memory_Impl \<Rightarrow>
   PageTable \<times> 'g Memory_Impl" where
  "MapMemoryRegion page_table base len target perms separate_heap m =
     (MapPages m page_table (base div YUZU_PAGESIZE) (len div YUZU_PAGESIZE) target Memory,
      if fastmem_arena (current_page_table m)
      then m\<lparr> buffer_calls := buffer_calls m @ [Buffer_Map base (target - DramBase) len perms separate_heap] \<rparr>
      else m)"

definition UnmapRegion ::
  "PageTable \<Rightarrow> u64 \<Rightarrow> u64 \<Rightarrow> bool \<Rightarrow> 'g Memory_Impl \<Rightarrow> PageTable \<times> 'g Memory_Impl" where
  "UnmapRegion page_table base len separate_heap m =
     (MapPages m page_table (base div YUZU_PAGESIZE) (len div YUZU_PAGESIZE) 0 Unmapped,
      if fastmem_arena (current_page_table m)
      then m\<lparr> buffer_calls := buffer_calls m @ [Buffer_Unmap base len separate_heap] \<rparr>
      else m)"

definition page_type :: "'g Memory_Impl \<Rightarrow> u64 \<Rightarrow> PageType" where
  "page_type m vaddr =
     ExtractType (pointers (current_page_table m) ! unat (drop_bit YUZU_PAGEBITS vaddr))"

text \<open>The loop of \<^verbatim>\<open>ProtectRegion\<close>: \<open>n\<close> pages to go from \<open>addr\<close>, with the pending range.\<close>

primrec ProtectRegion_loop ::
  "nat \<Rightarrow> u64 \<Rightarrow> u64 \<Rightarrow> u64 \<Rightarrow> MemoryPermission \<Rightarrow> 'g Memory_Impl \<Rightarrow> buffer_call list" where
  "ProtectRegion_loop 0 addr protect_begin protect_bytes perms m =
     (if protect_bytes > 0 then [Buffer_Protect protect_begin protect_bytes perms] else [])"
| "ProtectRegion_loop (Suc n) addr protect_begin protect_bytes perms m =
     (if page_type m addr = RasterizerCachedMemory
      then (if protect_bytes > 0 then [Buffer_Protect protect_begin protect_bytes perms] else []) @
           ProtectRegion_loop n (addr + YUZU_PAGESIZE) protect_begin 0 perms m
      else ProtectRegion_loop n (addr + YUZU_PAGESIZE)
             (if protect_bytes = 0 then addr else protect_begin) (protect_bytes + YUZU_PAGESIZE) perms m)"

definition ProtectRegion ::
  "u64 \<Rightarrow> u64 \<Rightarrow> MemoryPermission \<Rightarrow> 'g Memory_Impl \<Rightarrow> 'g Memory_Impl" where
  "ProtectRegion vaddr len perms m =
     (if \<not> fastmem_arena (current_page_table m) then m
      else m\<lparr> buffer_calls := buffer_calls m @
             ProtectRegion_loop (if vaddr + len < vaddr then 0 else (unat len + 4095) div 4096)
               vaddr 0 0 perms m \<rparr>)"

section \<open>Pointers\<close>

definition GetPointerFromDebugMemory :: "'g Memory_Impl \<Rightarrow> u64 \<Rightarrow> u64" where
  "GetPointerFromDebugMemory m vaddr =
     (let paddr = backing_addr (current_page_table m) ! unat (drop_bit YUZU_PAGEBITS vaddr)
      in if paddr = 0 then 0 else DeviceMemory_GetPointer m (paddr + vaddr))"

definition GetPointerFromRasterizerCachedMemory :: "'g Memory_Impl \<Rightarrow> u64 \<Rightarrow> u64" where
  "GetPointerFromRasterizerCachedMemory m vaddr =
     (let paddr = backing_addr (current_page_table m) ! unat (drop_bit YUZU_PAGEBITS vaddr)
      in if paddr = 0 then 0 else DeviceMemory_GetPointer m (paddr + vaddr))"

text \<open>Which callback \<^verbatim>\<open>GetPointerImpl\<close> runs, and the pointer it returns.\<close>

datatype pointer_lookup = On_Unmapped | On_Memory u64 | On_Rasterizer u64

definition GetPointerImpl :: "'g Memory_Impl \<Rightarrow> u64 \<Rightarrow> pointer_lookup" where
  "GetPointerImpl m vaddr0 =
     (let vaddr = vaddr0 AND 0xFFFFFFFFFFFF
      in if \<not> AddressSpaceContains (current_page_table m) vaddr 1 then On_Unmapped
         else
           let raw_pointer = pointers (current_page_table m) ! unat (drop_bit YUZU_PAGEBITS vaddr);
               pointer = ExtractPointer raw_pointer
           in if pointer \<noteq> 0 then On_Memory (pointer + vaddr)
              else case ExtractType raw_pointer of
                     Unmapped \<Rightarrow> On_Unmapped
                   | Memory \<Rightarrow> On_Memory 0
                   | DebugMemory \<Rightarrow> On_Memory (GetPointerFromDebugMemory m vaddr)
                   | RasterizerCachedMemory \<Rightarrow>
                       On_Rasterizer (GetPointerFromRasterizerCachedMemory m vaddr))"

definition GetPointerSilent :: "'g Memory_Impl \<Rightarrow> u64 \<Rightarrow> u64" where
  "GetPointerSilent m vaddr =
     (case GetPointerImpl m vaddr of On_Unmapped \<Rightarrow> 0 | On_Memory p \<Rightarrow> p | On_Rasterizer p \<Rightarrow> p)"

definition HandleRasterizerDownload :: "'g GPU \<Rightarrow> u64 \<Rightarrow> nat \<Rightarrow> 'g Memory_Impl \<Rightarrow> 'g Memory_Impl" where
  "HandleRasterizerDownload gpu v_address len m = OnCPURead gpu (GetPointerSilent m v_address) len m"

definition HandleRasterizerWrite :: "'g GPU \<Rightarrow> u64 \<Rightarrow> nat \<Rightarrow> 'g Memory_Impl \<Rightarrow> 'g Memory_Impl" where
  "HandleRasterizerWrite gpu v_address len m = OnCPUWrite gpu (GetPointerSilent m v_address) len m"

definition GetSpan :: "'g Memory_Impl \<Rightarrow> u64 \<Rightarrow> u64 \<Rightarrow> u64" where
  "GetSpan m src_addr len =
     (let pt = current_page_table m
      in if blocks pt ! unat (drop_bit YUZU_PAGEBITS src_addr) =
            blocks pt ! unat (drop_bit YUZU_PAGEBITS (src_addr + len))
         then GetPointerSilent m src_addr else 0)"

definition IsValidVirtualAddress :: "'g Memory_Impl \<Rightarrow> u64 \<Rightarrow> bool" where
  "IsValidVirtualAddress m vaddr =
     (let pt = current_page_table m; page = unat (drop_bit YUZU_PAGEBITS vaddr)
      in if page \<ge> length (pointers pt) then False
         else ExtractPointer (pointers pt ! page) \<noteq> 0 \<or>
              ExtractType (pointers pt ! page) = RasterizerCachedMemory \<or>
              ExtractType (pointers pt ! page) = DebugMemory)"

text \<open>
  The loop of \<^verbatim>\<open>IsValidVirtualAddressRange\<close>, \<open>n\<close> pages to go; it leaves at the first page
  outside the table, so the page address does not wrap around.
\<close>

primrec IsValidVirtualAddressRange_loop :: "nat \<Rightarrow> 'g Memory_Impl \<Rightarrow> u64 \<Rightarrow> bool" where
  "IsValidVirtualAddressRange_loop 0 m page = True"
| "IsValidVirtualAddressRange_loop (Suc n) m page =
     (if \<not> IsValidVirtualAddress m page then False
      else IsValidVirtualAddressRange_loop n m (page + YUZU_PAGESIZE))"

definition IsValidVirtualAddressRange :: "'g Memory_Impl \<Rightarrow> u64 \<Rightarrow> u64 \<Rightarrow> bool" where
  "IsValidVirtualAddressRange m base len =
     (let endp = base + len; page = base - base mod YUZU_PAGESIZE
      in IsValidVirtualAddressRange_loop
           (if page < endp then (unat endp - unat page + 4095) div 4096 else 0) m page)"

section \<open>Walking a block\<close>

text \<open>
  A failure carries the memory as it is at that point. The state of a walk is the memory and what the callbacks carry along (the destination
  buffer, the rest of the source, or nothing). The page offset is below the page size: it is
  a 12-bit word, so that every turn of the loop handles at least one byte.
\<close>

type_synonym 'g failure = "mem_error \<times> 'g Memory_Impl"

record ('g, 'c) callbacks =
  on_unmapped :: "nat \<Rightarrow> u64 \<Rightarrow> 'g Memory_Impl \<times> 'c \<Rightarrow> 'g failure + 'g Memory_Impl \<times> 'c"
  on_memory :: "nat \<Rightarrow> u64 \<Rightarrow> 'g Memory_Impl \<times> 'c \<Rightarrow> 'g failure + 'g Memory_Impl \<times> 'c"
  on_rasterizer :: "u64 \<Rightarrow> nat \<Rightarrow> u64 \<Rightarrow> 'g Memory_Impl \<times> 'c \<Rightarrow> 'g failure + 'g Memory_Impl \<times> 'c"
  increment :: "nat \<Rightarrow> 'c \<Rightarrow> 'c"

definition copy_amount :: "12 word \<Rightarrow> nat \<Rightarrow> nat" where
  "copy_amount page_offset remaining_size = min (unat YUZU_PAGESIZE - unat page_offset) remaining_size"

lemma copy_amount_pos: "0 < remaining \<Longrightarrow> 0 < copy_amount page_offset remaining"
  using unsigned_less [of page_offset, where 'a = nat]
  by (simp add: copy_amount_def YUZU_PAGESIZE_def YUZU_PAGEBITS_def)

definition WalkBlock_page ::
  "('g, 'c) callbacks \<Rightarrow> nat \<Rightarrow> u64 \<Rightarrow> 12 word \<Rightarrow> 'g Memory_Impl \<times> 'c \<Rightarrow> 'g failure + 'g Memory_Impl \<times> 'c" where
  "WalkBlock_page cb amount page_index page_offset s =
     (let current_vaddr = push_bit YUZU_PAGEBITS page_index + ucast page_offset;
          raw = pointers (current_page_table (fst s)) ! unat page_index
      in case ExtractType raw of
           Unmapped \<Rightarrow> on_unmapped cb amount current_vaddr s
         | Memory \<Rightarrow>
             on_memory cb amount
               (ExtractPointer raw + ucast page_offset + push_bit YUZU_PAGEBITS page_index) s
         | DebugMemory \<Rightarrow> on_memory cb amount (GetPointerFromDebugMemory (fst s) current_vaddr) s
         | RasterizerCachedMemory \<Rightarrow>
             on_rasterizer cb current_vaddr amount
               (GetPointerFromRasterizerCachedMemory (fst s) current_vaddr) s)"

function WalkBlock_loop ::
  "('g, 'c) callbacks \<Rightarrow> nat \<Rightarrow> u64 \<Rightarrow> 12 word \<Rightarrow> bool \<Rightarrow> 'g Memory_Impl \<times> 'c \<Rightarrow>
   'g failure + bool \<times> 'g Memory_Impl \<times> 'c" where
  "WalkBlock_loop cb remaining_size page_index page_offset user_accessible s =
     (if remaining_size = 0 then Inr (user_accessible, s)
      else
        let amount = copy_amount page_offset remaining_size;
            accessible =
              (user_accessible \<and>
               ExtractType (pointers (current_page_table (fst s)) ! unat page_index) \<noteq> Unmapped)
        in case WalkBlock_page cb amount page_index page_offset s of
             Inl e \<Rightarrow> Inl e
           | Inr (m, c) \<Rightarrow>
               WalkBlock_loop cb (remaining_size - amount) (page_index + 1) 0 accessible
                 (m, increment cb amount c))"
  by pat_completeness auto
termination
  by (relation "measure (\<lambda>(cb, remaining_size, pi, po, ua, s). remaining_size)")
     (auto intro!: diff_less copy_amount_pos)

declare WalkBlock_loop.simps [simp del]

definition WalkBlock ::
  "('g, 'c) callbacks \<Rightarrow> u64 \<Rightarrow> u64 \<Rightarrow> 'g Memory_Impl \<times> 'c \<Rightarrow> 'g failure + bool \<times> 'g Memory_Impl \<times> 'c" where
  "WalkBlock cb addr len s =
     (if \<not> AddressSpaceContains (current_page_table (fst s)) addr len
      then (case on_unmapped cb (unat len) addr s of Inl e \<Rightarrow> Inl e | Inr s' \<Rightarrow> Inr (False, s'))
      else WalkBlock_loop cb (unat len) (drop_bit YUZU_PAGEBITS addr)
             (ucast (addr AND YUZU_PAGEMASK)) True s)"

section \<open>Block operations\<close>

text \<open>\<^verbatim>\<open>memcpy\<close> out of and into a host pointer.\<close>

definition load_host :: "u64 \<Rightarrow> nat \<Rightarrow> 'g Memory_Impl \<Rightarrow> 'g failure + u8 list" where
  "load_host p n m = (if p = 0 then Inl (NullPointerAccess, m) else Inr (read_host (host_memory m) p n))"

definition store_host :: "u64 \<Rightarrow> u8 list \<Rightarrow> 'g Memory_Impl \<Rightarrow> 'g failure + 'g Memory_Impl" where
  "store_host p bs m =
     (if p = 0 then Inl (NullPointerAccess, m)
      else Inr (m\<lparr> host_memory := write_host p bs (host_memory m) \<rparr>))"

text \<open>The carried value is the part of the destination buffer written so far.\<close>

definition append_load :: "u64 \<Rightarrow> nat \<Rightarrow> 'g Memory_Impl \<times> u8 list \<Rightarrow> 'g failure + 'g Memory_Impl \<times> u8 list" where
  "append_load p n s = (case load_host p n (fst s) of Inl e \<Rightarrow> Inl e | Inr bs \<Rightarrow> Inr (fst s, snd s @ bs))"

definition ReadBlock_callbacks :: "bool \<Rightarrow> 'g GPU \<Rightarrow> ('g, u8 list) callbacks" where
  "ReadBlock_callbacks UNSAFE gpu =
     \<lparr> on_unmapped = (\<lambda>n va s. Inr (fst s, snd s @ replicate n 0)),
       on_memory = (\<lambda>n p s. append_load p n s),
       on_rasterizer = (\<lambda>va n p s.
         append_load p n ((if UNSAFE then fst s else HandleRasterizerDownload gpu va n (fst s)), snd s)),
       increment = (\<lambda>n c. c) \<rparr>"

definition ReadBlockImpl ::
  "bool \<Rightarrow> 'g GPU \<Rightarrow> u64 \<Rightarrow> u64 \<Rightarrow> 'g Memory_Impl \<Rightarrow> 'g failure + bool \<times> 'g Memory_Impl \<times> u8 list" where
  "ReadBlockImpl UNSAFE gpu src_addr len m =
     WalkBlock (ReadBlock_callbacks UNSAFE gpu) src_addr len (m, [])"

definition ReadBlock where "ReadBlock = ReadBlockImpl False"
definition ReadBlockUnsafe where "ReadBlockUnsafe = ReadBlockImpl True"

text \<open>The carried value is the rest of the source buffer.\<close>

definition store_front :: "u64 \<Rightarrow> nat \<Rightarrow> 'g Memory_Impl \<times> u8 list \<Rightarrow> 'g failure + 'g Memory_Impl \<times> u8 list" where
  "store_front p n s =
     (case store_host p (take n (snd s)) (fst s) of Inl e \<Rightarrow> Inl e | Inr m \<Rightarrow> Inr (m, snd s))"

definition WriteBlock_callbacks :: "bool \<Rightarrow> 'g GPU \<Rightarrow> ('g, u8 list) callbacks" where
  "WriteBlock_callbacks UNSAFE gpu =
     \<lparr> on_unmapped = (\<lambda>n va s. Inr s),
       on_memory = (\<lambda>n p s. store_front p n s),
       on_rasterizer = (\<lambda>va n p s.
         store_front p n ((if UNSAFE then fst s else HandleRasterizerWrite gpu va n (fst s)), snd s)),
       increment = (\<lambda>n c. drop n c) \<rparr>"

definition WriteBlockImpl ::
  "bool \<Rightarrow> 'g GPU \<Rightarrow> u64 \<Rightarrow> u8 list \<Rightarrow> u64 \<Rightarrow> 'g Memory_Impl \<Rightarrow> 'g failure + bool \<times> 'g Memory_Impl" where
  "WriteBlockImpl UNSAFE gpu dest_addr src_buffer len m =
     (case WalkBlock (WriteBlock_callbacks UNSAFE gpu) dest_addr len (m, src_buffer) of
        Inl e \<Rightarrow> Inl e | Inr (ok, m', c) \<Rightarrow> Inr (ok, m'))"

definition WriteBlock where "WriteBlock = WriteBlockImpl False"
definition WriteBlockUnsafe where "WriteBlockUnsafe = WriteBlockImpl True"

definition zero_host :: "u64 \<Rightarrow> nat \<Rightarrow> 'g Memory_Impl \<times> unit \<Rightarrow> 'g failure + 'g Memory_Impl \<times> unit" where
  "zero_host p n s =
     (case store_host p (replicate n 0) (fst s) of Inl e \<Rightarrow> Inl e | Inr m \<Rightarrow> Inr (m, ()))"

definition ZeroBlock_callbacks :: "'g GPU \<Rightarrow> ('g, unit) callbacks" where
  "ZeroBlock_callbacks gpu =
     \<lparr> on_unmapped = (\<lambda>n va s. Inr s), on_memory = (\<lambda>n p s. zero_host p n s),
       on_rasterizer = (\<lambda>va n p s. zero_host p n (HandleRasterizerWrite gpu va n (fst s), ())),
       increment = (\<lambda>n c. c) \<rparr>"

definition ZeroBlock ::
  "'g GPU \<Rightarrow> u64 \<Rightarrow> u64 \<Rightarrow> 'g Memory_Impl \<Rightarrow> 'g failure + bool \<times> 'g Memory_Impl" where
  "ZeroBlock gpu dest_addr len m =
     (case WalkBlock (ZeroBlock_callbacks gpu) dest_addr len (m, ()) of
        Inl e \<Rightarrow> Inl e | Inr (ok, m', c) \<Rightarrow> Inr (ok, m'))"

text \<open>
  \<^verbatim>\<open>CopyBlock\<close> walks the pages of the destination; the pointer its callbacks receive, and
  copy from, is the one of the destination page. The carried value is the pair of the
  advancing destination and source addresses.
\<close>

definition copy_from ::
  "'g GPU \<Rightarrow> u64 \<Rightarrow> nat \<Rightarrow> 'g Memory_Impl \<times> u64 \<times> u64 \<Rightarrow> 'g failure + 'g Memory_Impl \<times> u64 \<times> u64" where
  "copy_from gpu p n s =
     (case load_host p n (fst s) of
        Inl e \<Rightarrow> Inl e
      | Inr bs \<Rightarrow>
          (case WriteBlockImpl False gpu (fst (snd s)) bs (word_of_nat n) (fst s) of
             Inl e \<Rightarrow> Inl e | Inr (ok, m) \<Rightarrow> Inr (m, snd s)))"

definition CopyBlock_callbacks :: "'g GPU \<Rightarrow> ('g, u64 \<times> u64) callbacks" where
  "CopyBlock_callbacks gpu =
     \<lparr> on_unmapped = (\<lambda>n va s.
         case ZeroBlock gpu (fst (snd s)) (word_of_nat n) (fst s) of
           Inl e \<Rightarrow> Inl e | Inr (ok, m) \<Rightarrow> Inr (m, snd s)),
       on_memory = (\<lambda>n p s. copy_from gpu p n s),
       on_rasterizer = (\<lambda>va n p s. copy_from gpu p n (HandleRasterizerDownload gpu va n (fst s), snd s)),
       increment = (\<lambda>n c. (fst c + word_of_nat n, snd c + word_of_nat n)) \<rparr>"

definition CopyBlock ::
  "'g GPU \<Rightarrow> u64 \<Rightarrow> u64 \<Rightarrow> u64 \<Rightarrow> 'g Memory_Impl \<Rightarrow> 'g failure + bool \<times> 'g Memory_Impl" where
  "CopyBlock gpu dest_addr src_addr len m =
     (case WalkBlock (CopyBlock_callbacks gpu) dest_addr len (m, dest_addr, src_addr) of
        Inl e \<Rightarrow> Inl e | Inr (ok, m', c) \<Rightarrow> Inr (ok, m'))"

section \<open>Cache maintenance\<close>

definition cache_callbacks :: "(u64 \<Rightarrow> nat \<Rightarrow> 'g Memory_Impl \<Rightarrow> 'g Memory_Impl) \<Rightarrow> ('g, unit) callbacks" where
  "cache_callbacks cb =
     \<lparr> on_unmapped = (\<lambda>n va s. Inl (InvalidMemoryException, fst s)), on_memory = (\<lambda>n p s. Inr s),
       on_rasterizer = (\<lambda>va n p s. Inr (cb va n (fst s), ())), increment = (\<lambda>n c. c) \<rparr>"

datatype cache_result = Cache_Success | ResultInvalidCurrentMemory

definition PerformCacheOperation ::
  "(u64 \<Rightarrow> nat \<Rightarrow> 'g Memory_Impl \<Rightarrow> 'g Memory_Impl) \<Rightarrow> u64 \<Rightarrow> u64 \<Rightarrow> 'g Memory_Impl \<Rightarrow>
   cache_result \<times> 'g Memory_Impl" where
  "PerformCacheOperation cb dest_addr len m =
     (case WalkBlock (cache_callbacks cb) dest_addr len (m, ()) of
        Inl (e, m') \<Rightarrow> (ResultInvalidCurrentMemory, m')
      | Inr (ok, m', c) \<Rightarrow> (Cache_Success, m'))"

definition InvalidateDataCache where
  "InvalidateDataCache gpu = PerformCacheOperation (HandleRasterizerDownload gpu)"

definition StoreDataCache where
  "StoreDataCache gpu = PerformCacheOperation (HandleRasterizerWrite gpu)"

definition FlushDataCache where
  "FlushDataCache gpu = PerformCacheOperation (HandleRasterizerWrite gpu)"

section \<open>Scalar accesses\<close>

text \<open>\<^verbatim>\<open>Read<T>\<close> with \<open>n\<close> the size of the type: the bytes, zero where there is no pointer.\<close>

definition Read_bytes :: "nat \<Rightarrow> 'g GPU \<Rightarrow> u64 \<Rightarrow> 'g Memory_Impl \<Rightarrow> u8 list \<times> 'g Memory_Impl" where
  "Read_bytes n gpu vaddr m =
     (let (p, m1) = (case GetPointerImpl m vaddr of
                       On_Unmapped \<Rightarrow> (0, m)
                     | On_Memory p \<Rightarrow> (p, m)
                     | On_Rasterizer p \<Rightarrow> (p, HandleRasterizerDownload gpu vaddr n m))
      in (if p \<noteq> 0 then read_host (host_memory m1) p n else replicate n 0, m1))"

definition Read8 :: "'g GPU \<Rightarrow> u64 \<Rightarrow> 'g Memory_Impl \<Rightarrow> u8 \<times> 'g Memory_Impl" where
  "Read8 gpu addr m = (let (bs, m1) = Read_bytes 1 gpu addr m in (ucast (word_of_bytes bs), m1))"

definition Read16 :: "'g GPU \<Rightarrow> u64 \<Rightarrow> 'g Memory_Impl \<Rightarrow> u16 \<times> 'g Memory_Impl" where
  "Read16 gpu addr m =
     (if addr AND 1 = 0 then
        (let (bs, m1) = Read_bytes 2 gpu addr m in (ucast (word_of_bytes bs), m1))
      else
        (let (a, m1) = Read8 gpu addr m; (b, m2) = Read8 gpu (addr + 1) m1
         in (ucast (push_bit 8 (ucast b :: u32) OR ucast a), m2)))"

definition Read32 :: "'g GPU \<Rightarrow> u64 \<Rightarrow> 'g Memory_Impl \<Rightarrow> u32 \<times> 'g Memory_Impl" where
  "Read32 gpu addr m =
     (if addr AND 3 = 0 then
        (let (bs, m1) = Read_bytes 4 gpu addr m in (ucast (word_of_bytes bs), m1))
      else
        (let (a, m1) = Read16 gpu addr m; (b, m2) = Read16 gpu (addr + 2) m1
         in (push_bit 16 (ucast b) OR ucast a, m2)))"

definition Read64 :: "'g GPU \<Rightarrow> u64 \<Rightarrow> 'g Memory_Impl \<Rightarrow> u64 \<times> 'g Memory_Impl" where
  "Read64 gpu addr m =
     (if addr AND 7 = 0 then
        (let (bs, m1) = Read_bytes 8 gpu addr m in (word_of_bytes bs, m1))
      else
        (let (a, m1) = Read32 gpu addr m; (b, m2) = Read32 gpu (addr + 4) m1
         in (push_bit 32 (ucast b) OR ucast a, m2)))"

text \<open>\<^verbatim>\<open>Write<T>\<close> of the bytes of a value.\<close>

definition Write_bytes :: "u8 list \<Rightarrow> 'g GPU \<Rightarrow> u64 \<Rightarrow> 'g Memory_Impl \<Rightarrow> 'g Memory_Impl" where
  "Write_bytes bs gpu vaddr m =
     (let (p, m1) = (case GetPointerImpl m vaddr of
                       On_Unmapped \<Rightarrow> (0, m)
                     | On_Memory p \<Rightarrow> (p, m)
                     | On_Rasterizer p \<Rightarrow> (p, HandleRasterizerWrite gpu vaddr (length bs) m))
      in if p \<noteq> 0 then m1\<lparr> host_memory := write_host p bs (host_memory m1) \<rparr> else m1)"

definition Write8 :: "'g GPU \<Rightarrow> u64 \<Rightarrow> u8 \<Rightarrow> 'g Memory_Impl \<Rightarrow> 'g Memory_Impl" where
  "Write8 gpu addr data m = Write_bytes (low_bytes 1 (ucast data)) gpu addr m"

definition Write16 :: "'g GPU \<Rightarrow> u64 \<Rightarrow> u16 \<Rightarrow> 'g Memory_Impl \<Rightarrow> 'g Memory_Impl" where
  "Write16 gpu addr data m =
     (if addr AND 1 = 0 then Write_bytes (low_bytes 2 (ucast data)) gpu addr m
      else Write8 gpu (addr + 1) (ucast (drop_bit 8 data)) (Write8 gpu addr (ucast data) m))"

definition Write32 :: "'g GPU \<Rightarrow> u64 \<Rightarrow> u32 \<Rightarrow> 'g Memory_Impl \<Rightarrow> 'g Memory_Impl" where
  "Write32 gpu addr data m =
     (if addr AND 3 = 0 then Write_bytes (low_bytes 4 (ucast data)) gpu addr m
      else Write16 gpu (addr + 2) (ucast (drop_bit 16 data)) (Write16 gpu addr (ucast data) m))"

definition Write64 :: "'g GPU \<Rightarrow> u64 \<Rightarrow> u64 \<Rightarrow> 'g Memory_Impl \<Rightarrow> 'g Memory_Impl" where
  "Write64 gpu addr data m =
     (if addr AND 7 = 0 then Write_bytes (low_bytes 8 data) gpu addr m
      else Write32 gpu (addr + 4) (ucast (drop_bit 32 data)) (Write32 gpu addr (ucast data) m))"

text \<open>
  \<^verbatim>\<open>WriteExclusive<T>\<close> and \<^verbatim>\<open>WriteExclusive128\<close>: an atomic compare-and-swap on the host
  bytes, which succeeds without effect when there is no pointer.
\<close>

definition WriteExclusive ::
  "u8 list \<Rightarrow> u8 list \<Rightarrow> 'g GPU \<Rightarrow> u64 \<Rightarrow> 'g Memory_Impl \<Rightarrow> bool \<times> 'g Memory_Impl" where
  "WriteExclusive data expected gpu vaddr m =
     (let (p, m1) = (case GetPointerImpl m vaddr of
                       On_Unmapped \<Rightarrow> (0, m)
                     | On_Memory p \<Rightarrow> (p, m)
                     | On_Rasterizer p \<Rightarrow> (p, HandleRasterizerWrite gpu vaddr (length data) m))
      in if p \<noteq> 0 then
           (if read_host (host_memory m1) p (length data) = expected
            then (True, m1\<lparr> host_memory := write_host p data (host_memory m1) \<rparr>)
            else (False, m1))
         else (True, m1))"

primrec ReadCString :: "nat \<Rightarrow> 'g GPU \<Rightarrow> u64 \<Rightarrow> 'g Memory_Impl \<Rightarrow> u8 list \<times> 'g Memory_Impl" where
  "ReadCString 0 gpu vaddr m = ([], m)"
| "ReadCString (Suc n) gpu vaddr m =
     (let (c, m1) = Read8 gpu vaddr m
      in if c = 0 then ([], m1)
         else let (cs, m2) = ReadCString n gpu (vaddr + 1) m1 in (c # cs, m2))"

section \<open>Marking pages\<close>

definition Store_page :: "u64 \<Rightarrow> u64 \<Rightarrow> PageType \<Rightarrow> 'g Memory_Impl \<Rightarrow> 'g Memory_Impl" where
  "Store_page vaddr pointer t m =
     (let pt = current_page_table m
      in m\<lparr> current_page_table := pt\<lparr> pointers :=
             (pointers pt)[unat (drop_bit YUZU_PAGEBITS vaddr) := PageInfo_Store pointer t] \<rparr> \<rparr>)"

definition page_start :: "u64 \<Rightarrow> u64" where
  "page_start vaddr = vaddr AND NOT YUZU_PAGEMASK"

definition MarkPageDebug :: "bool \<Rightarrow> u64 \<Rightarrow> 'g Memory_Impl \<Rightarrow> 'g Memory_Impl" where
  "MarkPageDebug debug vaddr m =
     (if debug then
        (case page_type m vaddr of
           Unmapped \<Rightarrow> m
         | RasterizerCachedMemory \<Rightarrow> m
         | DebugMemory \<Rightarrow> m
         | Memory \<Rightarrow> Store_page vaddr 0 DebugMemory m)
      else
        (case page_type m vaddr of
           Unmapped \<Rightarrow> m
         | RasterizerCachedMemory \<Rightarrow> m
         | Memory \<Rightarrow> m
         | DebugMemory \<Rightarrow>
             let pointer = GetPointerFromDebugMemory m (page_start vaddr)
             in Store_page vaddr (pointer - page_start vaddr) Memory m))"

primrec MarkRegionDebug_loop :: "nat \<Rightarrow> bool \<Rightarrow> u64 \<Rightarrow> 'g Memory_Impl \<Rightarrow> 'g Memory_Impl" where
  "MarkRegionDebug_loop 0 debug vaddr m = m"
| "MarkRegionDebug_loop (Suc n) debug vaddr m =
     MarkRegionDebug_loop n debug (vaddr + YUZU_PAGESIZE) (MarkPageDebug debug vaddr m)"

definition num_pages :: "u64 \<Rightarrow> u64 \<Rightarrow> u64" where
  "num_pages vaddr len =
     drop_bit YUZU_PAGEBITS (vaddr + len - 1) - drop_bit YUZU_PAGEBITS vaddr + 1"

definition protect_if_fastmem :: "u64 \<Rightarrow> u64 \<Rightarrow> MemoryPermission \<Rightarrow> 'g Memory_Impl \<Rightarrow> 'g Memory_Impl" where
  "protect_if_fastmem vaddr len perm m =
     (if fastmem_arena (current_page_table m)
      then m\<lparr> buffer_calls := buffer_calls m @ [Buffer_Protect vaddr len perm] \<rparr> else m)"

definition MarkRegionDebug :: "u64 \<Rightarrow> u64 \<Rightarrow> bool \<Rightarrow> 'g Memory_Impl \<Rightarrow> 'g Memory_Impl" where
  "MarkRegionDebug vaddr len debug m =
     (if vaddr = 0 \<or> \<not> AddressSpaceContains (current_page_table m) vaddr len then m
      else MarkRegionDebug_loop (unat (num_pages vaddr len)) debug vaddr
             (protect_if_fastmem vaddr len
                (if debug then 0 else Permission_Read OR Permission_Write) m))"

definition MarkPageCached :: "bool \<Rightarrow> u64 \<Rightarrow> 'g Memory_Impl \<Rightarrow> 'g Memory_Impl" where
  "MarkPageCached cached vaddr m =
     (if cached then
        (case page_type m vaddr of
           Unmapped \<Rightarrow> m
         | DebugMemory \<Rightarrow> Store_page vaddr 0 RasterizerCachedMemory m
         | Memory \<Rightarrow> Store_page vaddr 0 RasterizerCachedMemory m
         | RasterizerCachedMemory \<Rightarrow> m)
      else
        (case page_type m vaddr of
           Unmapped \<Rightarrow> m
         | DebugMemory \<Rightarrow> m
         | Memory \<Rightarrow> m
         | RasterizerCachedMemory \<Rightarrow>
             let pointer = GetPointerFromRasterizerCachedMemory m (page_start vaddr)
             in if pointer = 0 then Store_page vaddr 0 Unmapped m
                else Store_page vaddr (pointer - page_start vaddr) Memory m))"

primrec RasterizerMarkRegionCached_loop :: "nat \<Rightarrow> bool \<Rightarrow> u64 \<Rightarrow> 'g Memory_Impl \<Rightarrow> 'g Memory_Impl" where
  "RasterizerMarkRegionCached_loop 0 cached vaddr m = m"
| "RasterizerMarkRegionCached_loop (Suc n) cached vaddr m =
     RasterizerMarkRegionCached_loop n cached (vaddr + YUZU_PAGESIZE) (MarkPageCached cached vaddr m)"

text \<open>\<^verbatim>\<open>use_reactive_flushing\<close> is the setting of that name.\<close>

definition RasterizerMarkRegionCached ::
  "bool \<Rightarrow> u64 \<Rightarrow> u64 \<Rightarrow> bool \<Rightarrow> 'g Memory_Impl \<Rightarrow> 'g Memory_Impl" where
  "RasterizerMarkRegionCached use_reactive_flushing vaddr len cached m =
     (if vaddr = 0 \<or> \<not> AddressSpaceContains (current_page_table m) vaddr len then m
      else RasterizerMarkRegionCached_loop (unat (num_pages vaddr len)) cached vaddr
             (protect_if_fastmem vaddr len
                ((if \<not> use_reactive_flushing \<or> \<not> cached then Permission_Read else 0) OR
                 (if \<not> cached then Permission_Write else 0)) m))"

end
