(* ===== verification/KPageTableBase.thy ===== *)
theory KPageTableBase
  imports KPageGroup KMemoryBlockManager GuestMemory
begin

text \<open>
  The page table of a process as the kernel keeps it, \<^verbatim>\<open>core/hle/kernel/k_page_table_base.cpp\<close>: its
  regions, the checks of memory states, the operations that change permissions, attributes and
  locks of a range, and the system calls over them (\<^verbatim>\<open>svc/svc_memory.cpp\<close>).

  The state has the block manager, the page table of the emulated address space and guest memory. The
  slab of memory blocks and the block infos of page groups are numbers of free blocks; references that are
  opened and closed on physical pages are logged. Guest memory points to the page table of the current
  process, so a flag says whether that is this one. An operation that fails leaves the table as it was, so an error
  carries no state; the block infos that a failed lock has put into the caller's page group return to the pool
  with that group. The changes of permissions reach guest memory through \<^verbatim>\<open>Operate\<close>, whose cases for
  mapping and unmapping are in \<open>KPageTableMapping\<close>. Host permissions are those of a build without native code
  execution, where pages are never executable for the host.
\<close>

unbundle bit_operations_syntax

section \<open>State and regions\<close>

record 'g KPageTableBase =
  m_address_space_start :: u64
  m_address_space_end :: u64
  m_heap_region_start :: u64
  m_heap_region_end :: u64
  m_alias_region_start :: u64
  m_alias_region_end :: u64
  m_stack_region_start :: u64
  m_stack_region_end :: u64
  m_kernel_map_region_start :: u64
  m_kernel_map_region_end :: u64
  m_alias_code_region_start :: u64
  m_alias_code_region_end :: u64
  m_code_region_start :: u64
  m_code_region_end :: u64
  m_impl :: PageTable
  m_impl_is_current :: bool
  m_memory :: "'g Memory_Impl"
  m_memory_block_manager :: KMemoryBlockManager
  m_is_kernel :: bool
  m_enable_aslr :: bool
  m_enable_device_address_space_merge :: bool
  m_memory_block_slab :: nat
  m_block_infos :: nat
  m_opened :: "(u64 \<times> u64) list"
  m_closed :: "(u64 \<times> u64) list"

definition Contains_address :: "u64 \<Rightarrow> 'g KPageTableBase \<Rightarrow> bool" where
  "Contains_address addr t \<longleftrightarrow> m_address_space_start t \<le> addr \<and> addr \<le> m_address_space_end t - 1"

definition Contains :: "u64 \<Rightarrow> u64 \<Rightarrow> 'g KPageTableBase \<Rightarrow> bool" where
  "Contains addr sz t \<longleftrightarrow>
     m_address_space_start t \<le> addr \<and> addr < addr + sz \<and> addr + sz - 1 \<le> m_address_space_end t - 1"

definition IsInAliasRegion :: "u64 \<Rightarrow> u64 \<Rightarrow> 'g KPageTableBase \<Rightarrow> bool" where
  "IsInAliasRegion addr sz t \<longleftrightarrow>
     Contains addr sz t \<and> m_alias_region_start t \<le> addr \<and> addr + sz - 1 \<le> m_alias_region_end t - 1"

definition IsInHeapRegion :: "u64 \<Rightarrow> u64 \<Rightarrow> 'g KPageTableBase \<Rightarrow> bool" where
  "IsInHeapRegion addr sz t \<longleftrightarrow>
     Contains addr sz t \<and> m_heap_region_start t \<le> addr \<and> addr + sz - 1 \<le> m_heap_region_end t - 1"

definition GetNumGuardPages :: "'g KPageTableBase \<Rightarrow> u64" where
  "GetNumGuardPages t = (if m_is_kernel t then 1 else 4)"

text \<open>The state of the system call interface that belongs to a state, and its region; \<open>None\<close> where the code is unreachable.\<close>

definition svc_state :: "u32 \<Rightarrow> u32" where
  "svc_state state = state AND State_Mask"

definition region_of :: "u32 \<Rightarrow> 'g KPageTableBase \<Rightarrow> (u64 \<times> u64) option" where
  "region_of state t =
     (if state \<in> {0x00, 0x13} then Some (m_address_space_start t, m_address_space_end t)
      else if state = 0x05 then Some (m_heap_region_start t, m_heap_region_end t)
      else if state \<in> {0x0A, 0x11, 0x12} then Some (m_alias_region_start t, m_alias_region_end t)
      else if state = 0x0B then Some (m_stack_region_start t, m_stack_region_end t)
      else if state \<in> {0x02, 0x0C} then Some (m_kernel_map_region_start t, m_kernel_map_region_end t)
      else if state \<in> {0x01, 0x06, 0x08, 0x09, 0x0D, 0x0E, 0x0F, 0x14, 0x15, 0x16, 0x17}
      then Some (m_alias_code_region_start t, m_alias_code_region_end t)
      else if state \<in> {0x03, 0x04} then Some (m_code_region_start t, m_code_region_end t)
      else None)"

definition GetRegionAddress :: "u32 \<Rightarrow> 'g KPageTableBase \<Rightarrow> u64 option" where
  "GetRegionAddress state t = map_option fst (region_of state t)"

definition GetRegionSize :: "u32 \<Rightarrow> 'g KPageTableBase \<Rightarrow> u64 option" where
  "GetRegionSize state t = map_option (\<lambda>(s, e). e - s) (region_of state t)"

definition CanContain :: "u64 \<Rightarrow> u64 \<Rightarrow> u32 \<Rightarrow> 'g KPageTableBase \<Rightarrow> bool option" where
  "CanContain addr sz state t =
     (let end_addr = addr + sz; last_addr = end_addr - 1
      in case (GetRegionAddress state t, GetRegionSize state t) of
           (Some region_start, Some region_size) \<Rightarrow>
             let is_in_region = (region_start \<le> addr \<and> addr < end_addr \<and> last_addr \<le> region_start + region_size - 1);
                 is_in_heap = (\<not> (end_addr \<le> m_heap_region_start t \<or> m_heap_region_end t \<le> addr \<or>
                                   m_heap_region_start t = m_heap_region_end t));
                 is_in_alias = (\<not> (end_addr \<le> m_alias_region_start t \<or> m_alias_region_end t \<le> addr \<or>
                                    m_alias_region_start t = m_alias_region_end t))
             in Some (if state \<in> {0x00, 0x13} then is_in_region
                      else if state \<in> {0x01, 0x02, 0x03, 0x04, 0x06, 0x08, 0x09, 0x0B, 0x0C, 0x0D, 0x0E, 0x0F,
                                       0x14, 0x15, 0x16, 0x17}
                      then is_in_region \<and> \<not> is_in_heap \<and> \<not> is_in_alias
                      else if state = 0x05 then is_in_region \<and> \<not> is_in_alias
                      else if state \<in> {0x0A, 0x11, 0x12} then is_in_region \<and> \<not> is_in_heap
                      else False)
         | _ \<Rightarrow> None)"

section \<open>Checking the state of a range\<close>

definition AlignUp :: "u64 \<Rightarrow> u64 \<Rightarrow> u64" where
  "AlignUp v n = (if v mod n = 0 then v - v mod n else v - v mod n + n)"

definition DefaultMemoryIgnoreAttr :: u8 where
  "DefaultMemoryIgnoreAttr = Attr_IpcLocked OR Attr_DeviceShared"

text \<open>What a caller asks of every block, as the code passes it: masks and expected values.\<close>

record check_masks =
  state_mask :: u32
  want_state :: u32
  perm_mask :: u8
  want_perm :: u8
  attr_mask :: u8
  want_attr :: u8

definition CheckMemoryState_info :: "check_masks \<Rightarrow> KMemoryBlock \<Rightarrow> bool" where
  "CheckMemoryState_info c info \<longleftrightarrow>
     m_memory_state info AND state_mask c = want_state c \<and>
     m_permission info AND perm_mask c = want_perm c \<and>
     m_attribute info AND attr_mask c = want_attr c"

text \<open>The loop over the blocks up to the last address; it returns the last one.\<close>

primrec CheckMemoryState_loop ::
  "(KMemoryBlock \<Rightarrow> bool) \<Rightarrow> check_masks \<Rightarrow> u64 \<Rightarrow> KMemoryBlock list \<Rightarrow> kernel_error + KMemoryBlock" where
  "CheckMemoryState_loop same c last_addr [] = Inl (Crashed EndOfTree)"
| "CheckMemoryState_loop same c last_addr (info # it) =
     (if \<not> same info then Inl (Failed kernel_result.ResultInvalidCurrentMemory)
      else if \<not> CheckMemoryState_info c info then Inl (Failed kernel_result.ResultInvalidCurrentMemory)
      else if last_addr \<le> GetLastAddress info then Inr info
      else CheckMemoryState_loop same c last_addr it)"

definition CheckMemoryStateContiguous ::
  "u64 \<Rightarrow> u64 \<Rightarrow> check_masks \<Rightarrow> 'g KPageTableBase \<Rightarrow> kernel_error + nat" where
  "CheckMemoryStateContiguous addr sz c t =
     (let last_addr = addr + sz - 1
      in case snd (FindIterator addr (m_memory_block_tree (m_memory_block_manager t))) of
           [] \<Rightarrow> Inl (Crashed EndOfTree)
         | info # rest \<Rightarrow>
             map_sum id (\<lambda>l.
                 (if AlignDown addr PageSize \<noteq> m_address info then 1 else 0) +
                 (if AlignUp (addr + sz) PageSize \<noteq> GetEndAddress l then 1 else 0))
               (CheckMemoryState_loop (\<lambda>b. True) c last_addr (info # rest)))"

definition same_as_first :: "u8 \<Rightarrow> KMemoryBlock \<Rightarrow> KMemoryBlock \<Rightarrow> bool" where
  "same_as_first ignore_attr first' info \<longleftrightarrow>
     m_memory_state info = m_memory_state first' \<and> m_permission info = m_permission first' \<and>
     m_attribute info OR ignore_attr = m_attribute first' OR ignore_attr"

text \<open>The state, permission and attributes of the range, and the number of blocks an update of it needs.\<close>

definition CheckMemoryState_from ::
  "u64 \<Rightarrow> check_masks \<Rightarrow> u8 \<Rightarrow> KMemoryBlock list \<Rightarrow> kernel_error + u32 \<times> u8 \<times> u8 \<times> nat" where
  "CheckMemoryState_from last_addr c ignore_attr it =
     (case it of
        [] \<Rightarrow> Inl (Crashed EndOfTree)
      | info # rest \<Rightarrow>
          map_sum id (\<lambda>l.
              (m_memory_state info, m_permission info, m_attribute info AND NOT ignore_attr,
               if AlignDown last_addr PageSize + PageSize \<noteq> GetEndAddress l then 1 else 0))
            (CheckMemoryState_loop (same_as_first ignore_attr info) c last_addr it))"

definition CheckMemoryState ::
  "u64 \<Rightarrow> u64 \<Rightarrow> check_masks \<Rightarrow> u8 \<Rightarrow> 'g KPageTableBase \<Rightarrow> kernel_error + u32 \<times> u8 \<times> u8 \<times> nat" where
  "CheckMemoryState addr sz c ignore_attr t =
     (let last_addr = addr + sz - 1;
          it = snd (FindIterator addr (m_memory_block_tree (m_memory_block_manager t)))
      in case CheckMemoryState_from last_addr c ignore_attr it of
           Inl e \<Rightarrow> Inl e
         | Inr (st, pm, at, n) \<Rightarrow>
             Inr (st, pm, at, if AlignDown addr PageSize \<noteq> m_address (hd it) then n + 1 else n))"

section \<open>Updating a range\<close>

definition R_TRY :: "'e + 'a \<Rightarrow> ('a \<Rightarrow> 'e + 'b) \<Rightarrow> 'e + 'b" where
  "R_TRY r f = (case r of Inl e \<Rightarrow> Inl e | Inr a \<Rightarrow> f a)"

text \<open>The update allocator takes its blocks from the slab and returns what is left to it.\<close>

definition new_allocator :: "nat \<Rightarrow> 'g KPageTableBase \<Rightarrow> kernel_error + UpdateAllocator \<times> 'g KPageTableBase" where
  "new_allocator num_blocks t =
     (if m_memory_block_slab t < num_blocks then Inl (Failed ResultOutOfResource)
      else Inr (UpdateAllocator_ctor num_blocks, t\<lparr> m_memory_block_slab := m_memory_block_slab t - num_blocks \<rparr>))"

definition update_blocks ::
  "(KMemoryBlockManager \<Rightarrow> block_error + KMemoryBlockManager \<times> UpdateAllocator) \<Rightarrow> 'g KPageTableBase \<Rightarrow>
   kernel_error + 'g KPageTableBase" where
  "update_blocks f t =
     (case f (m_memory_block_manager t) of
        Inl e \<Rightarrow> Inl (Crashed e)
      | Inr (m, al) \<Rightarrow>
          Inr (t\<lparr> m_memory_block_manager := m,
                 m_memory_block_slab := m_memory_block_slab t + freed_to_slab al + (MaxBlocks - m_index al) \<rparr>))"

definition ConvertToMemoryPermission :: "u8 \<Rightarrow> MemoryPermission" where
  "ConvertToMemoryPermission perm =
     (if perm AND Perm_UserRead \<noteq> 0 then Permission_Read else 0) OR
     (if perm AND Perm_UserWrite \<noteq> 0 then Permission_Write else 0)"

text \<open>The three cases of \<^verbatim>\<open>Operate\<close> that change permissions.\<close>

definition Operate_ChangePermissions :: "u64 \<Rightarrow> u64 \<Rightarrow> u8 \<Rightarrow> 'g KPageTableBase \<Rightarrow> 'g KPageTableBase" where
  "Operate_ChangePermissions virt_addr npages perm t =
     t\<lparr> m_memory := ProtectRegion virt_addr (npages * PageSize) (ConvertToMemoryPermission perm) (m_memory t) \<rparr>"

definition page_group_refs :: "KPageGroup \<Rightarrow> (u64 \<times> u64) list" where
  "page_group_refs pg = map (\<lambda>b. (BlockInfo_GetAddress b, BlockInfo_GetNumPages b)) pg"

definition reference_counted :: "check_masks \<Rightarrow> check_masks" where
  "reference_counted c =
     c\<lparr> state_mask := state_mask c OR State_FlagReferenceCounted,
       want_state := want_state c OR State_FlagReferenceCounted \<rparr>"

section \<open>Locking memory\<close>

definition LockMemoryAndOpen ::
  "(u64 \<Rightarrow> bool) \<Rightarrow> KPageGroup option \<Rightarrow> bool \<Rightarrow> u64 \<Rightarrow> u64 \<Rightarrow> check_masks \<Rightarrow> u8 \<Rightarrow> u8 \<Rightarrow> 'g KPageTableBase \<Rightarrow>
   kernel_error + KPageGroup option \<times> u64 option \<times> 'g KPageTableBase" where
  "LockMemoryAndOpen is_heap out_pg want_paddr addr sz c new_perm lock_attr t =
     (let npages = sz div PageSize
      in if \<not> Contains addr sz t then Inl (Failed kernel_result.ResultInvalidCurrentMemory)
         else R_TRY (CheckMemoryState addr sz (reference_counted c) DefaultMemoryIgnoreAttr t)
           (\<lambda>(old_state, old_perm, old_attr, num_allocator_blocks).
         R_TRY (case out_pg of
                  None \<Rightarrow> Inr ([], m_block_infos t)
                | Some pg \<Rightarrow> map_sum fst id (MakePageGroup (m_impl t) is_heap pg addr npages (m_block_infos t)))
           (\<lambda>(pg, infos).
         R_TRY (new_allocator num_allocator_blocks t)
           (\<lambda>(al, t1).
              let new_perm1 = (if new_perm \<noteq> Perm_None then new_perm else old_perm);
                  new_attr = old_attr OR lock_attr;
                  t2 = (if new_perm1 \<noteq> old_perm then Operate_ChangePermissions addr npages new_perm1 t1 else t1)
              in R_TRY (update_blocks (Manager_Update al addr npages old_state new_perm1 new_attr Merge_Locked Merge_None) t2)
                   (\<lambda>t3. Inr (map_option (\<lambda>_. pg) out_pg,
                              if want_paddr then GetPhysicalAddress (m_impl t) addr else None,
                              t3\<lparr> m_block_infos := infos, m_opened := m_opened t3 @ page_group_refs pg \<rparr>))))))"

definition UnlockMemory ::
  "(u64 \<Rightarrow> bool) \<Rightarrow> u64 \<Rightarrow> u64 \<Rightarrow> check_masks \<Rightarrow> u8 \<Rightarrow> u8 \<Rightarrow> KPageGroup option \<Rightarrow> 'g KPageTableBase \<Rightarrow>
   kernel_error + 'g KPageTableBase" where
  "UnlockMemory is_heap addr sz c new_perm lock_attr pg t =
     (let npages = sz div PageSize
      in if \<not> Contains addr sz t then Inl (Failed kernel_result.ResultInvalidCurrentMemory)
         else R_TRY (CheckMemoryState addr sz (reference_counted c) DefaultMemoryIgnoreAttr t)
           (\<lambda>(old_state, old_perm, old_attr, num_allocator_blocks).
         if (case pg of None \<Rightarrow> False | Some g \<Rightarrow> \<not> IsValidPageGroup (m_impl t) is_heap g addr npages)
         then Inl (Failed ResultInvalidMemoryRegion)
         else
           let new_perm1 = (if new_perm \<noteq> Perm_None then new_perm else old_perm);
               new_attr = old_attr AND NOT lock_attr
           in R_TRY (new_allocator num_allocator_blocks t)
                (\<lambda>(al, t1).
                   let t2 = (if new_perm1 \<noteq> old_perm then Operate_ChangePermissions addr npages new_perm1 t1 else t1)
                   in update_blocks (Manager_Update al addr npages old_state new_perm1 new_attr Merge_None Merge_Locked) t2)))"

definition Perm_All :: u8 where "Perm_All = NOT Perm_None"
definition Perm_KernelReadWrite :: u8 where "Perm_KernelReadWrite = Perm_KernelRead OR Perm_KernelWrite"
definition Attr_All :: u8 where "Attr_All = 0xFF"
definition Attr_SetMask :: u8 where "Attr_SetMask = Attr_Uncached OR Attr_PermissionLocked"

text \<open>The masks of the lock and unlock calls, which differ in the flag of the state only.\<close>

definition lock_masks :: "u32 \<Rightarrow> check_masks" where
  "lock_masks flag = \<lparr> state_mask = flag, want_state = flag, perm_mask = Perm_All, want_perm = Perm_UserReadWrite,
     attr_mask = Attr_All, want_attr = Attr_None \<rparr>"

definition unlock_masks :: "u32 \<Rightarrow> check_masks" where
  "unlock_masks flag = \<lparr> state_mask = flag, want_state = flag, perm_mask = Perm_None, want_perm = Perm_None,
     attr_mask = Attr_All, want_attr = Attr_Locked \<rparr>"

definition LockForIpcUserBuffer ::
  "(u64 \<Rightarrow> bool) \<Rightarrow> u64 \<Rightarrow> u64 \<Rightarrow> 'g KPageTableBase \<Rightarrow> kernel_error + KPageGroup option \<times> u64 option \<times> 'g KPageTableBase" where
  "LockForIpcUserBuffer is_heap address sz =
     LockMemoryAndOpen is_heap None True address sz (lock_masks State_FlagCanIpcUserBuffer)
       (Perm_NotMapped OR Perm_KernelReadWrite) Attr_Locked"

definition UnlockForIpcUserBuffer ::
  "(u64 \<Rightarrow> bool) \<Rightarrow> u64 \<Rightarrow> u64 \<Rightarrow> 'g KPageTableBase \<Rightarrow> kernel_error + 'g KPageTableBase" where
  "UnlockForIpcUserBuffer is_heap address sz =
     UnlockMemory is_heap address sz (unlock_masks State_FlagCanIpcUserBuffer) Perm_UserReadWrite Attr_Locked None"

definition LockForTransferMemory ::
  "(u64 \<Rightarrow> bool) \<Rightarrow> KPageGroup \<Rightarrow> u64 \<Rightarrow> u64 \<Rightarrow> u8 \<Rightarrow> 'g KPageTableBase \<Rightarrow>
   kernel_error + KPageGroup option \<times> u64 option \<times> 'g KPageTableBase" where
  "LockForTransferMemory is_heap out address sz perm =
     LockMemoryAndOpen is_heap (Some out) False address sz (lock_masks State_FlagCanTransfer) perm Attr_Locked"

definition UnlockForTransferMemory ::
  "(u64 \<Rightarrow> bool) \<Rightarrow> u64 \<Rightarrow> u64 \<Rightarrow> KPageGroup \<Rightarrow> 'g KPageTableBase \<Rightarrow> kernel_error + 'g KPageTableBase" where
  "UnlockForTransferMemory is_heap address sz pg =
     UnlockMemory is_heap address sz (unlock_masks State_FlagCanTransfer) Perm_UserReadWrite Attr_Locked (Some pg)"

definition LockForCodeMemory ::
  "(u64 \<Rightarrow> bool) \<Rightarrow> KPageGroup \<Rightarrow> u64 \<Rightarrow> u64 \<Rightarrow> 'g KPageTableBase \<Rightarrow>
   kernel_error + KPageGroup option \<times> u64 option \<times> 'g KPageTableBase" where
  "LockForCodeMemory is_heap out address sz =
     LockMemoryAndOpen is_heap (Some out) False address sz (lock_masks State_FlagCanCodeMemory)
       (Perm_NotMapped OR Perm_KernelReadWrite) Attr_Locked"

definition UnlockForCodeMemory ::
  "(u64 \<Rightarrow> bool) \<Rightarrow> u64 \<Rightarrow> u64 \<Rightarrow> KPageGroup \<Rightarrow> 'g KPageTableBase \<Rightarrow> kernel_error + 'g KPageTableBase" where
  "UnlockForCodeMemory is_heap address sz pg =
     UnlockMemory is_heap address sz (unlock_masks State_FlagCanCodeMemory) Perm_UserReadWrite Attr_Locked (Some pg)"

section \<open>Permissions and attributes\<close>

definition SetMemoryPermission :: "u64 \<Rightarrow> u64 \<Rightarrow> u32 \<Rightarrow> 'g KPageTableBase \<Rightarrow> kernel_error + 'g KPageTableBase" where
  "SetMemoryPermission addr sz svc_perm t =
     (let npages = sz div PageSize
      in R_TRY (CheckMemoryState addr sz
           \<lparr> state_mask = State_FlagCanReprotect, want_state = State_FlagCanReprotect, perm_mask = Perm_None,
             want_perm = Perm_None, attr_mask = Attr_All, want_attr = Attr_None \<rparr> DefaultMemoryIgnoreAttr t)
           (\<lambda>(old_state, old_perm, _, num_allocator_blocks).
              let new_perm = ConvertToKMemoryPermission svc_perm
              in if old_perm = new_perm then Inr t
                 else R_TRY (new_allocator num_allocator_blocks t)
                   (\<lambda>(al, t1).
                      update_blocks (Manager_Update al addr npages old_state new_perm Attr_None Merge_None Merge_None)
                        (Operate_ChangePermissions addr npages new_perm t1))))"

text \<open>
  The permissions of code. The page group made when pages become executable is only flushed
  from data caches, which does nothing here; making it can fail. Instruction caches belong to the CPU.
\<close>

definition SetProcessMemoryPermission ::
  "(u64 \<Rightarrow> bool) \<Rightarrow> u64 \<Rightarrow> u64 \<Rightarrow> u32 \<Rightarrow> 'g KPageTableBase \<Rightarrow> kernel_error + 'g KPageTableBase" where
  "SetProcessMemoryPermission is_heap addr sz svc_perm t =
     (let npages = sz div PageSize
      in R_TRY (CheckMemoryState addr sz
           \<lparr> state_mask = State_FlagCode, want_state = State_FlagCode, perm_mask = Perm_None,
             want_perm = Perm_None, attr_mask = Attr_All, want_attr = Attr_None \<rparr> DefaultMemoryIgnoreAttr t)
           (\<lambda>(old_state, old_perm, _, num_allocator_blocks).
              let new_perm = ConvertToKMemoryPermission svc_perm;
                  is_w = (new_perm AND Perm_UserWrite = Perm_UserWrite);
                  is_x = (new_perm AND Perm_UserExecute = Perm_UserExecute)
              in R_TRY (if is_w then
                          (if old_state = State_Code then Inr State_CodeData
                           else if old_state = State_AliasCode then Inr State_AliasCodeData
                           else Inl Unreachable)
                        else Inr old_state)
                   (\<lambda>new_state.
                 R_TRY (if is_x then map_sum fst fst (MakePageGroup (m_impl t) is_heap [] addr npages (m_block_infos t))
                        else Inr [])
                   (\<lambda>_.
                      if old_perm = new_perm \<and> old_state = new_state then Inr t
                      else R_TRY (new_allocator num_allocator_blocks t)
                        (\<lambda>(al, t1).
                           update_blocks (Manager_Update al addr npages new_state new_perm Attr_None Merge_None Merge_None)
                             (Operate_ChangePermissions addr npages new_perm t1))))))"

definition SetMemoryAttribute ::
  "u64 \<Rightarrow> u64 \<Rightarrow> u8 \<Rightarrow> u8 \<Rightarrow> 'g KPageTableBase \<Rightarrow> kernel_error + 'g KPageTableBase" where
  "SetMemoryAttribute addr sz mask' attr t =
     (let npages = sz div PageSize;
          AttributeTestMask = NOT (Attr_SetMask OR Attr_DeviceShared);
          state_test_mask =
            (if mask' AND Attr_Uncached \<noteq> 0 then State_FlagCanChangeAttribute else State_None) OR
            (if mask' AND Attr_PermissionLocked \<noteq> 0 then State_FlagCanPermissionLock else State_None)
      in R_TRY (CheckMemoryState addr sz
           \<lparr> state_mask = state_test_mask, want_state = state_test_mask, perm_mask = Perm_None,
             want_perm = Perm_None, attr_mask = AttributeTestMask, want_attr = Attr_None \<rparr> (NOT AttributeTestMask) t)
           (\<lambda>(old_state, old_perm, old_attr, num_allocator_blocks).
         R_TRY (new_allocator num_allocator_blocks t)
           (\<lambda>(al, t1).
              let t2 = (if mask' AND Attr_Uncached \<noteq> 0 then Operate_ChangePermissions addr npages old_perm t1 else t1)
              in update_blocks (Manager_UpdateAttribute al addr npages mask' attr) t2)))"

section \<open>Device address spaces\<close>

definition update_lock ::
  "nat \<Rightarrow> u64 \<Rightarrow> u64 \<Rightarrow> (u8 \<Rightarrow> bool \<Rightarrow> bool \<Rightarrow> KMemoryBlock \<Rightarrow> KMemoryBlock) \<Rightarrow> 'g KPageTableBase \<Rightarrow>
   kernel_error + 'g KPageTableBase" where
  "update_lock num_allocator_blocks address npages lock_func t =
     R_TRY (new_allocator num_allocator_blocks t)
       (\<lambda>(al, t1). update_blocks (UpdateLock al address npages lock_func Perm_None) t1)"

definition LockForMapDeviceAddressSpace ::
  "u64 \<Rightarrow> u64 \<Rightarrow> u8 \<Rightarrow> bool \<Rightarrow> bool \<Rightarrow> 'g KPageTableBase \<Rightarrow> kernel_error + bool \<times> 'g KPageTableBase" where
  "LockForMapDeviceAddressSpace address sz perm is_aligned check_heap t =
     (let npages = sz div PageSize;
          test_state = (if is_aligned then State_FlagCanAlignedDeviceMap else State_FlagCanDeviceMap) OR
                       (if check_heap then State_FlagReferenceCounted else State_None)
      in if \<not> Contains address sz t then Inl (Failed kernel_result.ResultInvalidCurrentMemory)
         else R_TRY (CheckMemoryState address sz
           \<lparr> state_mask = test_state, want_state = test_state, perm_mask = perm, want_perm = perm,
             attr_mask = Attr_IpcLocked OR Attr_Locked, want_attr = Attr_None \<rparr> Attr_DeviceShared t)
           (\<lambda>(old_state, _, _, num_allocator_blocks).
              map_sum id (\<lambda>t1. (svc_state old_state = 1, t1))
                (update_lock num_allocator_blocks address npages ShareToDevice t)))"

definition device_masks :: "u32 \<Rightarrow> check_masks" where
  "device_masks test_state =
     \<lparr> state_mask = test_state, want_state = test_state, perm_mask = Perm_None, want_perm = Perm_None,
       attr_mask = Attr_DeviceShared OR Attr_Locked, want_attr = Attr_DeviceShared \<rparr>"

definition LockForUnmapDeviceAddressSpace ::
  "u64 \<Rightarrow> u64 \<Rightarrow> bool \<Rightarrow> 'g KPageTableBase \<Rightarrow> kernel_error + 'g KPageTableBase" where
  "LockForUnmapDeviceAddressSpace address sz check_heap t =
     (let npages = sz div PageSize;
          test_state = State_FlagCanDeviceMap OR (if check_heap then State_FlagReferenceCounted else State_None)
      in if \<not> Contains address sz t then Inl (Failed kernel_result.ResultInvalidCurrentMemory)
         else R_TRY (CheckMemoryStateContiguous address sz (device_masks test_state) t)
           (\<lambda>num_allocator_blocks.
              update_lock num_allocator_blocks address npages
                (if m_enable_device_address_space_merge t then (\<lambda>p left right. ForShare left right)
                 else (\<lambda>p left right. ForShareRight right)) t))"

definition UnlockForDeviceAddressSpace ::
  "u64 \<Rightarrow> u64 \<Rightarrow> 'g KPageTableBase \<Rightarrow> kernel_error + 'g KPageTableBase" where
  "UnlockForDeviceAddressSpace address sz t =
     (let npages = sz div PageSize
      in if \<not> Contains address sz t then Inl (Failed kernel_result.ResultInvalidCurrentMemory)
         else R_TRY (CheckMemoryStateContiguous address sz (device_masks State_FlagCanDeviceMap) t)
           (\<lambda>num_allocator_blocks. update_lock num_allocator_blocks address npages UnshareToDevice t))"

definition UnlockForDeviceAddressSpacePartialMap ::
  "u64 \<Rightarrow> u64 \<Rightarrow> 'g KPageTableBase \<Rightarrow> kernel_error + 'g KPageTableBase" where
  "UnlockForDeviceAddressSpacePartialMap address sz t =
     (let npages = sz div PageSize
      in if \<not> Contains address sz t then Inl (Failed kernel_result.ResultInvalidCurrentMemory)
         else R_TRY (CheckMemoryStateContiguous address sz (device_masks State_FlagCanDeviceMap) t)
           (\<lambda>num_allocator_blocks.
              update_lock num_allocator_blocks address npages
                (if m_enable_device_address_space_merge t then (\<lambda>p left right. ForUnshare left right)
                 else (\<lambda>p left right. ForUnshareRight right)) t))"

section \<open>Queries\<close>

text \<open>The block that holds an address.\<close>

definition QueryInfoImpl :: "u64 \<Rightarrow> 'g KPageTableBase \<Rightarrow> kernel_error + KMemoryBlock" where
  "QueryInfoImpl address t =
     (case FindBlock address (m_memory_block_manager t) of
        None \<Rightarrow> Inl (Failed kernel_result.ResultInvalidCurrentMemory)
      | Some block \<Rightarrow> Inr block)"

primrec GetSize_loop :: "u32 \<Rightarrow> u64 \<Rightarrow> KMemoryBlock list \<Rightarrow> u64" where
  "GetSize_loop state total_size [] = total_size"
| "GetSize_loop state total_size (info # it) =
     GetSize_loop state (if m_memory_state info = state then total_size + GetSize info else total_size) it"

definition PageTable_GetSize :: "u32 \<Rightarrow> 'g KPageTableBase \<Rightarrow> u64" where
  "PageTable_GetSize state t =
     GetSize_loop state 0 (snd (FindIterator (m_address_space_start t) (m_memory_block_tree (m_memory_block_manager t))))"

section \<open>System calls\<close>

definition IsAligned :: "u64 \<Rightarrow> u64 \<Rightarrow> bool" where
  "IsAligned v n \<longleftrightarrow> v AND (n - 1) = 0"

definition IsValidSetMemoryPermission :: "u32 \<Rightarrow> bool" where
  "IsValidSetMemoryPermission perm \<longleftrightarrow> perm \<in> {0, 1, 3}"

definition svc_SetMemoryPermission :: "u64 \<Rightarrow> u64 \<Rightarrow> u32 \<Rightarrow> 'g KPageTableBase \<Rightarrow> kernel_error + 'g KPageTableBase" where
  "svc_SetMemoryPermission address sz perm t =
     (if \<not> IsAligned address PageSize then Inl (Failed ResultInvalidAddress)
      else if \<not> IsAligned sz PageSize then Inl (Failed ResultInvalidSize)
      else if \<not> sz > 0 then Inl (Failed ResultInvalidSize)
      else if \<not> address < address + sz then Inl (Failed kernel_result.ResultInvalidCurrentMemory)
      else if \<not> IsValidSetMemoryPermission perm then Inl (Failed ResultInvalidNewMemoryPermission)
      else if \<not> Contains address sz t then Inl (Failed kernel_result.ResultInvalidCurrentMemory)
      else SetMemoryPermission address sz perm t)"

definition svc_SetMemoryAttribute ::
  "u64 \<Rightarrow> u64 \<Rightarrow> u32 \<Rightarrow> u32 \<Rightarrow> 'g KPageTableBase \<Rightarrow> kernel_error + 'g KPageTableBase" where
  "svc_SetMemoryAttribute address sz mask' attr t =
     (let SupportedMask = 8 OR 16; PermissionLocked = 16
      in if \<not> IsAligned address PageSize then Inl (Failed ResultInvalidAddress)
         else if \<not> IsAligned sz PageSize then Inl (Failed ResultInvalidSize)
         else if \<not> sz > 0 then Inl (Failed ResultInvalidSize)
         else if \<not> address < address + sz then Inl (Failed kernel_result.ResultInvalidCurrentMemory)
         else if mask' OR attr \<noteq> mask' then Inl (Failed ResultInvalidCombination)
         else if mask' OR attr OR SupportedMask \<noteq> SupportedMask then Inl (Failed ResultInvalidCombination)
         else if mask' AND PermissionLocked \<noteq> attr AND PermissionLocked then Inl (Failed ResultInvalidCombination)
         else if \<not> Contains address sz t then Inl (Failed kernel_result.ResultInvalidCurrentMemory)
         else SetMemoryAttribute address sz (ucast mask') (ucast attr) t)"

end
