(* ===== verification/KMemoryBlockViews.thy ===== *)
theory KMemoryBlockViews
  imports KMemoryBlockManager
begin

text \<open>
  What a list of memory blocks stands for: a tiling of an address range without gaps, and a
  map from addresses to the properties of the page they lie in. Splitting and merging blocks
  leave that map alone. Addresses are natural numbers here; the lemmas of the first section
  carry the machine arithmetic of \<^verbatim>\<open>k_memory_block.h\<close> over to them.
\<close>

unbundle bit_operations_syntax

section \<open>Addresses as numbers\<close>

definition lo :: "KMemoryBlock \<Rightarrow> nat" where "lo b = unat (m_address b)"
definition hi :: "KMemoryBlock \<Rightarrow> nat" where "hi b = lo b + 4096 * unat (m_num_pages b)"

lemma PageSize_unat: "unat PageSize = 4096"
  by (simp add: PageSize_def push_bit_eq_mult)

lemma unat_add_small: "unat a + unat b < 2 ^ 64 \<Longrightarrow> unat (a + b) = unat a + unat b" for a b :: u64
  by (simp add: unat_word_ariths)

lemma unat_mult_small: "unat a * unat b < 2 ^ 64 \<Longrightarrow> unat (a * b) = unat a * unat b" for a b :: u64
  by (simp add: unat_word_ariths)

lemma unat_sub_small: "unat b \<le> unat a \<Longrightarrow> unat (a - b) = unat a - unat b" for a b :: u64
  by (simp add: unat_sub word_le_nat_alt)

lemma unat_pages: "4096 * unat n < 2 ^ 64 \<Longrightarrow> unat (n * PageSize) = 4096 * unat n" for n :: u64
  using unat_mult_small [of n PageSize] by (simp add: PageSize_unat mult.commute)

lemma unat_div_PageSize: "unat (n div PageSize) = unat n div 4096" for n :: u64
  by (simp add: unat_div PageSize_unat)

lemma unat_GetSize: "hi b < 2 ^ 64 \<Longrightarrow> unat (GetSize b) = hi b - lo b"
  by (simp add: GetSize_def unat_pages hi_def)

lemma info_pages:
  assumes "hi b < 2 ^ 64"
  shows "GetSize b div PageSize = m_num_pages b"
proof -
  have "unat (GetSize b div PageSize) = unat (m_num_pages b)"
    using assms by (simp add: unat_div_PageSize unat_GetSize hi_def)
  then show ?thesis by (rule unsigned_word_eqI)
qed

lemma unat_GetEndAddress:
  assumes "hi b < 2 ^ 64"
  shows "unat (GetEndAddress b) = hi b"
proof -
  have "unat (GetSize b) = 4096 * unat (m_num_pages b)"
    using assms by (simp add: GetSize_def unat_pages hi_def)
  then show ?thesis
    using assms unat_add_small [of "m_address b" "GetSize b"] by (simp add: GetEndAddress_def hi_def lo_def)
qed

lemma unat_GetLastAddress:
  assumes "hi b < 2 ^ 64" "lo b < hi b"
  shows "unat (GetLastAddress b) = hi b - 1"
  using unat_sub_small [of 1 "GetEndAddress b"] assms
  by (simp add: GetLastAddress_def unat_GetEndAddress)

lemma holds_address_iff:
  assumes "hi b < 2 ^ 64" "lo b < hi b"
  shows "holds_address address b \<longleftrightarrow> lo b \<le> unat address \<and> unat address < hi b"
  using assms by (auto simp: holds_address_def word_le_nat_alt unat_GetLastAddress lo_def)

section \<open>Tilings\<close>

primrec tiled :: "nat \<Rightarrow> KMemoryBlock list \<Rightarrow> nat \<Rightarrow> bool" where
  "tiled a [] z \<longleftrightarrow> a = z"
| "tiled a (b # bs) z \<longleftrightarrow> lo b = a \<and> lo b < hi b \<and> tiled (hi b) bs z"

lemma tiled_le: "tiled a bs z \<Longrightarrow> a \<le> z"
  by (induction bs arbitrary: a) (auto dest: order.strict_implies_order order_trans less_le_trans)

lemma tiled_append: "tiled a (xs @ ys) z \<longleftrightarrow> (\<exists>c. tiled a xs c \<and> tiled c ys z)"
  by (induction xs arbitrary: a) auto

lemma tiled_aligned: "tiled a bs z \<Longrightarrow> a mod 4096 = 0 \<Longrightarrow> b \<in> set bs \<Longrightarrow> lo b mod 4096 = 0"
  by (induction bs arbitrary: a) (auto simp: hi_def)

lemma tiled_bounds: "tiled a bs z \<Longrightarrow> b \<in> set bs \<Longrightarrow> a \<le> lo b \<and> lo b < hi b \<and> hi b \<le> z"
proof (induction bs arbitrary: a)
  case (Cons c cs)
  then show ?case using tiled_le [of "hi c" cs z] by fastforce
qed simp

lemma hi_aligned: "lo b mod 4096 = 0 \<Longrightarrow> hi b mod 4096 = 0"
  by (simp add: hi_def)

section \<open>The map from addresses to page properties\<close>

type_synonym page_properties = "u32 \<times> u8 \<times> u8 \<times> u8 \<times> u16 \<times> u16"

definition properties :: "KMemoryBlock \<Rightarrow> page_properties" where
  "properties b =
     (m_memory_state b, m_permission b, m_original_permission b, m_attribute b, m_ipc_lock_count b,
      m_device_use_count b)"

lemma HasSameProperties_iff: "HasSameProperties b c \<longleftrightarrow> properties b = properties c"
  by (simp add: HasSameProperties_def properties_def)

primrec page_map :: "KMemoryBlock list \<Rightarrow> nat \<Rightarrow> page_properties option" where
  "page_map [] x = None"
| "page_map (b # bs) x = (if lo b \<le> x \<and> x < hi b then Some (properties b) else page_map bs x)"

lemma page_map_append:
  "page_map (xs @ ys) x = (case page_map xs x of None \<Rightarrow> page_map ys x | Some v \<Rightarrow> Some v)"
  by (induction xs) auto

lemma page_map_None_iff: "tiled a bs z \<Longrightarrow> page_map bs x = None \<longleftrightarrow> \<not> (a \<le> x \<and> x < z)"
proof (induction bs arbitrary: a)
  case (Cons b bs)
  then have t: "tiled (hi b) bs z" by simp
  show ?case using Cons.IH [OF t] Cons.prems tiled_le [OF t] by auto
qed auto

lemma page_map_of:
  "tiled a bs z \<Longrightarrow> b \<in> set bs \<Longrightarrow> lo b \<le> x \<Longrightarrow> x < hi b \<Longrightarrow> page_map bs x = Some (properties b)"
proof (induction bs arbitrary: a)
  case (Cons c cs)
  then show ?case using tiled_bounds [of "hi c" cs z b] by (cases "b = c") auto
qed simp

lemma page_map_in: "tiled a bs z \<Longrightarrow> b \<in> set bs \<Longrightarrow> page_map bs (lo b) = Some (properties b)"
  using page_map_of tiled_bounds by blast

text \<open>The search of the tree finds the block a page of the map comes from.\<close>

lemma FindIterator_tiled:
  assumes "tiled a tree z" "z < 2 ^ 64" "a \<le> unat address" "unat address < z"
  shows "\<exists>before b rest. FindIterator address tree = (before, b # rest) \<and> tree = before @ b # rest \<and>
           tiled a before (lo b) \<and> lo b \<le> unat address \<and> unat address < hi b \<and> tiled (lo b) (b # rest) z"
  using assms
proof (induction tree arbitrary: a)
  case (Cons c cs)
  have "hi c \<le> z" using Cons.prems(1) tiled_le [of "hi c" cs z] by simp
  then have at: "holds_address address c \<longleftrightarrow> lo c \<le> unat address \<and> unat address < hi c"
    using Cons.prems holds_address_iff [of c address] by simp
  show ?case
  proof (cases "unat address < hi c")
    case True
    then show ?thesis using Cons.prems at by (auto simp: FindIterator_def)
  next
    case False
    obtain before b rest where IH: "FindIterator address cs = (before, b # rest)" "cs = before @ b # rest"
      "tiled (hi c) before (lo b)" "lo b \<le> unat address" "unat address < hi b" "tiled (lo b) (b # rest) z"
      using Cons.IH [of "hi c"] Cons.prems False by auto
    have "FindIterator address (c # cs) = (c # before, b # rest)"
      using IH(1) at False by (simp add: FindIterator_def)
    then show ?thesis using IH Cons.prems(1) by auto
  qed
qed simp

lemma FindBlock_page_map:
  assumes "tiled a (m_memory_block_tree m) z" "z < 2 ^ 64"
  shows "map_option properties (FindBlock address m) = page_map (m_memory_block_tree m) (unat address)"
proof -
  have gen: "map_option properties (case snd (FindIterator address tree) of [] \<Rightarrow> None | b # rest \<Rightarrow> Some b) =
      page_map tree (unat address)" if "tiled a tree z" for tree a
    using that
  proof (induction tree arbitrary: a)
    case (Cons c cs)
    have "hi c \<le> z" using Cons.prems tiled_le [of "hi c" cs z] by simp
    then have "holds_address address c \<longleftrightarrow> lo c \<le> unat address \<and> unat address < hi c"
      using Cons.prems assms(2) holds_address_iff [of c address] by simp
    then show ?case using Cons.IH [of "hi c"] Cons.prems by (auto simp: FindIterator_def)
  qed (simp add: FindIterator_def)
  show ?thesis using gen [OF assms(1)] by (simp add: FindBlock_def)
qed

section \<open>Splitting and merging\<close>

text \<open>Two blocks alike to their left neighbours, and two alike to their right neighbours.\<close>

definition left_alike :: "KMemoryBlock \<Rightarrow> KMemoryBlock \<Rightarrow> bool" where
  "left_alike b c \<longleftrightarrow>
     properties b = properties c \<and>
     m_disable_merge_attribute b AND Merge_AllLeft = m_disable_merge_attribute c AND Merge_AllLeft"

definition right_alike :: "KMemoryBlock \<Rightarrow> KMemoryBlock \<Rightarrow> bool" where
  "right_alike b c \<longleftrightarrow>
     properties b = properties c \<and>
     m_disable_merge_attribute b AND Merge_AllRight = m_disable_merge_attribute c AND Merge_AllRight"

lemma CanMergeWith_left_alike: "left_alike b c \<Longrightarrow> CanMergeWith p b = CanMergeWith p c"
  by (simp add: CanMergeWith_def left_alike_def HasSameProperties_iff)

lemma CanMergeWith_right_alike: "right_alike b c \<Longrightarrow> CanMergeWith b q = CanMergeWith c q"
  by (simp add: CanMergeWith_def right_alike_def HasSameProperties_iff)

lemma alike_refl [simp]: "left_alike b b" "right_alike b b"
  by (simp_all add: left_alike_def right_alike_def)

lemma left_alike_trans: "left_alike a b \<Longrightarrow> left_alike b c \<Longrightarrow> left_alike a c"
  by (simp add: left_alike_def)

lemma Split_parts:
  assumes "Split addr b = (l, r)" "lo b mod 4096 = 0" "unat addr mod 4096 = 0"
    "lo b \<le> unat addr" "unat addr \<le> hi b" "hi b < 2 ^ 64"
  shows "lo l = lo b" "hi l = unat addr" "lo r = unat addr" "hi r = hi b"
    "properties l = properties b" "properties r = properties b" "left_alike l b" "right_alike r b"
proof -
  have d: "unat (addr - m_address b) = unat addr - lo b"
    using assms(4) unat_sub_small [of "m_address b" addr] by (simp add: lo_def)
  have dv: "4096 dvd unat addr - lo b"
    using assms(2-4) by (meson dvd_diff_nat mod_eq_0_iff_dvd)
  have n: "unat ((addr - m_address b) div PageSize) = (unat addr - lo b) div 4096"
    by (simp add: unat_div_PageSize d)
  have le: "(unat addr - lo b) div 4096 \<le> unat (m_num_pages b)"
    using assms(5) by (simp add: hi_def div_le_mono [of _ "4096 * unat (m_num_pages b)" 4096, simplified])
  have l: "l = fst (Split addr b)" and r: "r = snd (Split addr b)" using assms(1) by simp_all
  show 1: "lo l = lo b" and 2: "hi l = unat addr" and 3: "lo r = unat addr"
    using assms(4) dv by (simp_all add: l r Split_def Let_def lo_def hi_def n [unfolded lo_def])
  have "unat (m_num_pages r) = unat (m_num_pages b) - (unat addr - lo b) div 4096"
    using le n unat_sub_small [of "(addr - m_address b) div PageSize" "m_num_pages b"]
    by (simp add: r Split_def Let_def)
  then show "hi r = hi b"
    using 3 dv le assms(4,5) by (simp add: hi_def [of r] hi_def [of b] diff_mult_distrib2)
  show "properties l = properties b" "properties r = properties b"
    by (simp_all add: l r Split_def Let_def properties_def)
  then show "left_alike l b" "right_alike r b"
    by (simp_all add: left_alike_def right_alike_def l r Split_def Let_def and.assoc)
qed

lemma Block_Add_parts:
  assumes "CanMergeWith p q" "hi p = lo q" "hi q < 2 ^ 64"
  shows "lo (Block_Add p q) = lo p" "hi (Block_Add p q) = hi q" "properties (Block_Add p q) = properties p"
    "left_alike (Block_Add p q) p" "right_alike (Block_Add p q) q"
proof -
  have s: "unat (m_num_pages p) + unat (m_num_pages q) < 2 ^ 64"
    using assms(2,3) by (simp add: hi_def)
  show "lo (Block_Add p q) = lo p" by (simp add: lo_def Block_Add_def)
  then show "hi (Block_Add p q) = hi q"
    using assms(2) unat_add_small [OF s] by (simp add: hi_def Block_Add_def)
  show "properties (Block_Add p q) = properties p" by (simp add: Block_Add_def properties_def)
  then show "left_alike (Block_Add p q) p" "right_alike (Block_Add p q) q"
    using assms(1)
    by (simp_all add: left_alike_def right_alike_def CanMergeWith_def HasSameProperties_iff Block_Add_def
        Merge_None_def bit.conj_disj_distrib2)
qed

text \<open>An address strictly inside of a block: a range that starts or ends there needs a new block.\<close>

definition cuts :: "KMemoryBlock list \<Rightarrow> nat \<Rightarrow> bool" where
  "cuts bs x \<longleftrightarrow> (\<exists>b\<in>set bs. lo b < x \<and> x < hi b)"

lemma cuts_Cons: "cuts (b # bs) x \<longleftrightarrow> lo b < x \<and> x < hi b \<or> cuts bs x"
  by (simp add: cuts_def)

lemma cuts_append: "cuts (xs @ ys) x \<longleftrightarrow> cuts xs x \<or> cuts ys x"
  by (auto simp: cuts_def)

lemma cuts_below: "tiled a bs k \<Longrightarrow> k \<le> x \<Longrightarrow> \<not> cuts bs x"
  using tiled_bounds by (fastforce simp: cuts_def)

lemma cuts_above: "tiled a bs k \<Longrightarrow> x \<le> a \<Longrightarrow> \<not> cuts bs x"
  using tiled_bounds by (fastforce simp: cuts_def)

text \<open>What an update of a range may change of the boundaries between blocks: outside of the range none of them goes away.\<close>

definition keeps_cuts :: "nat \<Rightarrow> nat \<Rightarrow> KMemoryBlock list \<Rightarrow> KMemoryBlock list \<Rightarrow> bool" where
  "keeps_cuts c l bs bs' \<longleftrightarrow> (\<forall>x. x < c \<or> l < x \<longrightarrow> cuts bs' x \<longrightarrow> cuts bs x)"

lemma keeps_cuts_refl [simp]: "keeps_cuts c l bs bs"
  by (simp add: keeps_cuts_def)

lemma keeps_cuts_trans: "keeps_cuts c l bs bs1 \<Longrightarrow> keeps_cuts c l bs1 bs2 \<Longrightarrow> keeps_cuts c l bs bs2"
  by (simp add: keeps_cuts_def)

lemma keeps_cuts_Cons: "keeps_cuts c l bs bs' \<Longrightarrow> keeps_cuts c l (b # bs) (b # bs')"
  by (auto simp: keeps_cuts_def cuts_Cons)

lemma keeps_cuts_append: "keeps_cuts c l bs bs' \<Longrightarrow> keeps_cuts c l (xs @ bs) (xs @ bs')"
  by (auto simp: keeps_cuts_def cuts_append)

end
