(* ===== verification/KMemoryBlockCoalesce.thy ===== *)
theory KMemoryBlockCoalesce
  imports KMemoryBlockViews
begin

text \<open>
  The merging at the end of every update, \<^verbatim>\<open>CoalesceForUpdate\<close>: when only neighbours that meet
  within the updated range can still be merged, the pass leaves no mergeable neighbours
  anywhere, and it never changes what the blocks stand for.
\<close>

unbundle bit_operations_syntax

definition coalesced :: "KMemoryBlock list \<Rightarrow> bool" where
  "coalesced bs \<longleftrightarrow> successively (\<lambda>p q. \<not> CanMergeWith p q) bs"

text \<open>Neighbours that meet outside of the range cannot be merged.\<close>

definition quiet :: "nat \<Rightarrow> nat \<Rightarrow> KMemoryBlock list \<Rightarrow> bool" where
  "quiet c l bs \<longleftrightarrow> successively (\<lambda>p q. (lo q < c \<or> l < lo q) \<longrightarrow> \<not> CanMergeWith p q) bs"

lemma coalesced_Cons: "coalesced (p # q # r) \<longleftrightarrow> \<not> CanMergeWith p q \<and> coalesced (q # r)"
  by (simp add: coalesced_def)

lemma quiet_Cons:
  "quiet c l (p # q # r) \<longleftrightarrow> ((lo q < c \<or> l < lo q) \<longrightarrow> \<not> CanMergeWith p q) \<and> quiet c l (q # r)"
  by (simp add: quiet_def)

lemma coalesced_single [simp]: "coalesced []" "coalesced [b]"
  by (simp_all add: coalesced_def)

lemma quiet_single [simp]: "quiet c l []" "quiet c l [b]"
  by (simp_all add: quiet_def)

lemma coalesced_quiet: "coalesced bs \<Longrightarrow> quiet c l bs"
  unfolding coalesced_def quiet_def by (erule successively_mono) simp

lemma coalesced_join: "coalesced (xs @ y # ys) \<longleftrightarrow> coalesced (xs @ [y]) \<and> coalesced (y # ys)"
  by (auto simp: coalesced_def successively_append_iff)

lemma quiet_join: "quiet c l (xs @ y # ys) \<longleftrightarrow> quiet c l (xs @ [y]) \<and> quiet c l (y # ys)"
  by (auto simp: quiet_def successively_append_iff)

lemma coalesced_last_alike: "left_alike x y \<Longrightarrow> coalesced (xs @ [x]) = coalesced (xs @ [y])"
  by (auto simp: coalesced_def successively_append_iff CanMergeWith_left_alike)

text \<open>Blocks that all start before the range.\<close>

lemma quiet_below: "quiet c l bs \<Longrightarrow> \<forall>b\<in>set bs. lo b < c \<Longrightarrow> coalesced bs"
  by (induction bs rule: induct_list012) (auto simp: quiet_Cons coalesced_Cons)

text \<open>Blocks whose second one starts behind the range.\<close>

lemma quiet_above:
  assumes "quiet c l (b # bs)" "tiled (hi b) bs z" "l < hi b"
  shows "coalesced (b # bs)"
  using assms
proof (induction bs arbitrary: b)
  case (Cons q r)
  then show ?case using Cons.IH [of q] by (auto simp: quiet_Cons coalesced_Cons)
qed simp

text \<open>One pass of the loop.\<close>

lemma coalesce_loop_correct:
  assumes "coalesce_loop lim al bs = (bs', al')" "tiled a bs z" "z < 2 ^ 64" "quiet c (unat lim) bs" "bs \<noteq> []"
  shows "tiled a bs' z \<and> coalesced bs' \<and> (\<forall>x. page_map bs' x = page_map bs x) \<and>
         bs' \<noteq> [] \<and> left_alike (hd bs') (hd bs) \<and> keeps_cuts c (unat lim) bs bs'"
  using assms
proof (induction lim al bs arbitrary: a bs' al' rule: coalesce_loop.induct)
  case (1 lim al p q r)
  let ?m = "Block_Add p q"
  have t: "lo p = a" "lo p < hi p" "hi p = lo q" "lo q < hi q" "tiled (hi q) r z"
    using "1.prems"(2) by auto
  have hz: "hi q < 2 ^ 64" "hi p < 2 ^ 64" using t tiled_le [OF t(5)] "1.prems"(3) by simp_all
  have qq: "quiet c (unat lim) (q # r)" using "1.prems"(4) by (simp add: quiet_Cons)
  show ?case
  proof (cases "CanMergeWith p q")
    case True
    note add = Block_Add_parts [OF True t(3) hz(1)]
    have q1: "quiet c (unat lim) (?m # r)"
      using qq CanMergeWith_right_alike [OF add(5)] by (cases r) (simp_all add: quiet_Cons)
    have t1: "tiled a (?m # r) z" using t add by simp
    have end_m: "lim < GetEndAddress ?m \<longleftrightarrow> unat lim < hi q"
      using hz add(2) by (simp add: word_less_nat_alt unat_GetEndAddress)
    have pq: "properties p = properties q" using True by (simp add: CanMergeWith_def HasSameProperties_iff)
    have pm: "page_map (?m # r) x = page_map (p # q # r) x" for x
      using add t pq by auto
    have kc: "keeps_cuts c (unat lim) (p # q # r) (?m # r)"
      using add t True "1.prems"(4) by (auto simp: keeps_cuts_def cuts_Cons quiet_Cons)
    show ?thesis
    proof (cases "lim < GetEndAddress ?m")
      case end_here: True
      have "bs' = ?m # r" using "1.prems"(1) True end_here by (simp add: Let_def)
      moreover have "coalesced (?m # r)"
        using quiet_above [OF q1, of z] t1 end_here end_m add(2) by simp
      ultimately show ?thesis using t1 pm add(4) kc by (simp del: page_map.simps tiled.simps)
    next
      case False
      have run: "coalesce_loop lim (Free al) (?m # r) = (bs', al')"
        using "1.prems"(1) True False by (simp add: Let_def)
      show ?thesis
        using "1.IH"(1) [OF True refl refl False run t1 "1.prems"(3) q1] pm add(4) kc
        by (auto intro: left_alike_trans keeps_cuts_trans simp del: page_map.simps tiled.simps)
    qed
  next
    case False
    have end_q: "lim < GetEndAddress q \<longleftrightarrow> unat lim < hi q"
      using hz by (simp add: word_less_nat_alt unat_GetEndAddress)
    show ?thesis
    proof (cases "lim < GetEndAddress q")
      case True
      have "bs' = p # q # r" using "1.prems"(1) True False by simp
      moreover have "coalesced (q # r)"
        using quiet_above [OF qq t(5)] True end_q by simp
      ultimately show ?thesis using "1.prems"(2) False by (simp add: coalesced_Cons)
    next
      case go: False
      obtain bs1 where run: "coalesce_loop lim al (q # r) = (bs1, al')" and bs': "bs' = p # bs1"
        using "1.prems"(1) False go by (cases "coalesce_loop lim al (q # r)") auto
      have tq: "tiled (hi p) (q # r) z" using t by simp
      have IH: "tiled (hi p) bs1 z" "coalesced bs1" "\<forall>x. page_map bs1 x = page_map (q # r) x" "bs1 \<noteq> []"
        "left_alike (hd bs1) q" "keeps_cuts c (unat lim) (q # r) bs1"
        using "1.IH"(2) [OF False go run tq "1.prems"(3) qq] by simp_all
      have "coalesced (p # bs1)"
        using IH(2,4,5) False CanMergeWith_left_alike [of "hd bs1" q p] by (cases bs1) (simp_all add: coalesced_Cons)
      moreover have "keeps_cuts c (unat lim) (p # q # r) (p # bs1)" using IH(6) by (rule keeps_cuts_Cons)
      ultimately show ?thesis using IH(1-5) t bs' by (simp del: page_map.simps(2) add: page_map.simps(2) [of p])
    qed
  qed
qed auto

text \<open>
  The whole pass. It steps back from the block at the address unless that is the start of the
  address space, so some block has to lie before it.
\<close>

lemma coalesce_behind:
  assumes "coalesce_loop lim al (p # rest) = (bs, al')" "tiled a (xs @ p # rest) z" "z < 2 ^ 64"
    "quiet c (unat lim) (xs @ p # rest)" "\<forall>b\<in>set (xs @ [p]). lo b < c \<or> xs = []"
  shows "tiled a (xs @ bs) z \<and> coalesced (xs @ bs) \<and> (\<forall>x. page_map (xs @ bs) x = page_map (xs @ p # rest) x) \<and>
     keeps_cuts c (unat lim) (xs @ p # rest) (xs @ bs)"
proof -
  obtain k where k: "tiled a xs k" "tiled k (p # rest) z"
    using assms(2) by (auto simp: tiled_append)
  have q: "quiet c (unat lim) (xs @ [p])" "quiet c (unat lim) (p # rest)"
    using assms(4) quiet_join by blast+
  have c: "tiled k bs z" "coalesced bs" "\<forall>x. page_map bs x = page_map (p # rest) x" "bs \<noteq> []"
    "left_alike (hd bs) p" "keeps_cuts c (unat lim) (p # rest) bs"
    using coalesce_loop_correct [OF assms(1) k(2) assms(3) q(2)] by simp_all
  have "coalesced (xs @ [p])"
    using quiet_below [OF q(1)] assms(5) by (cases "xs = []") auto
  then have "coalesced (xs @ [hd bs])" using coalesced_last_alike [OF c(5)] by simp
  then have "coalesced (xs @ hd bs # tl bs)" using c(2,4) coalesced_join [of xs "hd bs" "tl bs"] by simp
  moreover have "page_map bs = page_map (p # rest)" using c(3) by blast
  ultimately show ?thesis
    using c(1,4) k(1) keeps_cuts_append [OF c(6), of xs] by (auto simp: tiled_append page_map_append simp del: page_map.simps split: option.split)
qed

lemma CoalesceForUpdate_correct:
  assumes "tiled a tree z" "z < 2 ^ 64" "quiet (unat address) (unat address + 4096 * unat n) tree"
    "a \<le> unat address" "unat address < z" "unat address + 4096 * unat n \<le> z"
    "address = start \<or> hi (hd tree) \<le> unat address" "a = unat start"
  shows "\<exists>tree' al'. CoalesceForUpdate start address n al tree = Inr (tree', al') \<and> tiled a tree' z \<and>
           coalesced tree' \<and> (\<forall>x. page_map tree' x = page_map tree x) \<and>
           keeps_cuts (unat address) (unat address + 4096 * unat n) tree tree'"
proof -
  obtain before b rest where f: "FindIterator address tree = (before, b # rest)" "tree = before @ b # rest"
    "tiled a before (lo b)" "lo b \<le> unat address" "unat address < hi b" "tiled (lo b) (b # rest) z"
    using FindIterator_tiled [OF assms(1,2,4,5)] by blast
  let ?lim = "address + n * PageSize"
  have "unat (n * PageSize) = 4096 * unat n" using assms(2,6) by (intro unat_pages) simp
  then have lim: "unat ?lim = unat address + 4096 * unat n"
    using assms(2,6) by (simp add: unat_add_small)
  show ?thesis
  proof (cases "address = start")
    case True
    have e: "before = []"
    proof (rule ccontr)
      assume "before \<noteq> []"
      then have "hi (hd tree) \<le> lo b" "a < hi (hd tree)"
        using f(2,3) tiled_bounds [OF f(3), of "hd before"] by (simp_all add: neq_Nil_conv)
      then show False using assms(8) f(4) True by auto
    qed
    obtain bs al' where run: "coalesce_loop ?lim al (b # rest) = (bs, al')" by fastforce
    have "tiled a bs z \<and> coalesced bs \<and> (\<forall>x. page_map bs x = page_map tree x) \<and>
        keeps_cuts (unat address) (unat address + 4096 * unat n) tree bs"
      using coalesce_behind [of ?lim al b rest bs al' a "[]" z "unat address"] run assms(1-3) f(2) e lim by simp
    then show ?thesis using True f(1) e run by (simp add: CoalesceForUpdate_def)
  next
    case False
    have ne: "before \<noteq> []"
      using assms(7) False f(2,5) by auto
    obtain xs p where xs: "before = xs @ [p]" using ne by (cases before rule: rev_cases) auto
    obtain bs al' where run: "coalesce_loop ?lim al (p # b # rest) = (bs, al')" by fastforce
    have "\<forall>c\<in>set (xs @ [p]). lo c < unat address"
      using tiled_bounds [OF f(3)] f(4) xs by fastforce
    then have "tiled a (xs @ bs) z \<and> coalesced (xs @ bs) \<and> (\<forall>x. page_map (xs @ bs) x = page_map tree x) \<and>
        keeps_cuts (unat address) (unat address + 4096 * unat n) tree (xs @ bs)"
      using coalesce_behind [OF run, of a xs z "unat address"] assms(1-3) f(2) xs lim by simp
    then show ?thesis using False f(1) xs run by (simp add: CoalesceForUpdate_def)
  qed
qed

end
