(* ===== verification/KMemoryBlockUpdate.thy ===== *)
theory KMemoryBlockUpdate
  imports KMemoryBlockCoalesce
begin

text \<open>
  The loop shared by the four updates of the block manager. What an update relies on is the
  interface \<open>block_change\<close>: a test that looks at the properties of a block only, a change that
  keeps the range of a block and acts on its properties by \<open>effect\<close>, and no effect on the
  blocks the test skips. For every such change the loop ends, needs at most two new
  blocks, and acts on the page map as the effect on the pages of the range.
\<close>

unbundle bit_operations_syntax

definition on_range :: "nat \<Rightarrow> nat \<Rightarrow> ('a \<Rightarrow> 'a) \<Rightarrow> (nat \<Rightarrow> 'a option) \<Rightarrow> nat \<Rightarrow> 'a option" where
  "on_range c l g f x = (if c \<le> x \<and> x < l then map_option g (f x) else f x)"

lemma on_range_empty: "l \<le> c \<Longrightarrow> on_range c l g f x = f x"
  by (auto simp: on_range_def)

lemma on_range_append:
  assumes "tiled a before k" "k \<le> c" "page_map bs = on_range c l g (page_map cs)"
  shows "page_map (before @ bs) = on_range c l g (page_map (before @ cs))"
proof
  fix x
  have "c \<le> x \<Longrightarrow> page_map before x = None"
    using page_map_None_iff [OF assms(1), of x] assms(2) by simp
  then show "page_map (before @ bs) x = on_range c l g (page_map (before @ cs)) x"
    by (cases "page_map before x") (auto simp: page_map_append assms(3) on_range_def)
qed

lemma quiet_mono: "quiet c l bs \<Longrightarrow> d \<le> c \<Longrightarrow> quiet d l bs"
  unfolding quiet_def by (erule successively_mono) auto

lemma quiet_push: "quiet c l bs \<Longrightarrow> tiled (hi b) bs z \<Longrightarrow> c \<le> hi b \<Longrightarrow> hi b \<le> l \<Longrightarrow> quiet c l (b # bs)"
  by (cases bs) (auto simp: quiet_Cons)

lemma quiet_glue:
  assumes "coalesced (before @ [b])" "quiet c l bs" "tiled c bs z" "c \<le> l"
  shows "quiet c l (before @ bs)"
proof -
  have "quiet c l before"
    using assms(1) coalesced_quiet [of before] by (simp add: coalesced_def successively_append_iff)
  then show ?thesis
    using assms(2-4) by (cases bs) (simp_all add: quiet_def successively_append_iff)
qed

lemma Split_fields: "Split addr b = (l, r) \<Longrightarrow> m_address r = addr"
  by (auto simp: Split_def Let_def)

lemma coalesced_right_alike: "right_alike r b \<Longrightarrow> coalesced (b # rest) \<Longrightarrow> coalesced (r # rest)"
  by (cases rest) (simp_all add: coalesced_Cons CanMergeWith_right_alike)

lemma Allocate_free: "m_index al < 2 \<Longrightarrow> Allocate al = Inr (al\<lparr> m_index := m_index al + 1 \<rparr>)"
  by (simp add: Allocate_def MaxBlocks_def)

text \<open>The remaining page count behind a block.\<close>

lemma remaining_pages_behind:
  fixes cur rem :: u64
  assumes "unat cur mod 4096 = 0" "unat cur + 4096 * unat rem < 2 ^ 64" "e mod 4096 = 0"
    "e \<le> unat cur + 4096 * unat rem" "unat en = e"
  shows "e + 4096 * unat ((cur + rem * PageSize - en) div PageSize) = unat cur + 4096 * unat rem"
proof -
  have r: "unat (rem * PageSize) = 4096 * unat rem" using assms(2) by (intro unat_pages) simp
  have s: "unat (cur + rem * PageSize) = unat cur + 4096 * unat rem"
    using assms(2) r by (simp add: unat_add_small)
  have d: "unat (cur + rem * PageSize - en) = unat cur + 4096 * unat rem - e"
    using assms(4,5) s by (simp add: unat_sub_small)
  have "4096 dvd unat cur + 4096 * unat rem - e"
    using assms(1,3,4) by (meson dvd_add dvd_diff_nat dvd_triv_left mod_eq_0_iff_dvd)
  then show ?thesis using assms(4) by (simp add: unat_div_PageSize d)
qed

text \<open>The new blocks an update of a range needs.\<close>

definition blocks_needed :: "KMemoryBlock list \<Rightarrow> nat \<Rightarrow> nat \<Rightarrow> nat" where
  "blocks_needed bs c l = of_bool (cuts bs c) + of_bool (cuts bs l)"

text \<open>
  What the loop makes of the blocks from \<open>c\<close> to \<open>z\<close>, for a range that ends at \<open>l\<close>, and how
  the results of its steps are put together.
\<close>

definition updated ::
  "(page_properties \<Rightarrow> page_properties) \<Rightarrow> nat \<Rightarrow> nat \<Rightarrow> nat \<Rightarrow> KMemoryBlock list \<Rightarrow> KMemoryBlock list \<Rightarrow> bool" where
  "updated effect c l z bs bs' \<longleftrightarrow>
     tiled c bs' z \<and> page_map bs' = on_range c l effect (page_map bs) \<and> quiet c l bs' \<and>
     (\<forall>x. cuts bs' x \<longrightarrow> cuts bs x)"

lemma updated_empty: "tiled c bs z \<Longrightarrow> coalesced bs \<Longrightarrow> l \<le> c \<Longrightarrow> updated effect c l z bs bs"
  by (simp add: updated_def coalesced_quiet on_range_empty fun_eq_iff)

lemma updated_advance:
  assumes "updated effect (hi b) l z rest bs" "properties b1 = effect (properties b)"
    "lo b1 = lo b" "hi b1 = hi b" "hi b \<le> l" "lo b < hi b"
  shows "updated effect (lo b) l z (b # rest) (b1 # bs)"
proof -
  have u: "tiled (hi b) bs z" "page_map bs = on_range (hi b) l effect (page_map rest)" "quiet (hi b) l bs"
    "\<forall>x. cuts bs x \<longrightarrow> cuts rest x"
    using assms(1) by (simp_all add: updated_def)
  have "page_map (b1 # bs) = on_range (lo b) l effect (page_map (b # rest))"
    using u(2) assms(2-) by (auto simp: on_range_def fun_eq_iff)
  moreover have "quiet (lo b) l (b1 # bs)"
    using quiet_push [of "lo b" l bs b1 z] quiet_mono [OF u(3)] u(1) assms(2-) by simp
  ultimately show ?thesis using u(1,4) assms(2-) by (simp add: updated_def cuts_Cons del: page_map.simps)
qed

lemma updated_skip_last:
  assumes "tiled (lo b) (b # rest) z" "coalesced (b # rest)" "l < hi b" "effect (properties b) = properties b"
  shows "updated effect (lo b) l z (b # rest) (b # rest)"
  using assms by (auto simp: updated_def on_range_def fun_eq_iff coalesced_quiet)

lemma updated_split_last:
  assumes "tiled (lo b) (b # rest) z" "coalesced (b # rest)" "lo b < l" "l < hi b"
    "lo x = lo b" "hi x = l" "properties x = effect (properties b)"
    "lo y = l" "hi y = hi b" "properties y = properties b" "right_alike y b"
  shows "updated effect (lo b) l z (b # rest) (x # y # rest)"
proof -
  have "quiet (lo b) l (x # y # rest)"
    using coalesced_right_alike [OF assms(11,2)] coalesced_quiet assms(3,8) by (auto simp: quiet_Cons)
  moreover have "page_map (x # y # rest) = on_range (lo b) l effect (page_map (b # rest))"
    using assms by (auto simp: on_range_def fun_eq_iff)
  ultimately show ?thesis using assms by (auto simp: updated_def cuts_Cons simp del: page_map.simps)
qed

text \<open>The same for a range that starts inside of the first block.\<close>

definition entered ::
  "(page_properties \<Rightarrow> page_properties) \<Rightarrow> nat \<Rightarrow> nat \<Rightarrow> nat \<Rightarrow> KMemoryBlock \<Rightarrow> KMemoryBlock list \<Rightarrow>
   KMemoryBlock \<Rightarrow> KMemoryBlock list \<Rightarrow> bool" where
  "entered effect c l z b rest b1 bs \<longleftrightarrow>
     tiled (lo b) (b1 # bs) z \<and> page_map (b1 # bs) = on_range c l effect (page_map (b # rest)) \<and>
     quiet c l (b1 # bs) \<and> left_alike b1 b \<and> (\<forall>x. cuts (b1 # bs) x \<longrightarrow> cuts (b # rest) x)"

lemma entered_same:
  assumes "tiled (lo b) (b # rest) z" "coalesced (b # rest)" "l < hi b" "lo b < c"
    "effect (properties b) = properties b \<or> l \<le> c"
  shows "entered effect c l z b rest b rest"
  using assms by (auto simp: entered_def on_range_def fun_eq_iff coalesced_quiet)

lemma entered_skip:
  assumes "updated effect (hi b) l z rest bs" "effect (properties b) = properties b" "lo b < c" "c < hi b" "hi b \<le> l"
  shows "entered effect c l z b rest b bs"
proof -
  have u: "tiled (hi b) bs z" "page_map bs = on_range (hi b) l effect (page_map rest)" "quiet (hi b) l bs"
    "\<forall>x. cuts bs x \<longrightarrow> cuts rest x"
    using assms(1) by (simp_all add: updated_def)
  have "quiet c l (b # bs)"
    using quiet_push [OF quiet_mono [OF u(3)] u(1)] assms(4,5) by simp
  then show ?thesis using u(1,2,4) assms(2-) by (auto simp: entered_def on_range_def fun_eq_iff cuts_Cons)
qed

lemma entered_split:
  assumes "updated effect c l z (y # rest) bs" "lo b < c" "c < hi b" "c \<le> l"
    "lo x = lo b" "hi x = c" "properties x = properties b" "left_alike x b"
    "lo y = c" "hi y = hi b" "properties y = properties b"
  shows "entered effect c l z b rest x bs"
proof -
  have u: "tiled (hi x) bs z" "page_map bs = on_range c l effect (page_map (y # rest))" "quiet c l bs"
    "\<forall>x. cuts bs x \<longrightarrow> cuts (y # rest) x"
    using assms(1,6) by (simp_all add: updated_def)
  have "quiet c l (x # bs)" using quiet_push [OF u(3,1)] assms(4,6) by simp
  moreover have "\<forall>v. cuts (x # bs) v \<longrightarrow> cuts (b # rest) v" using u(4) assms(2-) by (auto simp: cuts_Cons)
  ultimately show ?thesis using u(1,2) assms(2-) by (auto simp: entered_def on_range_def fun_eq_iff)
qed

text \<open>
  A well-formed manager: its blocks cover the address space in order and no two neighbours can
  be merged. An update needs a range of whole pages inside the address space.
\<close>

definition well_formed :: "KMemoryBlockManager \<Rightarrow> bool" where
  "well_formed m \<longleftrightarrow>
     tiled (unat (m_start_address m)) (m_memory_block_tree m) (unat (m_end_address m)) \<and>
     unat (m_start_address m) mod 4096 = 0 \<and> coalesced (m_memory_block_tree m)"

definition in_space :: "KMemoryBlockManager \<Rightarrow> u64 \<Rightarrow> u64 \<Rightarrow> bool" where
  "in_space m address num_pages \<longleftrightarrow>
     unat address mod 4096 = 0 \<and> m_start_address m \<le> address \<and> address < m_end_address m \<and>
     unat address + 4096 * unat num_pages \<le> unat (m_end_address m)"

text \<open>
  The merging pass steps back from the first block of the tree: the range starts inside of it,
  and the loop has not split it.
\<close>

definition steps_back :: "(KMemoryBlock \<Rightarrow> bool) \<Rightarrow> KMemoryBlockManager \<Rightarrow> u64 \<Rightarrow> u64 \<Rightarrow> bool" where
  "steps_back needs m address num_pages \<longleftrightarrow>
     address \<noteq> m_start_address m \<and>
     (case m_memory_block_tree m of
        [] \<Rightarrow> False
      | b # rest \<Rightarrow> unat address < hi b \<and> (num_pages = 0 \<or> \<not> needs b))"

locale block_change =
  fixes needs :: "KMemoryBlock \<Rightarrow> bool"
    and change :: "KMemoryBlock \<Rightarrow> KMemoryBlock"
    and effect :: "page_properties \<Rightarrow> page_properties"
  assumes change_range: "m_address (change b) = m_address b" "m_num_pages (change b) = m_num_pages b"
    and change_properties: "needs b \<Longrightarrow> properties (change b) = effect (properties b)"
    and needs_properties: "properties b = properties c \<Longrightarrow> needs b = needs c"
    and idle: "\<not> needs b \<Longrightarrow> effect (properties b) = properties b"
begin

lemma change_lo_hi: "lo (change b) = lo b" "hi (change b) = hi b"
  by (simp_all add: lo_def hi_def change_range)

text \<open>The steps of the loop at the start of a block.\<close>

lemma step_skip_last:
  assumes "rem \<noteq> 0" "\<not> needs b" "hi b < 2 ^ 64" "unat cur + 4096 * unat rem < hi b"
  shows "update_loop (Suc f) needs change cur rem (b # rest) al = Inr (b # rest, al)"
proof -
  have "unat (rem * PageSize) = 4096 * unat rem" using assms(3,4) by (intro unat_pages) simp
  then have "cur + rem * PageSize < GetEndAddress b"
    using assms(3,4) by (simp add: word_less_nat_alt unat_GetEndAddress unat_add_small)
  then show ?thesis using assms(1,2) by simp
qed

lemma step_skip:
  assumes "rem \<noteq> 0" "\<not> needs b" "hi b < 2 ^ 64" "hi b \<le> unat cur + 4096 * unat rem"
    "unat cur + 4096 * unat rem < 2 ^ 64"
  shows "update_loop (Suc f) needs change cur rem (b # rest) al =
     map_sum id (apfst (Cons b))
       (update_loop f needs change (GetEndAddress b) ((cur + rem * PageSize - GetEndAddress b) div PageSize) rest al)"
proof -
  have "unat (rem * PageSize) = 4096 * unat rem" using assms(5) by (intro unat_pages) simp
  then have "\<not> cur + rem * PageSize < GetEndAddress b"
    using assms(3-5) by (simp add: word_less_nat_alt unat_GetEndAddress unat_add_small)
  then show ?thesis using assms(1,2) by simp
qed

lemma step_change:
  assumes "rem \<noteq> 0" "needs b" "m_address b = cur" "hi b \<le> unat cur + 4096 * unat rem"
    "unat cur + 4096 * unat rem < 2 ^ 64"
  shows "update_loop (Suc f) needs change cur rem (b # rest) al =
     map_sum id (apfst (Cons (change b)))
       (update_loop f needs change (GetEndAddress b) (rem - m_num_pages b) rest al)"
proof -
  have "unat (rem * PageSize) = 4096 * unat rem" using assms(5) by (intro unat_pages) simp
  then have "\<not> GetSize b > rem * PageSize"
    using assms(3-5) by (simp add: word_less_nat_alt unat_GetSize lo_def)
  then have "split_after cur (rem * PageSize) b al = Inr (b, [], al)" by (simp add: split_after_def)
  moreover have "split_before cur b al = Inr ([], b, al)" using assms(3) by (simp add: split_before_def)
  moreover have "cur + GetSize b = GetEndAddress b" using assms(3) by (simp add: GetEndAddress_def)
  moreover have "GetSize b div PageSize = m_num_pages b" using assms(4,5) by (intro info_pages) simp
  ultimately show ?thesis using assms(1,2) by (simp add: Let_def)
qed

lemma step_change_last:
  assumes "rem \<noteq> 0" "needs b" "m_address b = cur" "unat cur + 4096 * unat rem < hi b" "hi b < 2 ^ 64"
    "m_index al < 2" "Split (cur + rem * PageSize) b = (l, r)"
  shows "update_loop (Suc (Suc f)) needs change cur rem (b # rest) al =
     Inr (change l # r # rest, al\<lparr> m_index := m_index al + 1 \<rparr>)"
proof -
  have rs: "unat (rem * PageSize) = 4096 * unat rem" using assms(4,5) by (intro unat_pages) simp
  then have "GetSize b > rem * PageSize"
    using assms(3-5) by (simp add: word_less_nat_alt unat_GetSize lo_def)
  then have sa: "split_after cur (rem * PageSize) b al = Inr (l, [r], al\<lparr> m_index := m_index al + 1 \<rparr>)"
    using assms(6,7) by (simp add: split_after_def Allocate_free)
  have "m_num_pages l = (rem * PageSize) div PageSize"
    using assms(3,7) by (auto simp: Split_def Let_def)
  then have "unat (m_num_pages l) = unat rem" by (simp add: unat_div_PageSize rs)
  then have "m_num_pages l = rem" by (rule unsigned_word_eqI)
  moreover have "m_address l = m_address b" using assms(7) by (auto simp: Split_def Let_def)
  then have "hi l < 2 ^ 64" using assms(3-5) calculation by (simp add: hi_def lo_def)
  ultimately have "rem - GetSize l div PageSize = 0" by (simp add: info_pages)
  moreover have "split_before cur b al = Inr ([], b, al)" using assms(3) by (simp add: split_before_def)
  ultimately show ?thesis using assms(1,2) sa by (simp add: Let_def)
qed

text \<open>A block that starts before the range and has to change is split, and the loop goes on with its right part.\<close>

lemma step_split_before:
  assumes "rem \<noteq> 0" "needs b" "m_address b \<noteq> cur" "m_index al < 2" "Split cur b = (l, r)"
    "properties r = properties b"
  shows "update_loop (Suc f) needs change cur rem (b # rest) al =
     map_sum id (apfst (Cons l))
       (update_loop (Suc f) needs change cur rem (r # rest) (al\<lparr> m_index := m_index al + 1 \<rparr>))"
proof -
  let ?al = "al\<lparr> m_index := m_index al + 1 \<rparr>"
  have sb: "split_before cur b al = Inr ([l], r, ?al)"
    using assms(3-5) by (simp add: split_before_def Allocate_free)
  have sr: "split_before cur r ?al = Inr ([], r, ?al)"
    using Split_fields [OF assms(5)] by (simp add: split_before_def)
  have nr: "needs r" using assms(2,6) needs_properties by blast
  have comp: "map_sum id (apfst (\<lambda>bs'. l # c # bs')) X = map_sum id (apfst (Cons l)) (map_sum id (apfst (Cons c)) X)"
    for c and X :: "block_error + KMemoryBlock list \<times> UpdateAllocator"
    by (cases X) auto
  show ?thesis
    using assms(1,2) nr sb sr by (simp add: Let_def comp split: sum.split)
qed

lemma loop_done: "0 < fuel \<Longrightarrow> update_loop fuel needs change cur 0 bs al = Inr (bs, al)"
  by (cases fuel) simp_all

text \<open>The loop from the start of a block on, when the block lies in the range and when the range ends in it.\<close>

lemma step_inside:
  assumes "rem \<noteq> 0" "m_address b = cur" "hi b \<le> l" "l < 2 ^ 64" "unat cur + 4096 * unat rem = l" "unat cur mod 4096 = 0"
  shows "\<exists>n b1. update_loop (Suc f) needs change cur rem (b # rest) al =
       map_sum id (apfst (Cons b1)) (update_loop f needs change (GetEndAddress b) n rest al) \<and>
     hi b + 4096 * unat n = l \<and> lo b1 = lo b \<and> hi b1 = hi b \<and> properties b1 = effect (properties b)"
proof (cases "needs b")
  case True
  have le: "unat (m_num_pages b) \<le> unat rem" using assms(2,3,5) by (simp add: hi_def lo_def)
  then have "hi b + 4096 * unat (rem - m_num_pages b) = l"
    using assms(2,5) by (simp add: hi_def lo_def unat_sub_small)
  then show ?thesis
    using step_change [OF assms(1) True assms(2), of f rest al] assms(3-5) change_lo_hi change_properties [OF True]
    by (intro exI [of _ "rem - m_num_pages b"] exI [of _ "change b"]) (simp del: update_loop.simps)
next
  case False
  have "lo b mod 4096 = 0" using assms(2,6) by (simp add: lo_def)
  then have "hi b + 4096 * unat ((cur + rem * PageSize - GetEndAddress b) div PageSize) = l"
    using remaining_pages_behind [OF assms(6), of rem "hi b" "GetEndAddress b"] assms(3-5)
    by (simp add: hi_aligned unat_GetEndAddress)
  then show ?thesis
    using step_skip [OF assms(1) False, of cur f rest al] assms(3-5) idle [OF False]
    by (intro exI [of _ "(cur + rem * PageSize - GetEndAddress b) div PageSize"] exI [of _ b])
      (simp del: update_loop.simps)
qed

lemma step_end:
  assumes "rem \<noteq> 0" "m_address b = cur" "l < hi b" "hi b < 2 ^ 64" "unat cur + 4096 * unat rem = l"
    "unat cur mod 4096 = 0" "m_index al < 2" "tiled (lo b) (b # rest) z" "coalesced (b # rest)"
  shows "\<exists>bs' al'. update_loop (Suc (Suc f)) needs change cur rem (b # rest) al = Inr (bs', al') \<and>
     m_index al' \<le> m_index al + 1 \<and> updated effect (lo b) l z (b # rest) bs'"
proof (cases "needs b")
  case True
  let ?c = "cur + rem * PageSize"
  have lo: "lo b = unat cur" using assms(2) by (simp add: lo_def)
  have "unat (rem * PageSize) = 4096 * unat rem" using assms(3-5) by (intro unat_pages) simp
  then have c: "unat ?c = l" using assms(3-5) by (simp add: unat_add_small)
  obtain x y where s: "Split ?c b = (x, y)" by fastforce
  have "l mod 4096 = 0" using assms(6) unfolding assms(5) [symmetric] by simp
  then have "unat ?c mod 4096 = 0" using c by simp
  note sp = Split_parts [OF s _ this _ _ assms(4)]
  have sp': "lo x = lo b" "hi x = l" "lo y = l" "hi y = hi b" "properties x = properties b"
    "properties y = properties b" "right_alike y b"
    using sp lo assms(3,5,6) c by auto
  have "0 < unat rem" using assms(1) by (simp add: unat_gt_0)
  then have "lo b < l" using lo assms(5) by simp
  moreover have "properties (change x) = effect (properties b)"
    using change_properties [of x] needs_properties [OF sp'(5)] True sp'(5) by simp
  ultimately have "updated effect (lo b) l z (b # rest) (change x # y # rest)"
    using updated_split_last [OF assms(8,9), of l "change x" effect y] sp' assms(3) change_lo_hi by simp
  then show ?thesis
    using step_change_last [OF assms(1) True assms(2) _ assms(4,7) s, of f rest] assms(3,5) by auto
next
  case False
  then show ?thesis
    using step_skip_last [OF assms(1) False assms(4), of cur "Suc f" rest al] assms(3,5)
      updated_skip_last [where effect = effect, OF assms(8,9,3) idle [OF False]] by auto
qed

lemma loop_aligned:
  assumes "tiled (unat cur) bs z" "z < 2 ^ 64" "unat cur mod 4096 = 0" "unat cur + 4096 * unat rem = l" "l \<le> z"
    "cuts bs l \<longrightarrow> m_index al < 2" "length bs < fuel" "coalesced bs"
  shows "\<exists>bs' al'. update_loop fuel needs change cur rem bs al = Inr (bs', al') \<and>
     m_index al' \<le> m_index al + 1 \<and> updated effect (unat cur) l z bs bs'"
  using assms
proof (induction bs arbitrary: cur rem fuel)
  case Nil
  then have "unat rem = 0" by simp
  then have "rem = 0" by (simp add: unat_eq_0)
  then show ?case using Nil loop_done [of fuel cur "[]" al] updated_empty by auto
next
  case (Cons b rest)
  obtain f where f: "fuel = Suc (Suc f)" "length rest < Suc f"
    using Cons.prems(7) by (cases fuel; cases "fuel - 1") auto
  have b: "lo b = unat cur" "lo b < hi b" "tiled (hi b) rest z" using Cons.prems(1) by auto
  have bz: "hi b < 2 ^ 64" "l < 2 ^ 64" using tiled_le [OF b(3)] Cons.prems(2,5) by simp_all
  have addr: "m_address b = cur" using b(1) by (simp add: lo_def unsigned_word_eqI)
  consider "rem = 0" | "rem \<noteq> 0" "l < hi b" | "rem \<noteq> 0" "hi b \<le> l" by linarith
  then show ?case
  proof cases
    case 1
    then show ?thesis
      using Cons.prems(1,4,8) f loop_done [of fuel cur "b # rest" al] updated_empty by auto
  next
    case 2
    have "0 < unat rem" using 2(1) by (simp add: unat_gt_0)
    then have "lo b < l" using b(1) Cons.prems(4) by simp
    then have "m_index al < 2" using Cons.prems(6) 2(2) by (simp add: cuts_Cons)
    then show ?thesis
      using step_end [OF 2(1) addr 2(2) bz(1) Cons.prems(4,3) _ _ Cons.prems(8), of al z f] Cons.prems(1) b(1) f(1)
      by (simp del: update_loop.simps)
  next
    case 3
    obtain n b1 where st: "update_loop fuel needs change cur rem (b # rest) al =
        map_sum id (apfst (Cons b1)) (update_loop (Suc f) needs change (GetEndAddress b) n rest al)"
      "hi b + 4096 * unat n = l" "lo b1 = lo b" "hi b1 = hi b" "properties b1 = effect (properties b)"
      using step_inside [OF 3(1) addr 3(2) bz(2) Cons.prems(4,3), of "Suc f" rest al] f(1) by auto
    have e: "unat (GetEndAddress b) = hi b" "hi b mod 4096 = 0" "coalesced rest"
      using bz(1) b(1) Cons.prems(3,8)
      by (simp_all add: unat_GetEndAddress hi_aligned) (cases rest, simp_all add: coalesced_Cons)
    obtain bs' al' where IH: "update_loop (Suc f) needs change (GetEndAddress b) n rest al = Inr (bs', al')"
      "m_index al' \<le> m_index al + 1" "updated effect (hi b) l z rest bs'"
      using Cons.IH [of "GetEndAddress b" n "Suc f"] e b(3) Cons.prems(2,5,6) f(2) st(2)
      by (auto simp: cuts_Cons simp del: update_loop.simps)
    show ?thesis
      using st(1) IH(1,2) updated_advance [OF IH(3) st(5,3,4) 3(2) b(2)] b(1) by (simp del: update_loop.simps)
  qed
qed

text \<open>The whole loop, which may start inside of a block.\<close>

lemma loop_start_skip:
  assumes "rem \<noteq> 0" "\<not> needs b" "tiled (lo b) (b # rest) z" "z < 2 ^ 64" "lo b mod 4096 = 0" "unat cur mod 4096 = 0"
    "lo b < unat cur" "unat cur < hi b" "unat cur + 4096 * unat rem = l" "l \<le> z" "cuts (b # rest) l \<longrightarrow> m_index al < 2"
    "length rest < f" "coalesced (b # rest)"
  shows "\<exists>bs al'. update_loop (Suc f) needs change cur rem (b # rest) al = Inr (b # bs, al') \<and>
     entered effect (unat cur) l z b rest b bs"
proof (cases "l < hi b")
  case True
  have "hi b < 2 ^ 64" using assms(3,4) tiled_le [of "hi b" rest z] by simp
  then show ?thesis
    using True step_skip_last [OF assms(1,2), of cur f rest al] assms(9) idle [OF assms(2)]
      entered_same [OF assms(3,13) True assms(7), of effect] by auto
next
  case False
  have bz: "hi b < 2 ^ 64" "l < 2 ^ 64"
    using assms(3,4,10) tiled_le [of "hi b" rest z] by simp_all
  let ?n = "(cur + rem * PageSize - GetEndAddress b) div PageSize"
  have e: "unat (GetEndAddress b) = hi b" "hi b mod 4096 = 0"
    using bz(1) assms(5) by (simp_all add: unat_GetEndAddress hi_aligned)
  have "hi b + 4096 * unat ?n = l"
    using remaining_pages_behind [OF assms(6), of rem "hi b" "GetEndAddress b"] assms(9) bz False e by simp
  moreover have "coalesced rest" using assms(13) by (cases rest) (simp_all add: coalesced_Cons)
  ultimately obtain bs al' where IH: "update_loop f needs change (GetEndAddress b) ?n rest al = Inr (bs, al')"
    "updated effect (hi b) l z rest bs"
    using loop_aligned [of "GetEndAddress b" rest z ?n l al f] e assms(3,4,10-12) by (auto simp: cuts_Cons)
  then show ?thesis
    using step_skip [OF assms(1,2) bz(1), of cur f rest al] False assms(7-9) bz(2)
      entered_skip [OF IH(2) idle [OF assms(2)]] by simp
qed

lemma loop_start_split:
  assumes "rem \<noteq> 0" "needs b" "tiled (lo b) (b # rest) z" "z < 2 ^ 64" "lo b mod 4096 = 0" "unat cur mod 4096 = 0"
    "lo b < unat cur" "unat cur < hi b" "unat cur + 4096 * unat rem = l" "l \<le> z" "m_index al + of_bool (cuts (b # rest) l) < 2"
    "length rest < f" "coalesced (b # rest)"
  shows "\<exists>x bs al'. update_loop (Suc f) needs change cur rem (b # rest) al = Inr (x # bs, al') \<and>
     entered effect (unat cur) l z b rest x bs \<and> hi x = unat cur"
proof -
  have bz: "hi b < 2 ^ 64" using assms(3,4) tiled_le [of "hi b" rest z] by simp
  obtain x y where s: "Split cur b = (x, y)" by fastforce
  note sp = Split_parts [OF s assms(5,6) less_imp_le [OF assms(7)] less_imp_le [OF assms(8)] bz]
  have ne: "m_address b \<noteq> cur" using assms(7) by (auto simp: lo_def)
  let ?al = "al\<lparr> m_index := m_index al + 1 \<rparr>"
  have "coalesced (y # rest)" using coalesced_right_alike [OF sp(8) assms(13)] .
  moreover have "tiled (unat cur) (y # rest) z" using assms(3,8) sp by simp
  moreover have "cuts (y # rest) l \<longrightarrow> cuts (b # rest) l" using sp(3,4) assms(7) by (auto simp: cuts_Cons)
  then have "cuts (y # rest) l \<longrightarrow> m_index ?al < 2" using assms(11) by auto
  ultimately obtain bs al' where IH: "update_loop (Suc f) needs change cur rem (y # rest) ?al = Inr (bs, al')"
    "updated effect (unat cur) l z (y # rest) bs"
    using loop_aligned [of cur "y # rest" z rem l ?al "Suc f"] assms(4,6,9,10,12) by auto
  have "update_loop (Suc f) needs change cur rem (b # rest) al = Inr (x # bs, al')"
    using step_split_before [OF assms(1,2) ne _ s sp(6), of al f rest] assms(11) IH(1)
    by (simp split: if_splits)
  then show ?thesis
    using entered_split [OF IH(2) assms(7,8) _ sp(1,2,5,7,3,4,6)] assms(9) sp(2) by auto
qed

lemma loop_start_inside:
  assumes "tiled (lo b) (b # rest) z" "z < 2 ^ 64" "lo b mod 4096 = 0" "unat cur mod 4096 = 0"
    "lo b < unat cur" "unat cur < hi b" "unat cur + 4096 * unat rem = l" "l \<le> z" "m_index al + of_bool (cuts (b # rest) l) < 2"
    "length rest < f" "coalesced (b # rest)"
  shows "\<exists>b1 bs al'. update_loop (Suc f) needs change cur rem (b # rest) al = Inr (b1 # bs, al') \<and>
     entered effect (unat cur) l z b rest b1 bs \<and>
     (if rem \<noteq> 0 \<and> needs b then hi b1 = unat cur else b1 = b)"
proof (cases "rem = 0")
  case True
  then show ?thesis
    using entered_same [OF assms(1,11) _ assms(5), of l effect] assms(6,7) by simp
next
  case False
  have one: "cuts (b # rest) l \<longrightarrow> m_index al < 2" using assms(9) by auto
  show ?thesis
    using False loop_start_skip [OF False _ assms(1-8) one assms(10,11)] loop_start_split [OF False _ assms]
    by (cases "needs b") (simp_all only: simp_thms if_True if_False, blast+)
qed

text \<open>The update of the tree.\<close>

lemma range_loop:
  assumes "well_formed m" "in_space m address n"
    "m_index al + blocks_needed (m_memory_block_tree m) (unat address) (unat address + 4096 * unat n) \<le> 2"
    "FindIterator address (m_memory_block_tree m) = (before, b # rest)"
  shows "\<exists>bs al'. update_loop (length (b # rest) + 1) needs change address n (b # rest) al = Inr (bs, al') \<and>
     tiled (unat (m_start_address m)) (before @ bs) (unat (m_end_address m)) \<and>
     page_map (before @ bs) =
       on_range (unat address) (unat address + 4096 * unat n) effect (page_map (m_memory_block_tree m)) \<and>
     quiet (unat address) (unat address + 4096 * unat n) (before @ bs) \<and>
     keeps_cuts (unat address) (unat address + 4096 * unat n) (m_memory_block_tree m) (before @ bs) \<and>
     (lo b < unat address \<longrightarrow> bs \<noteq> [] \<and> (if n \<noteq> 0 \<and> needs b then hi (hd bs) = unat address else hd bs = b))"
proof -
  define l where "l = unat address + 4096 * unat n"
  define z where "z = unat (m_end_address m)"
  have wf: "tiled (unat (m_start_address m)) (m_memory_block_tree m) z" "unat (m_start_address m) mod 4096 = 0"
    "coalesced (m_memory_block_tree m)" "z < 2 ^ 64"
    using assms(1) unsigned_less [of "m_end_address m"] by (simp_all add: well_formed_def z_def)
  have sp: "unat address mod 4096 = 0" "unat (m_start_address m) \<le> unat address" "unat address < z" "l \<le> z"
    using assms(2) by (simp_all add: in_space_def z_def l_def word_le_nat_alt word_less_nat_alt)
  have f: "m_memory_block_tree m = before @ b # rest" "tiled (unat (m_start_address m)) before (lo b)"
    "lo b \<le> unat address" "unat address < hi b" "tiled (lo b) (b # rest) z"
    using FindIterator_tiled [OF wf(1,4) sp(2,3)] assms(4) by auto
  have al: "lo b mod 4096 = 0" using tiled_aligned [OF wf(1,2), of b] f(1) by simp
  have cb: "coalesced (before @ [b])" "coalesced (b # rest)" using wf(3) f(1) coalesced_join [of before b rest] by simp_all
  have enough: "m_index al + of_bool (lo b < unat address) + of_bool (cuts (b # rest) l) \<le> 2"
    using assms(3) f(1,2,4) sp(3) by (auto simp: blocks_needed_def cuts_append cuts_Cons l_def split: if_splits)
  note tree = on_range_append [OF f(2,3)]
  show ?thesis
  proof (cases "lo b = unat address")
    case True
    have "cuts (b # rest) l \<longrightarrow> m_index al < 2" using enough by auto
    then obtain bs al' where r: "update_loop (length (b # rest) + 1) needs change address n (b # rest) al = Inr (bs, al')"
      "updated effect (lo b) l z (b # rest) bs"
      using loop_aligned [of address "b # rest" z n l al "length (b # rest) + 1"] True f(5) wf(4) sp(1,4) cb(2)
      by (auto simp: l_def simp del: update_loop.simps tiled.simps)
    have u: "tiled (lo b) bs z" "page_map bs = on_range (unat address) l effect (page_map (b # rest))"
      "quiet (unat address) l bs" "\<forall>x. cuts bs x \<longrightarrow> cuts (b # rest) x"
      using r(2) True by (simp_all add: updated_def del: page_map.simps)
    have "quiet (unat address) l (before @ bs)"
      using quiet_glue [OF cb(1) u(3)] u(1) True by (simp add: l_def)
    moreover have "keeps_cuts (unat address) l (m_memory_block_tree m) (before @ bs)"
      unfolding f(1) using u(4) by (intro keeps_cuts_append) (simp add: keeps_cuts_def)
    ultimately show ?thesis using r(1) u(1-3) tree [OF u(2)] f(1,2) True unfolding l_def z_def by (auto simp: tiled_append)
  next
    case False
    then have lt: "lo b < unat address" using f(3) by simp
    obtain b1 bs al' where r: "update_loop (length (b # rest) + 1) needs change address n (b # rest) al = Inr (b1 # bs, al')"
      "entered effect (unat address) l z b rest b1 bs" "if n \<noteq> 0 \<and> needs b then hi b1 = unat address else b1 = b"
      using loop_start_inside [OF f(5) wf(4) al sp(1) lt f(4) _ sp(4) _ _ cb(2), of n al "length (b # rest)"]
        enough lt by (auto simp: l_def simp del: update_loop.simps)
    have u: "tiled (lo b) (b1 # bs) z" "page_map (b1 # bs) = on_range (unat address) l effect (page_map (b # rest))"
      "quiet (unat address) l (b1 # bs)" "left_alike b1 b" "\<forall>x. cuts (b1 # bs) x \<longrightarrow> cuts (b # rest) x"
      using r(2) by (simp_all add: entered_def del: page_map.simps)
    have "quiet (unat address) l (before @ [b1])"
      using cb(1) coalesced_last_alike [OF u(4)] coalesced_quiet by blast
    then have "quiet (unat address) l (before @ b1 # bs)" using u(3) quiet_join by blast
    moreover have "keeps_cuts (unat address) l (m_memory_block_tree m) (before @ b1 # bs)"
      unfolding f(1) using u(5) by (intro keeps_cuts_append) (simp add: keeps_cuts_def)
    ultimately show ?thesis using r(1,3) u(1-4) tree [OF u(2)] f(1,2) unfolding l_def z_def by (auto simp: tiled_append)
  qed
qed

lemma find_address:
  assumes "well_formed m" "in_space m address n"
  shows "\<exists>before b rest. FindIterator address (m_memory_block_tree m) = (before, b # rest) \<and>
     m_memory_block_tree m = before @ b # rest \<and> lo b \<le> unat address \<and> unat address < hi b \<and>
     tiled (unat (m_start_address m)) before (lo b)"
proof -
  have "tiled (unat (m_start_address m)) (m_memory_block_tree m) (unat (m_end_address m))"
    using assms(1) by (simp add: well_formed_def)
  moreover have "unat (m_end_address m) < 2 ^ 64" using unsigned_less [of "m_end_address m"] by simp
  moreover have "unat (m_start_address m) \<le> unat address" "unat address < unat (m_end_address m)"
    using assms(2) by (simp_all add: in_space_def word_le_nat_alt word_less_nat_alt)
  ultimately show ?thesis using FindIterator_tiled by blast
qed

lemma update_range_correct:
  assumes "well_formed m" "in_space m address n"
    "m_index al + blocks_needed (m_memory_block_tree m) (unat address) (unat address + 4096 * unat n) \<le> 2"
    "\<not> steps_back needs m address n"
  shows "\<exists>tree al'. update_range needs change al address n m = Inr (m\<lparr> m_memory_block_tree := tree \<rparr>, al') \<and>
     well_formed (m\<lparr> m_memory_block_tree := tree \<rparr>) \<and>
     page_map tree = on_range (unat address) (unat address + 4096 * unat n) effect (page_map (m_memory_block_tree m)) \<and>
     keeps_cuts (unat address) (unat address + 4096 * unat n) (m_memory_block_tree m) tree"
proof -
  define l where "l = unat address + 4096 * unat n"
  have sp: "unat (m_start_address m) \<le> unat address" "unat address < unat (m_end_address m)"
    "unat address + 4096 * unat n \<le> unat (m_end_address m)" "unat (m_end_address m) < 2 ^ 64"
    using assms(2) unsigned_less [of "m_end_address m"]
    by (simp_all add: in_space_def word_le_nat_alt word_less_nat_alt)
  obtain before b rest where f: "FindIterator address (m_memory_block_tree m) = (before, b # rest)"
    "m_memory_block_tree m = before @ b # rest" "lo b \<le> unat address" "unat address < hi b"
    "tiled (unat (m_start_address m)) before (lo b)"
    using find_address [OF assms(1,2)] by blast
  obtain bs al1 where r: "update_loop (length (b # rest) + 1) needs change address n (b # rest) al = Inr (bs, al1)"
    "tiled (unat (m_start_address m)) (before @ bs) (unat (m_end_address m))"
    "page_map (before @ bs) = on_range (unat address) l effect (page_map (m_memory_block_tree m))"
    "quiet (unat address) l (before @ bs)" "keeps_cuts (unat address) l (m_memory_block_tree m) (before @ bs)"
    "lo b < unat address \<longrightarrow> bs \<noteq> [] \<and> (if n \<noteq> 0 \<and> needs b then hi (hd bs) = unat address else hd bs = b)"
    using range_loop [OF assms(1-3) f(1)] unfolding l_def by blast
  have met: "address = m_start_address m \<or> hi (hd (before @ bs)) \<le> unat address"
  proof (cases before)
    case Nil
    then have "lo b = unat (m_start_address m)" using f(5) by simp
    moreover have "unat address = unat (m_start_address m) \<Longrightarrow> address = m_start_address m"
      by (rule unsigned_word_eqI)
    ultimately have "address = m_start_address m \<or> lo b < unat address"
      using f(3) by linarith
    then show ?thesis using r(6) assms(4) f(2,4) Nil by (auto simp: steps_back_def split: if_splits)
  next
    case (Cons c cs)
    then have "hi c \<le> lo b" using tiled_bounds [OF f(5), of c] by simp
    then show ?thesis using Cons f(3) by simp
  qed
  obtain tree al' where c: "CoalesceForUpdate (m_start_address m) address n al1 (before @ bs) = Inr (tree, al')"
    "tiled (unat (m_start_address m)) tree (unat (m_end_address m))" "coalesced tree"
    "\<forall>x. page_map tree x = page_map (before @ bs) x" "keeps_cuts (unat address) l (before @ bs) tree"
    using CoalesceForUpdate_correct [OF r(2) sp(4) r(4) [unfolded l_def] sp(1-3) met refl, of al1] unfolding l_def by blast
  have "update_range needs change al address n m = Inr (m\<lparr> m_memory_block_tree := tree \<rparr>, al')"
    using f(1) r(1) c(1) by (simp add: update_range_def del: update_loop.simps)
  moreover have "well_formed (m\<lparr> m_memory_block_tree := tree \<rparr>)"
    using c(2,3) assms(1) by (simp add: well_formed_def)
  moreover have "page_map tree = on_range (unat address) l effect (page_map (m_memory_block_tree m))"
    using c(4) r(3) by auto
  moreover have "keeps_cuts (unat address) l (m_memory_block_tree m) tree"
    using r(5) c(5) by (rule keeps_cuts_trans)
  ultimately show ?thesis unfolding l_def by blast
qed

text \<open>The merging pass fails exactly when it steps back from the first block.\<close>

lemma update_range_steps_back:
  assumes "well_formed m" "in_space m address n"
    "m_index al + blocks_needed (m_memory_block_tree m) (unat address) (unat address + 4096 * unat n) \<le> 2"
    "steps_back needs m address n"
  shows "update_range needs change al address n m = Inl BeforeBegin"
proof -
  obtain before b rest where f: "FindIterator address (m_memory_block_tree m) = (before, b # rest)"
    "m_memory_block_tree m = before @ b # rest" "lo b \<le> unat address" "unat address < hi b"
    "tiled (unat (m_start_address m)) before (lo b)"
    using find_address [OF assms(1,2)] by blast
  have e: "before = []"
  proof (rule ccontr)
    assume "before \<noteq> []"
    then obtain c cs where c: "before = c # cs" by (cases before) auto
    then show False using tiled_bounds [OF f(5), of c] f(2,3) assms(4) by (auto simp: steps_back_def)
  qed
  have lt: "lo b < unat address"
    using f(3,5) e assms(4) by (auto simp: steps_back_def le_less dest: unsigned_word_eqI)
  obtain bs al1 where r: "update_loop (length (b # rest) + 1) needs change address n (b # rest) al = Inr (bs, al1)"
    "tiled (unat (m_start_address m)) bs (unat (m_end_address m))" "bs \<noteq> []" "hd bs = b"
    using range_loop [OF assms(1-3) f(1)] lt assms(4) f(2) e by (auto simp: steps_back_def simp del: update_loop.simps)
  have "unat (m_end_address m) < 2 ^ 64" using unsigned_less [of "m_end_address m"] by simp
  then have "hi b < 2 ^ 64" using tiled_bounds [OF r(2), of b] r(3,4) by fastforce
  then have "holds_address address b" using holds_address_iff [of b address] lt f(4) by simp
  then have "FindIterator address bs = ([], bs)" using r(3,4) by (cases bs) (simp_all add: FindIterator_def)
  then have "CoalesceForUpdate (m_start_address m) address n al1 bs = Inl BeforeBegin"
    using r(3) assms(4) by (simp add: CoalesceForUpdate_def steps_back_def)
  then show ?thesis using f(1) r(1) e by (simp add: update_range_def del: update_loop.simps)
qed

end

end
