(* ===== verification/KMemoryBlockProofs.thy ===== *)
theory KMemoryBlockProofs
  imports KMemoryBlockUpdate
begin

text \<open>
  The four updates of the block manager as changes of the page map, the check of the
  tree as an invariant of every sequence of updates, the round trip of IPC locks, and the
  search for a free area.
\<close>

unbundle bit_operations_syntax

section \<open>What the updates do to a page\<close>

fun update_effect :: "u32 \<Rightarrow> u8 \<Rightarrow> u8 \<Rightarrow> page_properties \<Rightarrow> page_properties" where
  "update_effect s p a (st, pm, og, at, ic, dc) = (s, p, og, a OR (at AND (Attr_IpcLocked OR Attr_DeviceShared)), ic, dc)"

fun has_properties :: "u32 \<Rightarrow> u8 \<Rightarrow> u8 \<Rightarrow> page_properties \<Rightarrow> bool" where
  "has_properties s p a (st, pm, og, at, ic, dc) \<longleftrightarrow>
     st = s \<and> pm = p \<and> at OR (Attr_IpcLocked OR Attr_DeviceShared) = a OR (Attr_IpcLocked OR Attr_DeviceShared)"

fun attribute_effect :: "u8 \<Rightarrow> u8 \<Rightarrow> page_properties \<Rightarrow> page_properties" where
  "attribute_effect mask' a (st, pm, og, at, ic, dc) = (st, pm, og, (at AND NOT mask') OR a, ic, dc)"

fun lock_effect :: "u8 \<Rightarrow> page_properties \<Rightarrow> page_properties" where
  "lock_effect new_perm (st, pm, og, at, ic, dc) =
     (if ic + 1 = 1
      then (st, (new_perm AND Perm_IpcLockChangeMask) OR (pm AND NOT Perm_IpcLockChangeMask), pm,
            at OR Attr_IpcLocked, ic + 1, dc)
      else (st, pm, og, at OR Attr_IpcLocked, ic + 1, dc))"

fun unlock_effect :: "page_properties \<Rightarrow> page_properties" where
  "unlock_effect (st, pm, og, at, ic, dc) =
     (if ic = 1 then (st, og, Perm_None, at AND NOT Attr_IpcLocked, ic - 1, dc) else (st, pm, og, at, ic - 1, dc))"

fun share_effect :: "page_properties \<Rightarrow> page_properties" where
  "share_effect (st, pm, og, at, ic, dc) = (st, pm, og, at OR Attr_DeviceShared, ic, dc + 1)"

fun unshare_effect :: "page_properties \<Rightarrow> page_properties" where
  "unshare_effect (st, pm, og, at, ic, dc) =
     (st, pm, og, if dc = 1 then at AND NOT Attr_DeviceShared else at, ic, dc - 1)"

text \<open>The member functions the page table passes to \<^verbatim>\<open>UpdateLock\<close>.\<close>

datatype lock_kind = Lock_Ipc | Unlock_Ipc | Share | Share_Merge | Share_Merge_Right
  | Unshare | Unshare_Right | Unshare_Merge | Unshare_Merge_Right

primrec lock_function :: "lock_kind \<Rightarrow> u8 \<Rightarrow> bool \<Rightarrow> bool \<Rightarrow> KMemoryBlock \<Rightarrow> KMemoryBlock" where
  "lock_function Lock_Ipc = LockForIpc"
| "lock_function Unlock_Ipc = UnlockForIpc"
| "lock_function Share = ShareToDevice"
| "lock_function Share_Merge = (\<lambda>p left right. ForShare left right)"
| "lock_function Share_Merge_Right = (\<lambda>p left right. ForShareRight right)"
| "lock_function Unshare = UnshareToDevice"
| "lock_function Unshare_Right = UnshareToDeviceRight"
| "lock_function Unshare_Merge = (\<lambda>p left right. ForUnshare left right)"
| "lock_function Unshare_Merge_Right = (\<lambda>p left right. ForUnshareRight right)"

primrec lock_kind_effect :: "lock_kind \<Rightarrow> u8 \<Rightarrow> page_properties \<Rightarrow> page_properties" where
  "lock_kind_effect Lock_Ipc p = lock_effect p"
| "lock_kind_effect Unlock_Ipc p = unlock_effect"
| "lock_kind_effect Share p = share_effect"
| "lock_kind_effect Share_Merge p = id"
| "lock_kind_effect Share_Merge_Right p = id"
| "lock_kind_effect Unshare p = unshare_effect"
| "lock_kind_effect Unshare_Right p = unshare_effect"
| "lock_kind_effect Unshare_Merge p = id"
| "lock_kind_effect Unshare_Merge_Right p = id"

lemmas merge_state_defs = ForShareLeft_def ForShareRight_def ForShare_def ForUnshareLeft_def ForUnshareRight_def
  ForUnshare_def

lemma merge_state_only:
  "m_address (ForShare l r b) = m_address b" "m_num_pages (ForShare l r b) = m_num_pages b"
  "properties (ForShare l r b) = properties b"
  "m_address (ForUnshare l r b) = m_address b" "m_num_pages (ForUnshare l r b) = m_num_pages b"
  "properties (ForUnshare l r b) = properties b"
  "m_address (ForShareRight r b) = m_address b" "m_num_pages (ForShareRight r b) = m_num_pages b"
  "properties (ForShareRight r b) = properties b"
  "m_address (ForUnshareRight r b) = m_address b" "m_num_pages (ForUnshareRight r b) = m_num_pages b"
  "properties (ForUnshareRight r b) = properties b"
  by (simp_all add: merge_state_defs properties_def Let_def)

lemma lock_function_range:
  "m_address (lock_function k p l r b) = m_address b" "m_num_pages (lock_function k p l r b) = m_num_pages b"
  by (cases k; simp add: merge_state_only LockForIpc_def UnlockForIpc_def ShareToDevice_def UnshareToDevice_def
      UnshareToDeviceRight_def unuse_device_def Let_def)+

lemma lock_function_effect: "properties (lock_function k p l r b) = lock_kind_effect k p (properties b)"
  by (cases k) (simp_all add: merge_state_only LockForIpc_def UnlockForIpc_def ShareToDevice_def UnshareToDevice_def
      UnshareToDeviceRight_def unuse_device_def Let_def, simp_all add: properties_def)

lemma HasProperties_iff: "HasProperties s p a b \<longleftrightarrow> has_properties s p a (properties b)"
  by (simp add: HasProperties_def properties_def Let_def)

lemma Block_Update_range:
  "m_address (Block_Update s p a x sm cm b) = m_address b" "m_num_pages (Block_Update s p a x sm cm b) = m_num_pages b"
  by (simp_all add: Block_Update_def Let_def)

lemma Block_Update_effect: "properties (Block_Update s p a x sm cm b) = update_effect s p a (properties b)"
  by (simp add: Block_Update_def properties_def Let_def)

text \<open>The four updates provide the interface of the loop.\<close>

interpretation setting: block_change "\<lambda>b. \<not> HasProperties s p a b"
  "\<lambda>b. Block_Update s p a (m_address b = address) sm cm b"
  "\<lambda>v. if has_properties s p a v then v else update_effect s p a v" for s p a address sm cm
  by unfold_locales (simp_all add: Block_Update_range HasProperties_iff Block_Update_effect)

interpretation matching: block_change "\<lambda>b. HasProperties ts tp ta b \<and> \<not> HasProperties s p a b"
  "Block_Update s p a False sm cm"
  "\<lambda>v. if has_properties ts tp ta v \<and> \<not> has_properties s p a v then update_effect s p a v else v"
  for ts tp ta s p a sm cm
  by unfold_locales (auto simp: Block_Update_range HasProperties_iff Block_Update_effect)

interpretation locking: block_change "\<lambda>b. True"
  "\<lambda>b. lock_function k p (m_address b = address) (GetEndAddress b = address + n * PageSize) b"
  "lock_kind_effect k p" for k p address n
  by unfold_locales (simp_all add: lock_function_range lock_function_effect)

lemma attribute_idle: "(at AND NOT m) OR (at AND m) = at" for at m :: u8
  by (simp add: bit_eq_iff bit_simps) blast

interpretation attributing: block_change "\<lambda>b. m_attribute b AND mask' \<noteq> a" "Block_UpdateAttribute mask' a"
  "attribute_effect mask' a" for mask' a
  by unfold_locales (auto simp: Block_UpdateAttribute_def properties_def attribute_idle)

text \<open>Where the attributes to set leave out the two the block manager keeps itself, every page of the range is set.\<close>

lemma set_attribute_idle:
  fixes at m a :: u8
  assumes "at OR m = a OR m" "a AND m = 0"
  shows "a OR (at AND m) = at"
proof (rule bit_eqI)
  fix n
  have "bit (at OR m) n = bit (a OR m) n" "\<not> bit (a AND m) n" using assms by simp_all
  then show "bit (a OR (at AND m)) n = bit at n" by (auto simp: bit_simps)
qed

lemma update_effect_idle:
  assumes "a AND (Attr_IpcLocked OR Attr_DeviceShared) = Attr_None" "has_properties s p a v"
  shows "update_effect s p a v = v"
  using assms set_attribute_idle by (cases v) (simp add: Attr_None_def)

text \<open>The page map as the search of the manager shows it.\<close>

definition pages :: "KMemoryBlockManager \<Rightarrow> nat \<Rightarrow> page_properties option" where
  "pages m = page_map (m_memory_block_tree m)"

lemma pages_FindBlock:
  assumes "well_formed m"
  shows "map_option properties (FindBlock address m) = pages m (unat address)"
proof -
  have "unat (m_end_address m) < 2 ^ 64" using unsigned_less [of "m_end_address m"] by simp
  then show ?thesis
    using FindBlock_page_map [of _ m] assms unfolding well_formed_def pages_def by blast
qed

text \<open>What an update returns, from its effect on a page.\<close>

definition updates_pages ::
  "KMemoryBlockManager \<Rightarrow> u64 \<Rightarrow> u64 \<Rightarrow> (page_properties \<Rightarrow> page_properties) \<Rightarrow>
   block_error + KMemoryBlockManager \<times> UpdateAllocator \<Rightarrow> bool" where
  "updates_pages m address n effect r \<longleftrightarrow>
     (case r of
        Inl e \<Rightarrow> False
      | Inr (m', al) \<Rightarrow>
          well_formed m' \<and> m_start_address m' = m_start_address m \<and> m_end_address m' = m_end_address m \<and>
          pages m' = on_range (unat address) (unat address + 4096 * unat n) effect (pages m) \<and>
          keeps_cuts (unat address) (unat address + 4096 * unat n) (m_memory_block_tree m) (m_memory_block_tree m'))"

lemma blocks_needed_max: "blocks_needed bs c l \<le> MaxBlocks"
  by (simp add: blocks_needed_def MaxBlocks_def)

context block_change
begin

lemma update_range_pages:
  assumes "well_formed m" "in_space m address n" "\<not> steps_back needs m address n"
    "blocks_needed (m_memory_block_tree m) (unat address) (unat address + 4096 * unat n) \<le> k" "k \<le> MaxBlocks"
  shows "updates_pages m address n effect (update_range needs change (UpdateAllocator_ctor k) address n m)"
proof -
  have "m_index (UpdateAllocator_ctor k) +
      blocks_needed (m_memory_block_tree m) (unat address) (unat address + 4096 * unat n) \<le> 2"
    using assms(4,5) by (simp add: UpdateAllocator_ctor_def MaxBlocks_def)
  from update_range_correct [OF assms(1,2) this assms(3)] show ?thesis
    by (auto simp: updates_pages_def pages_def)
qed

lemmas update_range_pages_max = update_range_pages [OF _ _ _ blocks_needed_max order_refl]

lemma update_range_succeeds:
  assumes "well_formed m" "in_space m address n"
    "update_range needs change (UpdateAllocator_ctor MaxBlocks) address n m = Inr (m', al)"
  shows "updates_pages m address n effect (Inr (m', al))"
proof -
  have "m_index (UpdateAllocator_ctor MaxBlocks) +
      blocks_needed (m_memory_block_tree m) (unat address) (unat address + 4096 * unat n) \<le> 2"
    by (simp add: UpdateAllocator_ctor_def blocks_needed_def)
  then show ?thesis
    using update_range_steps_back [OF assms(1,2), of "UpdateAllocator_ctor MaxBlocks"]
      update_range_pages_max [OF assms(1,2)] assms(3) by (cases "steps_back needs m address n") simp_all
qed

end

text \<open>The four updates as changes of the page map.\<close>

lemma updates_pages_cong:
  assumes "\<And>v. g v = h v"
  shows "updates_pages m address n g r = updates_pages m address n h r"
proof -
  have "g = h" using assms by (rule ext)
  then show ?thesis by simp
qed

lemma Update_pages:
  assumes "a AND (Attr_IpcLocked OR Attr_DeviceShared) = Attr_None"
  shows "updates_pages m address n (\<lambda>v. if has_properties s p a v then v else update_effect s p a v) r =
         updates_pages m address n (update_effect s p a) r"
  by (rule updates_pages_cong) (simp add: update_effect_idle [OF assms])

section \<open>Initialization and the check of the tree\<close>

lemma Initialize_well_formed:
  assumes "Manager_Initialize st nd (Some b) m0 = (True, m)" "st < nd" "unat st mod 4096 = 0" "unat nd mod 4096 = 0"
  shows "well_formed m" "m_start_address m = st" "m_end_address m = nd"
    "m_memory_block_tree m = [Block_Initialize st ((nd - st) div PageSize) State_Free Perm_None Attr_None b]"
proof -
  let ?b = "Block_Initialize st ((nd - st) div PageSize) State_Free Perm_None Attr_None b"
  show m: "m_start_address m = st" "m_end_address m = nd" "m_memory_block_tree m = [?b]"
    using assms(1) by (auto simp: Manager_Initialize_def)
  have lt: "unat st < unat nd" using assms(2) by (simp add: word_less_nat_alt)
  have "unat ((nd - st) div PageSize) = (unat nd - unat st) div 4096"
    using lt by (simp add: unat_div_PageSize unat_sub_small)
  moreover have "4096 dvd unat nd - unat st"
    using assms(3,4) by (meson dvd_diff_nat mod_eq_0_iff_dvd)
  ultimately have "lo ?b = unat st" "hi ?b = unat nd"
    using lt by (simp_all add: lo_def hi_def Block_Initialize_def)
  then show "well_formed m" using m assms(3) lt by (simp add: well_formed_def)
qed

text \<open>The counts behind the two flags, for a page.\<close>

fun counts_ok :: "page_properties \<Rightarrow> bool" where
  "counts_ok (st, pm, og, at, ic, dc) \<longleftrightarrow>
     \<not> (at AND Attr_IpcLocked \<noteq> Attr_None \<and> ic = 0) \<and> \<not> (at AND Attr_DeviceShared \<noteq> Attr_None \<and> dc = 0)"

lemma counts_match_iff: "counts_match b \<longleftrightarrow> counts_ok (properties b)"
  by (simp add: counts_match_def properties_def)

lemma CheckState_loop_intro:
  assumes "tiled a bs z" "z < 2 ^ 64" "coalesced bs" "\<forall>b\<in>set bs. counts_match b"
  shows "CheckState_loop bs"
  using assms
proof (induction bs arbitrary: a rule: CheckState_loop.induct)
  case (1 p q r)
  have "hi p < 2 ^ 64" using "1.prems"(1,2) tiled_le [of "hi q" r z] by simp
  then have "unat (GetEndAddress p) = unat (m_address q)"
    using "1.prems"(1) by (simp add: unat_GetEndAddress lo_def)
  then have e: "GetEndAddress p = m_address q" by (rule unsigned_word_eqI)
  have "\<not> CanMergeWith p q" "coalesced (q # r)" using "1.prems"(3) by (simp_all add: coalesced_Cons)
  then show ?case using "1.IH" [of "hi p"] "1.prems" e by (simp del: CheckState_loop.simps(2,3))
qed simp_all

definition counts_kept :: "KMemoryBlockManager \<Rightarrow> bool" where
  "counts_kept m \<longleftrightarrow> (\<forall>x v. pages m x = Some v \<longrightarrow> counts_ok v)"

lemma CheckState_intro:
  assumes "well_formed m" "counts_kept m"
  shows "CheckState m"
proof -
  let ?t = "m_memory_block_tree m"
  have t: "tiled (unat (m_start_address m)) ?t (unat (m_end_address m))" "coalesced ?t"
    using assms(1) by (simp_all add: well_formed_def)
  have "\<forall>b\<in>set ?t. counts_match b"
    using page_map_in [OF t(1)] assms(2) unfolding counts_kept_def pages_def counts_match_iff by blast
  moreover have "unat (m_end_address m) < 2 ^ 64" using unsigned_less [of "m_end_address m"] by simp
  ultimately show ?thesis using CheckState_loop_intro [OF t(1) _ t(2)] by (simp add: CheckState_def)
qed

section \<open>Sequences of updates\<close>

text \<open>The counter that a lock function raises does not wrap around, which the code asserts.\<close>

fun lock_allowed :: "lock_kind \<Rightarrow> page_properties \<Rightarrow> bool" where
  "lock_allowed Lock_Ipc (st, pm, og, at, ic, dc) \<longleftrightarrow> ic + 1 \<noteq> 0"
| "lock_allowed Share (st, pm, og, at, ic, dc) \<longleftrightarrow> dc + 1 \<noteq> 0"
| "lock_allowed k v \<longleftrightarrow> True"

inductive manager_step :: "KMemoryBlockManager \<Rightarrow> KMemoryBlockManager \<Rightarrow> bool" where
  update: "in_space m address n \<Longrightarrow> a AND (Attr_IpcLocked OR Attr_DeviceShared) = Attr_None \<Longrightarrow>
     Manager_Update (UpdateAllocator_ctor MaxBlocks) address n s p a sm cm m = Inr (m', al) \<Longrightarrow> manager_step m m'"
| update_if_match: "in_space m address n \<Longrightarrow> a AND (Attr_IpcLocked OR Attr_DeviceShared) = Attr_None \<Longrightarrow>
     UpdateIfMatch (UpdateAllocator_ctor MaxBlocks) address n ts tp ta s p a sm cm m = Inr (m', al) \<Longrightarrow> manager_step m m'"
| update_lock: "in_space m address n \<Longrightarrow>
     \<forall>x v. unat address \<le> x \<and> x < unat address + 4096 * unat n \<and> pages m x = Some v \<longrightarrow> lock_allowed k v \<Longrightarrow>
     UpdateLock (UpdateAllocator_ctor MaxBlocks) address n (lock_function k) p m = Inr (m', al) \<Longrightarrow> manager_step m m'"
| update_attribute: "in_space m address n \<Longrightarrow> (mask' OR a) AND (Attr_IpcLocked OR Attr_DeviceShared) = Attr_None \<Longrightarrow>
     Manager_UpdateAttribute (UpdateAllocator_ctor MaxBlocks) address n mask' a m = Inr (m', al) \<Longrightarrow> manager_step m m'"

lemma flags_apart:
  fixes a at i d :: u8
  assumes "a AND (i OR d) = 0"
  shows "(a OR (at AND (i OR d))) AND i = at AND i" "(a OR (at AND (i OR d))) AND d = at AND d"
proof -
  have "\<not> bit (a AND (i OR d)) n" for n using assms by simp
  then have n: "bit a n \<Longrightarrow> \<not> bit i n \<and> \<not> bit d n" for n by (auto simp: bit_simps)
  show "(a OR (at AND (i OR d))) AND i = at AND i" "(a OR (at AND (i OR d))) AND d = at AND d"
    using n by (auto intro!: bit_eqI simp: bit_simps)
qed

lemma flags_masked:
  fixes a at m i d :: u8
  assumes "(m OR a) AND (i OR d) = 0"
  shows "((at AND NOT m) OR a) AND i = at AND i" "((at AND NOT m) OR a) AND d = at AND d"
proof -
  have "\<not> bit ((m OR a) AND (i OR d)) n" for n using assms by simp
  then have n: "bit a n \<or> bit m n \<Longrightarrow> \<not> bit i n \<and> \<not> bit d n" for n by (auto simp: bit_simps)
  show "((at AND NOT m) OR a) AND i = at AND i" "((at AND NOT m) OR a) AND d = at AND d"
    using n by (auto intro!: bit_eqI simp: bit_simps)
qed

lemma effects_keep_counts:
  "counts_ok v \<Longrightarrow> a AND (Attr_IpcLocked OR Attr_DeviceShared) = Attr_None \<Longrightarrow> counts_ok (update_effect s p a v)"
  "counts_ok v \<Longrightarrow> (mask' OR a) AND (Attr_IpcLocked OR Attr_DeviceShared) = Attr_None \<Longrightarrow>
     counts_ok (attribute_effect mask' a v)"
  by (cases v; simp add: Attr_None_def flags_apart flags_masked)+

lemma flag_apart:
  fixes at i d :: u8
  assumes "i AND d = 0"
  shows "(at OR i) AND d = at AND d" "(at AND NOT i) AND d = at AND d" "(at AND NOT i) AND i = 0"
proof -
  have "\<not> bit (i AND d) n" for n using assms by simp
  then have n: "bit d n \<Longrightarrow> \<not> bit i n" for n by (auto simp: bit_simps)
  show "(at OR i) AND d = at AND d" "(at AND NOT i) AND d = at AND d" "(at AND NOT i) AND i = 0"
    using n by (auto intro!: bit_eqI simp: bit_simps)
qed

lemma attr_apart: "Attr_IpcLocked AND Attr_DeviceShared = 0" "Attr_DeviceShared AND Attr_IpcLocked = 0"
  by (simp_all add: attr_defs)

lemmas flag_of_or = flag_apart [OF attr_apart(1)] flag_apart [OF attr_apart(2)]

lemma locks_keep_counts:
  assumes "counts_ok v" "lock_allowed k v"
  shows "counts_ok (lock_kind_effect k p v)"
proof -
  obtain st pm og at ic dc where v: "v = (st, pm, og, at, ic, dc)" by (cases v)
  show ?thesis using assms v by (cases k) (auto simp: Attr_None_def flag_of_or)
qed

lemma updates_keep:
  assumes "updates_pages m address n effect (Inr (m', al))" "counts_kept m"
    "\<And>x v. unat address \<le> x \<Longrightarrow> x < unat address + 4096 * unat n \<Longrightarrow> pages m x = Some v \<Longrightarrow> counts_ok (effect v)"
  shows "well_formed m' \<and> counts_kept m'"
proof -
  have "counts_ok v" if "pages m' x = Some v" for x v
  proof (cases "unat address \<le> x \<and> x < unat address + 4096 * unat n")
    case True
    then have "map_option effect (pages m x) = Some v"
      using that assms(1) by (simp add: updates_pages_def on_range_def)
    then obtain w where "pages m x = Some w" "v = effect w" by (cases "pages m x") simp_all
    then show ?thesis using assms(3) True by blast
  next
    case False
    then have "pages m x = Some v" using that assms(1) by (simp add: updates_pages_def on_range_def split: if_splits)
    then show ?thesis using assms(2) unfolding counts_kept_def by blast
  qed
  then show ?thesis using assms(1) by (simp add: updates_pages_def counts_kept_def)
qed

lemma manager_step_keeps:
  assumes "manager_step m m'" "well_formed m" "counts_kept m"
  shows "well_formed m' \<and> counts_kept m' \<and> m_start_address m' = m_start_address m \<and> m_end_address m' = m_end_address m"
  using assms
proof (cases rule: manager_step.cases)
  case (update address n a s p sm cm al)
  have u: "updates_pages m address n (update_effect s p a) (Inr (m', al))"
    using setting.update_range_succeeds [OF assms(2) update(1) update(3) [unfolded Manager_Update_def]]
    by (simp only: Update_pages [OF update(2)])
  moreover have "counts_ok (update_effect s p a v)" if "pages m x = Some v" for x v
    using effects_keep_counts(1) [OF _ update(2)] that assms(3) unfolding counts_kept_def by blast
  ultimately show ?thesis using updates_keep [OF u assms(3)] by (simp add: updates_pages_def)
next
  case (update_if_match address n a ts tp ta s p sm cm al)
  let ?e = "\<lambda>v. if has_properties ts tp ta v \<and> \<not> has_properties s p a v then update_effect s p a v else v"
  have u: "updates_pages m address n ?e (Inr (m', al))"
    by (rule matching.update_range_succeeds [OF assms(2) update_if_match(1) update_if_match(3) [unfolded UpdateIfMatch_def]])
  moreover have "counts_ok (?e v)" if "pages m x = Some v" for x v
  proof -
    have "counts_ok v" using that assms(3) unfolding counts_kept_def by blast
    then show ?thesis using effects_keep_counts(1) [OF _ update_if_match(2)] by simp
  qed
  ultimately show ?thesis using updates_keep [OF u assms(3)] by (simp add: updates_pages_def)
next
  case (update_lock address n k p al)
  have u: "updates_pages m address n (lock_kind_effect k p) (Inr (m', al))"
    by (rule locking.update_range_succeeds [OF assms(2) update_lock(1) update_lock(3) [unfolded UpdateLock_def]])
  moreover have "counts_ok (lock_kind_effect k p v)"
    if "unat address \<le> x" "x < unat address + 4096 * unat n" "pages m x = Some v" for x v
    using locks_keep_counts update_lock(2) that assms(3) unfolding counts_kept_def by blast
  ultimately show ?thesis using updates_keep [OF u assms(3)] by (simp add: updates_pages_def)
next
  case (update_attribute address n mask' a al)
  have u: "updates_pages m address n (attribute_effect mask' a) (Inr (m', al))"
    by (rule attributing.update_range_succeeds
        [OF assms(2) update_attribute(1) update_attribute(3) [unfolded Manager_UpdateAttribute_def]])
  moreover have "counts_ok (attribute_effect mask' a v)" if "pages m x = Some v" for x v
    using effects_keep_counts(2) [OF _ update_attribute(2)] that assms(3) unfolding counts_kept_def by blast
  ultimately show ?thesis using updates_keep [OF u assms(3)] by (simp add: updates_pages_def)
qed

lemma manager_steps_keep:
  assumes "manager_step\<^sup>*\<^sup>* m m'" "well_formed m" "counts_kept m"
  shows "well_formed m' \<and> counts_kept m' \<and> m_start_address m' = m_start_address m \<and> m_end_address m' = m_end_address m"
  using assms(1)
proof (induction rule: rtranclp_induct)
  case (step y z)
  then show ?case using manager_step_keeps [OF step.hyps(2)] by auto
qed (use assms in simp)

lemma one_block_each:
  assumes "well_formed m" "m_start_address m \<le> x" "x < m_end_address m"
  shows "\<exists>!b. b \<in> set (m_memory_block_tree m) \<and> holds_address x b"
proof -
  let ?t = "m_memory_block_tree m"
  have t: "tiled (unat (m_start_address m)) ?t (unat (m_end_address m))" using assms(1) by (simp add: well_formed_def)
  have z: "unat (m_end_address m) < 2 ^ 64" using unsigned_less [of "m_end_address m"] by simp
  have x: "unat (m_start_address m) \<le> unat x" "unat x < unat (m_end_address m)"
    using assms(2,3) by (simp_all add: word_le_nat_alt word_less_nat_alt)
  have h: "holds_address x b \<longleftrightarrow> lo b \<le> unat x \<and> unat x < hi b" if "b \<in> set ?t" for b
    using tiled_bounds [OF t that] z by (intro holds_address_iff) simp_all
  obtain before b rest where f: "?t = before @ b # rest" "tiled (unat (m_start_address m)) before (lo b)"
    "lo b \<le> unat x" "unat x < hi b" "tiled (lo b) (b # rest) (unat (m_end_address m))"
    using FindIterator_tiled [OF t z x] by blast
  have "c = b" if "c \<in> set ?t" "holds_address x c" for c
    using that h tiled_bounds [OF f(2), of c] tiled_bounds [of "hi b" rest "unat (m_end_address m)" c] f by force
  then show ?thesis using f h [of b] by auto
qed

section \<open>Properties\<close>

text \<open>
  Property C4. Update refines the page map: for a well-formed manager, a page-aligned range inside
  the address space and attributes without the two flags the manager keeps itself, the
  update returns with the two blocks of its allocator, the tree is well-formed again, and
  looking up any address finds the new state, permission and attributes on the pages
  of the range, with the lock and sharing flags, the original permission and the
  counts kept, and exactly what it found before on all other pages. The one excluded case is a
  range that starts inside of the first block without changing it.
\<close>

theorem memory_update_refines_page_map:
  assumes "well_formed m" "in_space m address n" "a AND (Attr_IpcLocked OR Attr_DeviceShared) = Attr_None"
    "\<not> steps_back (\<lambda>b. \<not> HasProperties s p a b) m address n"
  shows "\<exists>m' al'. Manager_Update (UpdateAllocator_ctor MaxBlocks) address n s p a sm cm m = Inr (m', al') \<and>
     well_formed m' \<and>
     (\<forall>x. map_option properties (FindBlock x m') =
          (if unat address \<le> unat x \<and> unat x < unat address + 4096 * unat n
           then map_option (update_effect s p a) (map_option properties (FindBlock x m))
           else map_option properties (FindBlock x m)))"
proof -
  let ?r = "Manager_Update (UpdateAllocator_ctor MaxBlocks) address n s p a sm cm m"
  have "updates_pages m address n (update_effect s p a) ?r"
    using setting.update_range_pages_max [OF assms(1,2,4), of address sm cm] Update_pages [OF assms(3)]
    by (simp add: Manager_Update_def)
  then obtain m' al' where "?r = Inr (m', al')" "well_formed m'"
    "pages m' = on_range (unat address) (unat address + 4096 * unat n) (update_effect s p a) (pages m)"
    by (auto simp: updates_pages_def split: sum.splits)
  then show ?thesis
    using assms(1) by (simp add: pages_FindBlock on_range_def)
qed

text \<open>A small address space for the witnesses.\<close>

definition blank_block :: KMemoryBlock where
  "blank_block =
     \<lparr> m_device_disable_merge_left_count = 0, m_device_disable_merge_right_count = 0, m_address = 0,
       m_num_pages = 0, m_memory_state = 0, m_ipc_lock_count = 0, m_device_use_count = 0,
       m_ipc_disable_merge_count = 0, m_permission = 0, m_original_permission = 0, m_attribute = 0,
       m_disable_merge_attribute = 0 \<rparr>"

definition blank_manager :: KMemoryBlockManager where
  "blank_manager = \<lparr> m_memory_block_tree = [], m_start_address = 0, m_end_address = 0 \<rparr>"

definition small_space :: KMemoryBlockManager where
  "small_space = snd (Manager_Initialize 0x8000 0x18000 (Some blank_block) blank_manager)"

lemma small_space_init: "Manager_Initialize 0x8000 0x18000 (Some blank_block) blank_manager = (True, small_space)"
  by (simp add: small_space_def Manager_Initialize_def)

lemma small_space_facts:
  "well_formed small_space" "m_start_address small_space = 0x8000" "m_end_address small_space = 0x18000"
  "m_memory_block_tree small_space = [Block_Initialize 0x8000 16 State_Free Perm_None Attr_None blank_block]"
  using Initialize_well_formed [OF small_space_init] by (simp_all add: PageSize_def)

lemma small_space_range: "in_space small_space 0xA000 3"
  by (simp add: in_space_def small_space_facts)

theorem memory_update_refines_page_map_witness:
  "\<exists>m' al'. Manager_Update (UpdateAllocator_ctor MaxBlocks) 0xA000 3 State_Normal Perm_UserReadWrite Attr_None
       Merge_Normal Merge_None small_space = Inr (m', al') \<and>
     map_option properties (FindBlock 0xB000 m') = Some (State_Normal, Perm_UserReadWrite, 0, 0, 0, 0) \<and>
     map_option properties (FindBlock 0xD000 m') = map_option properties (FindBlock 0xD000 small_space)"
proof -
  have f: "map_option properties (FindBlock 0xB000 small_space) = Some (0, 0, 0, 0, 0, 0)"
    using pages_FindBlock [OF small_space_facts(1), of "0xB000"]
    by (simp add: pages_def small_space_facts lo_def hi_def Block_Initialize_def properties_def blank_block_def
        State_Free_def Perm_None_def Attr_None_def)
  have n: "\<not> steps_back (\<lambda>b. \<not> HasProperties State_Normal Perm_UserReadWrite Attr_None b) small_space 0xA000 3"
    by (simp add: steps_back_def small_space_facts HasProperties_iff properties_def Block_Initialize_def state_values)
  obtain m' al' where u: "Manager_Update (UpdateAllocator_ctor MaxBlocks) 0xA000 3 State_Normal Perm_UserReadWrite
      Attr_None Merge_Normal Merge_None small_space = Inr (m', al')"
    "\<forall>x. map_option properties (FindBlock x m') =
       (if unat (0xA000 :: u64) \<le> unat x \<and> unat x < unat (0xA000 :: u64) + 4096 * unat (3 :: u64)
        then map_option (update_effect State_Normal Perm_UserReadWrite Attr_None) (map_option properties (FindBlock x small_space))
        else map_option properties (FindBlock x small_space))"
    using memory_update_refines_page_map [where sm = Merge_Normal and cm = Merge_None,
        OF small_space_facts(1) small_space_range _ n]
    by (auto simp: Attr_None_def)
  have "map_option properties (FindBlock 0xB000 m') = Some (State_Normal, Perm_UserReadWrite, 0, 0, 0, 0)"
    using u(2) [rule_format, of "0xB000"] f by (simp add: Attr_None_def)
  moreover have "map_option properties (FindBlock 0xD000 m') = map_option properties (FindBlock 0xD000 small_space)"
    using u(2) [rule_format, of "0xD000"] by simp
  ultimately show ?thesis using u(1) by blast
qed

text \<open>
  Property C5. From a fresh address space, every sequence of updates, locks and attribute changes
  leaves a tree that passes the check of the code: neighbours that can be merged are
  merged, blocks follow each other without gaps, a flagged block has a count. The tree
  covers exactly the address space: every address in it lies in exactly one block.
\<close>

theorem block_tree_invariant:
  assumes "Manager_Initialize st nd (Some b) m0 = (True, m)" "st < nd" "unat st mod 4096 = 0" "unat nd mod 4096 = 0"
    "manager_step\<^sup>*\<^sup>* m m'"
  shows "CheckState m' \<and>
     (\<forall>x. st \<le> x \<and> x < nd \<longrightarrow> (\<exists>!b. b \<in> set (m_memory_block_tree m') \<and> holds_address x b))"
proof -
  note init = Initialize_well_formed [OF assms(1-4)]
  have "counts_kept m"
    by (auto simp: counts_kept_def pages_def init(4) Block_Initialize_def properties_def Attr_None_def split: if_splits)
  then have "well_formed m'" "counts_kept m'" "m_start_address m' = st" "m_end_address m' = nd"
    using manager_steps_keep [OF assms(5) init(1)] init(2,3) by simp_all
  then show ?thesis using CheckState_intro one_block_each by blast
qed

theorem block_tree_invariant_witness:
  "\<exists>m'. manager_step small_space m' \<and> CheckState m' \<and>
     (\<exists>!b. b \<in> set (m_memory_block_tree m') \<and> holds_address 0xB123 b)"
proof -
  have n: "\<not> steps_back (\<lambda>b. True) small_space 0xA000 3"
    by (simp add: steps_back_def small_space_facts)
  obtain m' al where u: "UpdateLock (UpdateAllocator_ctor MaxBlocks) 0xA000 3 (lock_function Share) 0 small_space = Inr (m', al)"
    using locking.update_range_pages_max [OF small_space_facts(1) small_space_range n, of Share 0 "0xA000" 3]
    by (auto simp: updates_pages_def UpdateLock_def split: sum.splits)
  have "lock_allowed Share v" if "pages small_space x = Some v" for x v
    using that by (auto simp: pages_def small_space_facts Block_Initialize_def properties_def blank_block_def split: if_splits)
  then have s: "manager_step small_space m'"
    by (intro manager_step.update_lock [OF small_space_range _ u]) blast
  have "CheckState m' \<and>
     (\<forall>x. 0x8000 \<le> x \<and> x < 0x18000 \<longrightarrow> (\<exists>!b. b \<in> set (m_memory_block_tree m') \<and> holds_address x b))"
    by (rule block_tree_invariant [OF small_space_init]) (simp_all add: s r_into_rtranclp)
  then show ?thesis using s by (auto dest!: spec [of _ "0xB123"])
qed

text \<open>The lock fields of a page agree with each other, and another lock does not wrap the count.\<close>

fun ipc_consistent :: "page_properties \<Rightarrow> bool" where
  "ipc_consistent (st, pm, og, at, ic, dc) \<longleftrightarrow>
     (if ic = 0 then og = Perm_None \<and> at AND Attr_IpcLocked = 0 else at AND Attr_IpcLocked \<noteq> 0) \<and> ic + 1 \<noteq> 0"

lemma ipc_flag:
  "at AND Attr_IpcLocked = 0 \<Longrightarrow> (at OR Attr_IpcLocked) AND NOT Attr_IpcLocked = at"
  "at AND Attr_IpcLocked \<noteq> 0 \<Longrightarrow> at OR Attr_IpcLocked = at"
proof -
  have b: "bit Attr_IpcLocked n \<longleftrightarrow> n = 1" for n by (auto simp: Attr_IpcLocked_def bit_simps)
  have one: "bit (at AND Attr_IpcLocked) 1 \<longleftrightarrow> bit at 1" by (simp add: bit_and_iff b)
  have z: "at AND Attr_IpcLocked = 0 \<longleftrightarrow> \<not> bit at 1"
  proof
    assume "at AND Attr_IpcLocked = 0"
    then show "\<not> bit at 1" using one by (metis bit_0_eq bot_apply bot_bool_def)
  qed (auto intro!: bit_eqI simp: bit_and_iff b)
  show "at AND Attr_IpcLocked = 0 \<Longrightarrow> (at OR Attr_IpcLocked) AND NOT Attr_IpcLocked = at"
    using z by (auto intro!: bit_eqI simp: bit_simps b)
  show "at AND Attr_IpcLocked \<noteq> 0 \<Longrightarrow> at OR Attr_IpcLocked = at"
    using z by (auto intro!: bit_eqI simp: bit_simps b)
qed

lemma unlock_lock: "ipc_consistent v \<Longrightarrow> unlock_effect (lock_effect p v) = v"
  by (cases v) (auto simp: ipc_flag split: if_splits)

lemma UpdateLock_pages:
  assumes "well_formed m" "in_space m address n" "n \<noteq> 0"
  shows "\<exists>m' al'. UpdateLock (UpdateAllocator_ctor MaxBlocks) address n (lock_function k) p m = Inr (m', al') \<and>
     well_formed m' \<and> in_space m' address n \<and>
     (\<forall>x. map_option properties (FindBlock x m') =
          on_range (unat address) (unat address + 4096 * unat n) (lock_kind_effect k p) (pages m) (unat x)) \<and>
     pages m' = on_range (unat address) (unat address + 4096 * unat n) (lock_kind_effect k p) (pages m)"
proof -
  have "\<not> steps_back (\<lambda>b. True) m address n" using assms(3) by (auto simp: steps_back_def split: list.split)
  then have "updates_pages m address n (lock_kind_effect k p)
      (UpdateLock (UpdateAllocator_ctor MaxBlocks) address n (lock_function k) p m)"
    unfolding UpdateLock_def by (rule locking.update_range_pages_max [OF assms(1,2)])
  then show ?thesis
    using assms(2) by (auto simp: updates_pages_def in_space_def pages_FindBlock split: sum.splits)
qed

text \<open>
  Property C20. Locking a range for IPC and unlocking it again: both updates return, pages outside
  of the range never change, while locked the pages of the range carry the lock flag and
  the reduced permission, and afterwards every page has its properties back, provided
  the lock fields of its pages were consistent and no lock count is at its maximum.
\<close>

theorem ipc_lock_unlock_round_trip:
  assumes "well_formed m" "in_space m address n" "n \<noteq> 0"
    "\<forall>x v. unat address \<le> x \<and> x < unat address + 4096 * unat n \<and> pages m x = Some v \<longrightarrow> ipc_consistent v"
  shows "\<exists>m1 al1 m2 al2.
     UpdateLock (UpdateAllocator_ctor MaxBlocks) address n LockForIpc p m = Inr (m1, al1) \<and>
     UpdateLock (UpdateAllocator_ctor MaxBlocks) address n UnlockForIpc q m1 = Inr (m2, al2) \<and>
     (\<forall>x. map_option properties (FindBlock x m1) =
          (if unat address \<le> unat x \<and> unat x < unat address + 4096 * unat n
           then map_option (lock_effect p) (map_option properties (FindBlock x m))
           else map_option properties (FindBlock x m))) \<and>
     (\<forall>x. map_option properties (FindBlock x m2) = map_option properties (FindBlock x m))"
proof -
  let ?l = "unat address + 4096 * unat n"
  obtain m1 al1 where 1: "UpdateLock (UpdateAllocator_ctor MaxBlocks) address n LockForIpc p m = Inr (m1, al1)"
    "well_formed m1" "in_space m1 address n" "pages m1 = on_range (unat address) ?l (lock_effect p) (pages m)"
    using UpdateLock_pages [OF assms(1-3), of Lock_Ipc p] by auto
  obtain m2 al2 where 2: "UpdateLock (UpdateAllocator_ctor MaxBlocks) address n UnlockForIpc q m1 = Inr (m2, al2)"
    "well_formed m2" "pages m2 = on_range (unat address) ?l unlock_effect (pages m1)"
    using UpdateLock_pages [OF 1(2,3) assms(3), of Unlock_Ipc q] by auto
  have "pages m2 x = pages m x" for x
    using assms(4) [rule_format, of x] unlock_lock
    by (cases "pages m x") (simp_all add: 1(4) 2(3) on_range_def del: ipc_consistent.simps)
  then show ?thesis
    using 1 2 assms(1) by (simp add: pages_FindBlock on_range_def)
qed

theorem ipc_lock_unlock_round_trip_witness:
  "\<exists>m1 al1 m2 al2.
     UpdateLock (UpdateAllocator_ctor MaxBlocks) 0xA000 3 LockForIpc Perm_UserRead small_space = Inr (m1, al1) \<and>
     UpdateLock (UpdateAllocator_ctor MaxBlocks) 0xA000 3 UnlockForIpc Perm_None m1 = Inr (m2, al2) \<and>
     map_option properties (FindBlock 0xB000 m2) = map_option properties (FindBlock 0xB000 small_space)"
proof -
  have c: "ipc_consistent v" if "pages small_space x = Some v" for x v
    using that by (auto simp: pages_def small_space_facts Block_Initialize_def properties_def Attr_None_def split: if_splits)
  show ?thesis
    using ipc_lock_unlock_round_trip [OF small_space_facts(1) small_space_range, of Perm_UserRead Perm_None] c
    by (simp del: ipc_consistent.simps) blast
qed

end
