(* ===== verification/KMemoryBlockSearch.thy ===== *)
theory KMemoryBlockSearch
  imports KMemoryBlockProofs
begin

text \<open>
  The search for a free area, \<^verbatim>\<open>KMemoryBlockManager::FindFreeArea\<close>: where it finds an area, the
  area and its guard pages on both sides are free and lie in the region, at the
  requested offset from the alignment.
\<close>

unbundle bit_operations_syntax

lemma AlignDown_mod: "unat (AlignDown v n) = unat v - unat v mod unat n" for v n :: u64
  by (simp add: AlignDown_def unat_sub_small unat_mod)

text \<open>The candidate in a block, when nothing overflows.\<close>

lemma free_area_bounds:
  assumes "max (unat rs) (unat (m_address b)) + 4096 * unat guard + unat al + unat off < 2 ^ 64" "0 < unat al"
  shows "max (unat rs) (unat (m_address b)) + 4096 * unat guard \<le> unat (free_area rs al off guard b)"
    "unat (free_area rs al off guard b) mod unat al = unat off mod unat al"
proof -
  let ?s = "if m_address b \<le> rs then rs else m_address b"
  define a0 where "a0 = ?s + guard * PageSize"
  have s: "unat ?s = max (unat rs) (unat (m_address b))" by (simp add: word_le_nat_alt)
  have g: "unat (guard * PageSize) = 4096 * unat guard" using assms(1) by (intro unat_pages) simp
  have a0: "unat a0 = max (unat rs) (unat (m_address b)) + 4096 * unat guard"
    using s g assms(1) unfolding a0_def by (simp add: unat_add_small)
  define d where "d = AlignDown a0 al"
  have d: "unat d \<le> unat a0" "unat a0 < unat d + unat al" "unat d mod unat al = 0"
    using assms(2) by (simp_all add: d_def AlignDown_mod less_diff_conv2 minus_mod_eq_mult_div)
      (metis add.commute div_mult_mod_eq less_add_same_cancel2 mod_less_divisor mult.commute nat_add_left_cancel_less)
  have o: "unat (d + off) = unat d + unat off" using d(1) a0 assms(1) by (intro unat_add_small) simp
  have oa: "unat (d + off + al) = unat d + unat off + unat al"
    using d(1) a0 o assms(1) unat_add_small [of "d + off" al] by simp
  have fa: "free_area rs al off guard b = (if a0 \<le> d + off then d + off else d + off + al)"
    by (simp add: free_area_def Let_def a0_def d_def)
  show "max (unat rs) (unat (m_address b)) + 4096 * unat guard \<le> unat (free_area rs al off guard b)"
    using a0 d(2) o oa by (simp add: fa word_le_nat_alt)
  have "(unat d + unat off) mod unat al = unat off mod unat al"
    using d(3) by (metis add_0 mod_add_left_eq)
  then show "unat (free_area rs al off guard b) mod unat al = unat off mod unat al"
    using o oa by (simp add: fa)
qed

text \<open>The block the search stops at.\<close>

lemma FindFreeArea_loop_found:
  assumes "FindFreeArea_loop rs rl n al off guard bs = r" "r \<noteq> 0"
  shows "\<exists>b\<in>set bs. m_memory_state b = State_Free \<and> r = free_area rs al off guard b \<and> m_address b \<le> r \<and>
     r < r + n * PageSize + guard * PageSize - 1 \<and> r + n * PageSize + guard * PageSize - 1 \<le> rl \<and>
     r + n * PageSize + guard * PageSize - 1 \<le> GetLastAddress b"
  using assms by (induction bs) (auto simp: Let_def split: if_splits)

lemma area_end:
  fixes r n guard last' :: u64
  assumes "r < r + n * PageSize + guard * PageSize - 1" "r + n * PageSize + guard * PageSize - 1 \<le> last'"
    "4096 * (unat n + unat guard) < 2 ^ 64" "0 < unat n"
  shows "unat r + 4096 * (unat n + unat guard) \<le> unat last' + 1"
proof -
  define k where "k = n * PageSize + guard * PageSize"
  have "unat (n * PageSize) = 4096 * unat n" "unat (guard * PageSize) = 4096 * unat guard"
    using assms(3) by (intro unat_pages; simp)+
  then have k: "unat k = 4096 * (unat n + unat guard)"
    using assms(3) by (simp add: k_def unat_add_small)
  have lt: "r < r + (k - 1)" "r + (k - 1) \<le> last'"
    using assms(1,2) by (simp_all add: k_def algebra_simps)
  have k1: "unat (k - 1) = unat k - 1" using k assms(4) by (simp add: unat_sub_small)
  have "unat r + unat (k - 1) < 2 ^ 64"
  proof (rule ccontr)
    assume "\<not> unat r + unat (k - 1) < 2 ^ 64"
    moreover have "unat (r + (k - 1)) = (unat r + unat (k - 1)) mod 2 ^ 64"
      by (simp add: unat_word_ariths)
    moreover have "unat r < 2 ^ 64" "unat (k - 1) < 2 ^ 64" using unsigned_less [of r] unsigned_less [of "k - 1"] by simp_all
    ultimately have "unat (r + (k - 1)) < unat r" by (simp add: le_mod_geq del: unat_sub_small)
    then show False using lt(1) by (simp add: word_less_nat_alt)
  qed
  then have "unat (r + (k - 1)) = unat r + unat (k - 1)" by (rule unat_add_small)
  then show ?thesis using lt(2) k k1 by (simp add: word_le_nat_alt)
qed

text \<open>Every address in a block of the tree finds that block.\<close>

lemma FindBlock_in:
  assumes "well_formed m" "b \<in> set (m_memory_block_tree m)" "lo b \<le> unat x" "unat x < hi b"
  shows "\<exists>c. FindBlock x m = Some c \<and> m_memory_state c = m_memory_state b"
proof -
  let ?t = "m_memory_block_tree m"
  have t: "tiled (unat (m_start_address m)) ?t (unat (m_end_address m))" using assms(1) by (simp add: well_formed_def)
  have "page_map ?t (unat x) = Some (properties b)" by (rule page_map_of [OF t assms(2-4)])
  then have "map_option properties (FindBlock x m) = Some (properties b)"
    using t pages_FindBlock [OF assms(1), of x] by (simp add: pages_def)
  then show ?thesis by (cases "FindBlock x m") (auto simp: properties_def)
qed

text \<open>
  Property C21. When the search for a free area returns an address, that address has the
  requested offset from the alignment, the area with its guard pages before and behind lies in
  the region, and every address of the area and of both guards lies in a free block. The
  hypotheses keep the address arithmetic from wrapping around; a well-formed manager is one
  every sequence of updates leaves behind.
\<close>

theorem find_free_area_sound:
  assumes "well_formed m" "FindFreeArea rs rn n al off guard m = r" "r \<noteq> 0" "0 < unat al" "0 < unat rn"
    "unat rs + 4096 * unat rn < 2 ^ 64" "4096 * (unat n + unat guard) < 2 ^ 64"
    "max (unat rs) (unat (m_end_address m)) + 4096 * unat guard + unat al + unat off < 2 ^ 64"
  shows "unat r mod unat al = unat off mod unat al \<and>
     unat rs + 4096 * unat guard \<le> unat r \<and>
     unat r + 4096 * (unat n + unat guard) \<le> unat rs + 4096 * unat rn \<and>
     (\<forall>x. unat r - 4096 * unat guard \<le> unat x \<and> unat x < unat r + 4096 * (unat n + unat guard) \<longrightarrow>
          (\<exists>b. FindBlock x m = Some b \<and> m_memory_state b = State_Free))"
proof -
  let ?t = "m_memory_block_tree m" and ?e = "r + n * PageSize + guard * PageSize - 1"
  define rl where "rl = rs + rn * PageSize - 1"
  have np: "0 < unat n" using assms(2,3) by (auto simp: FindFreeArea_def unat_gt_0 word_neq_0_conv split: if_splits)
  have "unat (rn * PageSize) = 4096 * unat rn" using assms(6) by (intro unat_pages) simp
  then have rl: "unat rl + 1 = unat rs + 4096 * unat rn"
    using assms(5,6) by (simp add: rl_def unat_sub_small unat_add_small)
  have "FindFreeArea_loop rs rl n al off guard (snd (FindIterator rs ?t)) = r"
    using assms(2,3) by (simp add: FindFreeArea_def rl_def split: if_splits)
  then obtain b where b: "b \<in> set (snd (FindIterator rs ?t))" "m_memory_state b = State_Free"
    "r = free_area rs al off guard b" "m_address b \<le> r" "r < ?e" "?e \<le> rl" "?e \<le> GetLastAddress b"
    using FindFreeArea_loop_found [OF _ assms(3)] by blast
  have bt: "b \<in> set ?t" using b(1) by (auto simp: FindIterator_def dest: set_dropWhileD)
  have t: "tiled (unat (m_start_address m)) ?t (unat (m_end_address m))" using assms(1) by (simp add: well_formed_def)
  have bb: "lo b < hi b" "hi b \<le> unat (m_end_address m)" using tiled_bounds [OF t bt] by simp_all
  have bz: "hi b < 2 ^ 64" using bb(2) assms(8) by simp
  note fa = free_area_bounds [of rs b guard al off, folded b(3)]
  have lower: "max (unat rs) (lo b) + 4096 * unat guard \<le> unat r" "unat r mod unat al = unat off mod unat al"
    using fa assms(4,8) bb by (simp_all add: lo_def)
  have upper: "unat r + 4096 * (unat n + unat guard) \<le> unat rs + 4096 * unat rn"
    "unat r + 4096 * (unat n + unat guard) \<le> hi b"
    using area_end [OF b(5,6) assms(7) np] rl area_end [OF b(5,7) assms(7) np] unat_GetLastAddress [OF bz bb(1)] bb(1)
    by simp_all
  have "\<exists>c. FindBlock x m = Some c \<and> m_memory_state c = State_Free"
    if "unat r - 4096 * unat guard \<le> unat x" "unat x < unat r + 4096 * (unat n + unat guard)" for x
    using FindBlock_in [OF assms(1) bt, of x] that lower(1) upper(2) b(2) by simp
  then show ?thesis using lower upper(1) by simp
qed

theorem find_free_area_sound_witness:
  "FindFreeArea 0x8000 16 2 0x4000 0x1000 1 small_space = 0x9000 \<and>
   (\<exists>b. FindBlock 0xA000 small_space = Some b \<and> m_memory_state b = State_Free)"
proof -
  have h: "holds_address 0x8000 (Block_Initialize 0x8000 16 State_Free Perm_None Attr_None blank_block)"
    by (simp add: holds_address_def Block_Initialize_def GetLastAddress_def GetEndAddress_def GetSize_def PageSize_def)
  have r: "FindFreeArea 0x8000 16 2 0x4000 0x1000 1 small_space = 0x9000"
    using h by (simp add: FindFreeArea_def FindIterator_def small_space_facts free_area_def AlignDown_def
        Block_Initialize_def GetLastAddress_def GetEndAddress_def GetSize_def PageSize_def Let_def)
  show ?thesis
    using find_free_area_sound [OF small_space_facts(1) r] r by (simp add: small_space_facts(3))
qed

end
