(* ===== verification/KPageTableProofs.thy ===== *)
theory KPageTableProofs
  imports KPageTableBase KMemoryBlockSearch
begin

text \<open>
  The checks and updates of the kernel page table over the page map of its block manager: a check
  looks at exactly the pages of its range and counts exactly the blocks an update needs, so that no update
  runs out of them, and the system calls either fail and change nothing or change exactly the pages of the range.
\<close>

unbundle bit_operations_syntax

section \<open>Tables and ranges\<close>

definition table_ok :: "'g KPageTableBase \<Rightarrow> bool" where
  "table_ok t \<longleftrightarrow>
     well_formed (m_memory_block_manager t) \<and>
     m_start_address (m_memory_block_manager t) = m_address_space_start t \<and>
     m_end_address (m_memory_block_manager t) = m_address_space_end t \<and>
     m_address_space_start t < m_address_space_end t"

text \<open>The pages of a table.\<close>

abbreviation table_pages :: "'g KPageTableBase \<Rightarrow> nat \<Rightarrow> page_properties option" where
  "table_pages t \<equiv> pages (m_memory_block_manager t)"

abbreviation table_tree :: "'g KPageTableBase \<Rightarrow> KMemoryBlock list" where
  "table_tree t \<equiv> m_memory_block_tree (m_memory_block_manager t)"

lemma IsAligned_PageSize: "IsAligned v PageSize \<longleftrightarrow> unat v mod 4096 = 0"
proof -
  have "v AND (PageSize - 1) = v AND mask 12" by (simp add: PageSize_def mask_eq_exp_minus_1 push_bit_eq_mult)
  also have "\<dots> = v mod 4096" by (simp add: take_bit_eq_mask [symmetric] take_bit_eq_mod)
  finally have "IsAligned v PageSize \<longleftrightarrow> unat (v mod 4096) = 0" by (simp add: IsAligned_def unat_eq_0)
  then show ?thesis by (simp add: unat_mod)
qed

lemma range_in_table:
  assumes "table_ok t" "Contains addr sz t"
  shows "unat addr + unat sz \<le> unat (m_address_space_end t)" "0 < unat sz"
    "unat (m_address_space_start t) \<le> unat addr" "unat (addr + sz - 1) + 1 = unat addr + unat sz"
proof -
  have c: "unat (m_address_space_start t) \<le> unat addr" "unat addr < unat (addr + sz)"
    "unat (addr + sz - 1) \<le> unat (m_address_space_end t - 1)"
    using assms(2) by (simp_all add: Contains_def word_le_nat_alt word_less_nat_alt)
  have e: "0 < unat (m_address_space_end t)" using assms(1) by (simp add: table_ok_def word_less_nat_alt)
  have "unat (addr + sz) = (unat addr + unat sz) mod 2 ^ 64" by (simp add: unat_word_ariths)
  moreover have "unat addr < 2 ^ 64" "unat sz < 2 ^ 64" using unsigned_less [of addr] unsigned_less [of sz] by simp_all
  ultimately have s: "unat (addr + sz) = unat addr + unat sz"
    using c(2) by (cases "unat addr + unat sz < 2 ^ 64") (simp_all add: le_mod_geq)
  have l: "unat (addr + sz - 1) = unat (addr + sz) - 1" "unat (m_address_space_end t - 1) = unat (m_address_space_end t) - 1"
    using c(2) e by (simp_all add: unat_sub_small)
  show "unat addr + unat sz \<le> unat (m_address_space_end t)" "0 < unat sz"
    "unat (m_address_space_start t) \<le> unat addr" "unat (addr + sz - 1) + 1 = unat addr + unat sz"
    using c s l e by simp_all
qed

lemma range_pages:
  assumes "unat sz mod 4096 = 0"
  shows "4096 * unat (sz div PageSize) = unat sz"
  using assms by (simp add: unat_div_PageSize mod_eq_0_iff_dvd)

lemma in_space_range:
  assumes "table_ok t" "Contains addr sz t" "unat addr mod 4096 = 0" "unat sz mod 4096 = 0"
  shows "in_space (m_memory_block_manager t) addr (sz div PageSize)" "sz div PageSize \<noteq> 0"
proof -
  note r = range_in_table [OF assms(1,2)] and p = range_pages [OF assms(4)]
  show "in_space (m_memory_block_manager t) addr (sz div PageSize)"
    using assms(1,3) r p by (simp add: in_space_def table_ok_def word_le_nat_alt word_less_nat_alt)
  show "sz div PageSize \<noteq> 0" using r(2) p by auto
qed

section \<open>What a check sees\<close>

fun page_matches :: "check_masks \<Rightarrow> page_properties \<Rightarrow> bool" where
  "page_matches c (st, pm, og, at, ic, dc) \<longleftrightarrow>
     st AND state_mask c = want_state c \<and> pm AND perm_mask c = want_perm c \<and> at AND attr_mask c = want_attr c"

fun page_same :: "u8 \<Rightarrow> page_properties \<Rightarrow> page_properties \<Rightarrow> bool" where
  "page_same ig (st0, pm0, og0, at0, ic0, dc0) (st, pm, og, at, ic, dc) \<longleftrightarrow> st = st0 \<and> pm = pm0 \<and> at OR ig = at0 OR ig"

lemma info_page: "CheckMemoryState_info c b \<longleftrightarrow> page_matches c (properties b)"
  by (simp add: CheckMemoryState_info_def properties_def)

lemma same_page: "same_as_first ig b0 b \<longleftrightarrow> page_same ig (properties b0) (properties b)"
  by (simp add: same_as_first_def properties_def)

text \<open>Every page of a range.\<close>

definition range_all :: "('v \<Rightarrow> bool) \<Rightarrow> (nat \<Rightarrow> 'v option) \<Rightarrow> nat \<Rightarrow> nat \<Rightarrow> bool" where
  "range_all P f c l \<longleftrightarrow> (\<forall>x v. c \<le> x \<longrightarrow> x < l \<longrightarrow> f x = Some v \<longrightarrow> P v)"

lemma range_all_inside:
  assumes "lo b \<le> c" "c < l" "l \<le> hi b"
  shows "range_all P (page_map (b # bs)) c l \<longleftrightarrow> P (properties b)"
proof
  assume "range_all P (page_map (b # bs)) c l"
  then have "page_map (b # bs) c = Some (properties b) \<Longrightarrow> P (properties b)"
    using assms unfolding range_all_def by blast
  then show "P (properties b)" using assms by simp
next
  assume "P (properties b)"
  then show "range_all P (page_map (b # bs)) c l"
    unfolding range_all_def using assms by (simp del: split_paired_All)
qed

lemma range_all_split:
  assumes "c \<le> k" "k \<le> l"
  shows "range_all P f c l \<longleftrightarrow> range_all P f c k \<and> range_all P f k l"
proof
  assume "range_all P f c l"
  then show "range_all P f c k \<and> range_all P f k l"
    unfolding range_all_def using assms order_trans order_less_le_trans by meson
next
  assume r: "range_all P f c k \<and> range_all P f k l"
  show "range_all P f c l"
    unfolding range_all_def
  proof (intro allI impI)
    fix x v assume "c \<le> x" "x < l" "f x = Some v"
    then show "P v" using r unfolding range_all_def by (cases "x < k") (blast, meson linorder_not_less)
  qed
qed

lemma range_all_step:
  assumes "lo b \<le> c" "c < hi b" "hi b \<le> l"
  shows "range_all P (page_map (b # bs)) c l \<longleftrightarrow> P (properties b) \<and> range_all P (page_map bs) (hi b) l"
proof -
  have "range_all P (page_map (b # bs)) c l \<longleftrightarrow>
      range_all P (page_map (b # bs)) c (hi b) \<and> range_all P (page_map (b # bs)) (hi b) l"
    using assms by (intro range_all_split) simp_all
  moreover have "range_all P (page_map (b # bs)) (hi b) l \<longleftrightarrow> range_all P (page_map bs) (hi b) l"
    unfolding range_all_def by (simp del: split_paired_All)
  ultimately show ?thesis using range_all_inside [OF assms(1,2) order_refl] by simp
qed

lemma range_all_below:
  assumes "tiled a before k" "k \<le> c"
  shows "range_all P (page_map (before @ bs)) c l \<longleftrightarrow> range_all P (page_map bs) c l"
proof -
  have "page_map (before @ bs) x = page_map bs x" if "c \<le> x" for x
    using page_map_None_iff [OF assms(1), of x] assms(2) that by (simp add: page_map_append)
  then show ?thesis unfolding range_all_def by simp
qed

lemma check_loop:
  assumes "tiled (lo b) (b # rest) z" "z < 2 ^ 64" "lo b \<le> a" "a < hi b" "a < l" "l \<le> z" "unat last_addr + 1 = l"
    "\<And>b. same b \<longleftrightarrow> Q (properties b)"
  shows "if range_all (\<lambda>v. Q v \<and> page_matches c v) (page_map (b # rest)) a l
     then \<exists>e\<in>set (b # rest). CheckMemoryState_loop same c last_addr (b # rest) = Inr e \<and> lo e < l \<and> l \<le> hi e
     else CheckMemoryState_loop same c last_addr (b # rest) = Inl (Failed kernel_result.ResultInvalidCurrentMemory)"
  using assms(1-6)
proof (induction rest arbitrary: a b)
  case Nil
  then have "last_addr \<le> GetLastAddress b"
    using assms(7) by (simp add: word_le_nat_alt unat_GetLastAddress)
  then show ?case
    using Nil range_all_inside [of b a l _ "[]"] by (simp add: assms(8) info_page del: page_map.simps)
next
  case (Cons b1 rest)
  have t: "lo b < hi b" "lo b1 = hi b" "lo b1 < hi b1" "tiled (lo b1) (b1 # rest) z" using Cons.prems(1) by auto
  have hz: "hi b < 2 ^ 64" using tiled_le [OF t(4)] Cons.prems(2) t(2) by simp
  have le: "last_addr \<le> GetLastAddress b \<longleftrightarrow> l \<le> hi b"
    using hz t(1) assms(7) by (auto simp: word_le_nat_alt unat_GetLastAddress)
  show ?case
  proof (cases "l \<le> hi b")
    case True
    then show ?thesis
      using le Cons.prems(3-5) range_all_inside [of b a l _ "b1 # rest"]
      by (simp add: assms(8) info_page del: page_map.simps)
  next
    case False
    have "range_all P (page_map (b # b1 # rest)) a l \<longleftrightarrow> P (properties b) \<and> range_all P (page_map (b1 # rest)) (lo b1) l" for P
      using range_all_step [OF Cons.prems(3,4)] False t(2) by simp
    moreover have "CheckMemoryState_loop same c last_addr (b # b1 # rest) =
        (if Q (properties b) \<and> page_matches c (properties b) then CheckMemoryState_loop same c last_addr (b1 # rest)
         else Inl (Failed kernel_result.ResultInvalidCurrentMemory))"
      using False le by (simp add: assms(8) info_page)
    moreover have "lo b1 < l" using False t(2) by simp
    note Cons.IH [OF t(4) Cons.prems(2) order_refl t(3) this Cons.prems(6)]
    ultimately show ?thesis
      by (cases "Q (properties b) \<and> page_matches c (properties b)")
        (simp_all del: page_map.simps CheckMemoryState_loop.simps split: if_splits, blast)
  qed
qed

section \<open>Checks are exact\<close>

lemma cuts_last:
  assumes "tiled a bs z" "e \<in> set bs" "lo e < l" "l \<le> hi e"
  shows "cuts bs l \<longleftrightarrow> l \<noteq> hi e"
proof -
  have uniq: "c = e" if "c \<in> set bs" "lo c < l" "l < hi c" for c
    using assms that
  proof (induction bs arbitrary: a)
    case (Cons d ds)
    have t: "tiled (hi d) ds z" using Cons.prems(1) by simp
    have "c \<in> set ds \<Longrightarrow> hi d < l" "e \<in> set ds \<Longrightarrow> hi d < l"
      using tiled_bounds [OF t, of c] tiled_bounds [OF t, of e] Cons.prems(3,6) by simp_all
    then consider "c = d" "e = d" | "c \<in> set ds" "e \<in> set ds"
      using Cons.prems(2,4,5,7) by fastforce
    then show ?case
    proof cases
      case 2
      then show ?thesis using Cons.IH [OF t 2(2) Cons.prems(3,4) 2(1) Cons.prems(6,7)] by simp
    qed simp
  qed simp
  show ?thesis
  proof
    assume "cuts bs l"
    then obtain c where "c \<in> set bs" "lo c < l" "l < hi c" unfolding cuts_def by blast
    then show "l \<noteq> hi e" using uniq [of c] by simp
  next
    assume "l \<noteq> hi e"
    then have "l < hi e" using assms(4) by simp
    then show "cuts bs l" unfolding cuts_def using assms(2,3) by blast
  qed
qed

lemma AlignDown_PageSize: "unat v mod 4096 = 0 \<Longrightarrow> AlignDown v PageSize = v"
proof -
  assume "unat v mod 4096 = 0"
  then have "unat (AlignDown v PageSize) = unat v" by (simp add: AlignDown_mod PageSize_unat)
  then show ?thesis by (rule unsigned_word_eqI)
qed

lemma AlignUp_PageSize: "unat v mod 4096 = 0 \<Longrightarrow> AlignUp v PageSize = v"
proof -
  assume "unat v mod 4096 = 0"
  then have "unat (v mod PageSize) = 0" by (simp add: unat_mod PageSize_unat)
  then show ?thesis by (simp add: AlignUp_def unat_eq_0)
qed

lemma AlignDown_last:
  assumes "unat v + 1 = l" "l mod 4096 = 0" "l < 2 ^ 64"
  shows "unat (AlignDown v PageSize + PageSize) = l"
proof -
  have "4096 dvd l" using assms(2) by (simp add: mod_eq_0_iff_dvd)
  then obtain k where k: "l = 4096 * k" "0 < k" using assms(1) by (cases "l = 0") auto
  have v: "unat v = 4096 * (k - 1) + 4095" using assms(1) k by (cases k) simp_all
  have "unat (AlignDown v PageSize) = 4096 * (k - 1)"
    unfolding AlignDown_mod PageSize_unat v by simp
  then have "unat (AlignDown v PageSize) + unat PageSize = l" using k by (cases k) (simp_all add: PageSize_unat)
  then show ?thesis using assms(3) unat_add_small [of "AlignDown v PageSize" PageSize] by simp
qed

text \<open>The check of a range, with the number of blocks its update needs.\<close>

lemma check_memory_state:
  assumes "table_ok t" "Contains addr sz t" "unat addr mod 4096 = 0" "unat sz mod 4096 = 0"
  shows "\<exists>v0. table_pages t (unat addr) = Some v0 \<and>
     CheckMemoryState addr sz c ig t =
       (if range_all (\<lambda>v. page_same ig v0 v \<and> page_matches c v) (table_pages t) (unat addr) (unat addr + unat sz)
        then (case v0 of (st, pm, og, at, ic, dc) \<Rightarrow>
                Inr (st, pm, at AND NOT ig, blocks_needed (table_tree t) (unat addr) (unat addr + unat sz)))
        else Inl (Failed kernel_result.ResultInvalidCurrentMemory))"
proof -
  let ?m = "m_memory_block_manager t" and ?l = "unat addr + unat sz" and ?last = "addr + sz - 1"
  note r = range_in_table [OF assms(1,2)]
  have z: "unat (m_address_space_end t) < 2 ^ 64" using unsigned_less [of "m_address_space_end t"] by simp
  have wf: "tiled (unat (m_address_space_start t)) (table_tree t) (unat (m_address_space_end t))"
    using assms(1) unfolding table_ok_def well_formed_def by metis
  have az: "unat addr < unat (m_address_space_end t)" using r(1,2) by simp
  obtain before b rest where f: "FindIterator addr (table_tree t) = (before, b # rest)" "table_tree t = before @ b # rest"
    "tiled (unat (m_address_space_start t)) before (lo b)" "lo b \<le> unat addr" "unat addr < hi b"
    "tiled (lo b) (b # rest) (unat (m_address_space_end t))"
    using FindIterator_tiled [OF wf z r(3) az] by blast
  define v0 where "v0 = properties b"
  have p0: "table_pages t (unat addr) = Some v0"
    unfolding pages_def v0_def by (rule page_map_of [OF wf]) (use f in simp_all)
  have al: "unat addr < ?l" using r(2) by simp
  note loop = check_loop [OF f(6) z f(4,5) al r(1,4), of "same_as_first ig b" "page_same ig v0" c,
      unfolded v0_def, OF same_page, folded v0_def]
  have ra: "range_all P (table_pages t) (unat addr) ?l \<longleftrightarrow> range_all P (page_map (b # rest)) (unat addr) ?l" for P
    unfolding pages_def f(2) by (rule range_all_below [OF f(3,4)])
  have start: "(if AlignDown addr PageSize \<noteq> m_address b then n + 1 else n) = of_bool (cuts (table_tree t) (unat addr)) + n" for n :: nat
  proof -
    have "cuts (table_tree t) (unat addr) \<longleftrightarrow> lo b < unat addr"
      using f(2-6) cuts_below [OF f(3,4)] cuts_above [of "hi b" rest _ "unat addr"] by (auto simp: cuts_append cuts_Cons)
    moreover have "addr = m_address b \<longleftrightarrow> lo b = unat addr" unfolding lo_def using unsigned_word_eqI by metis
    ultimately show ?thesis using f(4) AlignDown_PageSize [OF assms(3)] by auto
  qed
  have fin: "(if AlignDown ?last PageSize + PageSize \<noteq> GetEndAddress e then 1 else 0) = of_bool (cuts (table_tree t) ?l)"
    if e: "e \<in> set (b # rest)" "lo e < ?l" "?l \<le> hi e" for e
  proof -
    have et: "e \<in> set (table_tree t)" using e(1) f(2) by auto
    have hz: "hi e < 2 ^ 64" using tiled_bounds [OF wf et] z by simp
    have "?l mod 4096 = 0" using assms(3,4) by (metis add_0 mod_add_eq mod_0)
    then have "unat (AlignDown ?last PageSize + PageSize) = ?l" using AlignDown_last [OF r(4)] r(1) z by simp
    moreover have "unat (GetEndAddress e) = hi e" using hz by (rule unat_GetEndAddress)
    ultimately have "AlignDown ?last PageSize + PageSize = GetEndAddress e \<longleftrightarrow> ?l = hi e"
      using unsigned_word_eqI by metis
    then show ?thesis using cuts_last [OF wf et e(2,3)] by simp
  qed
  have v0: "v0 = (m_memory_state b, m_permission b, m_original_permission b, m_attribute b, m_ipc_lock_count b, m_device_use_count b)"
    by (simp add: v0_def properties_def)
  show ?thesis
  proof (cases "range_all (\<lambda>v. page_same ig v0 v \<and> page_matches c v) (table_pages t) (unat addr) ?l")
    case True
    then obtain e where e: "e \<in> set (b # rest)" "lo e < ?l" "?l \<le> hi e"
      "CheckMemoryState_loop (same_as_first ig b) c ?last (b # rest) = Inr e"
      using loop ra by auto
    have "CheckMemoryState addr sz c ig t =
        Inr (m_memory_state b, m_permission b, m_attribute b AND NOT ig,
             blocks_needed (table_tree t) (unat addr) ?l)"
      using e(4) fin [OF e(1-3)] start f(1)
      by (simp add: CheckMemoryState_def CheckMemoryState_from_def blocks_needed_def Let_def del: CheckMemoryState_loop.simps)
    then show ?thesis using p0 True v0 by auto
  next
    case False
    then have "CheckMemoryState_loop (same_as_first ig b) c ?last (b # rest) = Inl (Failed kernel_result.ResultInvalidCurrentMemory)"
      using loop ra by (simp del: CheckMemoryState_loop.simps)
    then show ?thesis using p0 False f(1)
      by (simp add: CheckMemoryState_def CheckMemoryState_from_def Let_def del: CheckMemoryState_loop.simps)
  qed
qed

section \<open>Updates of a table\<close>

lemma on_range_agree:
  assumes "range_all (\<lambda>v. g v = h v) f c l"
  shows "on_range c l g f = on_range c l h f"
proof
  fix x
  show "on_range c l g f x = on_range c l h f x"
    using assms unfolding range_all_def on_range_def by (cases "f x") auto
qed

lemma on_range_idle:
  assumes "range_all (\<lambda>v. g v = v) f c l"
  shows "on_range c l g f = f"
proof
  fix x
  show "on_range c l g f x = f x"
    using assms unfolding range_all_def on_range_def by (cases "f x") auto
qed

text \<open>What an update keeps of the table besides its pages.\<close>

definition same_space :: "'g KPageTableBase \<Rightarrow> 'g KPageTableBase \<Rightarrow> bool" where
  "same_space t t' \<longleftrightarrow>
     m_address_space_start t' = m_address_space_start t \<and> m_address_space_end t' = m_address_space_end t \<and>
     m_impl t' = m_impl t"

text \<open>The first block of a range that starts inside of the first block of the tree holds the page at its start.\<close>

lemma steps_back_page:
  assumes "table_ok t" "Contains addr sz t" "steps_back needs (m_memory_block_manager t) addr n" "n \<noteq> 0"
  shows "\<exists>b. table_pages t (unat addr) = Some (properties b) \<and> \<not> needs b"
proof -
  obtain b rest where b: "table_tree t = b # rest" "unat addr < hi b" "\<not> needs b"
    using assms(3,4) by (auto simp: steps_back_def split: list.splits)
  have "lo b = unat (m_address_space_start t)"
    using assms(1) b(1) unfolding table_ok_def well_formed_def by (metis tiled.simps(2))
  then show ?thesis
    using range_in_table(3) [OF assms(1,2)] b by (auto simp: pages_def)
qed

lemma update_table:
  assumes "table_ok t" "Contains addr sz t" "unat addr mod 4096 = 0" "unat sz mod 4096 = 0"
    "updates_pages (m_memory_block_manager t) addr (sz div PageSize) effect (f (m_memory_block_manager t))"
    "m_memory_block_manager t1 = m_memory_block_manager t" "same_space t t1"
  shows "\<exists>t'. update_blocks f t1 = Inr t' \<and> table_ok t' \<and> same_space t t' \<and>
     m_memory_block_slab t1 \<le> m_memory_block_slab t' \<and> m_block_infos t' = m_block_infos t1 \<and>
     table_pages t' = on_range (unat addr) (unat addr + unat sz) effect (table_pages t)"
  using assms range_pages [OF assms(4)]
  by (auto simp: updates_pages_def update_blocks_def table_ok_def same_space_def split: sum.splits)

lemma Operate_fields:
  "m_memory_block_manager (Operate_ChangePermissions a n p t) = m_memory_block_manager t"
  "same_space u (Operate_ChangePermissions a n p t) = same_space u t"
  "m_memory_block_slab (Operate_ChangePermissions a n p t) = m_memory_block_slab t"
  "m_block_infos (Operate_ChangePermissions a n p t) = m_block_infos t"
  by (simp_all add: Operate_ChangePermissions_def same_space_def)

lemma blocks_le_two: "blocks_needed bs c l \<le> 2"
  by (simp add: blocks_needed_def)

text \<open>An update with the number of blocks the check has counted.\<close>

lemma checked_update:
  assumes "table_ok t" "Contains addr sz t" "unat addr mod 4096 = 0" "unat sz mod 4096 = 0"
    "2 \<le> m_memory_block_slab t" "n = blocks_needed (table_tree t) (unat addr) (unat addr + unat sz)"
    "\<And>k. blocks_needed (table_tree t) (unat addr) (unat addr + 4096 * unat (sz div PageSize)) \<le> k \<Longrightarrow> k \<le> MaxBlocks \<Longrightarrow>
       updates_pages (m_memory_block_manager t) addr (sz div PageSize) effect
         (upd (UpdateAllocator_ctor k) (m_memory_block_manager t))"
    "\<And>u. m_memory_block_manager (g u) = m_memory_block_manager u \<and> (same_space t u \<longrightarrow> same_space t (g u)) \<and>
       m_memory_block_slab (g u) = m_memory_block_slab u \<and> m_block_infos (g u) = m_block_infos u"
  shows "\<exists>t'. R_TRY (new_allocator n t) (\<lambda>(al, t1). update_blocks (upd al) (g t1)) = Inr t' \<and>
     table_ok t' \<and> same_space t t' \<and> m_memory_block_slab t \<le> m_memory_block_slab t' + 2 \<and>
     m_block_infos t' = m_block_infos t \<and>
     table_pages t' = on_range (unat addr) (unat addr + unat sz) effect (table_pages t)"
proof -
  let ?t1 = "t\<lparr> m_memory_block_slab := m_memory_block_slab t - n \<rparr>"
  have n: "n \<le> 2" using assms(6) blocks_le_two by simp
  have a: "new_allocator n t = Inr (UpdateAllocator_ctor n, ?t1)" using n assms(5) by (simp add: new_allocator_def)
  have u: "updates_pages (m_memory_block_manager t) addr (sz div PageSize) effect
      (upd (UpdateAllocator_ctor n) (m_memory_block_manager t))"
    using assms(6) n range_pages [OF assms(4)] by (intro assms(7)) (simp_all add: MaxBlocks_def)
  have g: "m_memory_block_manager (g ?t1) = m_memory_block_manager t" "same_space t (g ?t1)"
    "m_memory_block_slab (g ?t1) = m_memory_block_slab t - n" "m_block_infos (g ?t1) = m_block_infos t"
    using assms(8) [of ?t1] by (simp_all add: same_space_def)
  show ?thesis
    using update_table [where f = "upd (UpdateAllocator_ctor n)", OF assms(1-4) u g(1,2)] a g(3,4) n by (auto simp: R_TRY_def)
qed

text \<open>Setting state, permission and attributes of a range whose first page does not have them yet.\<close>

lemma set_range:
  assumes "table_ok t" "Contains addr sz t" "unat addr mod 4096 = 0" "unat sz mod 4096 = 0"
    "2 \<le> m_memory_block_slab t" "n = blocks_needed (table_tree t) (unat addr) (unat addr + unat sz)"
    "table_pages t (unat addr) = Some v0" "\<not> has_properties s p a v0" "a AND (Attr_IpcLocked OR Attr_DeviceShared) = Attr_None"
    "\<And>u. m_memory_block_manager (g u) = m_memory_block_manager u \<and> (same_space t u \<longrightarrow> same_space t (g u)) \<and>
       m_memory_block_slab (g u) = m_memory_block_slab u \<and> m_block_infos (g u) = m_block_infos u"
  shows "\<exists>t'. R_TRY (new_allocator n t)
       (\<lambda>(al, t1). update_blocks (Manager_Update al addr (sz div PageSize) s p a sm cm) (g t1)) = Inr t' \<and>
     table_ok t' \<and> same_space t t' \<and> m_memory_block_slab t \<le> m_memory_block_slab t' + 2 \<and>
     m_block_infos t' = m_block_infos t \<and>
     table_pages t' = on_range (unat addr) (unat addr + unat sz) (update_effect s p a) (table_pages t)"
proof -
  let ?n = "sz div PageSize" and ?m = "m_memory_block_manager t"
  have wf: "well_formed ?m" using assms(1) by (simp add: table_ok_def)
  have sb: "\<not> steps_back (\<lambda>b. \<not> HasProperties s p a b) ?m addr ?n"
  proof
    assume "steps_back (\<lambda>b. \<not> HasProperties s p a b) ?m addr ?n"
    then obtain b where "table_pages t (unat addr) = Some (properties b)" "HasProperties s p a b"
      using steps_back_page [OF assms(1,2)] in_space_range(2) [OF assms(1-4)] by blast
    then show False using assms(7,8) by (simp add: HasProperties_iff)
  qed
  have upd: "updates_pages ?m addr ?n (update_effect s p a) (Manager_Update (UpdateAllocator_ctor k) addr ?n s p a sm cm ?m)"
    if "blocks_needed (table_tree t) (unat addr) (unat addr + 4096 * unat ?n) \<le> k" "k \<le> MaxBlocks" for k
    using setting.update_range_pages [OF wf in_space_range(1) [OF assms(1-4)] sb that]
    unfolding Manager_Update_def Update_pages [OF assms(9)] .
  from checked_update [OF assms(1-6), of "update_effect s p a" "\<lambda>al. Manager_Update al addr ?n s p a sm cm" g, OF upd assms(10)]
  show ?thesis .
qed

section \<open>Permissions\<close>

text \<open>The pages of a range that a program may give another permission: one state, one permission, no attribute.\<close>

fun reprotectable :: "u32 \<Rightarrow> u8 \<Rightarrow> page_properties \<Rightarrow> bool" where
  "reprotectable st0 pm0 (st, pm, og, at, ic, dc) \<longleftrightarrow>
     st = st0 \<and> pm = pm0 \<and> at = 0 \<and> st AND State_FlagCanReprotect = State_FlagCanReprotect"

fun set_permission :: "u8 \<Rightarrow> page_properties \<Rightarrow> page_properties" where
  "set_permission p (st, pm, og, at, ic, dc) = (st, p, og, at, ic, dc)"

abbreviation permission_masks :: check_masks where
  "permission_masks \<equiv> \<lparr> state_mask = State_FlagCanReprotect, want_state = State_FlagCanReprotect, perm_mask = Perm_None,
     want_perm = Perm_None, attr_mask = Attr_All, want_attr = Attr_None \<rparr>"

lemma Attr_All_neutral: "x AND Attr_All = x"
proof -
  have "Attr_All = -1" by (simp add: Attr_All_def)
  show ?thesis unfolding \<open>Attr_All = -1\<close> by simp
qed

lemma reprotectable_checked:
  assumes "v0 = (st0, pm0, og0, at0, ic0, dc0)" "page_matches permission_masks v0"
  shows "page_same DefaultMemoryIgnoreAttr v0 v \<and> page_matches permission_masks v \<longleftrightarrow> reprotectable st0 pm0 v"
proof -
  show ?thesis using assms by (cases v) (auto simp: Attr_All_neutral Attr_None_def Perm_None_def)
qed

lemma range_all_cong: "(\<And>v. P v = Q v) \<Longrightarrow> range_all P f c l = range_all Q f c l"
  by (simp add: range_all_def)

lemma range_all_first:
  "range_all P f c l \<Longrightarrow> c < l \<Longrightarrow> f c = Some v \<Longrightarrow> P v"
  unfolding range_all_def by blast

lemma range_all_mono: "range_all P f c l \<Longrightarrow> (\<And>v. P v \<Longrightarrow> Q v) \<Longrightarrow> range_all Q f c l"
  unfolding range_all_def by blast

text \<open>A check in terms of the pages it lets through, given the first one.\<close>

lemma checked_pages:
  assumes "table_ok t" "Contains addr sz t" "unat addr mod 4096 = 0" "unat sz mod 4096 = 0"
    "table_pages t (unat addr) = Some v0" "v0 = (st0, pm0, og0, at0, ic0, dc0)"
    "page_matches c v0 \<Longrightarrow> \<forall>v. page_same ig v0 v \<and> page_matches c v \<longleftrightarrow> Q v" "\<not> page_matches c v0 \<Longrightarrow> \<not> Q v0"
  shows "CheckMemoryState addr sz c ig t =
     (if range_all Q (table_pages t) (unat addr) (unat addr + unat sz)
      then Inr (st0, pm0, at0 AND NOT ig, blocks_needed (table_tree t) (unat addr) (unat addr + unat sz))
      else Inl (Failed kernel_result.ResultInvalidCurrentMemory))"
proof -
  let ?P = "\<lambda>v. page_same ig v0 v \<and> page_matches c v"
  have l: "unat addr < unat addr + unat sz" using range_in_table(2) [OF assms(1,2)] by simp
  have eq: "range_all ?P (table_pages t) (unat addr) (unat addr + unat sz) \<longleftrightarrow>
      range_all Q (table_pages t) (unat addr) (unat addr + unat sz)"
  proof (cases "page_matches c v0")
    case True
    then show ?thesis using assms(7) by (intro range_all_cong) blast
  next
    case False
    then show ?thesis
      using range_all_first [of ?P "table_pages t" "unat addr" "unat addr + unat sz" v0]
        range_all_first [of Q "table_pages t" "unat addr" "unat addr + unat sz" v0] l assms(5,8) by blast
  qed
  show ?thesis
    using check_memory_state [OF assms(1-4), of c ig] assms(5,6) unfolding eq [symmetric] by auto
qed

lemma permission_check:
  assumes "table_ok t" "Contains addr sz t" "unat addr mod 4096 = 0" "unat sz mod 4096 = 0"
    "table_pages t (unat addr) = Some (st0, pm0, og0, at0, ic0, dc0)"
  shows "CheckMemoryState addr sz permission_masks DefaultMemoryIgnoreAttr t =
     (if range_all (reprotectable st0 pm0) (table_pages t) (unat addr) (unat addr + unat sz)
      then Inr (st0, pm0, at0 AND NOT DefaultMemoryIgnoreAttr,
                blocks_needed (table_tree t) (unat addr) (unat addr + unat sz))
      else Inl (Failed kernel_result.ResultInvalidCurrentMemory))"
  by (rule checked_pages [OF assms refl])
    (use reprotectable_checked [OF refl] in blast, auto simp: Attr_None_def Perm_None_def)

lemma SetMemoryPermission_pages:
  assumes "table_ok t" "Contains addr sz t" "unat addr mod 4096 = 0" "unat sz mod 4096 = 0" "2 \<le> m_memory_block_slab t"
    "table_pages t (unat addr) = Some (st0, pm0, og0, at0, ic0, dc0)"
    "range_all (reprotectable st0 pm0) (table_pages t) (unat addr) (unat addr + unat sz)"
  shows "\<exists>t'. SetMemoryPermission addr sz perm t = Inr t' \<and> table_ok t' \<and>
     table_pages t' =
       on_range (unat addr) (unat addr + unat sz) (set_permission (ConvertToKMemoryPermission perm)) (table_pages t)"
proof -
  let ?p = "ConvertToKMemoryPermission perm" and ?n = "sz div PageSize" and ?m = "m_memory_block_manager t"
  have l: "unat addr < unat addr + unat sz" using range_in_table(2) [OF assms(1,2)] by simp
  note chk = permission_check [OF assms(1-4,6)]
  show ?thesis
  proof (cases "pm0 = ?p")
    case True
    have "range_all (\<lambda>v. set_permission ?p v = v) (table_pages t) (unat addr) (unat addr + unat sz)"
      by (rule range_all_mono [OF assms(7)]) (use True in auto)
    from on_range_idle [OF this] show ?thesis
      using chk assms(1,7) True by (simp add: SetMemoryPermission_def R_TRY_def)
  next
    case False
    have n: "\<not> has_properties st0 ?p Attr_None (st0, pm0, og0, at0, ic0, dc0)" using False by simp
    have none: "Attr_None AND (Attr_IpcLocked OR Attr_DeviceShared) = Attr_None" by (simp add: Attr_None_def)
    obtain t' where t': "R_TRY (new_allocator (blocks_needed (table_tree t) (unat addr) (unat addr + unat sz)) t)
        (\<lambda>(al, t1). update_blocks (Manager_Update al addr ?n st0 ?p Attr_None Merge_None Merge_None)
          (Operate_ChangePermissions addr ?n ?p t1)) = Inr t'" "table_ok t'"
      "table_pages t' = on_range (unat addr) (unat addr + unat sz) (update_effect st0 ?p Attr_None) (table_pages t)"
      using set_range [OF assms(1-5) refl assms(6) n none, of "Operate_ChangePermissions addr ?n ?p"] by (auto simp: Operate_fields)
    have "range_all (\<lambda>v. update_effect st0 ?p Attr_None v = set_permission ?p v) (table_pages t) (unat addr) (unat addr + unat sz)"
      by (rule range_all_mono [OF assms(7)]) (auto simp: Attr_None_def)
    from on_range_agree [OF this] show ?thesis
      using t' chk assms(7) False by (simp add: SetMemoryPermission_def R_TRY_def)
  qed
qed

section \<open>Attributes\<close>

text \<open>
  The pages whose attributes a program may change: one state with the rights the mask asks for, one
  permission, and no attribute besides the two that can be set and the one of device memory.
\<close>

fun attributable :: "u32 \<Rightarrow> u32 \<Rightarrow> u8 \<Rightarrow> page_properties \<Rightarrow> bool" where
  "attributable rights st0 pm0 (st, pm, og, at, ic, dc) \<longleftrightarrow>
     st = st0 \<and> pm = pm0 \<and> at AND NOT (Attr_SetMask OR Attr_DeviceShared) = 0 \<and> st AND rights = rights"

definition attribute_rights :: "u8 \<Rightarrow> u32" where
  "attribute_rights mask' =
     (if mask' AND Attr_Uncached \<noteq> 0 then State_FlagCanChangeAttribute else State_None) OR
     (if mask' AND Attr_PermissionLocked \<noteq> 0 then State_FlagCanPermissionLock else State_None)"

abbreviation attribute_masks :: "u8 \<Rightarrow> check_masks" where
  "attribute_masks mask' \<equiv> \<lparr> state_mask = attribute_rights mask', want_state = attribute_rights mask',
     perm_mask = Perm_None, want_perm = Perm_None, attr_mask = NOT (Attr_SetMask OR Attr_DeviceShared), want_attr = Attr_None \<rparr>"

lemma masked_away:
  fixes x y m :: u8
  assumes "x AND NOT m = 0" "y AND NOT m = 0"
  shows "x OR m = y OR m"
proof (rule bit_word_eqI)
  fix n
  assume "n < LENGTH(8)"
  moreover have "\<not> bit (x AND NOT m) n" "\<not> bit (y AND NOT m) n" using assms by simp_all
  ultimately show "bit (x OR m) n = bit (y OR m) n" by (auto simp: bit_simps)
qed

lemma attribute_check:
  assumes "table_ok t" "Contains addr sz t" "unat addr mod 4096 = 0" "unat sz mod 4096 = 0"
    "table_pages t (unat addr) = Some (st0, pm0, og0, at0, ic0, dc0)"
  shows "CheckMemoryState addr sz (attribute_masks mask') (Attr_SetMask OR Attr_DeviceShared) t =
     (if range_all (attributable (attribute_rights mask') st0 pm0) (table_pages t) (unat addr) (unat addr + unat sz)
      then Inr (st0, pm0, at0 AND NOT (Attr_SetMask OR Attr_DeviceShared),
                blocks_needed (table_tree t) (unat addr) (unat addr + unat sz))
      else Inl (Failed kernel_result.ResultInvalidCurrentMemory))"
proof (rule checked_pages [OF assms refl])
  let ?c = "attribute_masks mask'" and ?v0 = "(st0, pm0, og0, at0, ic0, dc0)"
  assume "page_matches ?c ?v0"
  then have m: "at0 AND NOT (Attr_SetMask OR Attr_DeviceShared) = 0"
    by (simp only: page_matches.simps check_masks.select_convs Attr_None_def)
  show "\<forall>v. page_same (Attr_SetMask OR Attr_DeviceShared) ?v0 v \<and> page_matches ?c v \<longleftrightarrow>
      attributable (attribute_rights mask') st0 pm0 v"
  proof
    fix v :: page_properties
    obtain st pm og and at :: u8 and ic dc where v: "v = (st, pm, og, at, ic, dc)" by (cases v)
    have "at AND NOT (Attr_SetMask OR Attr_DeviceShared) = 0 \<Longrightarrow>
        at OR (Attr_SetMask OR Attr_DeviceShared) = at0 OR (Attr_SetMask OR Attr_DeviceShared)"
      using m by (rule masked_away [rotated])
    then show "page_same (Attr_SetMask OR Attr_DeviceShared) ?v0 v \<and> page_matches ?c v \<longleftrightarrow>
        attributable (attribute_rights mask') st0 pm0 v"
      unfolding v by (auto simp: Attr_None_def Perm_None_def)
  qed
qed (auto simp: Attr_None_def Perm_None_def)

text \<open>The block manager's update succeeds, or steps back from the first block.\<close>

lemma attribute_update:
  assumes "table_ok t" "Contains addr sz t" "unat addr mod 4096 = 0" "unat sz mod 4096 = 0" "2 \<le> m_memory_block_slab t"
    "n = blocks_needed (table_tree t) (unat addr) (unat addr + unat sz)"
    "\<And>u. m_memory_block_manager (g u) = m_memory_block_manager u \<and> (same_space t u \<longrightarrow> same_space t (g u)) \<and>
       m_memory_block_slab (g u) = m_memory_block_slab u \<and> m_block_infos (g u) = m_block_infos u"
    "r = R_TRY (new_allocator n t)
       (\<lambda>(al, t1). update_blocks (Manager_UpdateAttribute al addr (sz div PageSize) mask' attr) (g t1))"
  shows "if steps_back (\<lambda>b. m_attribute b AND mask' \<noteq> attr) (m_memory_block_manager t) addr (sz div PageSize)
     then r = Inl (Crashed BeforeBegin)
     else \<exists>t'. r = Inr t' \<and> table_ok t' \<and>
       table_pages t' = on_range (unat addr) (unat addr + unat sz) (attribute_effect mask' attr) (table_pages t)"
proof -
  let ?n = "sz div PageSize" and ?m = "m_memory_block_manager t"
  have wf: "well_formed ?m" using assms(1) by (simp add: table_ok_def)
  note sp = in_space_range(1) [OF assms(1-4)]
  show ?thesis
  proof (cases "steps_back (\<lambda>b. m_attribute b AND mask' \<noteq> attr) ?m addr ?n")
    case True
    have n: "n \<le> 2" using assms(6) blocks_le_two by simp
    have "m_index (UpdateAllocator_ctor n) + blocks_needed (table_tree t) (unat addr) (unat addr + 4096 * unat ?n) \<le> 2"
      using n range_pages [OF assms(4)] assms(6) by (simp add: UpdateAllocator_ctor_def MaxBlocks_def)
    from attributing.update_range_steps_back [OF wf sp this True]
    have "Manager_UpdateAttribute (UpdateAllocator_ctor n) addr ?n mask' attr ?m = Inl BeforeBegin"
      by (simp add: Manager_UpdateAttribute_def)
    then show ?thesis
      using True n assms(5,7) by (simp add: assms(8) new_allocator_def R_TRY_def update_blocks_def)
  next
    case False
    have "updates_pages ?m addr ?n (attribute_effect mask' attr) (Manager_UpdateAttribute (UpdateAllocator_ctor k) addr ?n mask' attr ?m)"
      if "blocks_needed (table_tree t) (unat addr) (unat addr + 4096 * unat ?n) \<le> k" "k \<le> MaxBlocks" for k
      using attributing.update_range_pages [OF wf sp False that] by (simp add: Manager_UpdateAttribute_def)
    from checked_update [OF assms(1-6), of "attribute_effect mask' attr"
        "\<lambda>al. Manager_UpdateAttribute al addr ?n mask' attr" g, OF this assms(7)]
    show ?thesis using False unfolding assms(8) by auto
  qed
qed

lemma SetMemoryAttribute_outcome:
  assumes "table_ok t" "Contains addr sz t" "unat addr mod 4096 = 0" "unat sz mod 4096 = 0" "2 \<le> m_memory_block_slab t"
    "table_pages t (unat addr) = Some (st0, pm0, og0, at0, ic0, dc0)"
    "range_all (attributable (attribute_rights mask') st0 pm0) (table_pages t) (unat addr) (unat addr + unat sz)"
  shows "if steps_back (\<lambda>b. m_attribute b AND mask' \<noteq> attr) (m_memory_block_manager t) addr (sz div PageSize)
     then SetMemoryAttribute addr sz mask' attr t = Inl (Crashed BeforeBegin)
     else \<exists>t'. SetMemoryAttribute addr sz mask' attr t = Inr t' \<and> table_ok t' \<and>
       table_pages t' = on_range (unat addr) (unat addr + unat sz) (attribute_effect mask' attr) (table_pages t)"
proof -
  let ?g = "\<lambda>u. if mask' AND Attr_Uncached \<noteq> 0 then Operate_ChangePermissions addr (sz div PageSize) pm0 u else u"
  have g: "m_memory_block_manager (?g u) = m_memory_block_manager u \<and> (same_space t u \<longrightarrow> same_space t (?g u)) \<and>
      m_memory_block_slab (?g u) = m_memory_block_slab u \<and> m_block_infos (?g u) = m_block_infos u" for u
    by (simp add: Operate_fields)
  have "SetMemoryAttribute addr sz mask' attr t =
      R_TRY (new_allocator (blocks_needed (table_tree t) (unat addr) (unat addr + unat sz)) t)
        (\<lambda>(al, t1). update_blocks (Manager_UpdateAttribute al addr (sz div PageSize) mask' attr) (?g t1))"
    using attribute_check [OF assms(1-4,6), of mask'] assms(7)
    by (simp add: SetMemoryAttribute_def Let_def attribute_rights_def R_TRY_def)
  then show ?thesis using attribute_update [OF assms(1-5) refl, of ?g _ mask' attr, OF g refl] by simp
qed

end
