(* ===== verification/KPageGroupProofs.thy ===== *)
theory KPageGroupProofs
  imports KPageGroup KMemoryBlockViews
begin

text \<open>
  The group of a range and the test for it: a group that \<^verbatim>\<open>MakePageGroup\<close> has made passes
  \<^verbatim>\<open>IsValidPageGroup\<close> on the same range, as long as the page table does not change, and the fuel of
  the two loops is enough.
\<close>

unbundle bit_operations_syntax

section \<open>Backed page tables\<close>

text \<open>A page table whose physical addresses are aligned and small enough for the 32 bits of a page index.\<close>

definition backed :: "PageTable \<Rightarrow> bool" where
  "backed impl \<longleftrightarrow> page_size impl = PageSize \<and>
     (\<forall>p < length (backing_addr impl). backing_addr impl ! p \<noteq> 0 \<longrightarrow>
        unat (backing_addr impl ! p + of_nat p * PageSize) mod 4096 = 0 \<and>
        unat (backing_addr impl ! p + of_nat p * PageSize) + 4096 < 2 ^ 44)"

definition in_step :: "TraversalContext \<Rightarrow> bool" where
  "in_step ctx \<longleftrightarrow> next_offset ctx = next_page ctx * PageSize"

definition phys_page :: "u64 \<Rightarrow> bool" where
  "phys_page a \<longleftrightarrow> unat a mod 4096 = 0 \<and> unat a + 4096 < 2 ^ 44"

lemma traversal_step:
  assumes "backed impl" "in_step ctx" "ContinueTraversal impl ctx = (ok, e, ctx')"
  shows "block_size e = PageSize" "in_step ctx'" "ok \<Longrightarrow> phys_page (phys_addr e)"
proof -
  have size: "page_size impl = PageSize" using assms(1) by (simp add: backed_def)
  show "block_size e = PageSize"
    using assms(3) size by (auto simp: ContinueTraversal_def Let_def split: if_splits)
  have "ctx' = \<lparr> next_page = next_page ctx + 1, next_offset = next_offset ctx + PageSize \<rparr>"
    using assms(3) size by (auto simp: ContinueTraversal_def Let_def split: if_splits)
  then show "in_step ctx'" using assms(2) by (simp add: in_step_def distrib_right)
  assume ok: ok
  let ?p = "unat (next_page ctx)"
  have p: "?p < length (backing_addr impl)" "backing_addr impl ! ?p \<noteq> 0"
    "phys_addr e = backing_addr impl ! ?p + next_page ctx * PageSize"
    using assms(2,3) ok by (auto simp: ContinueTraversal_def Let_def in_step_def split: if_splits)
  have "phys_addr e = backing_addr impl ! ?p + of_nat ?p * PageSize" using p(3) by simp
  then show "phys_page (phys_addr e)"
    using assms(1) p(1,2) unfolding backed_def phys_page_def by metis
qed

section \<open>Runs of pages\<close>

definition run_ok :: "u64 \<Rightarrow> u64 \<Rightarrow> bool" where
  "run_ok ca cs \<longleftrightarrow> unat ca mod 4096 = 0 \<and> unat cs mod 4096 = 0 \<and> 0 < unat cs \<and> unat ca + unat cs < 2 ^ 44"

lemma run_page: "phys_page a \<Longrightarrow> run_ok a PageSize"
  by (simp add: phys_page_def run_ok_def PageSize_unat)

lemma run_extend:
  assumes "run_ok ca cs" "phys_page (ca + cs)"
  shows "run_ok ca (cs + PageSize)"
proof -
  have s: "unat (ca + cs) = unat ca + unat cs" using assms(1) by (intro unat_add_small) (simp add: run_ok_def)
  then have "unat (cs + PageSize) = unat cs + 4096"
    using assms unat_add_small [of cs PageSize] by (simp add: run_ok_def phys_page_def PageSize_unat)
  then show ?thesis using assms s by (simp add: run_ok_def phys_page_def)
qed

lemma run_block:
  assumes "run_ok ca cs"
  shows "BlockInfo_GetAddress (BlockInfo_Initialize ca (cs div PageSize)) = ca"
    "BlockInfo_GetNumPages (BlockInfo_Initialize ca (cs div PageSize)) = cs div PageSize"
    "BlockInfo_GetEndAddress (BlockInfo_Initialize ca (cs div PageSize)) = ca + cs"
    "cs div PageSize \<noteq> 0"
proof -
  obtain i n where i: "unat ca = 4096 * i" "unat cs = 4096 * n"
    using assms by (auto simp: run_ok_def mod_eq_0_iff_dvd dvd_def)
  have b: "0 < n" "i + n < 2 ^ 32" using assms i by (simp_all add: run_ok_def)
  have page: "unat (ca div PageSize) = i" "unat (cs div PageSize) = n"
    using i by (simp_all add: unat_div_PageSize)
  have cut: "unat (ucast w :: u32) = unat w" if "unat w < 2 ^ 32" for w :: u64
    using that by (simp add: unsigned_ucast_eq take_bit_nat_eq_self_iff)
  have wide: "unat (ucast w :: u64) = unat w" for w :: u32
    using unsigned_less [of w, where ?'a = nat] by (simp add: unsigned_ucast_eq take_bit_nat_eq_self_iff)
  have idx: "unat (ucast (ca div PageSize) :: u32) = i" "unat (ucast (cs div PageSize) :: u32) = n"
    using cut page b by simp_all
  have "unat (BlockInfo_GetAddress (BlockInfo_Initialize ca (cs div PageSize))) = unat ca"
    using unat_pages [of "ucast (ucast (ca div PageSize) :: u32)"] i b idx wide
    by (simp add: BlockInfo_GetAddress_def BlockInfo_Initialize_def)
  then show "BlockInfo_GetAddress (BlockInfo_Initialize ca (cs div PageSize)) = ca" by (rule unsigned_word_eqI)
  have "unat (BlockInfo_GetNumPages (BlockInfo_Initialize ca (cs div PageSize))) = unat (cs div PageSize)"
    using idx page wide by (simp add: BlockInfo_GetNumPages_def BlockInfo_Initialize_def)
  then show "BlockInfo_GetNumPages (BlockInfo_Initialize ca (cs div PageSize)) = cs div PageSize"
    by (rule unsigned_word_eqI)
  have "unat ((ucast (ca div PageSize) :: u32) + ucast (cs div PageSize)) = i + n"
    using idx b by (simp add: unat_word_ariths)
  then have "unat (BlockInfo_GetEndAddress (BlockInfo_Initialize ca (cs div PageSize))) = 4096 * (i + n)"
    using unat_pages [of "ucast ((ucast (ca div PageSize) :: u32) + ucast (cs div PageSize))"] b wide
    by (simp add: BlockInfo_GetEndAddress_def BlockInfo_Initialize_def)
  also have "\<dots> = unat (ca + cs)" using i b unat_add_small [of ca cs] by simp
  finally show "BlockInfo_GetEndAddress (BlockInfo_Initialize ca (cs div PageSize)) = ca + cs" by (rule unsigned_word_eqI)
  show "cs div PageSize \<noteq> 0" using page b by auto
qed

section \<open>Making a group and testing it\<close>

text \<open>The test depends on its position through the block it looks at next only.\<close>

definition at_blocks :: "KBlockInfo list \<Rightarrow> group_position option" where
  "at_blocks bs = UpdateCurrentIterator (bs, 0, 0)"

lemma at_blocks_simps:
  "UpdateCurrentIterator (bs, a, 0) = at_blocks bs"
  "at_blocks (b # bs) = Some (bs, BlockInfo_GetAddress b, BlockInfo_GetNumPages b)"
  "BlockInfo_GetNumPages b \<noteq> 0 \<Longrightarrow>
     UpdateCurrentIterator (bs, BlockInfo_GetAddress b, BlockInfo_GetNumPages b) = at_blocks (b # bs)"
  by (simp_all add: at_blocks_def UpdateCurrentIterator_def split: list.split)

definition fresh_run :: "u64 \<Rightarrow> KPageGroup \<Rightarrow> bool" where
  "fresh_run ca pg \<longleftrightarrow> pg = [] \<or> BlockInfo_GetEndAddress (last pg) \<noteq> ca"

lemma AddBlock_run:
  assumes "run_ok ca cs" "fresh_run ca pg" "AddBlock ca (cs div PageSize) av pg = Inr (pg1, av1)"
  shows "pg1 = pg @ [BlockInfo_Initialize ca (cs div PageSize)]"
  using assms run_block(4) [OF assms(1)]
  by (auto simp: AddBlock_def fresh_run_def TryConcatenate_def split: if_splits)

lemma total_step:
  assumes "unat tot mod 4096 = 0" "unat sz mod 4096 = 0" "tot < sz"
  shows "unat (tot + PageSize) = unat tot + 4096" "unat tot + 4096 \<le> unat sz" "unat (tot + PageSize) mod 4096 = 0"
proof -
  obtain i j where i: "unat tot = 4096 * i" "unat sz = 4096 * j" using assms(1,2) by (auto simp: mod_eq_0_iff_dvd dvd_def)
  then show le: "unat tot + 4096 \<le> unat sz" using assms(3) by (simp add: word_less_nat_alt)
  then show e: "unat (tot + PageSize) = unat tot + 4096"
    using unat_add_small [of tot PageSize] unsigned_less [of sz, where ?'a = nat] by (simp add: PageSize_unat)
  show "unat (tot + PageSize) mod 4096 = 0" using e assms(1) by simp
qed

lemma make_then_test:
  assumes "backed impl" "unat sz mod 4096 = 0"
    "in_step ctx" "run_ok ca cs" "unat tot mod 4096 = 0" "unat tot \<le> unat sz" "fresh_run ca pg"
    "MakePageGroup_loop fuel impl is_heap sz ctx ca cs tot pg av = Inr (ca', cs', tot', pg', av')"
  shows "\<exists>bs. pg' = pg @ bs \<and> run_ok ca' cs' \<and> fresh_run ca' pg' \<and> tot' = sz \<and>
     (\<forall>b\<in>set bs. BlockInfo_GetNumPages b \<noteq> 0) \<and>
     (\<forall>more pos. UpdateCurrentIterator pos = at_blocks (bs @ more) \<longrightarrow>
        (\<exists>pos'. IsValidPageGroup_loop fuel impl is_heap sz ctx ca cs tot pos = Some (ca', cs', tot', pos') \<and>
                UpdateCurrentIterator pos' = at_blocks more))"
  using assms(3-8)
proof (induction fuel arbitrary: ctx ca cs tot pg av)
  case (Suc fuel)
  show ?case
  proof (cases "tot < sz")
    case False
    then have "tot = sz" using Suc.prems(4) by (simp add: word_less_nat_alt unsigned_word_eqI)
    then show ?thesis using False Suc.prems by (intro exI [of _ "[]"]) auto
  next
    case True
    obtain ok e ctx1 where c: "ContinueTraversal impl ctx = (ok, e, ctx1)" by (cases "ContinueTraversal impl ctx")
    have ok: ok using Suc.prems(6) True c by (auto split: if_splits)
    note st = traversal_step [OF assms(1) Suc.prems(1) c] and tt = total_step [OF Suc.prems(3) assms(2) True]
    show ?thesis
    proof (cases "phys_addr e = ca + cs")
      case ext: True
      have "MakePageGroup_loop fuel impl is_heap sz ctx1 ca (cs + PageSize) (tot + PageSize) pg av = Inr (ca', cs', tot', pg', av')"
        using Suc.prems(6) True c ok st(1) ext by simp
      from Suc.IH [OF st(2) run_extend [OF Suc.prems(2)] tt(3) _ Suc.prems(5) this]
      show ?thesis using st tt ok ext True c by simp
    next
      case new: False
      obtain pg1 av1 where a: "AddBlock ca (cs div PageSize) av pg = Inr (pg1, av1)" and h: "is_heap ca"
        and m: "MakePageGroup_loop fuel impl is_heap sz ctx1 (phys_addr e) PageSize (tot + PageSize) pg1 av1 =
          Inr (ca', cs', tot', pg', av')"
        using Suc.prems(6) True c ok st(1) new by (auto split: sum.splits if_splits)
      let ?b = "BlockInfo_Initialize ca (cs div PageSize)"
      note rb = run_block [OF Suc.prems(2)] and pg1 = AddBlock_run [OF Suc.prems(2,5) a]
      have "fresh_run (phys_addr e) pg1" using pg1 rb(3) new by (simp add: fresh_run_def)
      from Suc.IH [OF st(2) run_page [OF st(3) [OF ok]] tt(3) _ this m] tt
      obtain bs where bs: "pg' = pg1 @ bs" "run_ok ca' cs'" "fresh_run ca' pg'" "tot' = sz"
        "\<And>b. b \<in> set bs \<Longrightarrow> BlockInfo_GetNumPages b \<noteq> 0"
        "\<And>more pos. UpdateCurrentIterator pos = at_blocks (bs @ more) \<Longrightarrow>
          \<exists>pos'. IsValidPageGroup_loop fuel impl is_heap sz ctx1 (phys_addr e) PageSize (tot + PageSize) pos =
             Some (ca', cs', tot', pos') \<and> UpdateCurrentIterator pos' = at_blocks more"
        by auto
      have "\<exists>pos'. IsValidPageGroup_loop (Suc fuel) impl is_heap sz ctx ca cs tot pos = Some (ca', cs', tot', pos') \<and>
          UpdateCurrentIterator pos' = at_blocks more"
        if "UpdateCurrentIterator pos = at_blocks ((?b # bs) @ more)" for more pos
        using bs(6) [of "(bs @ more, ca + cs, 0)" more] that True c ok st(1) new h rb by (simp add: at_blocks_simps)
      then show ?thesis using bs(1-5) pg1 rb(2,4) by (intro exI [of _ "?b # bs"]) auto
    qed
  qed
qed simp

lemma map_sum_Inr_iff: "map_sum f id r = Inr x \<longleftrightarrow> r = Inr x"
  by (cases r) simp_all

text \<open>The first page of a range.\<close>

lemma first_entry:
  assumes "backed impl" "unat addr mod 4096 = 0" "BeginTraversal impl addr = (ok, e, ctx)"
  shows "in_step ctx" "ok \<Longrightarrow> run_ok (phys_addr e) PageSize"
    "ok \<Longrightarrow> block_size e - (phys_addr e AND (block_size e - 1)) = PageSize"
proof -
  have "unat (addr div PageSize * PageSize) = unat addr"
    using assms(2) unsigned_less [of addr, where ?'a = nat] unat_pages [of "addr div PageSize"]
    by (simp add: unat_div_PageSize mod_eq_0_iff_dvd)
  then have "addr div PageSize * PageSize = addr" by (rule unsigned_word_eqI)
  then have i: "in_step \<lparr> next_page = addr div page_size impl, next_offset = addr \<rparr>"
    using assms(1) by (simp add: in_step_def backed_def)
  note st = traversal_step [OF assms(1) i assms(3) [unfolded BeginTraversal_def]]
  show "in_step ctx" by (rule st(2))
  assume ok: ok
  show "run_ok (phys_addr e) PageSize" using run_page [OF st(3) [OF ok]] .
  have "phys_addr e AND (PageSize - 1) = phys_addr e AND mask 12" by (simp add: PageSize_def mask_eq_exp_minus_1 push_bit_eq_mult)
  also have "\<dots> = phys_addr e mod 4096" by (simp add: take_bit_eq_mask [symmetric] take_bit_eq_mod)
  also have "\<dots> = 0" using st(3) [OF ok] by (simp add: phys_page_def unat_mod flip: unat_eq_0)
  finally show "block_size e - (phys_addr e AND (block_size e - 1)) = PageSize" by (simp add: st(1))
qed

lemma made_group_valid:
  assumes "backed impl" "unat addr mod 4096 = 0" "npages \<noteq> 0" "4096 * unat npages < 2 ^ 64"
    "MakePageGroup impl is_heap [] addr npages av = Inr (pg, av')"
  shows "IsValidPageGroup impl is_heap pg addr npages"
proof -
  let ?sz = "npages * PageSize"
  have sz: "unat ?sz = 4096 * unat npages" using unat_pages [OF assms(4)] .
  obtain ok e ctx where b: "BeginTraversal impl addr = (ok, e, ctx)" by (cases "BeginTraversal impl addr")
  have ok: ok using assms(5) b by (auto simp: MakePageGroup_def Let_def split: if_splits)
  note fe = first_entry [OF assms(1,2) b] and size = first_entry(3) [OF assms(1,2) b ok]
  obtain ca cs tot pg1 av1 where m:
    "MakePageGroup_loop (unat npages + 1) impl is_heap ?sz ctx (phys_addr e) PageSize PageSize [] av =
       Inr (ca, cs, tot, pg1, av1)"
    "is_heap ca" "AddBlock ca ((if tot > ?sz then cs - (tot - ?sz) else cs) div PageSize) av1 pg1 = Inr (pg, av')"
    using assms(5) ok unfolding MakePageGroup_def Let_def b prod.case size
    by (auto simp: map_sum_Inr_iff simp del: MakePageGroup_loop.simps split: if_splits sum.splits)
  have "0 < unat npages" using assms(3) by (simp add: unat_gt_0)
  then have le: "unat PageSize \<le> unat ?sz" using sz by (simp add: PageSize_unat)
  have pre: "unat ?sz mod 4096 = 0" "unat PageSize mod 4096 = 0" "fresh_run (phys_addr e) []"
    using sz by (simp_all add: PageSize_unat fresh_run_def)
  obtain bs where bs: "pg1 = [] @ bs" "run_ok ca cs" "fresh_run ca pg1" "tot = ?sz"
    "\<forall>b\<in>set bs. BlockInfo_GetNumPages b \<noteq> 0"
    "\<forall>more pos. UpdateCurrentIterator pos = at_blocks (bs @ more) \<longrightarrow>
       (\<exists>pos'. IsValidPageGroup_loop (unat npages + 1) impl is_heap ?sz ctx (phys_addr e) PageSize PageSize pos =
         Some (ca, cs, tot, pos') \<and> UpdateCurrentIterator pos' = at_blocks more)"
    using make_then_test [OF assms(1) pre(1) fe(1) fe(2) [OF ok] pre(2) le pre(3) m(1)] by (elim exE conjE)
  let ?l = "BlockInfo_Initialize ca (cs div PageSize)"
  have pg: "pg = pg1 @ [?l]" using AddBlock_run [OF bs(2,3)] m(3) bs(4) by simp
  have ne: "pg = hd pg # tl pg" using pg by simp
  have at: "UpdateCurrentIterator (tl pg, BlockInfo_GetAddress (hd pg), BlockInfo_GetNumPages (hd pg)) = at_blocks (bs @ [?l])"
  proof -
    have "hd pg \<in> set bs \<union> {?l}" using pg bs(1) by (cases bs) simp_all
    then have "BlockInfo_GetNumPages (hd pg) \<noteq> 0" using bs(5) run_block(2,4) [OF bs(2)] by auto
    from at_blocks_simps(3) [OF this, of "tl pg"] show ?thesis using ne pg bs(1) by simp
  qed
  obtain pos where pos:
    "IsValidPageGroup_loop (unat npages + 1) impl is_heap ?sz ctx (phys_addr e) PageSize PageSize
       (tl pg, BlockInfo_GetAddress (hd pg), BlockInfo_GetNumPages (hd pg)) = Some (ca, cs, tot, pos)"
    "UpdateCurrentIterator pos = at_blocks [?l]"
    using bs(6) at by meson
  show ?thesis
    unfolding IsValidPageGroup_def Let_def b prod.case size
    by (subst ne) (simp add: ok pos(1) [simplified Suc_eq_plus1 [symmetric]] pos(2) m(2) bs(4) at_blocks_simps run_block [OF bs(2)] del: IsValidPageGroup_loop.simps)
qed

section \<open>Fuel\<close>

text \<open>One turn per page of the range and one more is enough for both loops: more fuel changes nothing.\<close>

lemma fuel_step:
  assumes "backed impl" "unat sz mod 4096 = 0" "in_step ctx" "unat tot mod 4096 = 0"
    "unat sz < unat tot + 4096 * Suc fuel" "tot < sz" "ContinueTraversal impl ctx = (ok, e, ctx1)"
  shows "block_size e = PageSize" "in_step ctx1" "unat (tot + PageSize) mod 4096 = 0" "unat (tot + PageSize) \<le> unat sz"
    "unat sz < unat (tot + PageSize) + 4096 * fuel"
  using traversal_step [OF assms(1,3,7)] total_step [OF assms(4,2,6)] assms(5) by simp_all

lemma group_loops_fuel:
  assumes "backed impl" "unat sz mod 4096 = 0"
    "in_step ctx" "unat tot mod 4096 = 0" "unat tot \<le> unat sz" "unat sz < unat tot + 4096 * fuel"
  shows "MakePageGroup_loop (fuel + k) impl is_heap sz ctx ca cs tot pg av =
      MakePageGroup_loop fuel impl is_heap sz ctx ca cs tot pg av"
    "IsValidPageGroup_loop (fuel + k) impl is_heap sz ctx ca cs tot pos =
      IsValidPageGroup_loop fuel impl is_heap sz ctx ca cs tot pos"
    "MakePageGroup_loop fuel impl is_heap sz ctx ca cs tot pg av \<noteq> Inl (Crashed OutOfFuel, pg')"
  using assms(3-6)
proof (induction fuel arbitrary: ctx ca cs tot pg av pos)
  case (Suc fuel)
  {
    case 1
    obtain ok e ctx1 where c: "ContinueTraversal impl ctx = (ok, e, ctx1)" by (cases "ContinueTraversal impl ctx")
    show ?case
      using fuel_step [OF assms(1,2) 1(1,2,4) _ c] Suc.IH(1) [of ctx1 "tot + PageSize"]
      by (cases "tot < sz") (simp_all add: c split: sum.split)
  next
    case 2
    obtain ok e ctx1 where c: "ContinueTraversal impl ctx = (ok, e, ctx1)" by (cases "ContinueTraversal impl ctx")
    show ?case
      using fuel_step [OF assms(1,2) 2(1,2,4) _ c] Suc.IH(2) [of ctx1 "tot + PageSize"]
      by (cases "tot < sz") (simp_all add: c Let_def split: option.split)
  next
    case 3
    obtain ok e ctx1 where c: "ContinueTraversal impl ctx = (ok, e, ctx1)" by (cases "ContinueTraversal impl ctx")
    show ?case
      using fuel_step [OF assms(1,2) 3(1,2,4) _ c] Suc.IH(3) [of ctx1 "tot + PageSize"]
      by (cases "tot < sz") (auto simp: c AddBlock_def split: sum.split if_splits)
  }
qed simp_all

end
