(* ===== verification/KPageTableLocks.thy ===== *)
theory KPageTableLocks
  imports KPageTableProofs KPageGroupProofs
begin

text \<open>
  Locking a range of memory for transfer, for code memory or as an IPC user buffer, and
  unlocking it with the page group that the lock returned.
\<close>

unbundle bit_operations_syntax

text \<open>The pages that can be locked: one state with the flags, read-write for the program, no attribute.\<close>

fun lockable :: "u32 \<Rightarrow> u32 \<Rightarrow> page_properties \<Rightarrow> bool" where
  "lockable flag st0 (st, pm, og, at, ic, dc) \<longleftrightarrow>
     st = st0 \<and> st AND (flag OR State_FlagReferenceCounted) = flag OR State_FlagReferenceCounted \<and>
     pm = Perm_UserReadWrite \<and> at = 0"

text \<open>The pages that can be unlocked.\<close>

fun locked_page :: "u32 \<Rightarrow> u32 \<Rightarrow> u8 \<Rightarrow> page_properties \<Rightarrow> bool" where
  "locked_page flag st0 p (st, pm, og, at, ic, dc) \<longleftrightarrow>
     st = st0 \<and> st AND (flag OR State_FlagReferenceCounted) = flag OR State_FlagReferenceCounted \<and>
     pm = p \<and> at = Attr_Locked"

lemma Perm_All_neutral: "x AND Perm_All = x"
  by (simp add: Perm_All_def Perm_None_def)

lemma lock_check:
  assumes "table_ok t" "Contains addr sz t" "unat addr mod 4096 = 0" "unat sz mod 4096 = 0"
    "table_pages t (unat addr) = Some (st0, pm0, og0, at0, ic0, dc0)"
  shows "CheckMemoryState addr sz (reference_counted (lock_masks flag)) DefaultMemoryIgnoreAttr t =
     (if range_all (lockable flag st0) (table_pages t) (unat addr) (unat addr + unat sz)
      then Inr (st0, pm0, at0 AND NOT DefaultMemoryIgnoreAttr,
                blocks_needed (table_tree t) (unat addr) (unat addr + unat sz))
      else Inl (Failed kernel_result.ResultInvalidCurrentMemory))"
  by (rule checked_pages [OF assms refl])
    (auto simp: reference_counted_def lock_masks_def Attr_All_neutral Perm_All_neutral Attr_None_def)

lemma unlock_check:
  assumes "table_ok t" "Contains addr sz t" "unat addr mod 4096 = 0" "unat sz mod 4096 = 0"
    "table_pages t (unat addr) = Some (st0, pm0, og0, at0, ic0, dc0)"
  shows "CheckMemoryState addr sz (reference_counted (unlock_masks flag)) DefaultMemoryIgnoreAttr t =
     (if range_all (locked_page flag st0 pm0) (table_pages t) (unat addr) (unat addr + unat sz)
      then Inr (st0, pm0, at0 AND NOT DefaultMemoryIgnoreAttr,
                blocks_needed (table_tree t) (unat addr) (unat addr + unat sz))
      else Inl (Failed kernel_result.ResultInvalidCurrentMemory))"
  by (rule checked_pages [OF assms refl])
    (auto simp: reference_counted_def unlock_masks_def Attr_All_neutral Perm_None_def)

lemma R_TRY_simps: "R_TRY (Inr a) f = f a" "R_TRY (Inl e) f = Inl e"
  by (simp_all add: R_TRY_def)

lemma R_TRY_assoc: "R_TRY a (\<lambda>(x, y). R_TRY (f x y) g) = R_TRY (R_TRY a (\<lambda>(x, y). f x y)) g"
  by (simp add: R_TRY_def split: sum.split prod.split)

lemma ignored_Locked: "Attr_Locked AND (Attr_IpcLocked OR Attr_DeviceShared) = Attr_None"
  "Attr_Locked AND NOT DefaultMemoryIgnoreAttr = Attr_Locked" "Attr_Locked AND NOT Attr_Locked = Attr_None"
  by (simp_all add: Attr_Locked_def Attr_IpcLocked_def Attr_DeviceShared_def Attr_None_def DefaultMemoryIgnoreAttr_def)

definition locked_permission :: "u8 \<Rightarrow> u8" where
  "locked_permission new_perm = (if new_perm \<noteq> Perm_None then new_perm else Perm_UserReadWrite)"

text \<open>A lock of a range that passes the check fails only where its page group cannot be made.\<close>

lemma lock_passed:
  assumes "table_ok t" "Contains addr sz t" "unat addr mod 4096 = 0" "unat sz mod 4096 = 0" "2 \<le> m_memory_block_slab t"
    "table_pages t (unat addr) = Some (st0, pm0, og0, at0, ic0, dc0)"
    "range_all (lockable flag st0) (table_pages t) (unat addr) (unat addr + unat sz)"
  shows "\<exists>t'. table_ok t' \<and> same_space t t' \<and> m_memory_block_slab t \<le> m_memory_block_slab t' + 2 \<and>
     table_pages t' = on_range (unat addr) (unat addr + unat sz)
       (update_effect st0 (locked_permission new_perm) Attr_Locked) (table_pages t) \<and>
     LockMemoryAndOpen is_heap out want addr sz (lock_masks flag) new_perm Attr_Locked t =
       R_TRY (case out of None \<Rightarrow> Inr ([], m_block_infos t)
          | Some pg0 \<Rightarrow> map_sum fst id (MakePageGroup (m_impl t) is_heap pg0 addr (sz div PageSize) (m_block_infos t)))
        (\<lambda>(gr, infos). Inr (map_option (\<lambda>_. gr) out, if want then GetPhysicalAddress (m_impl t) addr else None,
           t'\<lparr> m_block_infos := infos, m_opened := m_opened t' @ page_group_refs gr \<rparr>))"
proof -
  let ?n = "sz div PageSize" and ?p = "locked_permission new_perm"
  let ?g = "\<lambda>u. if ?p \<noteq> Perm_UserReadWrite then Operate_ChangePermissions addr ?n ?p u else u"
  have "lockable flag st0 (st0, pm0, og0, at0, ic0, dc0)"
    using range_all_first [OF assms(7) _ assms(6)] range_in_table(2) [OF assms(1,2)] by simp
  then have v0: "pm0 = Perm_UserReadWrite" "at0 = 0" by simp_all
  have n: "\<not> has_properties st0 ?p Attr_Locked (st0, pm0, og0, at0, ic0, dc0)"
    using v0 by (simp add: Attr_Locked_def Attr_IpcLocked_def Attr_DeviceShared_def)
  have g: "m_memory_block_manager (?g u) = m_memory_block_manager u \<and> (same_space t u \<longrightarrow> same_space t (?g u)) \<and>
      m_memory_block_slab (?g u) = m_memory_block_slab u \<and> m_block_infos (?g u) = m_block_infos u" for u
    by (simp add: Operate_fields)
  obtain t' where t': "R_TRY (new_allocator (blocks_needed (table_tree t) (unat addr) (unat addr + unat sz)) t)
      (\<lambda>(al, u). update_blocks (Manager_Update al addr ?n st0 ?p Attr_Locked Merge_Locked Merge_None) (?g u)) = Inr t'"
    "table_ok t'" "same_space t t'" "m_memory_block_slab t \<le> m_memory_block_slab t' + 2"
    "table_pages t' = on_range (unat addr) (unat addr + unat sz) (update_effect st0 ?p Attr_Locked) (table_pages t)"
    using set_range [OF assms(1-5) refl assms(6) n ignored_Locked(1), of ?g Merge_Locked Merge_None, OF g] by blast
  have chk: "CheckMemoryState addr sz (reference_counted (lock_masks flag)) DefaultMemoryIgnoreAttr t =
      Inr (st0, Perm_UserReadWrite, 0, blocks_needed (table_tree t) (unat addr) (unat addr + unat sz))"
    using lock_check [OF assms(1-4,6), of flag] assms(7) v0 by simp
  have "LockMemoryAndOpen is_heap out want addr sz (lock_masks flag) new_perm Attr_Locked t =
      R_TRY (case out of None \<Rightarrow> Inr ([], m_block_infos t)
        | Some pg0 \<Rightarrow> map_sum fst id (MakePageGroup (m_impl t) is_heap pg0 addr ?n (m_block_infos t)))
      (\<lambda>(gr, infos). R_TRY (R_TRY (new_allocator (blocks_needed (table_tree t) (unat addr) (unat addr + unat sz)) t)
          (\<lambda>(al, u). update_blocks (Manager_Update al addr ?n st0 ?p Attr_Locked Merge_Locked Merge_None) (?g u)))
        (\<lambda>t3. Inr (map_option (\<lambda>_. gr) out, if want then GetPhysicalAddress (m_impl t) addr else None,
           t3\<lparr> m_block_infos := infos, m_opened := m_opened t3 @ page_group_refs gr \<rparr>)))"
    by (simp only: LockMemoryAndOpen_def Let_def assms(2) not_True_eq_False if_False chk R_TRY_simps prod.case
        R_TRY_assoc [symmetric] or.left_neutral locked_permission_def)
  then show ?thesis using t' unfolding t'(1) R_TRY_simps by blast
qed

text \<open>What a successful lock has done.\<close>

lemma lock_result:
  assumes "table_ok t" "Contains addr sz t" "unat addr mod 4096 = 0" "unat sz mod 4096 = 0" "2 \<le> m_memory_block_slab t"
    "table_pages t (unat addr) = Some (st0, pm0, og0, at0, ic0, dc0)"
    "LockMemoryAndOpen is_heap out want addr sz (lock_masks flag) new_perm Attr_Locked t = Inr (pg, pa, t1)"
  shows "range_all (lockable flag st0) (table_pages t) (unat addr) (unat addr + unat sz)"
    "table_ok t1" "same_space t t1" "m_memory_block_slab t \<le> m_memory_block_slab t1 + 2"
    "table_pages t1 = on_range (unat addr) (unat addr + unat sz)
       (update_effect st0 (locked_permission new_perm) Attr_Locked) (table_pages t)"
    "out = Some [] \<Longrightarrow> \<exists>g infos. pg = Some g \<and>
       MakePageGroup (m_impl t) is_heap [] addr (sz div PageSize) (m_block_infos t) = Inr (g, infos)"
proof -
  let ?n = "sz div PageSize"
  show all: "range_all (lockable flag st0) (table_pages t) (unat addr) (unat addr + unat sz)"
    using assms(7) lock_check [OF assms(1-4,6)] by (auto simp: LockMemoryAndOpen_def Let_def R_TRY_def split: if_splits)
  obtain t' where t': "table_ok t'" "same_space t t'" "m_memory_block_slab t \<le> m_memory_block_slab t' + 2"
    "table_pages t' = on_range (unat addr) (unat addr + unat sz)
       (update_effect st0 (locked_permission new_perm) Attr_Locked) (table_pages t)"
    "R_TRY (case out of None \<Rightarrow> Inr ([], m_block_infos t)
        | Some pg0 \<Rightarrow> map_sum fst id (MakePageGroup (m_impl t) is_heap pg0 addr ?n (m_block_infos t)))
      (\<lambda>(gr, infos). Inr (map_option (\<lambda>_. gr) out, if want then GetPhysicalAddress (m_impl t) addr else None,
         t'\<lparr> m_block_infos := infos, m_opened := m_opened t' @ page_group_refs gr \<rparr>)) = Inr (pg, pa, t1)"
    using lock_passed [OF assms(1-6) all, of new_perm is_heap out want] assms(7) by auto
  then obtain infos gr where r: "t1 = t'\<lparr> m_block_infos := infos, m_opened := m_opened t' @ page_group_refs gr \<rparr>"
    "pg = map_option (\<lambda>_. gr) out"
    "case out of None \<Rightarrow> True | Some pg0 \<Rightarrow> MakePageGroup (m_impl t) is_heap pg0 addr ?n (m_block_infos t) = Inr (gr, infos)"
    by (auto simp: R_TRY_def map_sum_def split: option.splits sum.splits)
  show "table_ok t1" "same_space t t1" "m_memory_block_slab t \<le> m_memory_block_slab t1 + 2"
    "table_pages t1 = on_range (unat addr) (unat addr + unat sz)
       (update_effect st0 (locked_permission new_perm) Attr_Locked) (table_pages t)"
    using t' r(1) by (simp_all add: table_ok_def same_space_def)
  show "out = Some [] \<Longrightarrow> \<exists>g infos. pg = Some g \<and>
      MakePageGroup (m_impl t) is_heap [] addr ?n (m_block_infos t) = Inr (g, infos)"
    using r(2,3) by auto
qed

section \<open>Unlocking\<close>

lemma range_all_on_range: "range_all P (on_range c l f m) c l \<longleftrightarrow> range_all (\<lambda>v. P (f v)) m c l"
  unfolding range_all_def on_range_def by (auto simp del: split_paired_All)

lemma on_range_twice: "on_range c l g (on_range c l f m) = on_range c l (\<lambda>v. g (f v)) m"
  by (rule ext) (simp add: on_range_def option.map_comp comp_def)

text \<open>The pages of a range between a lock and its unlock.\<close>

definition locked_range :: "u32 \<Rightarrow> u32 \<Rightarrow> u8 \<Rightarrow> u64 \<Rightarrow> u64 \<Rightarrow> 'g KPageTableBase \<Rightarrow> 'g KPageTableBase \<Rightarrow> bool" where
  "locked_range flag st0 p addr sz t t1 \<longleftrightarrow>
     range_all (lockable flag st0) (table_pages t) (unat addr) (unat addr + unat sz) \<and>
     table_pages t1 = on_range (unat addr) (unat addr + unat sz) (update_effect st0 p Attr_Locked) (table_pages t)"

lemma locked_range_pages:
  assumes "locked_range flag st0 p addr sz t t1"
  shows "range_all (locked_page flag st0 p) (table_pages t1) (unat addr) (unat addr + unat sz)"
    "on_range (unat addr) (unat addr + unat sz) (update_effect st0 Perm_UserReadWrite Attr_None) (table_pages t1) = table_pages t"
proof -
  have l: "range_all (lockable flag st0) (table_pages t) (unat addr) (unat addr + unat sz)"
    and t1: "table_pages t1 = on_range (unat addr) (unat addr + unat sz) (update_effect st0 p Attr_Locked) (table_pages t)"
    using assms by (simp_all add: locked_range_def)
  show "range_all (locked_page flag st0 p) (table_pages t1) (unat addr) (unat addr + unat sz)"
    unfolding t1 range_all_on_range by (rule range_all_mono [OF l]) (auto simp: ignored_Locked)
  show "on_range (unat addr) (unat addr + unat sz) (update_effect st0 Perm_UserReadWrite Attr_None) (table_pages t1) = table_pages t"
    unfolding t1 on_range_twice
    by (rule on_range_idle, rule range_all_mono [OF l]) (auto simp: ignored_Locked Attr_None_def)
qed

lemma unlock_restores:
  assumes "table_ok t1" "Contains addr sz t1" "unat addr mod 4096 = 0" "unat sz mod 4096 = 0" "2 \<le> m_memory_block_slab t1"
    "locked_range flag st0 p addr sz t t1"
    "table_pages t1 (unat addr) = Some (st0, p, og0, Attr_Locked, ic0, dc0)"
    "case pg of None \<Rightarrow> True | Some g \<Rightarrow> IsValidPageGroup (m_impl t1) is_heap g addr (sz div PageSize)"
  shows "\<exists>t2. UnlockMemory is_heap addr sz (unlock_masks flag) Perm_UserReadWrite Attr_Locked pg t1 = Inr t2 \<and>
     table_ok t2 \<and> table_pages t2 = table_pages t"
proof -
  let ?n = "sz div PageSize" and ?q = Perm_UserReadWrite
  let ?g = "\<lambda>u. if ?q \<noteq> p then Operate_ChangePermissions addr ?n ?q u else u"
  have g: "m_memory_block_manager (?g u) = m_memory_block_manager u \<and> (same_space t1 u \<longrightarrow> same_space t1 (?g u)) \<and>
      m_memory_block_slab (?g u) = m_memory_block_slab u \<and> m_block_infos (?g u) = m_block_infos u" for u
    by (simp add: Operate_fields)
  have n: "\<not> has_properties st0 ?q Attr_None (st0, p, og0, Attr_Locked, ic0, dc0)"
    by (simp add: Attr_Locked_def Attr_IpcLocked_def Attr_DeviceShared_def Attr_None_def)
  have none: "Attr_None AND (Attr_IpcLocked OR Attr_DeviceShared) = Attr_None" by (simp add: Attr_None_def)
  obtain t2 where t2: "R_TRY (new_allocator (blocks_needed (table_tree t1) (unat addr) (unat addr + unat sz)) t1)
      (\<lambda>(al, u). update_blocks (Manager_Update al addr ?n st0 ?q Attr_None Merge_None Merge_Locked) (?g u)) = Inr t2"
    "table_ok t2"
    "table_pages t2 = on_range (unat addr) (unat addr + unat sz) (update_effect st0 ?q Attr_None) (table_pages t1)"
    using set_range [OF assms(1-5) refl assms(7) n none, of ?g Merge_None Merge_Locked, OF g] by blast
  have chk: "CheckMemoryState addr sz (reference_counted (unlock_masks flag)) DefaultMemoryIgnoreAttr t1 =
      Inr (st0, p, Attr_Locked, blocks_needed (table_tree t1) (unat addr) (unat addr + unat sz))"
    using unlock_check [OF assms(1-4,7), of flag] locked_range_pages(1) [OF assms(6)] by (simp add: ignored_Locked)
  have pg: "(case pg of None \<Rightarrow> False | Some g \<Rightarrow> \<not> IsValidPageGroup (m_impl t1) is_heap g addr ?n) = False"
    using assms(8) by (cases pg) simp_all
  have q: "(?q \<noteq> Perm_None) = True" by (simp add: Perm_UserReadWrite_def Perm_UserRead_def Perm_UserWrite_def Perm_KernelRead_def
      Perm_KernelWrite_def Perm_None_def)
  have "UnlockMemory is_heap addr sz (unlock_masks flag) ?q Attr_Locked pg t1 = Inr t2"
    by (simp only: UnlockMemory_def Let_def assms(2) not_True_eq_False if_False chk R_TRY_simps prod.case pg
        ignored_Locked q if_True t2(1))
  then show ?thesis using t2 locked_range_pages(2) [OF assms(6)] by simp
qed

end
