(* ===== verification/KPageTableCalls.thy ===== *)
theory KPageTableCalls
  imports KPageTableLocks
begin

text \<open>
  Properties of the system calls on memory: changing permissions is exact and atomic, changing
  attributes too except where it brings the emulator down, and memory that is locked for a transfer cannot
  be changed until it is unlocked, which restores every page.
\<close>

unbundle bit_operations_syntax

text \<open>A table over the small address space, for the witnesses.\<close>

definition small_memory :: "unit Memory_Impl" where
  "small_memory = \<lparr> current_page_table = PageTable_ctor, buffer_calls = [], backing_base = 0, backing_size = 0,
     host_memory = (\<lambda>_. 0), gpu_state = () \<rparr>"

definition small_table :: "KMemoryBlockManager \<Rightarrow> unit KPageTableBase" where
  "small_table m =
     \<lparr> m_address_space_start = 0x8000, m_address_space_end = 0x18000, m_heap_region_start = 0, m_heap_region_end = 0,
       m_alias_region_start = 0, m_alias_region_end = 0, m_stack_region_start = 0, m_stack_region_end = 0,
       m_kernel_map_region_start = 0, m_kernel_map_region_end = 0, m_alias_code_region_start = 0,
       m_alias_code_region_end = 0, m_code_region_start = 0, m_code_region_end = 0, m_impl = PageTable_ctor, m_impl_is_current = False,
       m_memory = small_memory, m_memory_block_manager = m, m_is_kernel = False, m_enable_aslr = False,
       m_enable_device_address_space_merge = False, m_memory_block_slab = 8, m_block_infos = 8, m_opened = [], m_closed = [] \<rparr>"

lemma small_table_ok:
  assumes "well_formed m" "m_start_address m = 0x8000" "m_end_address m = 0x18000"
  shows "table_ok (small_table m)"
  using assms by (simp add: table_ok_def small_table_def)

lemma small_table_range: "Contains 0xA000 0x2000 (small_table m)"
  by (simp add: Contains_def small_table_def)

text \<open>A space whose pages are all normal memory of the program.\<close>

definition normal_space :: KMemoryBlockManager where
  "normal_space = \<lparr> m_memory_block_tree = [Block_Initialize 0x8000 16 State_Normal Perm_UserReadWrite Attr_None blank_block],
     m_start_address = 0x8000, m_end_address = 0x18000 \<rparr>"

lemma normal_space_ok: "well_formed normal_space"
  by (simp add: well_formed_def normal_space_def lo_def hi_def Block_Initialize_def)

lemma normal_space_pages:
  "pages normal_space x =
     (if 0x8000 \<le> x \<and> x < 0x18000 then Some (State_Normal, Perm_UserReadWrite, 0, 0, 0, 0) else None)"
  by (simp add: pages_def normal_space_def lo_def hi_def Block_Initialize_def properties_def Perm_None_def Attr_None_def)

text \<open>The check finds a first page, whatever it asks for.\<close>

lemma first_page:
  assumes "table_ok t" "Contains addr sz t" "unat addr mod 4096 = 0" "unat sz mod 4096 = 0"
  obtains st0 pm0 og0 at0 ic0 dc0 where "table_pages t (unat addr) = Some (st0, pm0, og0, at0, ic0, dc0)"
proof -
  obtain w where "table_pages t (unat addr) = Some w" using check_memory_state [OF assms] by blast
  then show thesis using that by (cases w) simp
qed

text \<open>
  Property C6. \<^verbatim>\<open>svcSetMemoryPermission\<close> with valid arguments succeeds exactly when the pages of the
  range have one state, which can be reprotected, one permission and no attribute; then looking up
  any address finds the new permission on the pages of the range and everything else unchanged,
  and the table is well-formed. Otherwise it fails with \<^verbatim>\<open>ResultInvalidCurrentMemory\<close> and nothing
  changes. The update never runs out of blocks, because the check has counted the ones it needs.
\<close>

theorem svc_set_memory_permission_exact:
  assumes "table_ok t" "2 \<le> m_memory_block_slab t" "IsAligned address PageSize" "IsAligned sz PageSize"
    "Contains address sz t" "IsValidSetMemoryPermission perm"
  shows "if \<exists>st pm. range_all (reprotectable st pm) (table_pages t) (unat address) (unat address + unat sz)
     then \<exists>t'. svc_SetMemoryPermission address sz perm t = Inr t' \<and> table_ok t' \<and>
       (\<forall>x. map_option properties (FindBlock x (m_memory_block_manager t')) =
            (if unat address \<le> unat x \<and> unat x < unat address + unat sz
             then map_option (set_permission (ConvertToKMemoryPermission perm))
                    (map_option properties (FindBlock x (m_memory_block_manager t)))
             else map_option properties (FindBlock x (m_memory_block_manager t))))
     else svc_SetMemoryPermission address sz perm t = Inl (Failed kernel_result.ResultInvalidCurrentMemory)"
proof -
  have al: "unat address mod 4096 = 0" "unat sz mod 4096 = 0" using assms(3,4) by (simp_all add: IsAligned_PageSize)
  note r = range_in_table [OF assms(1,5)]
  have call: "svc_SetMemoryPermission address sz perm t = SetMemoryPermission address sz perm t"
    using assms(3-6) r(2) by (simp add: svc_SetMemoryPermission_def Contains_def word_less_nat_alt)
  obtain st0 pm0 og0 at0 ic0 dc0 where v0: "table_pages t (unat address) = Some (st0, pm0, og0, at0, ic0, dc0)"
    using first_page [OF assms(1,5) al] .
  have first: "st = st0 \<and> pm = pm0"
    if "range_all (reprotectable st pm) (table_pages t) (unat address) (unat address + unat sz)" for st pm
    using range_all_first [OF that _ v0] r(2) by simp
  show ?thesis
  proof (cases "range_all (reprotectable st0 pm0) (table_pages t) (unat address) (unat address + unat sz)")
    case True
    obtain t' where t': "SetMemoryPermission address sz perm t = Inr t'" "table_ok t'"
      "table_pages t' = on_range (unat address) (unat address + unat sz)
         (set_permission (ConvertToKMemoryPermission perm)) (table_pages t)"
      using SetMemoryPermission_pages [OF assms(1,5) al assms(2) v0 True] by blast
    have "well_formed (m_memory_block_manager t)" "well_formed (m_memory_block_manager t')"
      using assms(1) t'(2) by (simp_all add: table_ok_def)
    then show ?thesis
      using True call t' by (auto simp: pages_FindBlock on_range_def)
  next
    case False
    then have "SetMemoryPermission address sz perm t = Inl (Failed kernel_result.ResultInvalidCurrentMemory)"
      using permission_check [OF assms(1,5) al v0] by (simp add: SetMemoryPermission_def R_TRY_def)
    then show ?thesis using False first call by auto
  qed
qed

theorem svc_set_memory_permission_exact_witness:
  "\<exists>t'. svc_SetMemoryPermission 0xA000 0x2000 1 (small_table normal_space) = Inr t' \<and>
     map_option properties (FindBlock 0xB000 (m_memory_block_manager t')) =
       Some (State_Normal, ConvertToKMemoryPermission 1, 0, 0, 0, 0) \<and>
     map_option properties (FindBlock 0xC000 (m_memory_block_manager t')) =
       Some (State_Normal, Perm_UserReadWrite, 0, 0, 0, 0)"
proof -
  let ?t = "small_table normal_space"
  have ok: "table_ok ?t" by (rule small_table_ok [OF normal_space_ok]) (simp_all add: normal_space_def)
  have m: "m_memory_block_manager ?t = normal_space" by (simp add: small_table_def)
  have p: "\<exists>st pm. range_all (reprotectable st pm) (table_pages ?t) (unat (0xA000 :: u64)) (unat (0xA000 :: u64) + unat (0x2000 :: u64))"
    by (intro exI [of _ State_Normal] exI [of _ Perm_UserReadWrite])
      (simp add: range_all_def m normal_space_pages state_values State_FlagCanReprotect_def)
  have f: "map_option properties (FindBlock x normal_space) = pages normal_space (unat x)" for x
    using pages_FindBlock [OF normal_space_ok] .
  have "2 \<le> m_memory_block_slab ?t" "IsAligned 0xA000 PageSize" "IsAligned 0x2000 PageSize"
    "IsValidSetMemoryPermission 1"
    by (simp_all add: small_table_def IsAligned_def PageSize_def IsValidSetMemoryPermission_def)
  note q = svc_set_memory_permission_exact [OF ok this(1-3) small_table_range this(4), unfolded if_P [OF p]]
  then obtain t' where t': "svc_SetMemoryPermission 0xA000 0x2000 1 ?t = Inr t'"
    "\<forall>x. map_option properties (FindBlock x (m_memory_block_manager t')) =
       (if unat (0xA000 :: u64) \<le> unat x \<and> unat x < unat (0xA000 :: u64) + unat (0x2000 :: u64)
        then map_option (set_permission (ConvertToKMemoryPermission 1)) (map_option properties (FindBlock x normal_space))
        else map_option properties (FindBlock x normal_space))"
    unfolding m by blast
  show ?thesis
    by (intro exI [of _ t'] conjI t'(1))
      (simp_all only: t'(2) [rule_format] f, simp_all add: normal_space_pages)
qed

text \<open>
  Property C9. \<^verbatim>\<open>svcSetMemoryAttribute\<close> with a mask and attributes that pass its validation. When the pages
  of the range do not have one state with the rights the mask asks for and one permission, or have
  an attribute that cannot be set, the call fails with \<^verbatim>\<open>ResultInvalidCurrentMemory\<close>. Otherwise looking
  up any address afterwards finds the masked attributes replaced on the pages of the range and
  everything else unchanged; except that when the range starts inside the first block of the address
  space, past its start, and that block has the attributes already, the merging pass steps back from
  the first block of the tree and the emulator crashes. With an empty mask a program reaches that
  on any such block.
\<close>

theorem svc_set_memory_attribute_outcome:
  assumes "table_ok t" "2 \<le> m_memory_block_slab t" "IsAligned address PageSize" "IsAligned sz PageSize"
    "Contains address sz t" "mask' OR attr = mask'" "mask' OR attr OR 24 = 24" "mask' AND 16 = attr AND 16"
  shows "if \<nexists>st pm. range_all (attributable (attribute_rights (ucast mask')) st pm) (table_pages t)
       (unat address) (unat address + unat sz)
     then svc_SetMemoryAttribute address sz mask' attr t = Inl (Failed kernel_result.ResultInvalidCurrentMemory)
     else if steps_back (\<lambda>b. m_attribute b AND ucast mask' \<noteq> ucast attr) (m_memory_block_manager t) address (sz div PageSize)
     then svc_SetMemoryAttribute address sz mask' attr t = Inl (Crashed BeforeBegin)
     else \<exists>t'. svc_SetMemoryAttribute address sz mask' attr t = Inr t' \<and> table_ok t' \<and>
       (\<forall>x. map_option properties (FindBlock x (m_memory_block_manager t')) =
            (if unat address \<le> unat x \<and> unat x < unat address + unat sz
             then map_option (attribute_effect (ucast mask') (ucast attr))
                    (map_option properties (FindBlock x (m_memory_block_manager t)))
             else map_option properties (FindBlock x (m_memory_block_manager t))))"
proof -
  let ?mask = "ucast mask' :: u8" and ?attr = "ucast attr :: u8"
  have al: "unat address mod 4096 = 0" "unat sz mod 4096 = 0" using assms(3,4) by (simp_all add: IsAligned_PageSize)
  note r = range_in_table [OF assms(1,5)]
  have call: "svc_SetMemoryAttribute address sz mask' attr t = SetMemoryAttribute address sz ?mask ?attr t"
    using assms(3-8) r(2) by (simp add: svc_SetMemoryAttribute_def Contains_def word_less_nat_alt)
  obtain st0 pm0 og0 at0 ic0 dc0 where v0: "table_pages t (unat address) = Some (st0, pm0, og0, at0, ic0, dc0)"
    using first_page [OF assms(1,5) al] .
  have first: "st = st0 \<and> pm = pm0"
    if "range_all (attributable (attribute_rights ?mask) st pm) (table_pages t) (unat address) (unat address + unat sz)" for st pm
    using range_all_first [OF that _ v0] r(2) by simp
  show ?thesis
  proof (cases "range_all (attributable (attribute_rights ?mask) st0 pm0) (table_pages t) (unat address) (unat address + unat sz)")
    case True
    note o = SetMemoryAttribute_outcome [OF assms(1,5) al assms(2) v0 True, of ?attr]
    have wf: "well_formed (m_memory_block_manager u)" if "table_ok u" for u using that by (simp add: table_ok_def)
    show ?thesis
      using True call o
      by (auto simp: pages_FindBlock [OF wf [OF assms(1)]] pages_FindBlock [OF wf] on_range_def)
  next
    case False
    then have "SetMemoryAttribute address sz ?mask ?attr t = Inl (Failed kernel_result.ResultInvalidCurrentMemory)"
      using attribute_check [OF assms(1,5) al v0, of ?mask] by (simp add: SetMemoryAttribute_def attribute_rights_def R_TRY_def Let_def)
    then show ?thesis using False first call by auto
  qed
qed

theorem svc_set_memory_attribute_outcome_witness:
  "svc_SetMemoryAttribute 0xA000 0x2000 0 0 (small_table small_space) = Inl (Crashed BeforeBegin) \<and>
   (\<exists>t'. svc_SetMemoryAttribute 0xA000 0x2000 8 8 (small_table normal_space) = Inr t' \<and>
     map_option properties (FindBlock 0xB000 (m_memory_block_manager t')) =
       Some (State_Normal, Perm_UserReadWrite, 0, Attr_Uncached, 0, 0))"
proof
  let ?s = "small_table small_space" and ?t = "small_table normal_space"
  have args: "IsAligned 0xA000 PageSize" "IsAligned 0x2000 PageSize" by (simp_all add: IsAligned_def PageSize_def)
  have slab: "2 \<le> m_memory_block_slab (small_table m)" for m by (simp add: small_table_def)
  have m: "m_memory_block_manager (small_table m) = m" for m by (simp add: small_table_def)
  have ok: "table_ok ?s" "table_ok ?t"
    by (rule small_table_ok [OF small_space_facts(1-3)], rule small_table_ok [OF normal_space_ok]) (simp_all add: normal_space_def)
  have p: "\<not> (\<nexists>st pm. range_all (attributable (attribute_rights (ucast (0 :: u32))) st pm) (table_pages ?s)
      (unat (0xA000 :: u64)) (unat (0xA000 :: u64) + unat (0x2000 :: u64)))"
    by (simp only: not_not, intro exI [of _ State_Free] exI [of _ Perm_None])
      (simp add: range_all_def m pages_def small_space_facts lo_def hi_def Block_Initialize_def properties_def attribute_rights_def
        State_None_def Attr_None_def)
  have b: "steps_back (\<lambda>b. m_attribute b AND ucast (0 :: u32) \<noteq> ucast (0 :: u32)) (m_memory_block_manager ?s) 0xA000 (0x2000 div PageSize)"
    by (simp add: steps_back_def m small_space_facts hi_def Block_Initialize_def)
  show "svc_SetMemoryAttribute 0xA000 0x2000 0 0 ?s = Inl (Crashed BeforeBegin)"
    using svc_set_memory_attribute_outcome [OF ok(1) slab args small_table_range, of 0 0] unfolding if_not_P [OF p] if_P [OF b] by simp
  have q: "\<not> (\<nexists>st pm. range_all (attributable (attribute_rights (ucast (8 :: u32))) st pm) (table_pages ?t)
      (unat (0xA000 :: u64)) (unat (0xA000 :: u64) + unat (0x2000 :: u64)))"
    by (simp only: not_not, intro exI [of _ State_Normal] exI [of _ Perm_UserReadWrite])
      (simp add: range_all_def m normal_space_pages attribute_rights_def state_values State_FlagCanChangeAttribute_def
        State_None_def Attr_Uncached_def Attr_PermissionLocked_def)
  have c: "\<not> steps_back (\<lambda>b. m_attribute b AND ucast (8 :: u32) \<noteq> ucast (8 :: u32)) (m_memory_block_manager ?t) 0xA000 (0x2000 div PageSize)"
    by (simp add: steps_back_def m normal_space_def Block_Initialize_def Attr_None_def PageSize_def)
  have f: "map_option properties (FindBlock x normal_space) = pages normal_space (unat x)" for x
    using pages_FindBlock [OF normal_space_ok] .
  obtain t' where t': "svc_SetMemoryAttribute 0xA000 0x2000 8 8 ?t = Inr t'"
    "\<forall>x. map_option properties (FindBlock x (m_memory_block_manager t')) =
       (if unat (0xA000 :: u64) \<le> unat x \<and> unat x < unat (0xA000 :: u64) + unat (0x2000 :: u64)
        then map_option (attribute_effect (ucast (8 :: u32)) (ucast (8 :: u32))) (map_option properties (FindBlock x normal_space))
        else map_option properties (FindBlock x normal_space))"
    using svc_set_memory_attribute_outcome [OF ok(2) slab args small_table_range, of 8 8]
    unfolding if_not_P [OF q] if_not_P [OF c] unfolding m by auto
  show "\<exists>t'. svc_SetMemoryAttribute 0xA000 0x2000 8 8 ?t = Inr t' \<and>
      map_option properties (FindBlock 0xB000 (m_memory_block_manager t')) = Some (State_Normal, Perm_UserReadWrite, 0, Attr_Uncached, 0, 0)"
    by (intro exI [of _ t'] conjI t'(1)) (simp only: t'(2) [rule_format] f, simp add: normal_space_pages Attr_Uncached_def)
qed

text \<open>
  Property C8. Transfer memory. After \<^verbatim>\<open>LockForTransferMemory\<close> has locked a range, locking it again and changing its
  permission with \<^verbatim>\<open>svcSetMemoryPermission\<close> fail, and \<^verbatim>\<open>UnlockForTransferMemory\<close> with the page group that the lock
  made succeeds: the group passes the comparison with the page table, and looking up any
  address finds the properties it had before the lock.
\<close>

theorem transfer_memory_round_trip:
  assumes "table_ok t" "backed (m_impl t)" "4 \<le> m_memory_block_slab t" "IsAligned address PageSize" "IsAligned sz PageSize"
    "Contains address sz t" "LockForTransferMemory is_heap [] address sz perm t = Inr (Some pg, pa, t1)"
  shows "(\<forall>perm'. LockForTransferMemory is_heap [] address sz perm' t1 = Inl (Failed kernel_result.ResultInvalidCurrentMemory)) \<and>
    (\<forall>p\<in>{0, 1, 3}. svc_SetMemoryPermission address sz p t1 = Inl (Failed kernel_result.ResultInvalidCurrentMemory)) \<and>
    (\<exists>t2. UnlockForTransferMemory is_heap address sz pg t1 = Inr t2 \<and> table_ok t2 \<and>
       (\<forall>x. map_option properties (FindBlock x (m_memory_block_manager t2)) =
            map_option properties (FindBlock x (m_memory_block_manager t))))"
proof (intro conjI allI ballI)
  let ?p = "locked_permission perm"
  have al: "unat address mod 4096 = 0" "unat sz mod 4096 = 0" using assms(4,5) by (simp_all add: IsAligned_PageSize)
  note r = range_in_table [OF assms(1,6)]
  obtain st0 pm0 og0 at0 ic0 dc0 where v0: "table_pages t (unat address) = Some (st0, pm0, og0, at0, ic0, dc0)"
    using first_page [OF assms(1,6) al] .
  have "2 \<le> m_memory_block_slab t" using assms(3) by simp
  note l = lock_result [OF assms(1,6) al this v0 assms(7) [unfolded LockForTransferMemory_def]]
  have lr: "locked_range State_FlagCanTransfer st0 ?p address sz t t1" using l(1,5) by (simp add: locked_range_def)
  have c1: "Contains address sz t1" using assms(6) l(3) by (simp add: Contains_def same_space_def)
  have "lockable State_FlagCanTransfer st0 (st0, pm0, og0, at0, ic0, dc0)"
    using range_all_first [OF l(1) _ v0] r(2) by simp
  then have v1: "table_pages t1 (unat address) = Some (st0, ?p, og0, Attr_Locked, ic0, dc0)"
    using v0 r(2) by (simp add: l(5) on_range_def)
  have locked: "Attr_Locked \<noteq> 0" by (simp add: Attr_Locked_def)
  show "LockForTransferMemory is_heap [] address sz perm' t1 = Inl (Failed kernel_result.ResultInvalidCurrentMemory)" for perm'
  proof -
    have "\<not> range_all (lockable State_FlagCanTransfer st0) (table_pages t1) (unat address) (unat address + unat sz)"
      using range_all_first [of "lockable State_FlagCanTransfer st0" "table_pages t1" "unat address" "unat address + unat sz"]
        v1 r(2) locked by auto
    then show ?thesis
      using lock_check [OF l(2) c1 al v1, of State_FlagCanTransfer] c1
      by (simp add: LockForTransferMemory_def LockMemoryAndOpen_def R_TRY_simps Let_def)
  qed
  show "svc_SetMemoryPermission address sz p t1 = Inl (Failed kernel_result.ResultInvalidCurrentMemory)" if "p \<in> {0, 1, 3}" for p
  proof -
    have "\<not> range_all (reprotectable st0 ?p) (table_pages t1) (unat address) (unat address + unat sz)"
      using range_all_first [of "reprotectable st0 ?p" "table_pages t1" "unat address" "unat address + unat sz"]
        v1 r(2) locked by auto
    then show ?thesis
      using permission_check [OF l(2) c1 al v1] c1 assms(4,5) r(2) that
      by (simp add: svc_SetMemoryPermission_def SetMemoryPermission_def R_TRY_simps Let_def IsValidSetMemoryPermission_def
          Contains_def word_less_nat_alt)
  qed
  obtain infos where m: "MakePageGroup (m_impl t) is_heap [] address (sz div PageSize) (m_block_infos t) = Inr (pg, infos)"
    using l(6) [OF refl] by auto
  have "IsValidPageGroup (m_impl t) is_heap pg address (sz div PageSize)"
    using made_group_valid [OF assms(2) al(1) in_space_range(2) [OF assms(1,6) al] _ m] range_pages [OF al(2)]
      unsigned_less [of sz, where ?'a = nat] by simp
  then have "case Some pg of None \<Rightarrow> True | Some g \<Rightarrow> IsValidPageGroup (m_impl t1) is_heap g address (sz div PageSize)"
    using l(3) by (simp add: same_space_def)
  moreover have "2 \<le> m_memory_block_slab t1" using l(4) assms(3) by simp
  ultimately obtain t2 where t2: "UnlockForTransferMemory is_heap address sz pg t1 = Inr t2" "table_ok t2" "table_pages t2 = table_pages t"
    using unlock_restores [OF l(2) c1 al _ lr v1, of is_heap "Some pg"] by (auto simp: UnlockForTransferMemory_def)
  have "well_formed (m_memory_block_manager t)" "well_formed (m_memory_block_manager t2)"
    using assms(1) t2(2) by (simp_all add: table_ok_def)
  then show "\<exists>t2. UnlockForTransferMemory is_heap address sz pg t1 = Inr t2 \<and> table_ok t2 \<and>
      (\<forall>x. map_option properties (FindBlock x (m_memory_block_manager t2)) =
           map_option properties (FindBlock x (m_memory_block_manager t)))"
    using t2 by (intro exI [of _ t2]) (simp add: pages_FindBlock)
qed

text \<open>A page table that maps the small space to physical memory.\<close>

definition small_backing :: PageTable where
  "small_backing = PageTable_ctor\<lparr> pointers := replicate 24 0, blocks := replicate 24 0,
     backing_addr := replicate 24 0x80000000, page_size := PageSize \<rparr>"

lemma small_backing_ok: "backed small_backing"
  unfolding backed_def
proof (intro conjI allI impI)
  fix p assume "p < length (backing_addr small_backing)"
  then have p: "p < 24" "backing_addr small_backing ! p = 0x80000000" by (simp_all add: small_backing_def)
  have "unat ((of_nat p :: u64) * PageSize) = 4096 * p"
    using p(1) by (subst unat_pages) (simp_all add: unat_of_nat)
  then have "unat (backing_addr small_backing ! p + of_nat p * PageSize) = 0x80000000 + 4096 * p"
    using p by (subst unat_add_small) simp_all
  then show "unat (backing_addr small_backing ! p + of_nat p * PageSize) mod 4096 = 0"
    "unat (backing_addr small_backing ! p + of_nat p * PageSize) + 4096 < 2 ^ 44"
    using p(1) by (simp_all add: mod_add_eq [symmetric])
qed (simp add: small_backing_def)

lemma small_backing_group:
  "MakePageGroup small_backing (\<lambda>_. True) [] 0xA000 2 8 = Inr ([\<lparr> m_page_index = 0x8000A, bi_num_pages = 2 \<rparr>], 7)"
  by code_simp

theorem transfer_memory_round_trip_witness:
  "\<exists>pg t1 t2. LockForTransferMemory (\<lambda>_. True) [] 0xA000 0x2000 0 ((small_table normal_space)\<lparr> m_impl := small_backing \<rparr>) =
       Inr (Some pg, None, t1) \<and>
     UnlockForTransferMemory (\<lambda>_. True) 0xA000 0x2000 pg t1 = Inr t2 \<and>
     map_option properties (FindBlock 0xB000 (m_memory_block_manager t2)) = Some (State_Normal, Perm_UserReadWrite, 0, 0, 0, 0)"
proof -
  let ?t = "(small_table normal_space)\<lparr> m_impl := small_backing \<rparr>"
  have m: "m_memory_block_manager ?t = normal_space" "m_impl ?t = small_backing" "m_memory_block_slab ?t = 8" "m_block_infos ?t = 8"
    by (simp_all add: small_table_def)
  have ok: "table_ok ?t"
    using small_table_ok [OF normal_space_ok] by (simp add: normal_space_def table_ok_def)
  have c: "Contains 0xA000 0x2000 ?t" using small_table_range [of normal_space] by (simp add: Contains_def)
  have args: "IsAligned 0xA000 PageSize" "IsAligned 0x2000 PageSize" by (simp_all add: IsAligned_def PageSize_def)
  have v0: "table_pages ?t (unat (0xA000 :: u64)) = Some (State_Normal, Perm_UserReadWrite, 0, 0, 0, 0)"
    by (simp add: m normal_space_pages)
  have all: "range_all (lockable State_FlagCanTransfer State_Normal) (table_pages ?t) (unat (0xA000 :: u64))
      (unat (0xA000 :: u64) + unat (0x2000 :: u64))"
    by (simp add: range_all_def m normal_space_pages state_values State_FlagCanTransfer_def State_FlagReferenceCounted_def)
  have n: "(0x2000 :: u64) div PageSize = 2" by (simp add: PageSize_def)
  obtain pg t1 where l: "LockForTransferMemory (\<lambda>_. True) [] 0xA000 0x2000 0 ?t = Inr (Some pg, None, t1)"
    using lock_passed [OF ok c _ _ _ v0 all, of 0 "\<lambda>_. True" "Some []" False]
    by (auto simp: LockForTransferMemory_def m n small_backing_group R_TRY_simps)
  obtain t2 where t2: "UnlockForTransferMemory (\<lambda>_. True) 0xA000 0x2000 pg t1 = Inr t2"
    "\<forall>x. map_option properties (FindBlock x (m_memory_block_manager t2)) =
       map_option properties (FindBlock x (m_memory_block_manager ?t))"
    using transfer_memory_round_trip [OF ok _ _ args c l] small_backing_ok m by auto
  have "map_option properties (FindBlock 0xB000 (m_memory_block_manager t2)) = pages normal_space (unat (0xB000 :: u64))"
    using t2(2) pages_FindBlock [OF normal_space_ok] m(1) by simp
  then show ?thesis using l t2(1) by (intro exI [of _ pg] exI [of _ t1] exI [of _ t2]) (simp add: normal_space_pages)
qed

end
