(* ===== verification/KPageTableMapping.thy ===== *)
theory KPageTableMapping
  imports KPageTableBase
begin

text \<open>
  The operations of \<^verbatim>\<open>KPageTableBase\<close> that map and unmap existing pages: aliases of memory and of code,
  page groups, and the two system calls for aliases. The handlers for failures behind a mapping are left out:
  in this code \<^verbatim>\<open>Operate\<close> never fails, so they cannot run. Instruction caches belong to the CPU. Pages
  that are newly allocated come from the memory manager, which is not modelled.
\<close>

unbundle bit_operations_syntax

section \<open>Operate\<close>

text \<open>Guest memory changes the page table that it is given, which may be the one it uses itself.\<close>

definition set_impl :: "PageTable \<times> 'g Memory_Impl \<Rightarrow> 'g KPageTableBase \<Rightarrow> 'g KPageTableBase" where
  "set_impl r t =
     (case r of (pt, m) \<Rightarrow>
        t\<lparr> m_impl := pt, m_memory := if m_impl_is_current t then m\<lparr> current_page_table := pt \<rparr> else m \<rparr>)"

text \<open>
  Unmapping closes the pages of the group that \<^verbatim>\<open>MakePageGroup\<close> leaves, also where that has failed
  halfway; its block infos are returned. A group that the caller holds meanwhile keeps its own.
\<close>

definition Operate_Unmap :: "(u64 \<Rightarrow> bool) \<Rightarrow> bool \<Rightarrow> u64 \<Rightarrow> u64 \<Rightarrow> 'g KPageTableBase \<Rightarrow> 'g KPageTableBase" where
  "Operate_Unmap is_heap separate_heap virt_addr npages t =
     (let pages_to_close = (case MakePageGroup (m_impl t) is_heap [] virt_addr npages (m_block_infos t) of
                              Inl (e, pg) \<Rightarrow> pg | Inr (pg, infos) \<Rightarrow> pg);
          t1 = set_impl (UnmapRegion (m_impl t) virt_addr (npages * PageSize) separate_heap (m_memory t)) t
      in t1\<lparr> m_closed := m_closed t1 @ page_group_refs pages_to_close \<rparr>)"

definition Operate_Map :: "(u64 \<Rightarrow> bool) \<Rightarrow> u64 \<Rightarrow> u64 \<Rightarrow> u64 \<Rightarrow> u8 \<Rightarrow> 'g KPageTableBase \<Rightarrow> 'g KPageTableBase" where
  "Operate_Map is_heap virt_addr npages paddr perm t =
     (let t1 = set_impl (MapMemoryRegion (m_impl t) virt_addr (npages * PageSize) paddr
                           (ConvertToMemoryPermission perm) False (m_memory t)) t
      in if is_heap paddr then t1\<lparr> m_opened := m_opened t1 @ [(paddr, npages)] \<rparr> else t1)"

primrec MapPageGroupImpl :: "(u64 \<Rightarrow> bool) \<Rightarrow> u64 \<Rightarrow> KPageGroup \<Rightarrow> u8 \<Rightarrow> 'g KPageTableBase \<Rightarrow> 'g KPageTableBase" where
  "MapPageGroupImpl is_heap cur_address [] perm t = t"
| "MapPageGroupImpl is_heap cur_address (block # pg) perm t =
     MapPageGroupImpl is_heap (cur_address + BlockInfo_GetSize block) pg perm
       (Operate_Map is_heap cur_address (BlockInfo_GetNumPages block) (BlockInfo_GetAddress block) perm t)"

section \<open>Aliases of memory\<close>

definition free_masks :: check_masks where
  "free_masks = \<lparr> state_mask = State_All, want_state = State_Free, perm_mask = Perm_None, want_perm = Perm_None,
     attr_mask = Attr_None, want_attr = Attr_None \<rparr>"

definition MapMemory ::
  "(u64 \<Rightarrow> bool) \<Rightarrow> u64 \<Rightarrow> u64 \<Rightarrow> u64 \<Rightarrow> 'g KPageTableBase \<Rightarrow> kernel_error + 'g KPageTableBase" where
  "MapMemory is_heap dst_address src_address sz t =
     R_TRY (CheckMemoryState src_address sz
         \<lparr> state_mask = State_FlagCanAlias, want_state = State_FlagCanAlias, perm_mask = Perm_All,
           want_perm = Perm_UserReadWrite, attr_mask = Attr_All, want_attr = Attr_None \<rparr> DefaultMemoryIgnoreAttr t)
       (\<lambda>(src_state, _, _, num_src_allocator_blocks).
     R_TRY (CheckMemoryState dst_address sz free_masks DefaultMemoryIgnoreAttr t)
       (\<lambda>(_, _, _, num_dst_allocator_blocks).
     R_TRY (new_allocator num_src_allocator_blocks t)
       (\<lambda>(src_allocator, t1).
     R_TRY (new_allocator num_dst_allocator_blocks t1)
       (\<lambda>(dst_allocator, t2).
        let npages = sz div PageSize
        in R_TRY (map_sum fst id (MakePageGroup (m_impl t2) is_heap [] src_address npages (m_block_infos t2)))
             (\<lambda>(pg, _).
                let new_src_perm = Perm_KernelRead OR Perm_NotMapped;
                    t3 = Operate_ChangePermissions src_address npages new_src_perm t2;
                    t4 = MapPageGroupImpl is_heap dst_address pg Perm_UserReadWrite t3
                in R_TRY (update_blocks (Manager_Update src_allocator src_address npages src_state new_src_perm
                            Attr_Locked Merge_Locked Merge_None) t4)
                     (update_blocks (Manager_Update dst_allocator dst_address npages State_Stack Perm_UserReadWrite
                        Attr_None Merge_Normal Merge_None)))))))"

definition UnmapMemory ::
  "(u64 \<Rightarrow> bool) \<Rightarrow> u64 \<Rightarrow> u64 \<Rightarrow> u64 \<Rightarrow> 'g KPageTableBase \<Rightarrow> kernel_error + 'g KPageTableBase" where
  "UnmapMemory is_heap dst_address src_address sz t =
     R_TRY (CheckMemoryState src_address sz
         \<lparr> state_mask = State_FlagCanAlias, want_state = State_FlagCanAlias, perm_mask = Perm_All,
           want_perm = Perm_NotMapped OR Perm_KernelRead, attr_mask = Attr_All, want_attr = Attr_Locked \<rparr>
         DefaultMemoryIgnoreAttr t)
       (\<lambda>(src_state, _, _, num_src_allocator_blocks).
     R_TRY (CheckMemoryState dst_address sz
         \<lparr> state_mask = State_All, want_state = State_Stack, perm_mask = Perm_None, want_perm = Perm_None,
           attr_mask = Attr_All, want_attr = Attr_None \<rparr> DefaultMemoryIgnoreAttr t)
       (\<lambda>(_, _, _, num_dst_allocator_blocks).
     R_TRY (new_allocator num_src_allocator_blocks t)
       (\<lambda>(src_allocator, t1).
     R_TRY (new_allocator num_dst_allocator_blocks t1)
       (\<lambda>(dst_allocator, t2).
        let npages = sz div PageSize
        in R_TRY (map_sum fst id (MakePageGroup (m_impl t2) is_heap [] dst_address npages (m_block_infos t2)))
             (\<lambda>(pg, infos).
                if \<not> IsValidPageGroup (m_impl t2) is_heap pg src_address npages then Inl (Failed ResultInvalidMemoryRegion)
                else
                  let t3 = (Operate_Unmap is_heap False dst_address npages (t2\<lparr> m_block_infos := infos \<rparr>))\<lparr> m_block_infos := m_block_infos t2 \<rparr>;
                      t4 = Operate_ChangePermissions src_address npages Perm_UserReadWrite t3
                  in R_TRY (update_blocks (Manager_Update src_allocator src_address npages src_state Perm_UserReadWrite
                              Attr_None Merge_None Merge_Locked) t4)
                       (update_blocks (Manager_Update dst_allocator dst_address npages State_None Perm_None
                          Attr_None Merge_None Merge_Normal)))))))"

section \<open>Aliases of code\<close>

text \<open>A region for a state that has none is unreachable.\<close>

definition require_region ::
  "u64 \<Rightarrow> u64 \<Rightarrow> u32 \<Rightarrow> kernel_result \<Rightarrow> 'g KPageTableBase \<Rightarrow> kernel_error + unit" where
  "require_region addr sz state r t =
     (case CanContain addr sz (svc_state state) t of
        None \<Rightarrow> Inl Unreachable
      | Some ok \<Rightarrow> if \<not> ok then Inl (Failed r) else Inr ())"

definition MapCodeMemory ::
  "(u64 \<Rightarrow> bool) \<Rightarrow> u64 \<Rightarrow> u64 \<Rightarrow> u64 \<Rightarrow> 'g KPageTableBase \<Rightarrow> kernel_error + 'g KPageTableBase" where
  "MapCodeMemory is_heap dst_address src_address sz t =
     R_TRY (require_region dst_address sz State_AliasCode ResultInvalidMemoryRegion t)
       (\<lambda>_.
     R_TRY (CheckMemoryState src_address sz
         \<lparr> state_mask = State_All, want_state = State_Normal, perm_mask = Perm_All,
           want_perm = Perm_UserReadWrite, attr_mask = Attr_All, want_attr = Attr_None \<rparr> DefaultMemoryIgnoreAttr t)
       (\<lambda>(src_state, _, _, num_src_allocator_blocks).
     R_TRY (CheckMemoryState dst_address sz free_masks DefaultMemoryIgnoreAttr t)
       (\<lambda>(_, _, _, num_dst_allocator_blocks).
     R_TRY (new_allocator num_src_allocator_blocks t)
       (\<lambda>(src_allocator, t1).
     R_TRY (new_allocator num_dst_allocator_blocks t1)
       (\<lambda>(dst_allocator, t2).
        let npages = sz div PageSize
        in R_TRY (map_sum fst id (MakePageGroup (m_impl t2) is_heap [] src_address npages (m_block_infos t2)))
             (\<lambda>(pg, _).
                let new_perm = Perm_KernelRead OR Perm_NotMapped;
                    t3 = Operate_ChangePermissions src_address npages new_perm t2;
                    t4 = MapPageGroupImpl is_heap dst_address pg new_perm t3
                in R_TRY (update_blocks (Manager_Update src_allocator src_address npages src_state new_perm
                            Attr_Locked Merge_Locked Merge_None) t4)
                     (update_blocks (Manager_Update dst_allocator dst_address npages State_AliasCode new_perm
                        Attr_None Merge_Normal Merge_None))))))))"

definition UnmapCodeMemory ::
  "(u64 \<Rightarrow> bool) \<Rightarrow> u64 \<Rightarrow> u64 \<Rightarrow> u64 \<Rightarrow> 'g KPageTableBase \<Rightarrow> kernel_error + 'g KPageTableBase" where
  "UnmapCodeMemory is_heap dst_address src_address sz t =
     R_TRY (require_region dst_address sz State_AliasCode ResultInvalidMemoryRegion t)
       (\<lambda>_.
     R_TRY (CheckMemoryState src_address sz
         \<lparr> state_mask = State_All, want_state = State_Normal, perm_mask = Perm_None, want_perm = Perm_None,
           attr_mask = Attr_All, want_attr = Attr_Locked \<rparr> DefaultMemoryIgnoreAttr t)
       (\<lambda>(_, _, _, num_src_allocator_blocks).
     R_TRY (CheckMemoryStateContiguous dst_address sz
         \<lparr> state_mask = State_FlagCanCodeAlias, want_state = State_FlagCanCodeAlias, perm_mask = Perm_None,
           want_perm = Perm_None, attr_mask = Attr_All AND NOT Attr_PermissionLocked, want_attr = Attr_None \<rparr> t)
       (\<lambda>num_dst_allocator_blocks.
        let npages = sz div PageSize
        in R_TRY (map_sum fst id (MakePageGroup (m_impl t) is_heap [] dst_address npages (m_block_infos t)))
             (\<lambda>(pg, infos).
                if \<not> IsValidPageGroup (m_impl t) is_heap pg src_address npages then Inl (Failed ResultInvalidMemoryRegion)
                else
     R_TRY (new_allocator num_src_allocator_blocks t)
       (\<lambda>(src_allocator, t1).
     R_TRY (new_allocator num_dst_allocator_blocks t1)
       (\<lambda>(dst_allocator, t2).
          let t3 = (Operate_Unmap is_heap False dst_address npages (t2\<lparr> m_block_infos := infos \<rparr>))\<lparr> m_block_infos := m_block_infos t2 \<rparr>;
              t4 = Operate_ChangePermissions src_address npages Perm_UserReadWrite t3
          in R_TRY (update_blocks (Manager_Update dst_allocator dst_address npages State_None Perm_None
                      Attr_None Merge_None Merge_Normal) t4)
               (update_blocks (Manager_Update src_allocator src_address npages State_Normal Perm_UserReadWrite
                  Attr_None Merge_None Merge_Locked))))))))"

section \<open>Pages and page groups\<close>

definition UnmapPages ::
  "(u64 \<Rightarrow> bool) \<Rightarrow> u64 \<Rightarrow> u64 \<Rightarrow> u32 \<Rightarrow> 'g KPageTableBase \<Rightarrow> kernel_error + 'g KPageTableBase" where
  "UnmapPages is_heap address npages state t =
     (let sz = npages * PageSize
      in if \<not> Contains address sz t then Inl (Failed kernel_result.ResultInvalidCurrentMemory)
         else R_TRY (CheckMemoryState address sz
             \<lparr> state_mask = State_All, want_state = state, perm_mask = Perm_None, want_perm = Perm_None,
               attr_mask = Attr_All, want_attr = Attr_None \<rparr> DefaultMemoryIgnoreAttr t)
           (\<lambda>(_, _, _, num_allocator_blocks).
         R_TRY (new_allocator num_allocator_blocks t)
           (\<lambda>(al, t1). update_blocks (Manager_Update al address npages State_Free Perm_None Attr_None Merge_None Merge_Normal)
              (Operate_Unmap is_heap False address npages t1))))"

definition MapPageGroup ::
  "(u64 \<Rightarrow> bool) \<Rightarrow> u64 \<Rightarrow> KPageGroup \<Rightarrow> u32 \<Rightarrow> u8 \<Rightarrow> 'g KPageTableBase \<Rightarrow> kernel_error + 'g KPageTableBase" where
  "MapPageGroup is_heap addr pg state perm t =
     (let npages = PageGroup_GetNumPages pg; sz = npages * PageSize
      in R_TRY (require_region addr sz state kernel_result.ResultInvalidCurrentMemory t)
           (\<lambda>_.
         R_TRY (CheckMemoryState addr sz free_masks DefaultMemoryIgnoreAttr t)
           (\<lambda>(_, _, _, num_allocator_blocks).
         R_TRY (new_allocator num_allocator_blocks t)
           (\<lambda>(al, t1). update_blocks (Manager_Update al addr npages state perm Attr_None Merge_Normal Merge_None)
              (MapPageGroupImpl is_heap addr pg perm t1)))))"

definition UnmapPageGroup ::
  "(u64 \<Rightarrow> bool) \<Rightarrow> u64 \<Rightarrow> KPageGroup \<Rightarrow> u32 \<Rightarrow> 'g KPageTableBase \<Rightarrow> kernel_error + 'g KPageTableBase" where
  "UnmapPageGroup is_heap address pg state t =
     (let npages = PageGroup_GetNumPages pg; sz = npages * PageSize
      in R_TRY (require_region address sz state kernel_result.ResultInvalidCurrentMemory t)
           (\<lambda>_.
         R_TRY (CheckMemoryState address sz
             \<lparr> state_mask = State_All, want_state = state, perm_mask = Perm_None, want_perm = Perm_None,
               attr_mask = Attr_All, want_attr = Attr_None \<rparr> DefaultMemoryIgnoreAttr t)
           (\<lambda>(_, _, _, num_allocator_blocks).
         if \<not> IsValidPageGroup (m_impl t) is_heap pg address npages
         then Inl (Failed kernel_result.ResultInvalidCurrentMemory)
         else R_TRY (new_allocator num_allocator_blocks t)
           (\<lambda>(al, t1). update_blocks (Manager_Update al address npages State_Free Perm_None Attr_None Merge_None Merge_Normal)
              (Operate_Unmap is_heap False address npages t1)))))"

definition MakeAndOpenPageGroup ::
  "(u64 \<Rightarrow> bool) \<Rightarrow> KPageGroup \<Rightarrow> u64 \<Rightarrow> u64 \<Rightarrow> check_masks \<Rightarrow> 'g KPageTableBase \<Rightarrow>
   kernel_error + KPageGroup \<times> 'g KPageTableBase" where
  "MakeAndOpenPageGroup is_heap out address npages c t =
     (let sz = npages * PageSize
      in if \<not> Contains address sz t then Inl (Failed kernel_result.ResultInvalidCurrentMemory)
         else R_TRY (CheckMemoryState address sz (reference_counted c) DefaultMemoryIgnoreAttr t)
           (\<lambda>_.
         R_TRY (map_sum fst id (MakePageGroup (m_impl t) is_heap out address npages (m_block_infos t)))
           (\<lambda>(pg, infos). Inr (pg, t\<lparr> m_block_infos := infos, m_opened := m_opened t @ page_group_refs pg \<rparr>))))"

section \<open>System calls\<close>

definition Is4KBAligned :: "u64 \<Rightarrow> bool" where
  "Is4KBAligned v \<longleftrightarrow> v AND 0xFFF = 0"

definition IsValidAddressRange :: "u64 \<Rightarrow> u64 \<Rightarrow> bool" where
  "IsValidAddressRange address sz \<longleftrightarrow> address + sz > address"

definition MapUnmapMemorySanityChecks :: "u64 \<Rightarrow> u64 \<Rightarrow> u64 \<Rightarrow> 'g KPageTableBase \<Rightarrow> kernel_error + unit" where
  "MapUnmapMemorySanityChecks dst_addr src_addr sz t =
     (if \<not> Is4KBAligned dst_addr then Inl (Failed ResultInvalidAddress)
      else if \<not> Is4KBAligned src_addr then Inl (Failed ResultInvalidSize)
      else if sz = 0 then Inl (Failed ResultInvalidSize)
      else if \<not> Is4KBAligned sz then Inl (Failed ResultInvalidSize)
      else if \<not> IsValidAddressRange dst_addr sz then Inl (Failed kernel_result.ResultInvalidCurrentMemory)
      else if \<not> IsValidAddressRange src_addr sz then Inl (Failed kernel_result.ResultInvalidCurrentMemory)
      else if \<not> Contains src_addr sz t then Inl (Failed kernel_result.ResultInvalidCurrentMemory)
      else Inr ())"

definition svc_MapMemory ::
  "(u64 \<Rightarrow> bool) \<Rightarrow> u64 \<Rightarrow> u64 \<Rightarrow> u64 \<Rightarrow> 'g KPageTableBase \<Rightarrow> kernel_error + 'g KPageTableBase" where
  "svc_MapMemory is_heap dst_addr src_addr sz t =
     R_TRY (MapUnmapMemorySanityChecks dst_addr src_addr sz t) (\<lambda>_. MapMemory is_heap dst_addr src_addr sz t)"

definition svc_UnmapMemory ::
  "(u64 \<Rightarrow> bool) \<Rightarrow> u64 \<Rightarrow> u64 \<Rightarrow> u64 \<Rightarrow> 'g KPageTableBase \<Rightarrow> kernel_error + 'g KPageTableBase" where
  "svc_UnmapMemory is_heap dst_addr src_addr sz t =
     R_TRY (MapUnmapMemorySanityChecks dst_addr src_addr sz t) (\<lambda>_. UnmapMemory is_heap dst_addr src_addr sz t)"

end
