(* ===== verification/KPageGroupTargets.thy ===== *)
theory KPageGroupTargets
  imports KPageGroupProofs
begin

text \<open>
  Page groups and the pages they stand for: the group of a range lists the physical pages of
  the range in order, and it depends on nothing else.
\<close>

unbundle bit_operations_syntax

section \<open>Physical pages of a table\<close>

definition target :: "PageTable \<Rightarrow> nat \<Rightarrow> u64 option" where
  "target impl p =
     (if p < length (backing_addr impl) \<and> backing_addr impl ! p \<noteq> 0
      then Some (backing_addr impl ! p + of_nat p * PageSize) else None)"

lemma backed_target: "backed impl \<longleftrightarrow> page_size impl = PageSize \<and> (\<forall>p a. target impl p = Some a \<longrightarrow> phys_page a)"
  by (auto simp: backed_def target_def phys_page_def)

lemma traversal_target:
  assumes "page_size impl = PageSize" "in_step ctx"
  shows "ContinueTraversal impl ctx =
     (case target impl (unat (next_page ctx)) of
        None \<Rightarrow> (False, \<lparr> phys_addr = 0, block_size = PageSize \<rparr>, \<lparr> next_page = next_page ctx + 1, next_offset = next_offset ctx + PageSize \<rparr>)
      | Some a \<Rightarrow> (True, \<lparr> phys_addr = a, block_size = PageSize \<rparr>, \<lparr> next_page = next_page ctx + 1, next_offset = next_offset ctx + PageSize \<rparr>))"
  using assms by (auto simp: ContinueTraversal_def target_def in_step_def Let_def)

text \<open>Walking from page \<open>k\<close> on.\<close>

definition from_page :: "nat \<Rightarrow> TraversalContext" where
  "from_page k = \<lparr> next_page = of_nat k, next_offset = of_nat k * PageSize \<rparr>"

lemma from_page_step: "in_step (from_page k)"
  by (simp add: from_page_def in_step_def)

lemma traversal_from:
  assumes "page_size impl = PageSize" "k < 2 ^ 52"
  shows "ContinueTraversal impl (from_page k) =
     (case target impl k of
        None \<Rightarrow> (False, \<lparr> phys_addr = 0, block_size = PageSize \<rparr>, from_page (Suc k))
      | Some a \<Rightarrow> (True, \<lparr> phys_addr = a, block_size = PageSize \<rparr>, from_page (Suc k)))"
proof -
  have "unat (of_nat k :: u64) = k" using assms(2) by (simp add: unat_of_nat)
  then show ?thesis
    using traversal_target [OF assms(1) from_page_step, of k]
    by (auto simp: from_page_def distrib_right add.commute split: option.split)
qed

lemma begin_from:
  assumes "page_size impl = PageSize" "unat addr mod 4096 = 0"
  shows "BeginTraversal impl addr = ContinueTraversal impl (from_page (unat addr div 4096))"
proof -
  have p: "of_nat (unat addr div 4096) = addr div PageSize"
    by (simp flip: unat_div_PageSize)
  have "unat (addr div PageSize * PageSize) = unat addr"
    using assms(2) unsigned_less [of addr, where ?'a = nat] unat_pages [of "addr div PageSize"]
    by (simp add: unat_div_PageSize mod_eq_0_iff_dvd)
  then have "addr div PageSize * PageSize = addr" by (rule unsigned_word_eqI)
  then show ?thesis using assms(1) by (simp add: BeginTraversal_def from_page_def p)
qed

section \<open>Groups depend on the physical pages only\<close>

lemma loop_same_targets:
  assumes "page_size impl = PageSize" "page_size impl' = PageSize" "unat tot mod 4096 = 0" "unat sz = unat tot + 4096 * r"
    "k + r < 2 ^ 52" "k' + r < 2 ^ 52" "\<And>j. j < r \<Longrightarrow> target impl (k + j) = target impl' (k' + j)"
  shows "MakePageGroup_loop fuel impl is_heap sz (from_page k) ca cs tot pg av =
     MakePageGroup_loop fuel impl' is_heap sz (from_page k') ca cs tot pg av"
  using assms(3-7)
proof (induction fuel arbitrary: k k' r ca cs tot pg av)
  case (Suc fuel)
  show ?case
  proof (cases "tot < sz")
    case True
    obtain r' where r: "r = Suc r'" using True Suc.prems(2) by (cases r) (simp_all add: word_less_nat_alt)
    have sz: "unat sz mod 4096 = 0" using Suc.prems(1,2) by simp
    note tt = total_step [OF Suc.prems(1) sz True]
    have t: "target impl k = target impl' k'" using Suc.prems(5) [of 0] r by simp
    have "target impl (Suc k + j) = target impl' (Suc k' + j)" if "j < r'" for j
      using Suc.prems(5) [of "Suc j"] r that by simp
    then have IH: "MakePageGroup_loop fuel impl is_heap sz (from_page (Suc k)) ca cs (tot + PageSize) pg av =
        MakePageGroup_loop fuel impl' is_heap sz (from_page (Suc k')) ca cs (tot + PageSize) pg av" for ca cs pg av
      using Suc.IH [OF tt(3), of r' "Suc k" "Suc k'"] Suc.prems(2-4) r tt(1) by simp
    show ?thesis
      using traversal_from [OF assms(1), of k] traversal_from [OF assms(2), of k'] Suc.prems(3,4) t IH
      by (simp split: option.split sum.split)
  qed simp
qed simp

lemma group_same_targets:
  assumes "backed impl" "page_size impl' = PageSize" "unat addr mod 4096 = 0" "unat addr' mod 4096 = 0"
    "npages \<noteq> 0" "unat addr div 4096 + unat npages < 2 ^ 52" "unat addr' div 4096 + unat npages < 2 ^ 52"
    "\<And>j. j < unat npages \<Longrightarrow> target impl (unat addr div 4096 + j) = target impl' (unat addr' div 4096 + j)"
  shows "MakePageGroup impl is_heap pg addr npages av = MakePageGroup impl' is_heap pg addr' npages av"
proof -
  let ?k = "unat addr div 4096" and ?k' = "unat addr' div 4096" and ?sz = "npages * PageSize"
  have ps: "page_size impl = PageSize" using assms(1) by (simp add: backed_def)
  obtain r where r: "unat npages = Suc r" using assms(5) by (cases "unat npages") (simp_all add: unat_eq_0)
  have t: "target impl ?k = target impl' ?k'" using assms(8) [of 0] r by simp
  have c: "ContinueTraversal impl (from_page ?k) = (case target impl ?k of
        None \<Rightarrow> (False, \<lparr> phys_addr = 0, block_size = PageSize \<rparr>, from_page (Suc ?k))
      | Some a \<Rightarrow> (True, \<lparr> phys_addr = a, block_size = PageSize \<rparr>, from_page (Suc ?k)))"
    "ContinueTraversal impl' (from_page ?k') = (case target impl ?k of
        None \<Rightarrow> (False, \<lparr> phys_addr = 0, block_size = PageSize \<rparr>, from_page (Suc ?k'))
      | Some a \<Rightarrow> (True, \<lparr> phys_addr = a, block_size = PageSize \<rparr>, from_page (Suc ?k')))"
    using traversal_from [OF ps, of ?k] traversal_from [OF assms(2), of ?k'] assms(6,7) t by simp_all
  have "unat ?sz = 4096 * Suc r" using unat_pages [of npages] assms(6) r by simp
  then have "unat ?sz = unat PageSize + 4096 * r" by (simp add: PageSize_unat)
  moreover have "target impl (Suc ?k + j) = target impl' (Suc ?k' + j)" if "j < r" for j
    using assms(8) [of "Suc j"] r that by simp
  ultimately have loop: "MakePageGroup_loop fuel impl is_heap ?sz (from_page (Suc ?k)) ca cs PageSize pg av =
      MakePageGroup_loop fuel impl' is_heap ?sz (from_page (Suc ?k')) ca cs PageSize pg av" for fuel ca cs pg av
    using loop_same_targets [OF ps assms(2), of PageSize ?sz r "Suc ?k" "Suc ?k'"] assms(6,7) r by (simp add: PageSize_unat)
  have size: "PageSize - (a AND (PageSize - 1)) = PageSize" if "target impl ?k = Some a" for a
    using first_entry(3) [OF assms(1,3), of True] begin_from [OF ps assms(3)] c(1) that by simp
  show ?thesis
    unfolding MakePageGroup_def Let_def begin_from [OF ps assms(3)] begin_from [OF assms(2,4)] c
    using loop size by (cases "target impl ?k") (simp_all del: MakePageGroup_loop.simps)
qed

section \<open>The pages of a group\<close>

definition run_pages :: "u64 \<Rightarrow> u64 \<Rightarrow> u64 list" where
  "run_pages ca cs = map (\<lambda>i. ca + of_nat i * PageSize) [0..<unat cs div 4096]"

definition group_pages :: "KPageGroup \<Rightarrow> u64 list" where
  "group_pages pg = concat (map (\<lambda>b. run_pages (BlockInfo_GetAddress b) (BlockInfo_GetSize b)) pg)"

definition sound_block :: "KBlockInfo \<Rightarrow> bool" where
  "sound_block b \<longleftrightarrow> run_ok (BlockInfo_GetAddress b) (BlockInfo_GetSize b)"

lemma run_page_list: "run_pages a PageSize = [a]"
  by (simp add: run_pages_def PageSize_unat)

lemma run_pages_extend:
  assumes "run_ok ca cs"
  shows "run_pages ca (cs + PageSize) = run_pages ca cs @ [ca + cs]"
proof -
  have u: "unat (cs + PageSize) = unat cs + 4096"
    using assms unat_add_small [of cs PageSize] by (simp add: run_ok_def PageSize_unat)
  have "unat (cs div PageSize * PageSize) = unat cs"
    using assms unat_pages [of "cs div PageSize"] by (simp add: unat_div_PageSize run_ok_def mod_eq_0_iff_dvd)
  then have "cs div PageSize * PageSize = cs" by (rule unsigned_word_eqI)
  moreover have "of_nat (unat cs div 4096) = cs div PageSize" by (simp flip: unat_div_PageSize)
  ultimately have "(of_nat (unat cs div 4096) :: u64) * PageSize = cs" by simp
  moreover have "(unat cs + 4096) div 4096 = Suc (unat cs div 4096)" by simp
  ultimately show ?thesis by (simp only: run_pages_def u upt_Suc zero_le if_True map_append list.map)
qed

lemma run_block_pages:
  assumes "run_ok ca cs"
  shows "group_pages [BlockInfo_Initialize ca (cs div PageSize)] = run_pages ca cs"
    "sound_block (BlockInfo_Initialize ca (cs div PageSize))"
proof -
  have "unat (cs div PageSize * PageSize) = unat cs"
    using assms unat_pages [of "cs div PageSize"] by (simp add: unat_div_PageSize run_ok_def mod_eq_0_iff_dvd)
  then have "cs div PageSize * PageSize = cs" by (rule unsigned_word_eqI)
  then have "BlockInfo_GetSize (BlockInfo_Initialize ca (cs div PageSize)) = cs"
    by (simp add: BlockInfo_GetSize_def run_block [OF assms])
  then show "group_pages [BlockInfo_Initialize ca (cs div PageSize)] = run_pages ca cs"
    "sound_block (BlockInfo_Initialize ca (cs div PageSize))"
    using assms by (simp_all add: group_pages_def sound_block_def run_block [OF assms])
qed

lemma group_pages_Nil: "group_pages [] = []"
  by (simp add: group_pages_def)

lemma group_pages_append: "group_pages (xs @ ys) = group_pages xs @ group_pages ys"
  by (simp add: group_pages_def)

text \<open>The pages still to be read, from page \<open>k\<close> on.\<close>

definition targets :: "PageTable \<Rightarrow> nat \<Rightarrow> nat \<Rightarrow> u64 list" where
  "targets impl k n = map (\<lambda>i. the (target impl i)) [k..<k + n]"

lemma targets_Suc: "targets impl k (Suc n) = the (target impl k) # targets impl (Suc k) n"
  by (simp add: targets_def upt_conv_Cons del: upt_Suc)

lemma make_loop_pages:
  assumes "backed impl" "run_ok ca cs" "unat tot mod 4096 = 0" "unat sz = unat tot + 4096 * r" "k + r < 2 ^ 52"
    "fresh_run ca pg" "\<forall>b\<in>set pg. sound_block b"
    "MakePageGroup_loop fuel impl is_heap sz (from_page k) ca cs tot pg av = Inr (ca', cs', tot', pg', av')"
  shows "group_pages pg' @ run_pages ca' cs' = group_pages pg @ run_pages ca cs @ targets impl k r \<and>
     (\<forall>b\<in>set pg'. sound_block b) \<and> (\<forall>i. k \<le> i \<longrightarrow> i < k + r \<longrightarrow> target impl i \<noteq> None)"
  using assms(2-)
proof (induction fuel arbitrary: k r ca cs tot pg av)
  case (Suc fuel)
  have ps: "page_size impl = PageSize" using assms(1) by (simp add: backed_def)
  show ?case
  proof (cases "tot < sz")
    case False
    then have "r = 0" using Suc.prems(3) by (simp add: word_less_nat_alt)
    then show ?thesis using False Suc.prems by (simp add: targets_def)
  next
    case True
    obtain r' where r: "r = Suc r'" using True Suc.prems(3) by (cases r) (simp_all add: word_less_nat_alt)
    have sz: "unat sz mod 4096 = 0" using Suc.prems(2,3) by simp
    note tt = total_step [OF Suc.prems(2) sz True]
    obtain a where a: "target impl k = Some a"
      using Suc.prems(4,7) True traversal_from [OF ps, of k] by (cases "target impl k") simp_all
    have c: "ContinueTraversal impl (from_page k) = (True, \<lparr> phys_addr = a, block_size = PageSize \<rparr>, from_page (Suc k))"
      using traversal_from [OF ps, of k] Suc.prems(4) a by simp
    have pp: "phys_page a" using assms(1) a by (auto simp: backed_target)
    have rest: "unat sz = unat (tot + PageSize) + 4096 * r'" "Suc k + r' < 2 ^ 52"
      using Suc.prems(3,4) r tt(1) by simp_all
    have ts: "targets impl k r = a # targets impl (Suc k) r'" using a r by (simp add: targets_Suc)
    have all: "target impl i \<noteq> None"
      if "\<forall>i. Suc k \<le> i \<longrightarrow> i < Suc k + r' \<longrightarrow> target impl i \<noteq> None" "k \<le> i" "i < k + r" for i
      using a r that by (cases "i = k") simp_all
    show ?thesis
    proof (cases "a = ca + cs")
      case ext: True
      have "MakePageGroup_loop fuel impl is_heap sz (from_page (Suc k)) ca (cs + PageSize) (tot + PageSize) pg av =
          Inr (ca', cs', tot', pg', av')"
        using Suc.prems(7) True c ext by simp
      moreover have "run_ok ca (cs + PageSize)" using run_extend [OF Suc.prems(1)] pp ext by simp
      ultimately have ih: "group_pages pg' @ run_pages ca' cs' = group_pages pg @ run_pages ca (cs + PageSize) @ targets impl (Suc k) r'"
        "\<forall>b\<in>set pg'. sound_block b" "\<forall>i. Suc k \<le> i \<longrightarrow> i < Suc k + r' \<longrightarrow> target impl i \<noteq> None"
        using Suc.IH [OF _ tt(3) rest Suc.prems(5,6)] by simp_all
      show ?thesis
        using ih(2) all [OF ih(3)] by (simp add: ih(1) run_pages_extend [OF Suc.prems(1)] ext ts)
    next
      case new: False
      obtain pg1 av1 where b: "AddBlock ca (cs div PageSize) av pg = Inr (pg1, av1)"
        and m: "MakePageGroup_loop fuel impl is_heap sz (from_page (Suc k)) a PageSize (tot + PageSize) pg1 av1 =
          Inr (ca', cs', tot', pg', av')"
        using Suc.prems(7) True c new by (auto split: sum.splits if_splits)
      note pg1 = AddBlock_run [OF Suc.prems(1,5) b] and rb = run_block_pages [OF Suc.prems(1)]
      have "fresh_run a pg1" "\<forall>b\<in>set pg1. sound_block b"
        using pg1 run_block(3) [OF Suc.prems(1)] new rb(2) Suc.prems(6) by (simp_all add: fresh_run_def)
      note ih = Suc.IH [OF run_page [OF pp] tt(3) rest this m]
      have "group_pages pg1 = group_pages pg @ run_pages ca cs" using pg1 rb(1) by (simp add: group_pages_append)
      then show ?thesis using ih all by (simp only: ts run_page_list append.assoc append.simps simp_thms) blast
    qed
  qed
qed simp

lemma made_group_pages:
  assumes "backed impl" "unat addr mod 4096 = 0" "npages \<noteq> 0" "unat addr div 4096 + unat npages < 2 ^ 52"
    "MakePageGroup impl is_heap [] addr npages av = Inr (pg, av')"
  shows "group_pages pg = targets impl (unat addr div 4096) (unat npages)" "\<forall>b\<in>set pg. sound_block b"
    "\<forall>i. unat addr div 4096 \<le> i \<longrightarrow> i < unat addr div 4096 + unat npages \<longrightarrow> target impl i \<noteq> None"
proof -
  let ?k = "unat addr div 4096" and ?sz = "npages * PageSize"
  have ps: "page_size impl = PageSize" using assms(1) by (simp add: backed_def)
  obtain r where r: "unat npages = Suc r" using assms(3) by (cases "unat npages") (simp_all add: unat_eq_0)
  have sz: "unat ?sz = 4096 * Suc r" using unat_pages [of npages] assms(4) r by simp
  then have pre: "unat ?sz = unat PageSize + 4096 * r" "unat PageSize mod 4096 = 0" "unat PageSize \<le> unat ?sz" "unat ?sz mod 4096 = 0"
    by (simp_all add: PageSize_unat)
  obtain a where a: "target impl ?k = Some a"
    using assms(4,5) traversal_from [OF ps, of ?k] begin_from [OF ps assms(2)]
    by (cases "target impl ?k") (auto simp: MakePageGroup_def Let_def)
  have c: "BeginTraversal impl addr = (True, \<lparr> phys_addr = a, block_size = PageSize \<rparr>, from_page (Suc ?k))"
    using traversal_from [OF ps, of ?k] begin_from [OF ps assms(2)] assms(4) a by simp
  note fe = first_entry [OF assms(1,2) c]
  have size: "PageSize - (a AND (PageSize - 1)) = PageSize" "run_ok a PageSize" using fe(2,3) by simp_all
  obtain ca cs tot pg1 av1 where m:
    "MakePageGroup_loop (unat npages + 1) impl is_heap ?sz (from_page (Suc ?k)) a PageSize PageSize [] av =
       Inr (ca, cs, tot, pg1, av1)"
    "AddBlock ca ((if tot > ?sz then cs - (tot - ?sz) else cs) div PageSize) av1 pg1 = Inr (pg, av')"
    using assms(5) unfolding MakePageGroup_def Let_def c prod.case TraversalEntry.select_convs size
    by (auto simp: map_sum_Inr_iff simp del: MakePageGroup_loop.simps split: if_splits sum.splits)
  have fr: "fresh_run a []" "\<forall>b\<in>set []. sound_block b" by (simp_all add: fresh_run_def)
  have l: "run_ok ca cs" "fresh_run ca pg1" "tot = ?sz"
    using make_then_test [OF assms(1) pre(4) from_page_step size(2) pre(2,3) fr(1) m(1)] by blast+
  have "Suc ?k + r < 2 ^ 52" using assms(4) r by simp
  note g = make_loop_pages [OF assms(1) size(2) pre(2,1) this fr m(1)]
  have pg: "pg = pg1 @ [BlockInfo_Initialize ca (cs div PageSize)]" using AddBlock_run [OF l(1,2)] m(2) l(3) by simp
  show "group_pages pg = targets impl ?k (unat npages)"
    using g a r group_pages_Nil by (simp add: pg group_pages_append run_block_pages [OF l(1)] targets_Suc run_page_list)
  show "\<forall>b\<in>set pg. sound_block b" using g run_block_pages(2) [OF l(1)] by (simp add: pg)
  have "target impl i \<noteq> None" if "?k \<le> i" "i < ?k + unat npages" for i
    using g a r that by (cases "i = ?k") simp_all
  then show "\<forall>i. ?k \<le> i \<longrightarrow> i < ?k + unat npages \<longrightarrow> target impl i \<noteq> None" by blast
qed

end
