(* ===== verification/GuestMemoryWalk.thy ===== *)
theory GuestMemoryWalk
  imports GuestMemory
begin

text \<open>
  The well-formedness of the guest memory state and what a walk over a block does in it:
  each turn of the loop handles the rest of one page through the pointer that address
  translation gives for its first byte. Addresses are natural numbers here.
\<close>

unbundle bit_operations_syntax

section \<open>Page entries\<close>

lemma page_constants [simp]:
  "YUZU_PAGEBITS = 12" "YUZU_PAGESIZE = 4096" "YUZU_PAGEMASK = 4095" "ATTRIBUTE_BITS = 2"
  by (simp_all add: YUZU_PAGEBITS_def YUZU_PAGESIZE_def YUZU_PAGEMASK_def ATTRIBUTE_BITS_def)

lemma ExtractPointer_bits: "bit (ExtractPointer w) n \<longleftrightarrow> bit w n \<and> 2 \<le> n"
  by (auto simp: ExtractPointer_def bit_simps dest: bit_imp_le_length)

lemma PageType_code_take: "take_bit 2 (PageType_code t) = PageType_code t"
  by (cases t) simp_all

lemma PageType_code_bit: "bit (PageType_code t) n \<Longrightarrow> n < 2"
  using PageType_code_take [of t] by (metis bit_take_bit_iff)

lemma PageInfo_pointer:
  assumes "take_bit 2 p = 0"
  shows "ExtractPointer (PageInfo_Store p t) = p"
proof (rule bit_word_eqI)
  fix n
  have "bit p n \<Longrightarrow> 2 \<le> n" using assms by (metis bit_take_bit_iff bit_0_eq bot_apply bot_bool_def not_le)
  then show "bit (ExtractPointer (PageInfo_Store p t)) n = bit p n"
    using PageType_code_bit [of t n] by (auto simp: ExtractPointer_bits PageInfo_Store_def bit_simps)
qed

lemma PageInfo_type:
  assumes "take_bit 2 p = 0"
  shows "ExtractType (PageInfo_Store p t) = t"
proof -
  have "(p OR PageType_code t) AND 3 = take_bit 2 (p OR PageType_code t)"
    by (simp add: take_bit_eq_mask mask_eq_exp_minus_1)
  also have "\<dots> = PageType_code t" using assms PageType_code_take by simp
  finally show ?thesis by (cases t) (simp_all add: ExtractType_def PageInfo_Store_def)
qed

section \<open>Well-formed memory\<close>

abbreviation page_count :: "'g Memory_Impl \<Rightarrow> nat" where
  "page_count m \<equiv> length (pointers (current_page_table m))"

definition page_kind :: "'g Memory_Impl \<Rightarrow> nat \<Rightarrow> PageType" where
  "page_kind m i = ExtractType (pointers (current_page_table m) ! i)"

text \<open>The physical address of a page and its host pointer less its virtual address.\<close>

definition page_phys :: "'g Memory_Impl \<Rightarrow> nat \<Rightarrow> u64" where
  "page_phys m i = backing_addr (current_page_table m) ! i + word_of_nat (4096 * i)"

definition page_rel :: "'g Memory_Impl \<Rightarrow> nat \<Rightarrow> u64" where
  "page_rel m i = backing_base m + backing_addr (current_page_table m) ! i - DramBase"

definition page_ok :: "'g Memory_Impl \<Rightarrow> nat \<Rightarrow> bool" where
  "page_ok m i \<longleftrightarrow>
     (page_kind m i \<noteq> Unmapped \<longrightarrow>
        backing_addr (current_page_table m) ! i \<noteq> 0 \<and> page_rel m i \<noteq> 0 \<and>
        unat (page_phys m i) mod 4096 = 0 \<and> unat DramBase \<le> unat (page_phys m i) \<and>
        unat (page_phys m i) + 4096 \<le> unat DramBase + backing_size m) \<and>
     ExtractPointer (pointers (current_page_table m) ! i) =
       (if page_kind m i = Memory then page_rel m i else 0)"

definition mem_wf :: "'g Memory_Impl \<Rightarrow> bool" where
  "mem_wf m \<longleftrightarrow>
     (let pt = current_page_table m; bits = current_address_space_width_in_bits pt
      in 12 \<le> bits \<and> bits \<le> 48 \<and> length (pointers pt) = 2 ^ (bits - 12) \<and>
         length (backing_addr pt) = 2 ^ (bits - 12) \<and> length (blocks pt) = 2 ^ (bits - 12) \<and>
         page_size pt = 4096) \<and>
     backing_base m \<noteq> 0 \<and> unat (backing_base m) mod 4096 = 0 \<and>
     unat (backing_base m) + backing_size m < 2 ^ 64 \<and>
     list_all (page_ok m) [0..<page_count m]"

text \<open>Address translation, byte by byte.\<close>

definition mapped :: "'g Memory_Impl \<Rightarrow> nat \<Rightarrow> bool" where
  "mapped m a \<longleftrightarrow> page_kind m (a div 4096) \<noteq> Unmapped"

definition guest_ptr :: "'g Memory_Impl \<Rightarrow> nat \<Rightarrow> u64" where
  "guest_ptr m a = page_rel m (a div 4096) + word_of_nat a"

definition guest_byte :: "'g Memory_Impl \<Rightarrow> nat \<Rightarrow> u8" where
  "guest_byte m a = (if mapped m a then host_memory m (guest_ptr m a) else 0)"

lemma mem_wf_page: "mem_wf m \<Longrightarrow> i < page_count m \<Longrightarrow> page_ok m i"
  by (simp add: mem_wf_def list_all_iff)

lemma mem_wf_count:
  assumes "mem_wf m"
  shows "page_count m \<le> 2 ^ 36"
proof -
  let ?b = "current_address_space_width_in_bits (current_page_table m)"
  have "page_count m = 2 ^ (?b - 12)" "?b \<le> 48" using assms by (simp_all add: mem_wf_def Let_def)
  moreover have "?b - 12 \<le> 36" using calculation(2) by simp
  ultimately show ?thesis by (metis one_le_numeral power_increasing)
qed

lemma mem_wf_backing: "mem_wf m \<Longrightarrow> unat (backing_base m) + backing_size m < 2 ^ 64"
  by (simp add: mem_wf_def)

lemma guest_ptr_add:
  assumes "a mod 4096 + i < 4096"
  shows "guest_ptr m (a + i) = guest_ptr m a + word_of_nat i" "mapped m (a + i) = mapped m a"
proof -
  have "(a + i) div 4096 = a div 4096" using assms by (rule div_same)
  then show "guest_ptr m (a + i) = guest_ptr m a + word_of_nat i" "mapped m (a + i) = mapped m a"
    by (simp_all add: guest_ptr_def mapped_def)
qed

lemma guest_ptr_unat:
  assumes "mem_wf m" "a div 4096 < page_count m" "mapped m a"
  shows "unat (guest_ptr m a) =
    unat (backing_base m) + (unat (page_phys m (a div 4096)) - unat DramBase) + a mod 4096"
    (is "_ = ?n")
proof -
  let ?i = "a div 4096"
  have ok: "unat DramBase \<le> unat (page_phys m ?i)"
    "unat (page_phys m ?i) + 4096 \<le> unat DramBase + backing_size m"
    using mem_wf_page [OF assms(1,2)] assms(3) by (auto simp: page_ok_def mapped_def)
  have "a mod 4096 < 4096" by simp
  then have lt: "?n < 2 ^ 64" using ok mem_wf_backing [OF assms(1)] by linarith
  have "word_of_nat a = (word_of_nat (4096 * ?i) + word_of_nat (a mod 4096) :: u64)"
    by (metis mult_div_mod_eq of_nat_add)
  then have "guest_ptr m a = backing_base m + (page_phys m ?i - DramBase) + word_of_nat (a mod 4096)"
    by (simp add: guest_ptr_def page_rel_def page_phys_def)
  also have "page_phys m ?i - DramBase = word_of_nat (unat (page_phys m ?i) - unat DramBase)"
    using ok(1) by (simp add: of_nat_diff)
  finally have "guest_ptr m a = word_of_nat ?n" by simp
  then show ?thesis using unat_u64_of_nat [OF lt] by (simp only:)
qed

lemma guest_ptr_nonnull:
  assumes "mem_wf m" "a div 4096 < page_count m" "mapped m a"
  shows "guest_ptr m a \<noteq> 0"
proof -
  have "0 < unat (backing_base m)" using assms(1) by (simp add: mem_wf_def unat_gt_0)
  then have "0 < unat (guest_ptr m a)" using guest_ptr_unat [OF assms] by simp
  then show ?thesis by auto
qed

section \<open>The walk\<close>

lemma word_split:
  assumes "a < 2 ^ 48"
  shows "push_bit 12 (word_of_nat (a div 4096) :: u64) + ucast (word_of_nat (a mod 4096) :: 12 word) = word_of_nat a"
    "unat (word_of_nat (a div 4096) :: u64) = a div 4096"
    "unat (word_of_nat (a mod 4096) :: 12 word) = a mod 4096"
proof -
  show d: "unat (word_of_nat (a div 4096) :: u64) = a div 4096"
    using assms by (intro unat_u64_of_nat) (simp add: div_le_dividend order_le_less_trans)
  show r: "unat (word_of_nat (a mod 4096) :: 12 word) = a mod 4096"
    by (rule unat_word_of_nat) simp
  have "(ucast (word_of_nat (a mod 4096) :: 12 word) :: u64) = word_of_nat (a mod 4096)"
    by (simp add: word_unat_eq_iff unsigned_ucast_eq r unat_u64_of_nat take_bit_nat_eq_self
        mod_less_divisor [THEN order_less_trans])
  moreover have "push_bit 12 (word_of_nat (a div 4096) :: u64) = word_of_nat (4096 * (a div 4096))"
    by (simp add: push_bit_eq_mult)
  ultimately show "push_bit 12 (word_of_nat (a div 4096) :: u64) + ucast (word_of_nat (a mod 4096) :: 12 word) = word_of_nat a"
    by (metis mult_div_mod_eq of_nat_add)
qed

lemma unat_page_of_nat: "a < 2 ^ 48 \<Longrightarrow> unat (drop_bit 12 (word_of_nat a :: u64)) = a div 4096"
  using unat_drop_page [of "word_of_nat a"] unat_u64_of_nat [of a] by simp

text \<open>The loop at the natural address \<open>a\<close>.\<close>

definition walk_at ::
  "('g, 'c) callbacks \<Rightarrow> nat \<Rightarrow> nat \<Rightarrow> bool \<Rightarrow> 'g Memory_Impl \<times> 'c \<Rightarrow> 'g failure + bool \<times> 'g Memory_Impl \<times> 'c" where
  "walk_at cb n a ua s =
     WalkBlock_loop cb n (word_of_nat (a div 4096)) (word_of_nat (a mod 4096)) ua s"

definition page_chunk :: "nat \<Rightarrow> nat \<Rightarrow> nat" where
  "page_chunk a n = min (4096 - a mod 4096) n"

lemma page_chunk_bounds:
  "0 < n \<Longrightarrow> 0 < page_chunk a n" "page_chunk a n \<le> n" "i < page_chunk a n \<Longrightarrow> a mod 4096 + i < 4096"
  by (auto simp: page_chunk_def)

definition page_step ::
  "('g, 'c) callbacks \<Rightarrow> nat \<Rightarrow> nat \<Rightarrow> 'g Memory_Impl \<times> 'c \<Rightarrow> 'g failure + 'g Memory_Impl \<times> 'c" where
  "page_step cb n a s =
     (case page_kind (fst s) (a div 4096) of
        Unmapped \<Rightarrow> on_unmapped cb n (word_of_nat a) s
      | RasterizerCachedMemory \<Rightarrow> on_rasterizer cb (word_of_nat a) n (guest_ptr (fst s) a) s
      | _ \<Rightarrow> on_memory cb n (guest_ptr (fst s) a) s)"

lemma backing_pointer:
  assumes "mem_wf m" "a div 4096 < page_count m" "a < 2 ^ 48" "mapped m a"
  shows "GetPointerFromDebugMemory m (word_of_nat a) = guest_ptr m a"
    "GetPointerFromRasterizerCachedMemory m (word_of_nat a) = guest_ptr m a"
  using mem_wf_page [OF assms(1,2)] assms(4)
  by (simp_all add: GetPointerFromDebugMemory_def GetPointerFromRasterizerCachedMemory_def
      unat_page_of_nat [OF assms(3)] page_ok_def mapped_def guest_ptr_def page_rel_def
      DeviceMemory_GetPointer_def)

lemma WalkBlock_page_eq:
  assumes "mem_wf (fst s)" "a div 4096 < page_count (fst s)" "a < 2 ^ 48"
  shows "WalkBlock_page cb n (word_of_nat (a div 4096)) (word_of_nat (a mod 4096)) s = page_step cb n a s"
proof -
  let ?m = "fst s" and ?i = "a div 4096"
  note w = word_split [OF assms(3)]
  have k: "ExtractType (pointers (current_page_table ?m) ! ?i) = page_kind ?m ?i"
    by (simp add: page_kind_def)
  have p: "ExtractPointer (pointers (current_page_table ?m) ! ?i) + ucast (word_of_nat (a mod 4096) :: 12 word) +
      push_bit 12 (word_of_nat ?i) = guest_ptr ?m a" if "page_kind ?m ?i = Memory"
    using mem_wf_page [OF assms(1,2)] that w(1) by (simp add: page_ok_def guest_ptr_def add_ac)
  show ?thesis
    using backing_pointer [OF assms] p
    by (cases "page_kind ?m ?i")
      (simp_all add: WalkBlock_page_def page_step_def Let_def w k mapped_def)
qed

lemma walk_at_0 [simp]: "walk_at cb 0 a ua s = Inr (ua, s)"
  by (simp add: walk_at_def WalkBlock_loop.simps)

lemma walk_at_step:
  assumes "mem_wf (fst s)" "0 < n" "a + n \<le> 4096 * page_count (fst s)"
  shows "walk_at cb n a ua s =
    (case page_step cb (page_chunk a n) a s of
       Inl e \<Rightarrow> Inl e
     | Inr (m, c) \<Rightarrow>
         walk_at cb (n - page_chunk a n) (a + page_chunk a n) (ua \<and> mapped (fst s) a)
           (m, increment cb (page_chunk a n) c))"
proof -
  have pc: "a div 4096 < page_count (fst s)"
    using assms(2,3) by (metis add_lessD1 less_add_same_cancel1 less_mult_imp_div_less mult.commute order_less_le_trans)
  have a48: "a < 2 ^ 48" using mem_wf_count [OF assms(1)] assms(2,3) by simp
  note w = word_split [OF a48]
  have ca: "copy_amount (word_of_nat (a mod 4096)) n = page_chunk a n"
    by (simp add: copy_amount_def page_chunk_def w)
  have mp: "(ExtractType (pointers (current_page_table (fst s)) ! unat (word_of_nat (a div 4096) :: u64)) \<noteq> Unmapped) =
      mapped (fst s) a"
    by (simp add: mapped_def page_kind_def w)
  have nxt: "WalkBlock_loop cb (n - page_chunk a n) (word_of_nat (a div 4096) + 1) 0 ok s' =
      walk_at cb (n - page_chunk a n) (a + page_chunk a n) ok s'" for ok s'
  proof (cases "n - page_chunk a n = 0")
    case True
    then show ?thesis by (simp add: walk_at_def WalkBlock_loop.simps)
  next
    case False
    then have c: "page_chunk a n = 4096 - a mod 4096" by (simp add: page_chunk_def min_def split: if_splits)
    have "a + page_chunk a n = 4096 * (a div 4096 + 1)"
      unfolding c using mod_less_divisor [of 4096 a] mult_div_mod_eq [of 4096 a]
      by (simp del: mod_less_divisor; linarith)
    then have "(a + page_chunk a n) div 4096 = a div 4096 + 1" "(a + page_chunk a n) mod 4096 = 0" by simp_all
    then show ?thesis by (simp add: walk_at_def add.commute)
  qed
  show ?thesis
    using assms(2) unfolding walk_at_def
    by (subst WalkBlock_loop.simps)
      (simp add: Let_def ca mp nxt [unfolded walk_at_def] WalkBlock_page_eq [OF assms(1) pc a48]
        split: sum.split)
qed

lemma WalkBlock_walk_at:
  assumes "mem_wf (fst s)" "AddressSpaceContains (current_page_table (fst s)) addr len"
  shows "WalkBlock cb addr len s = walk_at cb (unat len) (unat addr) True s"
    "unat addr + unat len \<le> 4096 * page_count (fst s)"
proof -
  let ?bits = "current_address_space_width_in_bits (current_page_table (fst s))"
  have b: "12 \<le> ?bits" "?bits \<le> 48" "page_count (fst s) = 2 ^ (?bits - 12)"
    using assms(1) by (simp_all add: mem_wf_def Let_def)
  have "unat (addr + len) = unat addr + unat len"
    using assms(2) by (simp add: AddressSpaceContains_def Let_def unat_plus_simple [symmetric] word_le_nat_alt)
  moreover have "unat (push_bit ?bits 1 :: u64) = 2 ^ ?bits"
    using b(2) by (intro unat_push_bit_1) simp
  moreover have "(2 :: nat) ^ ?bits = 4096 * 2 ^ (?bits - 12)"
    using b(1) power_add [of "2 :: nat" 12 "?bits - 12"] by simp
  ultimately show "unat addr + unat len \<le> 4096 * page_count (fst s)"
    using assms(2) b(3) by (simp add: AddressSpaceContains_def GetAddressSpaceBits_def Let_def word_le_nat_alt)
  show "WalkBlock cb addr len s = walk_at cb (unat len) (unat addr) True s"
    using assms(2) by (simp only: WalkBlock_def walk_at_def page_constants drop_page page_offset_word simp_thms if_False)
qed

end
