(* ===== verification/GuestMemoryBlocks.thy ===== *)
theory GuestMemoryBlocks
  imports GuestMemoryWalk
begin

text \<open>
  Reading, writing and copying blocks of guest memory against the byte-wise address
  translation: a block read returns the translated bytes, a block write changes exactly the
  translated bytes, and \<^verbatim>\<open>CopyBlock\<close> does not copy.
\<close>

unbundle bit_operations_syntax

section \<open>Reading\<close>

text \<open>A range is plain for a walk when no page of it needs the GPU.\<close>

definition plain_range :: "'g Memory_Impl \<Rightarrow> nat \<Rightarrow> nat \<Rightarrow> bool" where
  "plain_range m a n \<longleftrightarrow> (\<forall>i < n. page_kind m ((a + i) div 4096) \<noteq> RasterizerCachedMemory)"

lemma plain_range_parts:
  assumes "plain_range m a n" "k \<le> n"
  shows "plain_range m (a + k) (n - k)" "0 < n \<Longrightarrow> page_kind m (a div 4096) \<noteq> RasterizerCachedMemory"
proof -
  show "plain_range m (a + k) (n - k)"
    unfolding plain_range_def
  proof (intro allI impI)
    fix i assume "i < n - k"
    then have "k + i < n" by simp
    with assms(1) have "page_kind m ((a + (k + i)) div 4096) \<noteq> RasterizerCachedMemory"
      unfolding plain_range_def by blast
    then show "page_kind m ((a + k + i) div 4096) \<noteq> RasterizerCachedMemory" by (simp add: add.assoc)
  qed
  show "page_kind m (a div 4096) \<noteq> RasterizerCachedMemory" if "0 < n"
    using assms(1) that unfolding plain_range_def by (metis add_0_right)
qed

lemma upt_split: "k \<le> n \<Longrightarrow> map f [0..<n] = map f [0..<k] @ map (\<lambda>i. f (k + i)) [0..<n - k]"
proof -
  assume "k \<le> n"
  then have "[0..<n] = [0..<k] @ [k..<n]" by (metis le0 le_add_diff_inverse upt_add_eq_append)
  moreover have "map f [k..<n] = map (\<lambda>i. f (k + i)) [0..<n - k]"
    using \<open>k \<le> n\<close> by (intro nth_equalityI) simp_all
  ultimately show ?thesis by simp
qed

lemma all_split: "k \<le> n \<Longrightarrow> (\<forall>i < n. P i) \<longleftrightarrow> (\<forall>i < k. P i) \<and> (\<forall>i < n - k. P (k + i :: nat))"
  by (metis add_diff_inverse_nat less_diff_conv2 add.commute less_diff_conv not_less order_less_le_trans)

lemma chunk_bytes:
  assumes "mapped m a" "\<And>i. i < k \<Longrightarrow> a mod 4096 + i < 4096"
  shows "read_host (host_memory m) (guest_ptr m a) k = map (\<lambda>i. guest_byte m (a + i)) [0..<k]"
  using assms by (auto simp: read_host_def guest_byte_def guest_ptr_add)

lemma chunk_unmapped:
  assumes "\<not> mapped m a" "\<And>i. i < k \<Longrightarrow> a mod 4096 + i < 4096"
  shows "replicate k 0 = map (\<lambda>i. guest_byte m (a + i)) [0..<k]"
  using assms by (intro nth_equalityI) (auto simp: guest_byte_def guest_ptr_add)

lemma read_page_step:
  assumes "mem_wf m" "a div 4096 < page_count m" "UNSAFE \<or> page_kind m (a div 4096) \<noteq> RasterizerCachedMemory"
    "\<And>i. i < k \<Longrightarrow> a mod 4096 + i < 4096"
  shows "page_step (ReadBlock_callbacks UNSAFE gpu) k a (m, out) =
    Inr (m, out @ map (\<lambda>i. guest_byte m (a + i)) [0..<k])"
proof (cases "mapped m a")
  case True
  have "guest_ptr m a \<noteq> 0" by (rule guest_ptr_nonnull [OF assms(1,2) True])
  then show ?thesis
    using assms(3) True chunk_bytes [OF True assms(4)]
    by (cases "page_kind m (a div 4096)")
      (simp_all add: page_step_def ReadBlock_callbacks_def append_load_def load_host_def mapped_def)
next
  case False
  then show ?thesis using chunk_unmapped [OF False assms(4)]
    by (simp add: page_step_def ReadBlock_callbacks_def mapped_def)
qed

lemma page_in_range: "0 < n \<Longrightarrow> a + n \<le> 4096 * p \<Longrightarrow> a div 4096 < (p :: nat)"
  by (metis add_lessD1 less_add_same_cancel1 less_mult_imp_div_less mult.commute order_less_le_trans)

lemma mapped_chunk:
  assumes "0 < n"
  shows "(\<forall>i < n. mapped m (a + i)) \<longleftrightarrow>
    mapped m a \<and> (\<forall>i < n - page_chunk a n. mapped m (a + page_chunk a n + i))"
proof -
  note b = page_chunk_bounds [where a = a and n = n]
  have "mapped m a \<longleftrightarrow> (\<forall>i < page_chunk a n. mapped m (a + i))"
    using b(1) [OF assms] b(3) by (metis add_0_right guest_ptr_add(2))
  then show ?thesis using all_split [OF b(2), of "\<lambda>i. mapped m (a + i)"] by (simp add: add.assoc)
qed

lemma read_walk:
  assumes "mem_wf m" "a + n \<le> 4096 * page_count m" "UNSAFE \<or> plain_range m a n"
  shows "walk_at (ReadBlock_callbacks UNSAFE gpu) n a ua (m, out) =
    Inr (ua \<and> (\<forall>i < n. mapped m (a + i)), m, out @ map (\<lambda>i. guest_byte m (a + i)) [0..<n])"
  using assms(2,3)
proof (induction n arbitrary: a ua out rule: less_induct)
  case (less n)
  show ?case
  proof (cases "n = 0")
    case False
    let ?k = "page_chunk a n"
    have n: "0 < n" using False by simp
    note c = page_chunk_bounds [where a = a and n = n]
    have inc: "increment (ReadBlock_callbacks UNSAFE gpu) ?k x = x" for x
      by (simp add: ReadBlock_callbacks_def)
    have st: "page_step (ReadBlock_callbacks UNSAFE gpu) ?k a (m, out) =
        Inr (m, out @ map (\<lambda>i. guest_byte m (a + i)) [0..<?k])"
      using less.prems plain_range_parts(2) [of m a n 0] n
      by (intro read_page_step [OF assms(1)] page_in_range [OF n]) (auto simp: c(3))
    have ih: "walk_at (ReadBlock_callbacks UNSAFE gpu) (n - ?k) (a + ?k) ua' (m, out') =
        Inr (ua' \<and> (\<forall>i < n - ?k. mapped m (a + ?k + i)), m,
             out' @ map (\<lambda>i. guest_byte m (a + ?k + i)) [0..<n - ?k])" for ua' out'
      using less.prems c(1) [OF n] c(2) plain_range_parts(1) [of m a n ?k]
      by (intro less.IH) auto
    show ?thesis
      using upt_split [OF c(2), of "\<lambda>i. guest_byte m (a + i)"]
      by (simp add: walk_at_step [OF _ n] assms(1) less.prems(1) st inc ih mapped_chunk [OF n] add.assoc)
  qed simp
qed

lemma ReadBlockImpl_eq:
  assumes "mem_wf m" "AddressSpaceContains (current_page_table m) addr len"
    "UNSAFE \<or> plain_range m (unat addr) (unat len)"
  shows "ReadBlockImpl UNSAFE gpu addr len m =
    Inr (\<forall>i < unat len. mapped m (unat addr + i), m,
         map (\<lambda>i. guest_byte m (unat addr + i)) [0..<unat len])"
  using WalkBlock_walk_at(1) [of "(m, [])" addr len "ReadBlock_callbacks UNSAFE gpu"]
    WalkBlock_walk_at(2) [of "(m, [])" addr len] assms read_walk [OF assms(1) _ assms(3)]
  by (simp add: ReadBlockImpl_def)

section \<open>Writing\<close>

lemma host_memory_update [simp]:
  "mem_wf (m\<lparr> host_memory := h \<rparr>) = mem_wf m" "page_kind (m\<lparr> host_memory := h \<rparr>) i = page_kind m i"
  "mapped (m\<lparr> host_memory := h \<rparr>) a = mapped m a" "guest_ptr (m\<lparr> host_memory := h \<rparr>) a = guest_ptr m a"
  by (simp_all add: mem_wf_def page_ok_def [abs_def] page_kind_def page_phys_def page_rel_def mapped_def
      guest_ptr_def)

text \<open>The reference: the bytes written one after the other through the translation.\<close>

primrec guest_write :: "'g Memory_Impl \<Rightarrow> nat \<Rightarrow> u8 list \<Rightarrow> (u64 \<Rightarrow> u8) \<Rightarrow> (u64 \<Rightarrow> u8)" where
  "guest_write m a [] h = h"
| "guest_write m a (b # bs) h =
     guest_write m (a + 1) bs (if mapped m a then h(guest_ptr m a := b) else h)"

lemma guest_write_append:
  "guest_write m a (xs @ ys) h = guest_write m (a + length xs) ys (guest_write m a xs h)"
  by (induction xs arbitrary: a h) simp_all

lemma guest_write_memory [simp]: "guest_write (m\<lparr> host_memory := h' \<rparr>) a bs h = guest_write m a bs h"
  by (induction bs arbitrary: a h) simp_all

lemma write_host_snoc:
  assumes "length bs < 2 ^ 64"
  shows "write_host p (bs @ [b]) h = (write_host p bs h)(p + word_of_nat (length bs) := b)"
proof
  fix q
  have "unat (q - p) = length bs \<longleftrightarrow> q = p + word_of_nat (length bs)"
    using unat_u64_of_nat [OF assms] by (metis add.commute diff_add_cancel add_diff_cancel_left' word_unat_eq_iff)
  then show "write_host p (bs @ [b]) h q = ((write_host p bs h)(p + word_of_nat (length bs) := b)) q"
    by (auto simp: write_host_def nth_append less_Suc_eq)
qed

lemma guest_write_chunk:
  assumes "a mod 4096 + length bs \<le> 4096"
  shows "guest_write m a bs h = (if mapped m a then write_host (guest_ptr m a) bs h else h)"
  using assms
proof (induction bs rule: rev_induct)
  case Nil
  then show ?case by (simp add: write_host_def fun_eq_iff)
next
  case (snoc b bs)
  have "a mod 4096 + length bs < 4096" "length bs < 2 ^ 64" using snoc.prems by simp_all
  then show ?case
    using snoc.IH guest_ptr_add [of a "length bs" m] write_host_snoc [of bs "guest_ptr m a" b h]
    by (simp add: guest_write_append)
qed

lemma write_page_step:
  assumes "mem_wf m" "a div 4096 < page_count m" "UNSAFE \<or> page_kind m (a div 4096) \<noteq> RasterizerCachedMemory"
    "a mod 4096 + k \<le> 4096" "k \<le> length bs"
  shows "page_step (WriteBlock_callbacks UNSAFE gpu) k a (m, bs) =
    Inr (m\<lparr> host_memory := guest_write m a (take k bs) (host_memory m) \<rparr>, bs)"
proof -
  have w: "guest_write m a (take k bs) (host_memory m) =
      (if mapped m a then write_host (guest_ptr m a) (take k bs) (host_memory m) else host_memory m)"
    using assms(4,5) by (intro guest_write_chunk) simp
  show ?thesis
  proof (cases "mapped m a")
    case True
    have "guest_ptr m a \<noteq> 0" by (rule guest_ptr_nonnull [OF assms(1,2) True])
    then show ?thesis
      using assms(3) True w
      by (cases "page_kind m (a div 4096)")
        (simp_all add: page_step_def WriteBlock_callbacks_def store_front_def store_host_def mapped_def)
  next
    case False
    then show ?thesis using w by (simp add: page_step_def WriteBlock_callbacks_def mapped_def)
  qed
qed

lemma page_chunk_page: "a mod 4096 + page_chunk a n \<le> 4096"
proof -
  have "page_chunk a n \<le> 4096 - a mod 4096" "a mod 4096 < 4096" by (simp_all add: page_chunk_def)
  then show ?thesis by linarith
qed

lemma plain_range_memory [simp]: "plain_range (m\<lparr> host_memory := h \<rparr>) a n = plain_range m a n"
  by (simp add: plain_range_def)

text \<open>
  Callbacks that store bytes: with \<open>c\<close> carried along, \<open>payload c k\<close> is what they store in the
  next \<open>k\<close> bytes, as long as \<open>enough c k\<close>. Walking with them is writing the payload.
\<close>

locale block_writer =
  fixes cb :: "('g, 'c) callbacks"
    and direct :: bool
    and payload :: "'c \<Rightarrow> nat \<Rightarrow> u8 list"
    and enough :: "'c \<Rightarrow> nat \<Rightarrow> bool"
  assumes step: "mem_wf m \<Longrightarrow> a div 4096 < page_count m \<Longrightarrow>
      direct \<or> page_kind m (a div 4096) \<noteq> RasterizerCachedMemory \<Longrightarrow>
      a mod 4096 + k \<le> 4096 \<Longrightarrow> enough c k \<Longrightarrow>
      page_step cb k a (m, c) =
      Inr (m\<lparr> host_memory := guest_write m a (payload c k) (host_memory m) \<rparr>, c)"
    and payload_length: "enough c k \<Longrightarrow> length (payload c k) = k"
    and payload_split: "enough c n \<Longrightarrow> k \<le> n \<Longrightarrow>
      payload c n = payload c k @ payload (increment cb k c) (n - k)"
    and enough_split: "enough c n \<Longrightarrow> k \<le> n \<Longrightarrow> enough c k \<and> enough (increment cb k c) (n - k)"
begin

lemma store_walk:
  assumes "mem_wf m" "a + n \<le> 4096 * page_count m" "direct \<or> plain_range m a n" "enough c n"
  shows "\<exists>c'. walk_at cb n a ua (m, c) =
    Inr (ua \<and> (\<forall>i < n. mapped m (a + i)),
         m\<lparr> host_memory := guest_write m a (payload c n) (host_memory m) \<rparr>, c')"
  using assms
proof (induction n arbitrary: a ua c m rule: less_induct)
  case (less n)
  show ?case
  proof (cases "n = 0")
    case False
    let ?k = "page_chunk a n"
    have n: "0 < n" using False by simp
    note b = page_chunk_bounds [where a = a and n = n]
    note e = enough_split [OF less.prems(4) b(2)]
    let ?m = "m\<lparr> host_memory := guest_write m a (payload c ?k) (host_memory m) \<rparr>"
    have st: "page_step cb ?k a (m, c) = Inr (?m, c)"
      using less.prems plain_range_parts(2) [of m a n 0] n e
      by (intro step page_in_range [OF n] page_chunk_page) auto
    obtain c' where ih: "walk_at cb (n - ?k) (a + ?k) (ua \<and> mapped m a) (?m, increment cb ?k c) =
        Inr ((ua \<and> mapped m a) \<and> (\<forall>i < n - ?k. mapped ?m (a + ?k + i)),
             ?m\<lparr> host_memory := guest_write ?m (a + ?k) (payload (increment cb ?k c) (n - ?k)) (host_memory ?m) \<rparr>, c')"
      using less.IH [of "n - ?k" ?m "a + ?k" "increment cb ?k c" "ua \<and> mapped m a"] less.prems b(1) [OF n] b(2) e
        plain_range_parts(1) [of m a n ?k] by auto
    have gw: "guest_write m a (payload c n) (host_memory m) =
        guest_write m (a + ?k) (payload (increment cb ?k c) (n - ?k)) (guest_write m a (payload c ?k) (host_memory m))"
      using payload_split [OF less.prems(4) b(2)] payload_length [of c ?k] e by (simp add: guest_write_append)
    show ?thesis
      using ih by (simp add: walk_at_step [OF _ n] less.prems(1,2) st mapped_chunk [OF n] gw add.assoc)
  qed (use payload_length [of c 0] less.prems in simp)
qed

lemma store_block:
  assumes "mem_wf m" "AddressSpaceContains (current_page_table m) addr len"
    "direct \<or> plain_range m (unat addr) (unat len)" "enough c (unat len)"
  shows "\<exists>c'. WalkBlock cb addr len (m, c) =
    Inr (\<forall>i < unat len. mapped m (unat addr + i),
         m\<lparr> host_memory := guest_write m (unat addr) (payload c (unat len)) (host_memory m) \<rparr>, c')"
  using WalkBlock_walk_at(1) [of "(m, c)" addr len cb] WalkBlock_walk_at(2) [of "(m, c)" addr len] assms
    store_walk [of m "unat addr" "unat len" c True] by simp

end

interpretation write_block:
  block_writer "WriteBlock_callbacks UNSAFE gpu" UNSAFE "\<lambda>bs k. take k bs" "\<lambda>bs k. k \<le> length bs"
  for UNSAFE :: bool and gpu :: "'g GPU"
proof unfold_locales
  fix m :: "'g Memory_Impl" and a k :: nat and c :: "u8 list"
  assume "mem_wf m" "a div 4096 < page_count m" "UNSAFE \<or> page_kind m (a div 4096) \<noteq> RasterizerCachedMemory"
    "a mod 4096 + k \<le> 4096" "k \<le> length c"
  then show "page_step (WriteBlock_callbacks UNSAFE gpu) k a (m, c) =
      Inr (m\<lparr> host_memory := guest_write m a (take k c) (host_memory m) \<rparr>, c)"
    by (rule write_page_step)
qed (auto simp: WriteBlock_callbacks_def take_add [symmetric])

lemma zero_page_step:
  assumes "mem_wf m" "a div 4096 < page_count m" "page_kind m (a div 4096) \<noteq> RasterizerCachedMemory"
    "a mod 4096 + k \<le> 4096"
  shows "page_step (ZeroBlock_callbacks gpu) k a (m, ()) =
    Inr (m\<lparr> host_memory := guest_write m a (replicate k 0) (host_memory m) \<rparr>, ())"
proof -
  have w: "guest_write m a (replicate k 0) (host_memory m) =
      (if mapped m a then write_host (guest_ptr m a) (replicate k 0) (host_memory m) else host_memory m)"
    using assms(4) by (intro guest_write_chunk) simp
  show ?thesis
  proof (cases "mapped m a")
    case True
    have "guest_ptr m a \<noteq> 0" by (rule guest_ptr_nonnull [OF assms(1,2) True])
    then show ?thesis
      using assms(3) True w
      by (cases "page_kind m (a div 4096)")
        (simp_all add: page_step_def ZeroBlock_callbacks_def zero_host_def store_host_def mapped_def)
  next
    case False
    then show ?thesis using w by (simp add: page_step_def ZeroBlock_callbacks_def mapped_def)
  qed
qed

interpretation zero_block:
  block_writer "ZeroBlock_callbacks gpu" False "\<lambda>u k. replicate k 0" "\<lambda>u k. True"
  for gpu :: "'g GPU"
proof unfold_locales
  fix m :: "'g Memory_Impl" and a k :: nat and c :: unit
  assume "mem_wf m" "a div 4096 < page_count m" "False \<or> page_kind m (a div 4096) \<noteq> RasterizerCachedMemory"
    "a mod 4096 + k \<le> 4096"
  then show "page_step (ZeroBlock_callbacks gpu) k a (m, c) =
      Inr (m\<lparr> host_memory := guest_write m a (replicate k 0) (host_memory m) \<rparr>, c)"
    using zero_page_step by simp
qed (auto simp: replicate_add [symmetric])

lemma ZeroBlock_eq:
  assumes "mem_wf m" "AddressSpaceContains (current_page_table m) addr len"
    "plain_range m (unat addr) (unat len)"
  shows "ZeroBlock gpu addr len m =
    Inr (\<forall>i < unat len. mapped m (unat addr + i),
         m\<lparr> host_memory := guest_write m (unat addr) (replicate (unat len) 0) (host_memory m) \<rparr>)"
  using zero_block.store_block [OF assms(1,2), of gpu] assms(3) by (auto simp: ZeroBlock_def)

lemma WriteBlockImpl_eq:
  assumes "mem_wf m" "AddressSpaceContains (current_page_table m) addr len"
    "UNSAFE \<or> plain_range m (unat addr) (unat len)" "unat len \<le> length bs"
  shows "WriteBlockImpl UNSAFE gpu addr bs len m =
    Inr (\<forall>i < unat len. mapped m (unat addr + i),
         m\<lparr> host_memory := guest_write m (unat addr) (take (unat len) bs) (host_memory m) \<rparr>)"
  using write_block.store_block [OF assms(1,2), of UNSAFE bs gpu] assms(3,4) by (auto simp: WriteBlockImpl_def)

text \<open>What the reference writes change.\<close>

lemma guest_write_other:
  "(\<And>i. i < length bs \<Longrightarrow> mapped m (a + i) \<Longrightarrow> q \<noteq> guest_ptr m (a + i)) \<Longrightarrow> guest_write m a bs h q = h q"
proof (induction bs arbitrary: a h)
  case (Cons b bs)
  have "guest_write m (a + 1) bs h' q = h' q" for h'
    using Cons.prems [of "Suc i" for i] by (intro Cons.IH) auto
  then show ?case using Cons.prems [of 0] by auto
qed simp

lemma guest_write_same:
  assumes "inj_on (guest_ptr m) {a ..< a + length bs}" "i < length bs" "mapped m (a + i)"
  shows "guest_write m a bs h (guest_ptr m (a + i)) = bs ! i"
  using assms
proof (induction bs arbitrary: a h i)
  case (Cons b bs)
  have inj: "inj_on (guest_ptr m) {a + 1 ..< a + 1 + length bs}"
    using Cons.prems(1) by (rule inj_on_subset) auto
  show ?case
  proof (cases i)
    case 0
    have "guest_write m (a + 1) bs h' (guest_ptr m a) = h' (guest_ptr m a)" for h'
    proof (rule guest_write_other)
      fix j assume "j < length bs"
      then show "guest_ptr m a \<noteq> guest_ptr m (a + 1 + j)"
        using inj_onD [OF Cons.prems(1), of a "a + 1 + j"] by auto
    qed
    then show ?thesis using 0 Cons.prems(3) by simp
  next
    case (Suc j)
    then show ?thesis using Cons.IH [OF inj, of j] Cons.prems by simp
  qed
qed simp

section \<open>Copying\<close>

lemma contains_nat:
  assumes "mem_wf m" "a + k \<le> 4096 * page_count m"
  shows "AddressSpaceContains (current_page_table m) (word_of_nat a) (word_of_nat k)"
    "unat (word_of_nat a :: u64) = a" "unat (word_of_nat k :: u64) = k"
proof -
  let ?bits = "current_address_space_width_in_bits (current_page_table m)"
  have b: "12 \<le> ?bits" "?bits \<le> 48" "page_count m = 2 ^ (?bits - 12)"
    using assms(1) by (simp_all add: mem_wf_def Let_def)
  have "4096 * page_count m = 2 ^ ?bits"
    using b(1,3) power_add [of "2 :: nat" 12 "?bits - 12"] by simp
  then have ak: "a + k \<le> 2 ^ ?bits" using assms(2) by simp
  also have p: "(2 :: nat) ^ ?bits \<le> 2 ^ 48" using b(2) by (intro power_increasing) auto
  finally have lt: "a + k < 2 ^ 64" by simp
  then show u: "unat (word_of_nat a :: u64) = a" "unat (word_of_nat k :: u64) = k"
    by (simp_all add: unat_u64_of_nat)
  have s: "unat (word_of_nat a + word_of_nat k :: u64) = a + k"
    using unat_u64_of_nat [OF lt] by simp
  have "unat (push_bit ?bits 1 :: u64) = 2 ^ ?bits" using b(2) by (intro unat_push_bit_1) simp
  with ak s u show "AddressSpaceContains (current_page_table m) (word_of_nat a) (word_of_nat k)"
    by (simp add: AddressSpaceContains_def GetAddressSpaceBits_def Let_def word_le_nat_alt)
qed

lemma guest_write_identity:
  "(\<And>i. i < length bs \<Longrightarrow> mapped m (a + i) \<Longrightarrow> bs ! i = h (guest_ptr m (a + i))) \<Longrightarrow> guest_write m a bs h = h"
proof (induction bs arbitrary: a)
  case (Cons b bs)
  have "(if mapped m a then h(guest_ptr m a := b) else h) = h" using Cons.prems [of 0] by auto
  moreover have "guest_write m (a + 1) bs h = h"
    using Cons.prems [of "Suc i" for i] by (intro Cons.IH) auto
  ultimately show ?case by simp
qed simp

lemma copy_page_step:
  assumes "mem_wf m" "a + k \<le> 4096 * page_count m" "0 < k"
    "page_kind m (a div 4096) \<noteq> RasterizerCachedMemory" "a mod 4096 + k \<le> 4096"
  shows "page_step (CopyBlock_callbacks gpu) k a (m, word_of_nat a, src) = Inr (m, word_of_nat a, src)"
proof -
  note cn = contains_nat [OF assms(1,2)]
  have pl: "plain_range m a k"
    unfolding plain_range_def using assms(4,5) div_same [of a 4096] by auto
  have u: "m\<lparr> host_memory := host_memory m \<rparr> = m" by simp
  show ?thesis
  proof (cases "mapped m a")
    case True
    have nn: "guest_ptr m a \<noteq> 0"
      by (rule guest_ptr_nonnull [OF assms(1) page_in_range [OF assms(3,2)] True])
    have bs: "read_host (host_memory m) (guest_ptr m a) k = map (\<lambda>i. guest_byte m (a + i)) [0..<k]" (is "_ = ?bs")
      using assms(5) by (intro chunk_bytes [OF True]) simp
    have "guest_write m a ?bs (host_memory m) = host_memory m"
      by (rule guest_write_identity) (simp add: guest_byte_def)
    then have "WriteBlockImpl False gpu (word_of_nat a) ?bs (word_of_nat k) m = Inr (\<forall>i < k. mapped m (a + i), m)"
      using WriteBlockImpl_eq [OF assms(1) cn(1), of False ?bs gpu] cn(2,3) pl u by simp
    then show ?thesis
      using assms(4) True nn bs
      by (cases "page_kind m (a div 4096)")
        (simp_all add: page_step_def CopyBlock_callbacks_def copy_from_def load_host_def mapped_def)
  next
    case False
    have "guest_write m a (replicate k 0) (host_memory m) = host_memory m"
      using False assms(5) by (intro guest_write_identity) (simp add: guest_ptr_add)
    then have "ZeroBlock gpu (word_of_nat a) (word_of_nat k) m = Inr (\<forall>i < k. mapped m (a + i), m)"
      using ZeroBlock_eq [OF assms(1) cn(1), of gpu] cn(2,3) pl u by simp
    then show ?thesis using False
      by (simp add: page_step_def CopyBlock_callbacks_def mapped_def)
  qed
qed

lemma copy_walk:
  assumes "mem_wf m" "a + n \<le> 4096 * page_count m" "plain_range m a n"
  shows "\<exists>c. walk_at (CopyBlock_callbacks gpu) n a ua (m, word_of_nat a, src) =
    Inr (ua \<and> (\<forall>i < n. mapped m (a + i)), m, c)"
  using assms(2,3)
proof (induction n arbitrary: a ua src rule: less_induct)
  case (less n)
  show ?case
  proof (cases "n = 0")
    case False
    let ?k = "page_chunk a n"
    have n: "0 < n" using False by simp
    note b = page_chunk_bounds [where a = a and n = n]
    have st: "page_step (CopyBlock_callbacks gpu) ?k a (m, word_of_nat a, src) = Inr (m, word_of_nat a, src)"
      using less.prems plain_range_parts(2) [of m a n 0] n b(1) [OF n] b(2)
      by (intro copy_page_step [OF assms(1)] page_chunk_page) auto
    have inc: "increment (CopyBlock_callbacks gpu) ?k (word_of_nat a, src) =
        (word_of_nat (a + ?k), src + word_of_nat ?k)"
      by (simp add: CopyBlock_callbacks_def)
    obtain c where ih: "walk_at (CopyBlock_callbacks gpu) (n - ?k) (a + ?k) (ua \<and> mapped m a)
        (m, word_of_nat (a + ?k), src + word_of_nat ?k) =
        Inr ((ua \<and> mapped m a) \<and> (\<forall>i < n - ?k. mapped m (a + ?k + i)), m, c)"
      using less.IH [of "n - ?k" "a + ?k" "ua \<and> mapped m a" "src + word_of_nat ?k"] less.prems
        b(1) [OF n] b(2) plain_range_parts(1) [of m a n ?k] by auto
    show ?thesis
      using ih by (simp add: walk_at_step [OF _ n] assms(1) less.prems(1) st inc mapped_chunk [OF n] add.assoc del: of_nat_add)
  qed simp
qed

section \<open>Properties\<close>

text \<open>
  Property C13. Reading a block gives the translated bytes: for a range inside the address
  space, walking it page by page returns, for every address, the byte its own translation
  points to, zero for the addresses on unmapped pages, and reports success exactly when no
  address was unmapped. (Pages cached by the rasterizer are allowed for the unsafe variant,
  which does not involve the GPU.) Nothing is changed.
\<close>

theorem read_block_translates:
  assumes "mem_wf m" "AddressSpaceContains (current_page_table m) addr len"
    "UNSAFE \<or> plain_range m (unat addr) (unat len)"
  shows "ReadBlockImpl UNSAFE gpu addr len m =
    Inr (\<forall>i < unat len. mapped m (unat addr + i), m,
         map (\<lambda>i. guest_byte m (unat addr + i)) [0..<unat len])"
  using assms by (rule ReadBlockImpl_eq)

text \<open>
  Property C14. A written block reads back: when the range is mapped and its addresses have
  distinct translations, \<^verbatim>\<open>WriteBlock\<close> succeeds, a following read of the range returns
  exactly the bytes written, and every address whose translation is not in the range keeps
  its byte.
\<close>

theorem write_block_reads_back:
  assumes "mem_wf m" "AddressSpaceContains (current_page_table m) addr len"
    "UNSAFE \<or> plain_range m (unat addr) (unat len)" "unat len = length bs"
    "\<forall>i < unat len. mapped m (unat addr + i)"
    "inj_on (guest_ptr m) {unat addr ..< unat addr + unat len}"
  shows "\<exists>m'. WriteBlockImpl UNSAFE gpu addr bs len m = Inr (True, m') \<and> mem_wf m' \<and>
    ReadBlockImpl UNSAFE gpu addr len m' = Inr (True, m', bs) \<and>
    (\<forall>a. guest_ptr m a \<notin> guest_ptr m ` {unat addr ..< unat addr + unat len} \<longrightarrow>
         guest_byte m' a = guest_byte m a)"
proof -
  let ?m = "m\<lparr> host_memory := guest_write m (unat addr) bs (host_memory m) \<rparr>"
  have w: "WriteBlockImpl UNSAFE gpu addr bs len m = Inr (True, ?m)"
    using WriteBlockImpl_eq [OF assms(1-3), of bs gpu] assms(4,5) by simp
  have "map (\<lambda>i. guest_byte ?m (unat addr + i)) [0..<unat len] = bs"
  proof (rule nth_equalityI)
    fix i assume "i < length (map (\<lambda>i. guest_byte ?m (unat addr + i)) [0..<unat len])"
    then have i: "i < unat len" by simp
    then show "map (\<lambda>i. guest_byte ?m (unat addr + i)) [0..<unat len] ! i = bs ! i"
      using guest_write_same [of m "unat addr" bs i "host_memory m"] assms(4-6)
      by (simp add: guest_byte_def)
  qed (use assms(4) in simp)
  then have r: "ReadBlockImpl UNSAFE gpu addr len ?m = Inr (True, ?m, bs)"
    using ReadBlockImpl_eq [of ?m addr len UNSAFE gpu] assms by simp
  have "guest_byte ?m a = guest_byte m a"
    if "guest_ptr m a \<notin> guest_ptr m ` {unat addr ..< unat addr + unat len}" for a
  proof -
    have "guest_ptr m a \<noteq> guest_ptr m (unat addr + i)" if "i < length bs" for i
      using \<open>guest_ptr m a \<notin> _\<close> that assms(4) by auto
    then show ?thesis
      using guest_write_other [of bs m "unat addr" "guest_ptr m a" "host_memory m"]
      by (auto simp: guest_byte_def)
  qed
  with w r assms(1) show ?thesis by auto
qed

text \<open>
  \<^verbatim>\<open>CopyBlock\<close> does not copy: it walks the pages of the destination and writes
  each chunk back from where it came, so that on memory the rasterizer does not cache it
  leaves the whole state as it was, whatever the source address.
\<close>

theorem copy_block_is_identity:
  assumes "mem_wf m" "AddressSpaceContains (current_page_table m) dest len"
    "plain_range m (unat dest) (unat len)"
  shows "CopyBlock gpu dest src len m = Inr (\<forall>i < unat len. mapped m (unat dest + i), m)"
  using WalkBlock_walk_at(1) [of "(m, dest, src)" dest len "CopyBlock_callbacks gpu"]
    WalkBlock_walk_at(2) [of "(m, dest, src)" dest len]
    copy_walk [OF assms(1) _ assms(3), of gpu True src] assms
  by (auto simp: CopyBlock_def)

section \<open>Witnesses\<close>

text \<open>
  A 16 KiB address space over four physical pages: page 0 unmapped, pages 1 and 2 mapped to
  the third and the first physical page, page 3 debugged on the second.
\<close>

definition tiny_memory :: "unit Memory_Impl" where
  "tiny_memory =
     \<lparr> current_page_table =
         \<lparr> pointers = [0, 0x101001, 0xFE001, 2], blocks = [0, 0x1000, 0x2000, 0x3000],
           backing_addr = [0, 0x80001000, 0x7FFFE000, 0x7FFFE000],
           current_address_space_width_in_bits = 14, fastmem_arena = False, page_size = 4096 \<rparr>,
       buffer_calls = [], backing_base = 0x100000, backing_size = 0x4000,
       host_memory = (\<lambda>p. ucast (drop_bit 12 p + p)), gpu_state = () \<rparr>"

definition silent_gpu :: "unit GPU" where
  "silent_gpu = \<lparr> OnCPURead = (\<lambda>p n m. m), OnCPUWrite = (\<lambda>p n m. m) \<rparr>"

lemma tiny_fields [simp]:
  "current_page_table tiny_memory =
         \<lparr> pointers = [0, 0x101001, 0xFE001, 2], blocks = [0, 0x1000, 0x2000, 0x3000],
           backing_addr = [0, 0x80001000, 0x7FFFE000, 0x7FFFE000],
           current_address_space_width_in_bits = 14, fastmem_arena = False, page_size = 4096 \<rparr>"
  "backing_base tiny_memory = 0x100000" "backing_size tiny_memory = 0x4000"
  "host_memory tiny_memory p = ucast (drop_bit 12 p + p)"
  by (simp_all add: tiny_memory_def)

lemma tiny_kinds:
  "page_kind tiny_memory 0 = Unmapped" "page_kind tiny_memory (Suc 0) = Memory"
  "page_kind tiny_memory 2 = Memory" "page_kind tiny_memory 3 = DebugMemory"
  by (simp_all add: page_kind_def ExtractType_def)

lemma tiny_pages:
  "page_ok tiny_memory 0" "page_ok tiny_memory (Suc 0)" "page_ok tiny_memory 2" "page_ok tiny_memory 3"
  by (simp_all add: page_ok_def tiny_kinds page_rel_def page_phys_def DramBase_def ExtractPointer_def
      mask_eq_exp_minus_1)

lemma tiny_wf: "mem_wf tiny_memory"
proof -
  show ?thesis
    using tiny_pages [unfolded numeral_2_eq_2 numeral_3_eq_3] by (simp add: mem_wf_def Let_def)
qed

lemma tiny_contains:
  "AddressSpaceContains (current_page_table tiny_memory) 0x1FFE 4"
  "AddressSpaceContains (current_page_table tiny_memory) 0xFFF 2"
  by (simp_all add: AddressSpaceContains_def GetAddressSpaceBits_def)

lemma all_less_4: "(\<forall>i < (4 :: nat). P i) \<longleftrightarrow> P 0 \<and> P 1 \<and> P 2 \<and> P 3"
  by (auto simp: numeral_eq_Suc less_Suc_eq)

lemma all_less_2: "(\<forall>i < (2 :: nat). P i) \<longleftrightarrow> P 0 \<and> P 1"
  by (auto simp: numeral_eq_Suc less_Suc_eq)

lemma tiny_plain: "plain_range tiny_memory 0x1FFE 4" "plain_range tiny_memory 0xFFF 2"
  by (simp_all add: plain_range_def all_less_4 all_less_2 tiny_kinds)

lemma tiny_mapped: "\<forall>i < 4. mapped tiny_memory (0x1FFE + i)"
  by (simp add: all_less_4 mapped_def tiny_kinds)

lemma tiny_inj: "inj_on (guest_ptr tiny_memory) {0x1FFE ..< 0x2002}"
proof -
  have "distinct (map (guest_ptr tiny_memory) [0x1FFE ..< 0x2002])"
    by (simp add: upt_conv_Cons guest_ptr_def page_rel_def)
  then show ?thesis by (simp only: distinct_map set_upt)
qed

theorem read_block_translates_witness:
  "ReadBlockImpl False silent_gpu 0xFFF 2 tiny_memory = Inr (False, tiny_memory, [0, 2])"
proof -
  have "\<not> mapped tiny_memory 0xFFF" "guest_byte tiny_memory 0xFFF = 0" "guest_byte tiny_memory 0x1000 = 2"
    by (simp_all add: mapped_def tiny_kinds guest_byte_def guest_ptr_def page_rel_def DramBase_def)
  then show ?thesis
    using read_block_translates [OF tiny_wf tiny_contains(2), of False silent_gpu] tiny_plain(2)
    by (simp add: all_less_2 upt_conv_Cons)
qed

theorem write_block_reads_back_witness:
  "\<exists>m'. WriteBlockImpl False silent_gpu 0x1FFE [1, 2, 3, 4] 4 tiny_memory = Inr (True, m') \<and>
     ReadBlockImpl False silent_gpu 0x1FFE 4 m' = Inr (True, m', [1, 2, 3, 4])"
  using write_block_reads_back [OF tiny_wf tiny_contains(1), of False "[1, 2, 3, 4]" silent_gpu]
    tiny_plain(1) tiny_mapped tiny_inj by auto

theorem copy_block_is_identity_witness:
  "CopyBlock silent_gpu 0x1FFE 0x3000 4 tiny_memory = Inr (True, tiny_memory) \<and>
   guest_byte tiny_memory 0x1FFE \<noteq> guest_byte tiny_memory 0x3000"
proof -
  have "guest_byte tiny_memory 0x1FFE \<noteq> guest_byte tiny_memory 0x3000"
    by (simp add: mapped_def tiny_kinds guest_byte_def guest_ptr_def page_rel_def DramBase_def)
  then show ?thesis
    using copy_block_is_identity [OF tiny_wf tiny_contains(1), where gpu = silent_gpu and src = "0x3000"] tiny_plain(1) tiny_mapped
    by simp
qed

end
