(* ===== verification/GuestMemoryMarking.thy ===== *)
theory GuestMemoryMarking
  imports GuestMemoryBlocks
begin

text \<open>
  Operations on the page table: mapping and unmapping regions, and the two ways of marking
  pages (for the debugger and for the rasterizer). Marking changes the way a page is
  accessed, never what it holds.
\<close>

unbundle bit_operations_syntax

section \<open>Alignment\<close>

text \<open>Page-aligned words are the multiples of the page size.\<close>

definition page_aligned :: "u64 \<Rightarrow> bool" where
  "page_aligned w \<longleftrightarrow> unat w mod 4096 = 0"

lemma unat_add_mod_page: "unat (v + w :: u64) mod 4096 = (unat v + unat w) mod 4096"
  by (simp only: unat_word_ariths(1)) (simp add: mod_mod_cancel)

lemma page_aligned_add: "page_aligned v \<Longrightarrow> page_aligned w \<Longrightarrow> page_aligned (v + w)"
  unfolding page_aligned_def unat_add_mod_page by (simp add: mod_add_eq [symmetric])

lemma page_aligned_diff:
  assumes "page_aligned v" "page_aligned w"
  shows "page_aligned (v - w)"
proof -
  have "(unat (v - w) + unat w) mod 4096 = 0"
    using unat_add_mod_page [of "v - w" w] assms(1) by (simp add: page_aligned_def)
  with assms(2) show ?thesis
    by (simp add: page_aligned_def mod_add_right_eq [of "unat (v - w)" "unat w" 4096, symmetric])
qed

lemma page_aligned_page: "page_aligned (word_of_nat (4096 * i))"
  unfolding page_aligned_def unsigned_of_nat by (simp add: take_bit_eq_mod mod_mod_cancel)

lemma page_aligned_low:
  assumes "page_aligned w"
  shows "take_bit 2 w = 0"
proof -
  have "unat (take_bit 2 w) = unat w mod 4" by (subst unsigned_take_bit_eq) (simp add: take_bit_eq_mod)
  also have "\<dots> = unat w mod 4096 mod 4" by (simp add: mod_mod_cancel)
  also have "\<dots> = 0" using assms by (simp add: page_aligned_def)
  finally show ?thesis by (simp add: unat_eq_zero)
qed

lemma page_rel_low:
  assumes "mem_wf m" "i < page_count m" "page_kind m i \<noteq> Unmapped"
  shows "take_bit 2 (page_rel m i) = 0"
proof -
  have "page_rel m i = backing_base m + (page_phys m i - word_of_nat (4096 * i) - DramBase)"
    by (simp add: page_rel_def page_phys_def)
  moreover have "page_aligned (backing_base m)" using assms(1) by (simp add: mem_wf_def page_aligned_def)
  moreover have "page_aligned (page_phys m i)"
    using mem_wf_page [OF assms(1,2)] assms(3) by (simp add: page_ok_def page_aligned_def)
  moreover have "page_aligned DramBase" by (simp add: page_aligned_def DramBase_def)
  ultimately show ?thesis
    using page_aligned_page [of i] by (simp add: page_aligned_low page_aligned_add page_aligned_diff)
qed

section \<open>Changing the way a page is accessed\<close>

text \<open>
  \<open>same_guest m m'\<close>: the memory \<open>m'\<close> is well formed and shows the guest the same bytes at
  the same places.
\<close>

definition same_guest :: "'g Memory_Impl \<Rightarrow> 'g Memory_Impl \<Rightarrow> bool" where
  "same_guest m m' \<longleftrightarrow>
     mem_wf m' \<and> host_memory m' = host_memory m \<and> page_count m' = page_count m \<and>
     current_address_space_width_in_bits (current_page_table m') =
       current_address_space_width_in_bits (current_page_table m) \<and>
     mapped m' = mapped m \<and> guest_ptr m' = guest_ptr m"

lemma same_guest_refl: "mem_wf m \<Longrightarrow> same_guest m m"
  by (simp add: same_guest_def)

lemma same_guest_trans: "same_guest m m1 \<Longrightarrow> same_guest m1 m2 \<Longrightarrow> same_guest m m2"
  by (simp add: same_guest_def)

lemma same_guest_byte: "same_guest m m' \<Longrightarrow> guest_byte m' = guest_byte m"
  by (simp add: same_guest_def guest_byte_def fun_eq_iff)

lemma same_guest_contains:
  "same_guest m m' \<Longrightarrow>
   AddressSpaceContains (current_page_table m') a n = AddressSpaceContains (current_page_table m) a n"
  by (simp add: same_guest_def AddressSpaceContains_def GetAddressSpaceBits_def)

lemma Store_page_kind:
  assumes "take_bit 2 p = 0" "unat (drop_bit 12 vaddr) < page_count m"
  shows "page_kind (Store_page vaddr p t m) i =
      (if i = unat (drop_bit 12 vaddr) then t else page_kind m i)"
    "ExtractPointer (pointers (current_page_table (Store_page vaddr p t m)) ! i) =
      (if i = unat (drop_bit 12 vaddr) then p else ExtractPointer (pointers (current_page_table m) ! i))"
  using assms by (auto simp: page_kind_def Store_page_def Let_def PageInfo_pointer PageInfo_type)

lemma Store_page_frame [simp]:
  "page_rel (Store_page vaddr p t m) i = page_rel m i" "page_phys (Store_page vaddr p t m) i = page_phys m i"
  "backing_addr (current_page_table (Store_page vaddr p t m)) = backing_addr (current_page_table m)"
  "backing_base (Store_page vaddr p t m) = backing_base m" "backing_size (Store_page vaddr p t m) = backing_size m"
  "host_memory (Store_page vaddr p t m) = host_memory m" "page_count (Store_page vaddr p t m) = page_count m"
  "blocks (current_page_table (Store_page vaddr p t m)) = blocks (current_page_table m)"
  "page_size (current_page_table (Store_page vaddr p t m)) = page_size (current_page_table m)"
  "current_address_space_width_in_bits (current_page_table (Store_page vaddr p t m)) =
   current_address_space_width_in_bits (current_page_table m)"
  by (simp_all add: page_rel_def page_phys_def Store_page_def Let_def)

lemma Store_page_same_guest:
  assumes "mem_wf m" "unat (drop_bit 12 vaddr) < page_count m"
    "page_kind m (unat (drop_bit 12 vaddr)) \<noteq> Unmapped" "t \<noteq> Unmapped"
    "p = (if t = Memory then page_rel m (unat (drop_bit 12 vaddr)) else 0)"
  shows "same_guest m (Store_page vaddr p t m)"
proof -
  let ?m = "Store_page vaddr p t m"
  have low: "take_bit 2 p = 0" using assms(5) page_rel_low [OF assms(1-3)] by simp
  note k = Store_page_kind [OF low assms(2), of t]
  have "page_ok ?m i" if "i < page_count m" for i
    using mem_wf_page [OF assms(1) that] mem_wf_page [OF assms(1,2)] assms(3-5)
    unfolding page_ok_def k Store_page_frame by (cases "i = unat (drop_bit 12 vaddr)") simp_all
  then have "mem_wf ?m" using assms(1) by (simp add: mem_wf_def Let_def list_all_iff)
  moreover have "mapped ?m = mapped m" using assms(3,4) by (auto simp: mapped_def fun_eq_iff k)
  ultimately show ?thesis by (auto simp: same_guest_def guest_ptr_def fun_eq_iff)
qed

lemma page_start_page: "drop_bit 12 (page_start vaddr) = drop_bit 12 vaddr"
proof -
  have "(4095 :: u64) = mask 12" by (simp add: mask_eq_exp_minus_1)
  then have "page_start vaddr = vaddr AND NOT (mask 12)" by (simp add: page_start_def)
  then show ?thesis by (simp only:) (rule bit_word_eqI, auto simp: bit_simps dest: bit_imp_le_length)
qed

lemma restore_pointer:
  assumes "mem_wf m" "unat (drop_bit 12 vaddr) < page_count m"
    "page_kind m (unat (drop_bit 12 vaddr)) \<noteq> Unmapped"
  shows "GetPointerFromDebugMemory m (page_start vaddr) - page_start vaddr = page_rel m (unat (drop_bit 12 vaddr))"
    "GetPointerFromRasterizerCachedMemory m (page_start vaddr) - page_start vaddr = page_rel m (unat (drop_bit 12 vaddr))"
  using mem_wf_page [OF assms(1,2)] assms(3)
  by (simp_all only: GetPointerFromDebugMemory_def GetPointerFromRasterizerCachedMemory_def page_constants
      page_start_page page_ok_def Let_def if_False DeviceMemory_GetPointer_def page_rel_def simp_thms)
    simp_all

lemma restored_nonnull:
  assumes "mem_wf m" "unat (drop_bit 12 vaddr) < page_count m"
    "page_kind m (unat (drop_bit 12 vaddr)) \<noteq> Unmapped"
  shows "GetPointerFromRasterizerCachedMemory m (page_start vaddr) \<noteq> 0"
proof -
  let ?a = "unat (page_start vaddr)"
  have p: "?a div 4096 = unat (drop_bit 12 vaddr)"
    using unat_drop_page [of "page_start vaddr"] by (simp only: page_start_page)
  have a: "?a div 4096 < page_count m" "mapped m ?a" using assms p by (simp_all add: mapped_def)
  then have "?a div 4096 < 2 ^ 36" using mem_wf_count [OF assms(1)] by linarith
  then have "?a < 2 ^ 48" by simp
  from backing_pointer(2) [OF assms(1) a(1) this a(2)] guest_ptr_nonnull [OF assms(1) a] show ?thesis by simp
qed

lemma page_type_kind: "page_type m vaddr = page_kind m (unat (drop_bit 12 vaddr))"
  by (simp only: page_type_def page_kind_def page_constants)

lemma MarkPage_same_guest:
  assumes "mem_wf m" "unat (drop_bit 12 vaddr) < page_count m"
  shows "same_guest m (MarkPageDebug flag vaddr m)" "same_guest m (MarkPageCached flag vaddr m)"
proof -
  note st = Store_page_same_guest [OF assms] and re = restore_pointer [OF assms]
    and nn = restored_nonnull [OF assms]
  show "same_guest m (MarkPageDebug flag vaddr m)"
    by (cases flag; cases "page_kind m (unat (drop_bit 12 vaddr))")
      (simp_all only: MarkPageDebug_def page_type_kind Let_def PageType.case re PageType.distinct
        simp_thms if_True if_False same_guest_refl [OF assms(1)] st)
  show "same_guest m (MarkPageCached flag vaddr m)"
    by (cases flag; cases "page_kind m (unat (drop_bit 12 vaddr))")
      (simp_all only: MarkPageCached_def page_type_kind Let_def PageType.case re nn PageType.distinct
        simp_thms if_True if_False same_guest_refl [OF assms(1)] st)
qed

lemma next_page:
  assumes "unat (drop_bit 12 vaddr) + 1 < 2 ^ 36"
  shows "unat (drop_bit 12 (vaddr + 4096 :: u64)) = unat (drop_bit 12 vaddr) + 1"
proof -
  have "unat vaddr div 4096 + 1 < 2 ^ 36" using assms by (simp only: unat_drop_page)
  then have "unat (vaddr + 4096) = unat vaddr + 4096" by (simp add: unat_word_ariths(1))
  then show ?thesis by (simp add: unat_drop_page)
qed

lemma num_pages_bound:
  assumes "unat vaddr + unat len \<le> 4096 * p" "p \<le> 2 ^ 36" "vaddr \<noteq> 0"
  shows "unat (drop_bit 12 vaddr) + unat (num_pages vaddr len) \<le> p"
proof -
  let ?v = "unat vaddr" and ?l = "unat len"
  let ?p1 = "?v div 4096" and ?p2 = "(?v + ?l - 1) div 4096"
  have v: "0 < ?v" using assms(3) by (simp add: unat_gt_0)
  have "?v + ?l < 2 ^ 64" using assms(1,2) by simp
  then have "unat (vaddr + len) = ?v + ?l" by (simp add: unat_word_ariths(1))
  then have "unat (vaddr + len - 1) = ?v + ?l - 1" using unat_dec [of "vaddr + len"] v by simp
  then have e: "drop_bit 12 (vaddr + len - 1) = word_of_nat ?p2" by (simp only: drop_page)
  have le: "?p1 \<le> ?p2 + 1"
    using div_le_mono [of "?v - 1" "?v + ?l - 1" 4096] div_le_mono [of ?v "?v - 1 + 4096" 4096] v by simp
  have p2: "?p2 < p" using assms(1) v by (intro less_mult_imp_div_less) linarith
  have "num_pages vaddr len = word_of_nat (?p2 + 1) - word_of_nat ?p1"
    by (simp only: num_pages_def page_constants e drop_page [of vaddr]) simp
  also have "\<dots> = word_of_nat (?p2 + 1 - ?p1)" using le by (simp only: of_nat_diff)
  finally have "unat (num_pages vaddr len) = ?p2 + 1 - ?p1"
    using unat_u64_of_nat [of "?p2 + 1 - ?p1"] p2 assms(2) by simp
  with le p2 show ?thesis unfolding unat_drop_page by linarith
qed

text \<open>A loop that marks page after page keeps what the guest sees if marking one page does.\<close>

locale page_marker =
  fixes mark :: "u64 \<Rightarrow> 'g Memory_Impl \<Rightarrow> 'g Memory_Impl"
    and loop :: "nat \<Rightarrow> u64 \<Rightarrow> 'g Memory_Impl \<Rightarrow> 'g Memory_Impl"
  assumes mark_same_guest:
      "mem_wf m \<Longrightarrow> unat (drop_bit 12 vaddr) < page_count m \<Longrightarrow> same_guest m (mark vaddr m)"
    and loop_0: "loop 0 vaddr m = m"
    and loop_Suc: "loop (Suc n) vaddr m = loop n (vaddr + 4096) (mark vaddr m)"
begin

lemma loop_same_guest:
  "mem_wf m \<Longrightarrow> 0 < n \<Longrightarrow> unat (drop_bit 12 vaddr) + n \<le> page_count m \<Longrightarrow> same_guest m (loop n vaddr m)"
proof (induction n arbitrary: vaddr m)
  case (Suc n)
  have s: "same_guest m (mark vaddr m)" using Suc.prems by (intro mark_same_guest) simp_all
  show ?case
  proof (cases n)
    case 0
    then show ?thesis using s by (simp add: loop_0 loop_Suc)
  next
    case (Suc k)
    have "unat (drop_bit 12 vaddr) + 1 < 2 ^ 36"
      using Suc Suc.prems(3) mem_wf_count [OF Suc.prems(1)] by linarith
    from next_page [OF this] have "same_guest (mark vaddr m) (loop n (vaddr + 4096) (mark vaddr m))"
      using Suc s Suc.prems by (intro Suc.IH) (auto simp: same_guest_def)
    with s show ?thesis by (simp add: loop_Suc same_guest_trans)
  qed
qed simp

text \<open>The pages of a range inside the address space are pages of the table.\<close>

lemma region_same_guest:
  assumes "mem_wf m" "AddressSpaceContains (current_page_table m) vaddr len" "vaddr \<noteq> 0"
  shows "same_guest m (loop (unat (num_pages vaddr len)) vaddr m)"
proof (cases "unat (num_pages vaddr len)")
  case 0
  then show ?thesis using assms(1) by (simp add: loop_0 same_guest_refl)
next
  case (Suc n)
  have b: "unat vaddr + unat len \<le> 4096 * page_count m"
    using WalkBlock_walk_at(2) [of "(m, ())" vaddr len] assms by simp
  have "unat (drop_bit 12 vaddr) + unat (num_pages vaddr len) \<le> page_count m"
    by (rule num_pages_bound [OF b mem_wf_count [OF assms(1)] assms(3)])
  then show ?thesis using Suc assms(1) by (intro loop_same_guest) simp_all
qed

end

interpretation debug_marker:
  page_marker "MarkPageDebug debug" "\<lambda>n. MarkRegionDebug_loop n debug" for debug
  by unfold_locales (simp_all add: MarkPage_same_guest)

interpretation cache_marker:
  page_marker "MarkPageCached cached" "\<lambda>n. RasterizerMarkRegionCached_loop n cached" for cached
  by unfold_locales (simp_all add: MarkPage_same_guest)

lemma buffer_calls_update [simp]:
  "mem_wf (m\<lparr> buffer_calls := b \<rparr>) = mem_wf m" "mapped (m\<lparr> buffer_calls := b \<rparr>) a = mapped m a"
  "guest_ptr (m\<lparr> buffer_calls := b \<rparr>) a = guest_ptr m a"
  by (simp_all add: mem_wf_def page_ok_def [abs_def] page_kind_def page_phys_def page_rel_def mapped_def
      guest_ptr_def)

lemma protect_same_guest: "mem_wf m \<Longrightarrow> same_guest m (protect_if_fastmem vaddr len perm m)"
  by (simp add: same_guest_def protect_if_fastmem_def fun_eq_iff)

lemma Mark_same_guest:
  assumes "mem_wf m"
  shows "same_guest m (MarkRegionDebug vaddr len debug m)"
    "same_guest m (RasterizerMarkRegionCached reactive vaddr len cached m)"
proof -
  have p: "same_guest m (protect_if_fastmem vaddr len perm m)" for perm
    by (rule protect_same_guest [OF assms])
  then have q: "mem_wf (protect_if_fastmem vaddr len perm m)"
    "AddressSpaceContains (current_page_table (protect_if_fastmem vaddr len perm m)) vaddr len =
     AddressSpaceContains (current_page_table m) vaddr len" for perm
    using same_guest_contains [OF p] by (simp_all add: same_guest_def)
  show "same_guest m (MarkRegionDebug vaddr len debug m)"
    using same_guest_refl [OF assms] same_guest_trans [OF p debug_marker.region_same_guest [OF q(1)]] q(2)
    by (simp add: MarkRegionDebug_def)
  show "same_guest m (RasterizerMarkRegionCached reactive vaddr len cached m)"
    using same_guest_refl [OF assms] same_guest_trans [OF p cache_marker.region_same_guest [OF q(1)]] q(2)
    by (simp add: RasterizerMarkRegionCached_def)
qed

section \<open>Mapping regions\<close>

text \<open>
  All pages of one mapping get the same relative pointer and the same relative backing
  address, since the target advances with the virtual address.
\<close>

lemma push_page: "push_bit 12 (word_of_nat b :: u64) = word_of_nat (4096 * b)"
  by (simp add: push_bit_eq_mult)

lemma MapPages_set_spec:
  fixes pt :: PageTable and m :: "'g Memory_Impl" and b n :: nat and orig target :: u64 and t :: PageType
  assumes "b + n \<le> length (pointers pt)" "length (pointers pt) \<le> 2 ^ 36"
    "length (backing_addr pt) = length (pointers pt)" "length (blocks pt) = length (pointers pt)"
  defines "pt' \<equiv> MapPages_set n m orig (word_of_nat b) target t pt"
  shows "length (pointers pt') = length (pointers pt) \<and> length (backing_addr pt') = length (pointers pt) \<and>
    length (blocks pt') = length (pointers pt) \<and>
    current_address_space_width_in_bits pt' = current_address_space_width_in_bits pt \<and>
    page_size pt' = page_size pt \<and>
    (\<forall>i. pointers pt' ! i = (if b \<le> i \<and> i < b + n
       then PageInfo_Store (DeviceMemory_GetPointer m target - word_of_nat (4096 * b)) t else pointers pt ! i)) \<and>
    (\<forall>i. backing_addr pt' ! i = (if b \<le> i \<and> i < b + n
       then target - word_of_nat (4096 * b) else backing_addr pt ! i))"
  using assms(1-4) unfolding pt'_def
proof (induction n arbitrary: b target pt)
  case (Suc n)
  have u: "unat (word_of_nat b :: u64) = b" using Suc.prems(1,2) by (intro unat_u64_of_nat) simp
  let ?pt = "pt\<lparr> pointers := (pointers pt)[b := PageInfo_Store (DeviceMemory_GetPointer m target - word_of_nat (4096 * b)) t],
      backing_addr := (backing_addr pt)[b := target - word_of_nat (4096 * b)],
      blocks := (blocks pt)[b := push_bit 12 orig] \<rparr>"
  have st: "MapPages_set (Suc n) m orig (word_of_nat b) target t pt =
      MapPages_set n m orig (word_of_nat (Suc b)) (target + 4096) t ?pt"
    by (simp only: MapPages_set.simps Let_def page_constants push_page u) (simp add: add.commute)
  have h: "DeviceMemory_GetPointer m (target + 4096) - word_of_nat (4096 * Suc b) =
      DeviceMemory_GetPointer m target - word_of_nat (4096 * b)"
    "target + 4096 - word_of_nat (4096 * Suc b) = target - word_of_nat (4096 * b)"
    by (simp_all add: DeviceMemory_GetPointer_def)
  have ih: "length (pointers ?pt) = length (pointers pt)" "Suc b + n \<le> length (pointers ?pt)"
    "length (pointers ?pt) \<le> 2 ^ 36" "length (backing_addr ?pt) = length (pointers ?pt)"
    "length (blocks ?pt) = length (pointers ?pt)"
    using Suc.prems by simp_all
  show ?case
    using Suc.IH [OF ih(2-5), of "target + 4096"] Suc.prems unfolding st h
    by (auto simp: nth_list_update not_less_eq_eq less_Suc_eq_le)
qed auto

text \<open>
  \<open>maps_region\<close>: mapping \<open>k\<close> pages at page \<open>b\<close> onto the physical address \<open>target\<close> is
  sensible: the pages exist, the target lies in the emulated DRAM, and neither relative
  value is zero, which the table takes for absence.
\<close>

definition maps_region :: "'g Memory_Impl \<Rightarrow> nat \<Rightarrow> nat \<Rightarrow> u64 \<Rightarrow> bool" where
  "maps_region m b k target \<longleftrightarrow>
     b + k \<le> page_count m \<and> page_aligned target \<and> unat DramBase \<le> unat target \<and>
     unat target + 4096 * k \<le> unat DramBase + backing_size m \<and> unat target + 4096 * k < 2 ^ 64 \<and>
     target \<noteq> word_of_nat (4096 * b) \<and> DeviceMemory_GetPointer m target \<noteq> word_of_nat (4096 * b)"

lemma mapped_page_ok:
  assumes "mem_wf m" "maps_region m b k target" "b \<le> i" "i < b + k"
    "backing_addr (current_page_table m') ! i = target - word_of_nat (4096 * b)"
    "pointers (current_page_table m') ! i =
       PageInfo_Store (DeviceMemory_GetPointer m target - word_of_nat (4096 * b)) Memory"
    "backing_base m' = backing_base m" "backing_size m' = backing_size m"
  shows "page_ok m' i" "page_kind m' i = Memory"
    "page_rel m' i = DeviceMemory_GetPointer m target - word_of_nat (4096 * b)"
proof -
  note r = assms(2) [unfolded maps_region_def]
  let ?h = "DeviceMemory_GetPointer m target - word_of_nat (4096 * b)"
  have "page_aligned ?h"
    unfolding DeviceMemory_GetPointer_def
  proof (intro page_aligned_add page_aligned_diff page_aligned_page)
    show "page_aligned (backing_base m)" using assms(1) by (simp add: mem_wf_def page_aligned_def)
    show "page_aligned target" using r by simp
    show "page_aligned DramBase" by (simp add: page_aligned_def DramBase_def)
  qed
  note low = page_aligned_low [OF this]
  show k: "page_kind m' i = Memory" by (simp only: page_kind_def assms(6) PageInfo_type [OF low])
  show rel: "page_rel m' i = ?h" by (simp add: page_rel_def assms(5,7) DeviceMemory_GetPointer_def)
  have "word_of_nat (4096 * i) = (word_of_nat (4096 * b) + word_of_nat (4096 * (i - b)) :: u64)"
    using assms(3) by (simp add: of_nat_diff algebra_simps flip: of_nat_add)
  then have ph: "page_phys m' i = target + word_of_nat (4096 * (i - b))"
    by (simp add: page_phys_def assms(5))
  have off: "4096 * (i - b) + 4096 \<le> 4096 * k" using assms(3,4) by simp
  have "unat (word_of_nat (4096 * (i - b)) :: u64) = 4096 * (i - b)"
    using r off by (intro unat_u64_of_nat) simp
  then have un: "unat (page_phys m' i) = unat target + 4096 * (i - b)"
    using r off by (simp add: ph unat_word_ariths(1))
  have al: "unat (page_phys m' i) mod 4096 = 0" using r by (simp add: un page_aligned_def)
  have pt: "ExtractPointer (pointers (current_page_table m') ! i) = page_rel m' i"
    by (simp only: assms(6) PageInfo_pointer [OF low] rel)
  have "backing_addr (current_page_table m') ! i \<noteq> 0" "page_rel m' i \<noteq> 0"
    using r unfolding assms(5) rel by auto
  with k al un pt r off show "page_ok m' i" unfolding page_ok_def assms(8) by auto
qed

lemma mem_wf_table:
  assumes "mem_wf m" "length (pointers pt) = page_count m" "length (backing_addr pt) = page_count m"
    "length (blocks pt) = page_count m" "page_size pt = page_size (current_page_table m)"
    "current_address_space_width_in_bits pt = current_address_space_width_in_bits (current_page_table m)"
    "\<And>i. i < page_count m \<Longrightarrow> page_ok (m\<lparr> current_page_table := pt \<rparr>) i"
  shows "mem_wf (m\<lparr> current_page_table := pt \<rparr>)"
  using assms by (simp add: mem_wf_def Let_def list_all_iff)

lemma MapPages_set_wf:
  fixes m :: "'g Memory_Impl" and b k :: nat and orig target :: u64
  assumes "mem_wf m" "maps_region m b k target"
  defines "m' \<equiv> m\<lparr> current_page_table :=
      MapPages_set k m orig (word_of_nat b) target Memory (current_page_table m) \<rparr>"
  shows "mem_wf m'"
    "b \<le> i \<Longrightarrow> i < b + k \<Longrightarrow> page_kind m' i = Memory \<and>
       page_rel m' i = DeviceMemory_GetPointer m target - word_of_nat (4096 * b)"
    "\<not> (b \<le> i \<and> i < b + k) \<Longrightarrow> page_kind m' i = page_kind m i \<and> page_rel m' i = page_rel m i"
proof -
  let ?pt = "current_page_table m"
  have len: "length (backing_addr ?pt) = length (pointers ?pt)" "length (blocks ?pt) = length (pointers ?pt)"
    using assms(1) by (simp_all add: mem_wf_def Let_def)
  have bk: "b + k \<le> page_count m" using assms(2) by (simp add: maps_region_def)
  note sp = MapPages_set_spec [OF bk mem_wf_count [OF assms(1)] len, of m orig target Memory]
  have fr: "backing_base m' = backing_base m" "backing_size m' = backing_size m" by (simp_all add: m'_def)
  have nth: "pointers (current_page_table m') ! j = (if b \<le> j \<and> j < b + k
       then PageInfo_Store (DeviceMemory_GetPointer m target - word_of_nat (4096 * b)) Memory else pointers ?pt ! j)"
    "backing_addr (current_page_table m') ! j = (if b \<le> j \<and> j < b + k
       then target - word_of_nat (4096 * b) else backing_addr ?pt ! j)" for j
    using sp by (simp_all add: m'_def)
  have inside: "page_ok m' j" "page_kind m' j = Memory"
    "page_rel m' j = DeviceMemory_GetPointer m target - word_of_nat (4096 * b)" if "b \<le> j" "j < b + k" for j
    using mapped_page_ok [OF assms(1,2) that, of m'] that fr by (simp_all add: nth)
  have outside: "page_kind m' j = page_kind m j" "page_rel m' j = page_rel m j" "page_phys m' j = page_phys m j"
    "page_ok m' j = page_ok m j" if "\<not> (b \<le> j \<and> j < b + k)" for j
    by (simp_all only: page_ok_def page_kind_def page_rel_def page_phys_def nth fr that if_False)
  have "page_ok m' j" if "j < page_count m" for j
    using inside outside mem_wf_page [OF assms(1) that] by metis
  then show "mem_wf m'" unfolding m'_def using sp len by (intro mem_wf_table [OF assms(1)]) simp_all
  show "b \<le> i \<Longrightarrow> i < b + k \<Longrightarrow> page_kind m' i = Memory \<and>
       page_rel m' i = DeviceMemory_GetPointer m target - word_of_nat (4096 * b)"
    using inside by simp
  show "\<not> (b \<le> i \<and> i < b + k) \<Longrightarrow> page_kind m' i = page_kind m i \<and> page_rel m' i = page_rel m i"
    using outside by simp
qed

section \<open>Properties\<close>

text \<open>
  Property C26. Marking pages is invisible to unsafe reads: after marking or unmarking any region
  for the debugger or for the rasterizer the memory is still well formed, and every
  \<^verbatim>\<open>ReadBlockUnsafe\<close> inside the address space returns the same bytes and the same status as
  before, whatever the GPU does. \<^verbatim>\<open>ReadBlock\<close> is another matter: on a page that has become cached it
  asks the GPU to write its data back first.
\<close>

theorem marking_is_invisible:
  assumes "mem_wf m" "m' = MarkRegionDebug vaddr len flag m \<or>
      m' = RasterizerMarkRegionCached reactive vaddr len flag m"
    and "AddressSpaceContains (current_page_table m) addr n"
  shows "mem_wf m' \<and>
    map_sum id (\<lambda>(ok, s, bs). (ok, bs)) (ReadBlockUnsafe gpu addr n m') =
    map_sum id (\<lambda>(ok, s, bs). (ok, bs)) (ReadBlockUnsafe gpu' addr n m)"
proof -
  have s: "same_guest m m'" using assms(1,2) Mark_same_guest by metis
  then have "mem_wf m'" "mapped m' = mapped m" by (simp_all add: same_guest_def)
  then show ?thesis
    using assms(1,3) ReadBlockImpl_eq [of m addr n True] ReadBlockImpl_eq [of m' addr n True]
      same_guest_byte [OF s] same_guest_contains [OF s] by (simp add: ReadBlockUnsafe_def)
qed

theorem marking_is_invisible_witness:
  "map_sum id (\<lambda>(ok, s, bs). (ok, bs))
     (ReadBlockUnsafe silent_gpu 0xFFF 2 (RasterizerMarkRegionCached True 0x1000 0x2000 True tiny_memory)) =
   Inr (False, [0, 2])"
proof -
  have "ReadBlockUnsafe silent_gpu 0xFFF 2 tiny_memory = Inr (False, tiny_memory, [0, 2])"
    using ReadBlockImpl_eq [OF tiny_wf tiny_contains(2), of True silent_gpu]
    by (simp add: ReadBlockUnsafe_def all_less_2 upt_conv_Cons mapped_def tiny_kinds guest_byte_def
        guest_ptr_def page_rel_def DramBase_def)
  then show ?thesis
    using marking_is_invisible [OF tiny_wf _ tiny_contains(2), of _ "0x1000" "0x2000" True True silent_gpu silent_gpu]
    by simp
qed

text \<open>
  Mapping a region gives it the requested translation and touches nothing else:
  the table \<^verbatim>\<open>MapMemoryRegion\<close> returns is well formed, each address of the region is mapped
  and points at its own offset from the target in the emulated DRAM, and the other addresses
  keep their translation.
\<close>

theorem map_region_translation:
  assumes "mem_wf m" "base = word_of_nat (4096 * b)" "len = word_of_nat (4096 * k)"
    "maps_region m b k target" "m' = m\<lparr> current_page_table :=
      fst (MapMemoryRegion (current_page_table m) base len target perms separate_heap m) \<rparr>"
  shows "mem_wf m' \<and>
    (\<forall>a. b \<le> a div 4096 \<and> a div 4096 < b + k \<longrightarrow>
       mapped m' a \<and> guest_ptr m' a = DeviceMemory_GetPointer m (target + (word_of_nat a - base))) \<and>
    (\<forall>a. \<not> (b \<le> a div 4096 \<and> a div 4096 < b + k) \<longrightarrow>
       mapped m' a = mapped m a \<and> guest_ptr m' a = guest_ptr m a)"
proof -
  have bk: "b + k \<le> 2 ^ 36"
    using assms(4) mem_wf_count [OF assms(1)] by (simp add: maps_region_def)
  have page: "(word_of_nat (4096 * i) :: u64) div 4096 = word_of_nat i" if "i \<le> 2 ^ 36" for i :: nat
  proof -
    have "unat (word_of_nat (4096 * i) :: u64) = 4096 * i" "unat (word_of_nat i :: u64) = i"
      using that by (intro unat_u64_of_nat; simp)+
    then show ?thesis by (simp add: word_unat_eq_iff unat_div_distrib del: of_nat_mult)
  qed
  have t0: "target \<noteq> 0" using assms(4) by (auto simp: maps_region_def DramBase_def)
  have u: "unat (word_of_nat k :: u64) = k" using bk by (intro unat_u64_of_nat) simp
  have m': "m' = m\<lparr> current_page_table :=
      MapPages_set k m (word_of_nat b) (word_of_nat b) target Memory (current_page_table m) \<rparr>"
    using t0 bk page [of b] page [of k] u
    by (simp add: assms(2,3,5) MapMemoryRegion_def MapPages_def del: of_nat_mult)
  note w = MapPages_set_wf [OF assms(1,4), where orig = "word_of_nat b", folded m']
  show ?thesis
    using w by (auto simp: mapped_def guest_ptr_def assms(2) DeviceMemory_GetPointer_def)
qed

theorem map_region_translation_witness:
  "maps_region tiny_memory 0 1 0x80003000 \<and>
   mapped (tiny_memory\<lparr> current_page_table :=
     fst (MapMemoryRegion (current_page_table tiny_memory) 0 0x1000 0x80003000 3 False tiny_memory) \<rparr>) 5"
proof -
  have r: "maps_region tiny_memory 0 1 0x80003000"
    by (simp add: maps_region_def page_aligned_def DramBase_def DeviceMemory_GetPointer_def)
  show ?thesis
    using r map_region_translation [OF tiny_wf _ _ r refl, where base = 0 and len = "0x1000" and perms = 3 and separate_heap = False]
    by simp
qed

end
