(* ===== verification/KPageTableAliases.thy ===== *)
theory KPageTableAliases
  imports KPageTableLocks KPageTableMapping KPageGroupTargets GuestMemoryMarking
begin

text \<open>
  Aliases of memory: mapping a page group gives the pages of the destination the physical pages of
  the group, and mapping and unmapping an alias are inverse to each other.
\<close>

unbundle bit_operations_syntax

section \<open>Mapping page groups\<close>

text \<open>A page table with its three arrays of one length.\<close>

definition table_shape :: "PageTable \<Rightarrow> bool" where
  "table_shape pt \<longleftrightarrow> length (pointers pt) \<le> 2 ^ 36 \<and> length (backing_addr pt) = length (pointers pt) \<and>
     length (blocks pt) = length (pointers pt) \<and> page_size pt = PageSize"

lemma map_region_targets:
  assumes "table_shape pt" "unat base = 4096 * b" "run_ok ca cs" "b + unat cs div 4096 \<le> length (backing_addr pt)" "ca \<noteq> 0"
    "pt' = fst (MapMemoryRegion pt base cs ca perms sep m)"
  shows "table_shape pt'" "length (backing_addr pt') = length (backing_addr pt)"
    "target pt' i =
       (if b \<le> i \<and> i < b + unat cs div 4096
        then (if ca = of_nat (4096 * b) then None else Some (ca + of_nat (i - b) * PageSize)) else target pt i)"
proof -
  let ?n = "unat cs div 4096"
  have "unat (base div YUZU_PAGESIZE) = b" using assms(2) by (simp add: unat_div page_constants)
  moreover have "base div YUZU_PAGESIZE = word_of_nat (unat (base div YUZU_PAGESIZE))" by simp
  ultimately have b: "base div YUZU_PAGESIZE = word_of_nat b" by (simp only:)
  have n: "unat (cs div YUZU_PAGESIZE) = ?n" by (simp add: unat_div page_constants)
  have pt': "pt' = MapPages_set ?n m (word_of_nat b) (word_of_nat b) ca Memory pt"
    using assms(5,6) by (simp add: MapMemoryRegion_def MapPages_def b [simplified] n [simplified])
  have len: "b + ?n \<le> length (pointers pt)" "length (pointers pt) \<le> 2 ^ 36"
    "length (backing_addr pt) = length (pointers pt)" "length (blocks pt) = length (pointers pt)"
    using assms(1,4) by (simp_all add: table_shape_def)
  note sp = MapPages_set_spec [OF len, of m "word_of_nat b" ca Memory, folded pt']
  show "table_shape pt'" "length (backing_addr pt') = length (backing_addr pt)"
    using sp assms(1) by (simp_all add: table_shape_def)
  have z: "ca - word_of_nat (4096 * b) = 0 \<longleftrightarrow> ca = of_nat (4096 * b)" by (simp only: right_minus_eq)
  have v: "ca - word_of_nat (4096 * b) + of_nat i * PageSize = ca + of_nat (i - b) * PageSize" if "b \<le> i"
    using that by (simp add: PageSize_def push_bit_eq_mult algebra_simps of_nat_diff)
  show "target pt' i =
      (if b \<le> i \<and> i < b + ?n
       then (if ca = of_nat (4096 * b) then None else Some (ca + of_nat (i - b) * PageSize)) else target pt i)"
    using sp len(1,3) v z by (auto simp: target_def)
qed

text \<open>What the mapping operations leave alone.\<close>

lemma Operate_Map_fields:
  "m_memory_block_manager (Operate_Map h v n p q t) = m_memory_block_manager t"
  "m_memory_block_slab (Operate_Map h v n p q t) = m_memory_block_slab t"
  "m_address_space_start (Operate_Map h v n p q t) = m_address_space_start t"
  "m_address_space_end (Operate_Map h v n p q t) = m_address_space_end t"
  "m_block_infos (Operate_Map h v n p q t) = m_block_infos t"
  by (simp_all add: Operate_Map_def set_impl_def Let_def split: prod.split)

lemma MapPageGroupImpl_fields:
  "m_memory_block_manager (MapPageGroupImpl h v pg q t) = m_memory_block_manager t"
  "m_memory_block_slab (MapPageGroupImpl h v pg q t) = m_memory_block_slab t"
  "m_address_space_start (MapPageGroupImpl h v pg q t) = m_address_space_start t"
  "m_address_space_end (MapPageGroupImpl h v pg q t) = m_address_space_end t"
  "m_block_infos (MapPageGroupImpl h v pg q t) = m_block_infos t"
  by (induction pg arbitrary: v t) (simp_all add: Operate_Map_fields)

lemma Operate_Map_impl:
  "m_impl (Operate_Map h v n p q t) =
     fst (MapMemoryRegion (m_impl t) v (n * PageSize) p (ConvertToMemoryPermission q) False (m_memory t))"
  by (simp add: Operate_Map_def set_impl_def Let_def split: prod.split)

text \<open>The pages that can be mapped at page \<open>b\<close>: the relative address that is stored must not be zero.\<close>

definition mappable :: "nat \<Rightarrow> u64 list \<Rightarrow> bool" where
  "mappable b ps \<longleftrightarrow> (\<forall>j < length ps. ps ! j \<noteq> 0 \<and> ps ! j \<noteq> of_nat (4096 * (b + j)))"

lemma all_less_add: "(\<forall>j < m + n. P j) \<longleftrightarrow> (\<forall>j < m. P j) \<and> (\<forall>j < n. P (m + j))" for m n :: nat
proof
  assume r: "(\<forall>j < m. P j) \<and> (\<forall>j < n. P (m + j))"
  show "\<forall>j < m + n. P j"
  proof (intro allI impI)
    fix j assume "j < m + n"
    then show "P j" using r by (cases "j < m") (auto dest!: spec [of "\<lambda>j. j < n \<longrightarrow> P (m + j)" "j - m"])
  qed
qed simp

lemma mappable_append: "mappable b (xs @ ys) \<longleftrightarrow> mappable b xs \<and> mappable (b + length xs) ys"
  unfolding mappable_def length_append all_less_add by (simp add: nth_append add.assoc)

lemma mappable_Cons: "mappable b (x # xs) \<longleftrightarrow> x \<noteq> 0 \<and> x \<noteq> of_nat (4096 * b) \<and> mappable (b + 1) xs"
  using mappable_append [of b "[x]" xs] by (simp add: mappable_def)

lemma map_group_targets:
  assumes "table_shape (m_impl t)" "unat cur = 4096 * b" "\<forall>k\<in>set pg. sound_block k"
    "b + length (group_pages pg) \<le> length (backing_addr (m_impl t))" "mappable b (group_pages pg)"
  shows "table_shape (m_impl (MapPageGroupImpl h cur pg q t)) \<and>
     length (backing_addr (m_impl (MapPageGroupImpl h cur pg q t))) = length (backing_addr (m_impl t)) \<and>
     (\<forall>i. target (m_impl (MapPageGroupImpl h cur pg q t)) i =
       (if b \<le> i \<and> i < b + length (group_pages pg) then Some (group_pages pg ! (i - b)) else target (m_impl t) i))"
  using assms
proof (induction pg arbitrary: cur b t)
  case Nil
  then show ?case by (auto simp: group_pages_Nil)
next
  case (Cons k pg)
  let ?ca = "BlockInfo_GetAddress k" and ?cs = "BlockInfo_GetSize k"
  let ?n = "unat ?cs div 4096" and ?t = "Operate_Map h cur (BlockInfo_GetNumPages k) (BlockInfo_GetAddress k) q t"
  have run: "run_ok ?ca ?cs" using Cons.prems(3) by (simp add: sound_block_def)
  have gp: "group_pages (k # pg) = run_pages ?ca ?cs @ group_pages pg" by (simp add: group_pages_def)
  have len: "length (run_pages ?ca ?cs) = ?n" by (simp add: run_pages_def)
  have n0: "0 < ?n" using run by (auto simp: run_ok_def)
  have first: "run_pages ?ca ?cs ! 0 = ?ca" using n0 by (simp add: run_pages_def)
  have mp: "mappable b (run_pages ?ca ?cs)" "mappable (b + ?n) (group_pages pg)"
    using Cons.prems(5) by (simp_all add: gp mappable_append len)
  then have ca: "?ca \<noteq> 0" "?ca \<noteq> of_nat (4096 * b)" using n0 first len unfolding mappable_def by fastforce+
  have bn: "b + ?n \<le> length (backing_addr (m_impl t))" using Cons.prems(4) by (simp add: gp len)
  have impl: "m_impl ?t = fst (MapMemoryRegion (m_impl t) cur ?cs ?ca (ConvertToMemoryPermission q) False (m_memory t))"
    by (simp add: Operate_Map_impl BlockInfo_GetSize_def)
  note mr = map_region_targets [OF Cons.prems(1,2) run bn ca(1) impl]
  have "length (backing_addr (m_impl t)) \<le> 2 ^ 36" using Cons.prems(1) by (simp add: table_shape_def)
  then have "unat (cur + ?cs) = 4096 * (b + ?n)"
    using Cons.prems(2) bn run unat_add_small [of cur ?cs] by (simp add: run_ok_def mod_eq_0_iff_dvd dvd_mult_div_cancel)
  note ih = Cons.IH [OF mr(1) this _ _ mp(2)]
  have ih: "table_shape (m_impl (MapPageGroupImpl h (cur + ?cs) pg q ?t))"
    "length (backing_addr (m_impl (MapPageGroupImpl h (cur + ?cs) pg q ?t))) = length (backing_addr (m_impl t))"
    "\<forall>i. target (m_impl (MapPageGroupImpl h (cur + ?cs) pg q ?t)) i =
       (if b + ?n \<le> i \<and> i < b + ?n + length (group_pages pg) then Some (group_pages pg ! (i - (b + ?n))) else target (m_impl ?t) i)"
    using ih Cons.prems(3,4) mr(2) by (simp_all add: gp len)
  have "target (m_impl (MapPageGroupImpl h (cur + ?cs) pg q ?t)) i =
      (if b \<le> i \<and> i < b + length (group_pages (k # pg)) then Some (group_pages (k # pg) ! (i - b)) else target (m_impl t) i)" for i
  proof (cases "b \<le> i \<and> i < b + ?n")
    case True
    then have "i - b < ?n" by auto
    then show ?thesis using True ih(3) mr(3) ca(2) len by (simp add: gp nth_append run_pages_def)
  next
    case False
    then show ?thesis using ih(3) mr(3) len by (auto simp: gp nth_append)
  qed
  then show ?case using ih(1,2) by simp
qed

section \<open>Two updates\<close>

text \<open>An update with an allocator that has at least the blocks it needs.\<close>

lemma set_blocks:
  assumes "table_ok t" "Contains addr sz t" "unat addr mod 4096 = 0" "unat sz mod 4096 = 0"
    "blocks_needed (table_tree t) (unat addr) (unat addr + unat sz) \<le> k" "k \<le> MaxBlocks"
    "table_pages t (unat addr) = Some v0" "\<not> has_properties s p a v0" "a AND (Attr_IpcLocked OR Attr_DeviceShared) = Attr_None"
  shows "\<exists>t'. update_blocks (Manager_Update (UpdateAllocator_ctor k) addr (sz div PageSize) s p a sm cm) t = Inr t' \<and>
     table_ok t' \<and> same_space t t' \<and> m_memory_block_slab t \<le> m_memory_block_slab t' \<and> m_block_infos t' = m_block_infos t \<and>
     table_pages t' = on_range (unat addr) (unat addr + unat sz) (update_effect s p a) (table_pages t) \<and>
     keeps_cuts (unat addr) (unat addr + unat sz) (table_tree t) (table_tree t')"
proof -
  let ?n = "sz div PageSize" and ?m = "m_memory_block_manager t"
  have wf: "well_formed ?m" using assms(1) by (simp add: table_ok_def)
  have sb: "\<not> steps_back (\<lambda>b. \<not> HasProperties s p a b) ?m addr ?n"
  proof
    assume "steps_back (\<lambda>b. \<not> HasProperties s p a b) ?m addr ?n"
    then obtain b where "table_pages t (unat addr) = Some (properties b)" "HasProperties s p a b"
      using steps_back_page [OF assms(1,2)] in_space_range(2) [OF assms(1-4)] by blast
    then show False using assms(7,8) by (simp add: HasProperties_iff)
  qed
  have "updates_pages ?m addr ?n (update_effect s p a) (Manager_Update (UpdateAllocator_ctor k) addr ?n s p a sm cm ?m)"
    using setting.update_range_pages [OF wf in_space_range(1) [OF assms(1-4)] sb _ assms(6)] assms(5) range_pages [OF assms(4)]
    unfolding Manager_Update_def Update_pages [OF assms(9)] by simp
  then show ?thesis
    using assms(1) range_pages [OF assms(4)]
    by (auto simp: updates_pages_def update_blocks_def table_ok_def same_space_def split: sum.splits)
qed

text \<open>A boundary between blocks is where two pages differ, or one that was there before.\<close>

lemma cuts_same_page:
  assumes "tiled a bs z" "cuts bs x"
  shows "page_map bs (x - 1) = page_map bs x"
  using assms
proof (induction bs arbitrary: a)
  case (Cons b bs)
  show ?case
  proof (cases "lo b < x \<and> x < hi b")
    case False
    then have c: "cuts bs x" using Cons.prems(2) by (auto simp: cuts_Cons)
    have t: "tiled (hi b) bs z" using Cons.prems(1) by simp
    then have "hi b < x" using c cuts_above [of "hi b" bs z x] by (meson linorder_not_less)
    then show ?thesis using Cons.IH [OF t c] by auto
  qed auto
qed (simp add: cuts_def)

lemma needed_after:
  assumes "table_ok t'" "keeps_cuts c l (table_tree t) (table_tree t')"
    "\<And>x. x \<in> {d, e} \<Longrightarrow> c \<le> x \<Longrightarrow> x \<le> l \<Longrightarrow> table_pages t' (x - 1) \<noteq> table_pages t' x"
  shows "blocks_needed (table_tree t') d e \<le> blocks_needed (table_tree t) d e"
proof -
  have tiled: "tiled (unat (m_start_address (m_memory_block_manager t'))) (table_tree t') (unat (m_end_address (m_memory_block_manager t')))"
    using assms(1) unfolding table_ok_def well_formed_def by blast
  have "cuts (table_tree t) x" if "x \<in> {d, e}" "cuts (table_tree t') x" for x
    using cuts_same_page [OF tiled that(2)] assms(2) assms(3) [of x] that
    by (cases "c \<le> x \<and> x \<le> l") (auto simp: keeps_cuts_def pages_def)
  then have "cuts (table_tree t') d \<longrightarrow> cuts (table_tree t) d" "cuts (table_tree t') e \<longrightarrow> cuts (table_tree t) e" by blast+
  then show ?thesis by (auto simp: blocks_needed_def)
qed

lemma page_defined:
  assumes "table_ok t" "Contains addr sz t" "unat addr \<le> x" "x < unat addr + unat sz"
  shows "\<exists>v. table_pages t x = Some v"
proof -
  have "tiled (unat (m_address_space_start t)) (table_tree t) (unat (m_address_space_end t))"
    using assms(1) unfolding table_ok_def well_formed_def by metis
  from page_map_None_iff [OF this, of x] show ?thesis
    using range_in_table [OF assms(1,2)] assms(3,4) by (auto simp: pages_def)
qed

definition apart :: "u64 \<Rightarrow> u64 \<Rightarrow> u64 \<Rightarrow> bool" where
  "apart a b sz \<longleftrightarrow> unat a + unat sz \<le> unat b \<or> unat b + unat sz \<le> unat a"

lemma apart_first: "apart a b sz \<Longrightarrow> 0 < unat sz \<Longrightarrow> \<not> (unat a \<le> unat b \<and> unat b < unat a + unat sz)"
  by (auto simp: apart_def)

lemma update_effect_state: "fst (update_effect s p a v) = s"
  by (cases v) simp

lemma touching_pages:
  assumes "table_ok t" "Contains a sz t" "Contains b sz t" "apart a b sz"
    "table_pages t1 = on_range (unat a) (unat a + unat sz) (update_effect s p at) (table_pages t)"
    "range_all (\<lambda>v. fst v \<noteq> s) (table_pages t) (unat b) (unat b + unat sz)"
    "x \<in> {unat b, unat b + unat sz}" "unat a \<le> x" "x \<le> unat a + unat sz"
  shows "table_pages t1 (x - 1) \<noteq> table_pages t1 x"
proof -
  have sz: "0 < unat sz" using range_in_table(2) [OF assms(1,2)] .
  have in_a: "\<exists>v. table_pages t1 y = Some v \<and> fst v = s" if "unat a \<le> y" "y < unat a + unat sz" for y
    using page_defined [OF assms(1,2) that] that assms(5) by (auto simp: on_range_def update_effect_state)
  have in_b: "\<exists>v. table_pages t1 y = Some v \<and> fst v \<noteq> s" if y: "unat b \<le> y" "y < unat b + unat sz" for y
  proof -
    obtain v where v: "table_pages t y = Some v" using page_defined [OF assms(1,3) y] by blast
    then have "fst v \<noteq> s" using assms(6) y unfolding range_all_def by blast
    moreover have "table_pages t1 y = Some v" using v y assms(4,5) by (auto simp: on_range_def apart_def)
    ultimately show ?thesis by blast
  qed
  consider "x = unat b" "unat b = unat a + unat sz" | "x = unat b + unat sz" "unat b + unat sz = unat a"
    using assms(4,7-9) sz by (auto simp: apart_def)
  then show ?thesis
  proof cases
    case 1
    have "unat a \<le> x - 1" "x - 1 < unat a + unat sz" "unat b \<le> x" "x < unat b + unat sz" using 1 sz by linarith+
    then show ?thesis using in_a [of "x - 1"] in_b [of x] by fastforce
  next
    case 2
    have "unat b \<le> x - 1" "x - 1 < unat b + unat sz" "unat a \<le> x" "x < unat a + unat sz" using 2 sz by linarith+
    then show ?thesis using in_b [of "x - 1"] in_a [of x] by fastforce
  qed
qed

lemma two_updates:
  assumes "table_ok t" "Contains a sz t" "Contains b sz t" "unat a mod 4096 = 0" "unat b mod 4096 = 0" "unat sz mod 4096 = 0"
    "apart a b sz" "range_all (\<lambda>v. fst v \<noteq> s) (table_pages t) (unat b) (unat b + unat sz)"
    "table_pages t (unat a) = Some v0" "\<not> has_properties s p at v0" "at AND (Attr_IpcLocked OR Attr_DeviceShared) = Attr_None"
    "table_pages t (unat b) = Some w0" "\<not> has_properties s' p' at' w0" "at' AND (Attr_IpcLocked OR Attr_DeviceShared) = Attr_None"
  shows "\<exists>t1 t2. update_blocks (Manager_Update (UpdateAllocator_ctor (blocks_needed (table_tree t) (unat a) (unat a + unat sz)))
         a (sz div PageSize) s p at sm cm) t = Inr t1 \<and>
     update_blocks (Manager_Update (UpdateAllocator_ctor (blocks_needed (table_tree t) (unat b) (unat b + unat sz)))
         b (sz div PageSize) s' p' at' sm' cm') t1 = Inr t2 \<and>
     table_ok t2 \<and> same_space t t2 \<and> m_memory_block_slab t \<le> m_memory_block_slab t2 \<and> m_block_infos t2 = m_block_infos t \<and>
     table_pages t2 = on_range (unat b) (unat b + unat sz) (update_effect s' p' at')
       (on_range (unat a) (unat a + unat sz) (update_effect s p at) (table_pages t))"
proof -
  have max: "blocks_needed bs c l \<le> MaxBlocks" for bs c l by (simp add: blocks_needed_max)
  obtain t1 where t1: "update_blocks (Manager_Update (UpdateAllocator_ctor (blocks_needed (table_tree t) (unat a) (unat a + unat sz)))
         a (sz div PageSize) s p at sm cm) t = Inr t1"
    "table_ok t1" "same_space t t1" "m_memory_block_slab t \<le> m_memory_block_slab t1" "m_block_infos t1 = m_block_infos t"
    "table_pages t1 = on_range (unat a) (unat a + unat sz) (update_effect s p at) (table_pages t)"
    "keeps_cuts (unat a) (unat a + unat sz) (table_tree t) (table_tree t1)"
    using set_blocks [OF assms(1,2,4,6) order_refl max assms(9-11), of sm cm] by blast
  have c1: "Contains b sz t1" using assms(3) t1(3) by (simp add: Contains_def same_space_def)
  have "\<not> (unat a \<le> unat b \<and> unat b < unat a + unat sz)"
    using apart_first [OF assms(7)] range_in_table(2) [OF assms(1,2)] .
  then have w: "table_pages t1 (unat b) = Some w0" using assms(12) t1(6) by (auto simp: on_range_def)
  have "blocks_needed (table_tree t1) (unat b) (unat b + unat sz) \<le> blocks_needed (table_tree t) (unat b) (unat b + unat sz)"
    using needed_after [OF t1(2,7)] touching_pages [OF assms(1-3,7) t1(6) assms(8)] by blast
  from set_blocks [OF t1(2) c1 assms(5,6) this max w assms(13,14), of sm' cm']
  show ?thesis using t1 by (fastforce simp: same_space_def)
qed

section \<open>Mapping an alias\<close>

text \<open>A check that passes.\<close>

lemma check_passes:
  assumes "table_ok t" "Contains addr sz t" "unat addr mod 4096 = 0" "unat sz mod 4096 = 0"
    "table_pages t (unat addr) = Some (st0, pm0, og0, at0, ic0, dc0)"
    "range_all Q (table_pages t) (unat addr) (unat addr + unat sz)"
    "\<And>v. Q v \<Longrightarrow> page_same ig (st0, pm0, og0, at0, ic0, dc0) v \<and> page_matches c v"
  shows "CheckMemoryState addr sz c ig t =
     Inr (st0, pm0, at0 AND NOT ig, blocks_needed (table_tree t) (unat addr) (unat addr + unat sz))"
proof -
  have "range_all (\<lambda>v. page_same ig (st0, pm0, og0, at0, ic0, dc0) v \<and> page_matches c v) (table_pages t) (unat addr) (unat addr + unat sz)"
    by (rule range_all_mono [OF assms(6)]) (use assms(7) in blast)
  then show ?thesis using check_memory_state [OF assms(1-4), of c ig] assms(5) by auto
qed

lemma apart_ranges:
  assumes "table_ok t" "Contains a sz t" "Contains b sz t"
    "range_all P (table_pages t) (unat a) (unat a + unat sz)" "range_all Q (table_pages t) (unat b) (unat b + unat sz)"
    "\<And>v. P v \<Longrightarrow> \<not> Q v"
  shows "apart a b sz"
proof (rule ccontr)
  assume "\<not> apart a b sz"
  moreover have "0 < unat sz" using range_in_table(2) [OF assms(1,2)] .
  ultimately obtain x where x: "unat a \<le> x" "x < unat a + unat sz" "unat b \<le> x" "x < unat b + unat sz"
    using that [of "max (unat a) (unat b)"] by (auto simp: apart_def)
  then obtain v where "table_pages t x = Some v" using page_defined [OF assms(1,2)] by blast
  then show False using assms(4-6) x unfolding range_all_def by blast
qed

text \<open>The pages that can be aliased, and the pages of a destination.\<close>

fun alias_page :: "u32 \<Rightarrow> u8 \<Rightarrow> u8 \<Rightarrow> page_properties \<Rightarrow> bool" where
  "alias_page st0 pm0 at0 (st, pm, og, at, ic, dc) \<longleftrightarrow>
     st = st0 \<and> st AND State_FlagCanAlias = State_FlagCanAlias \<and> pm = pm0 \<and> at = at0"

fun plain_page :: "u32 \<Rightarrow> u8 \<Rightarrow> page_properties \<Rightarrow> bool" where
  "plain_page st0 pm0 (st, pm, og, at, ic, dc) \<longleftrightarrow> st = st0 \<and> pm = pm0 \<and> at = 0"

lemma alias_flag: "State_FlagCanAlias \<noteq> 0" "State_Free = 0"
  by (simp_all add: State_FlagCanAlias_def State_Free_def)

text \<open>What an alias needs of the page table: it covers the address space, and the pages can be stored at the destination.\<close>

definition alias_ready :: "(u64 \<Rightarrow> bool) \<Rightarrow> u64 \<Rightarrow> u64 \<Rightarrow> u64 \<Rightarrow> 'g KPageTableBase \<Rightarrow> bool" where
  "alias_ready is_heap dst src sz t \<longleftrightarrow>
     backed (m_impl t) \<and> table_shape (m_impl t) \<and>
     unat (m_address_space_end t) \<le> 4096 * length (backing_addr (m_impl t)) \<and>
     mappable (unat dst div 4096) (targets (m_impl t) (unat src div 4096) (unat sz div 4096)) \<and>
     (\<exists>pg infos. MakePageGroup (m_impl t) is_heap [] src (sz div PageSize) (m_block_infos t) = Inr (pg, infos))"

text \<open>The destination has the physical pages of the source.\<close>

definition aliased :: "u64 \<Rightarrow> u64 \<Rightarrow> u64 \<Rightarrow> PageTable \<Rightarrow> PageTable \<Rightarrow> bool" where
  "aliased dst src sz pt pt' \<longleftrightarrow> table_shape pt' \<and> length (backing_addr pt') = length (backing_addr pt) \<and>
     (\<forall>i. target pt' i = target pt
        (if unat dst div 4096 \<le> i \<and> i < unat dst div 4096 + unat sz div 4096
         then unat src div 4096 + (i - unat dst div 4096) else i))"

lemma map_group_aliases:
  assumes "table_ok t" "Contains src sz t" "Contains dst sz t" "unat src mod 4096 = 0" "unat dst mod 4096 = 0" "unat sz mod 4096 = 0"
    "alias_ready is_heap dst src sz t"
    "MakePageGroup (m_impl t) is_heap [] src (sz div PageSize) (m_block_infos t) = Inr (pg, infos)" "m_impl u = m_impl t"
  shows "aliased dst src sz (m_impl t) (m_impl (MapPageGroupImpl is_heap dst pg q u))"
proof -
  let ?s = "unat src div 4096" and ?d = "unat dst div 4096" and ?n = "unat sz div 4096" and ?pt = "m_impl t"
  have pt: "backed ?pt" "table_shape ?pt" "unat (m_address_space_end t) \<le> 4096 * length (backing_addr ?pt)"
    "mappable ?d (targets ?pt ?s ?n)" using assms(7) by (simp_all add: alias_ready_def)
  have np: "unat (sz div PageSize) = ?n" by (simp add: unat_div_PageSize)
  have len: "length (backing_addr ?pt) \<le> 2 ^ 36" using pt(2) by (simp add: table_shape_def)
  have "?s + ?n \<le> length (backing_addr ?pt)" "?d + ?n \<le> length (backing_addr ?pt)"
    using range_in_table(1) [OF assms(1,2)] range_in_table(1) [OF assms(1,3)] pt(3) by simp_all
  then have b: "?s + ?n < 2 ^ 52" "?d + ?n \<le> length (backing_addr ?pt)" using len by simp_all
  note g = made_group_pages [OF pt(1) assms(4) in_space_range(2) [OF assms(1,2,4,6)] _ assms(8), unfolded np, OF b(1)]
  have l: "length (targets ?pt ?s ?n) = ?n" by (simp add: targets_def)
  have "unat dst = 4096 * ?d" using assms(5) by (simp add: mod_eq_0_iff_dvd)
  note m = map_group_targets [of u dst ?d pg is_heap q, unfolded assms(9), OF pt(2) this g(2), unfolded g(1) l, OF b(2) pt(4)]
  have "Some (targets ?pt ?s ?n ! (i - ?d)) = target ?pt (?s + (i - ?d))" if "?d \<le> i" "i < ?d + ?n" for i
  proof -
    have "i - ?d < ?n" using that by auto
    moreover from this have "target ?pt (?s + (i - ?d)) \<noteq> None" using g(3) by simp
    ultimately show ?thesis by (auto simp: targets_def)
  qed
  then show ?thesis using m by (simp add: aliased_def)
qed

lemma same_table:
  assumes "table_ok t" "m_memory_block_manager u = m_memory_block_manager t"
    "m_address_space_start u = m_address_space_start t" "m_address_space_end u = m_address_space_end t"
  shows "table_ok u" "Contains addr sz u = Contains addr sz t"
  using assms by (simp_all add: table_ok_def Contains_def)

lemma new_allocators:
  assumes "na + nb \<le> m_memory_block_slab t"
  shows "new_allocator na t = Inr (UpdateAllocator_ctor na, t\<lparr> m_memory_block_slab := m_memory_block_slab t - na \<rparr>)"
    "new_allocator nb (t\<lparr> m_memory_block_slab := m_memory_block_slab t - na \<rparr>) =
       Inr (UpdateAllocator_ctor nb, t\<lparr> m_memory_block_slab := m_memory_block_slab t - na - nb \<rparr>)"
  using assms by (simp_all add: new_allocator_def)

lemma first_in_range:
  assumes "table_ok t" "Contains addr sz t" "range_all P (table_pages t) (unat addr) (unat addr + unat sz)"
  obtains v where "table_pages t (unat addr) = Some v" "P v"
proof -
  have l: "unat addr < unat addr + unat sz" using range_in_table(2) [OF assms(1,2)] by simp
  obtain v where v: "table_pages t (unat addr) = Some v" using page_defined [OF assms(1,2) order_refl l] by blast
  show thesis using that [OF v] range_all_first [OF assms(3) l v] .
qed

lemma range_size:
  assumes "unat sz mod 4096 = 0"
  shows "sz div PageSize * PageSize = sz"
proof -
  have "unat (sz div PageSize * PageSize) = unat sz"
    using unat_pages [of "sz div PageSize"] range_pages [OF assms] unsigned_less [of sz, where ?'a = nat] by simp
  then show ?thesis by (rule unsigned_word_eqI)
qed

lemma blocks_for_two: "4 \<le> k \<Longrightarrow> blocks_needed bs c l + blocks_needed bs d e \<le> k"
  using blocks_le_two [of bs c l] blocks_le_two [of bs d e] by simp

abbreviation alias_permission :: u8 where
  "alias_permission \<equiv> Perm_KernelRead OR Perm_NotMapped"

lemma map_memory_result:
  assumes "table_ok t" "Contains src sz t" "Contains dst sz t" "unat src mod 4096 = 0" "unat dst mod 4096 = 0" "unat sz mod 4096 = 0"
    "4 \<le> m_memory_block_slab t" "alias_ready is_heap dst src sz t"
    "range_all (alias_page st0 Perm_UserReadWrite 0) (table_pages t) (unat src) (unat src + unat sz)"
    "range_all (plain_page State_Free Perm_None) (table_pages t) (unat dst) (unat dst + unat sz)"
  shows "\<exists>t'. MapMemory is_heap dst src sz t = Inr t' \<and> table_ok t' \<and>
     m_address_space_start t' = m_address_space_start t \<and> m_address_space_end t' = m_address_space_end t \<and>
     m_memory_block_slab t \<le> m_memory_block_slab t' + 4 \<and> m_block_infos t' = m_block_infos t \<and>
     aliased dst src sz (m_impl t) (m_impl t') \<and>
     table_pages t' = on_range (unat dst) (unat dst + unat sz) (update_effect State_Stack Perm_UserReadWrite Attr_None)
       (on_range (unat src) (unat src + unat sz) (update_effect st0 alias_permission Attr_Locked) (table_pages t))"
proof -
  let ?n = "sz div PageSize" and ?na = "blocks_needed (table_tree t) (unat src) (unat src + unat sz)"
    and ?nb = "blocks_needed (table_tree t) (unat dst) (unat dst + unat sz)"
  obtain v0 og ic dc where v0: "table_pages t (unat src) = Some v0" and v: "v0 = (st0, Perm_UserReadWrite, og, 0, ic, dc)"
    and flag: "st0 AND State_FlagCanAlias = State_FlagCanAlias"
    using first_in_range [OF assms(1,2,9)] by (metis alias_page.elims(2))
  obtain w0 og' ic' dc' where w0: "table_pages t (unat dst) = Some w0" and w: "w0 = (State_Free, Perm_None, og', 0, ic', dc')"
    using first_in_range [OF assms(1,3,10)] by (metis plain_page.elims(2))
  have st0: "st0 \<noteq> State_Free" using flag alias_flag by auto
  have chk: "CheckMemoryState src sz \<lparr> state_mask = State_FlagCanAlias, want_state = State_FlagCanAlias, perm_mask = Perm_All,
       want_perm = Perm_UserReadWrite, attr_mask = Attr_All, want_attr = Attr_None \<rparr> DefaultMemoryIgnoreAttr t =
       Inr (st0, Perm_UserReadWrite, 0 AND NOT DefaultMemoryIgnoreAttr, ?na)"
    using v0 by (intro check_passes [OF assms(1,2,4,6) _ assms(9)]) (auto simp: v Perm_All_neutral Attr_All_neutral Attr_None_def)
  have chk': "CheckMemoryState dst sz free_masks DefaultMemoryIgnoreAttr t =
       Inr (State_Free, Perm_None, 0 AND NOT DefaultMemoryIgnoreAttr, ?nb)"
    using w0 by (intro check_passes [OF assms(1,3,5,6) _ assms(10)])
      (auto simp: w free_masks_def State_All_def State_None_def Perm_None_def Attr_None_def)
  have ap: "apart src dst sz"
    using st0 by (intro apart_ranges [OF assms(1-3,9,10)]) auto
  note na = blocks_for_two [OF assms(7), of "table_tree t" "unat src" "unat src + unat sz" "unat dst" "unat dst + unat sz"]
  obtain pg infos where g: "MakePageGroup (m_impl t) is_heap [] src ?n (m_block_infos t) = Inr (pg, infos)"
    using assms(8) by (auto simp: alias_ready_def)
  let ?t2 = "t\<lparr> m_memory_block_slab := m_memory_block_slab t - ?na - ?nb \<rparr>"
  let ?t4 = "MapPageGroupImpl is_heap dst pg Perm_UserReadWrite (Operate_ChangePermissions src ?n alias_permission ?t2)"
  have f4: "m_memory_block_manager ?t4 = m_memory_block_manager t" "m_address_space_start ?t4 = m_address_space_start t"
    "m_address_space_end ?t4 = m_address_space_end t" "m_memory_block_slab ?t4 = m_memory_block_slab t - ?na - ?nb"
    "m_block_infos ?t4 = m_block_infos t"
    by (simp_all add: MapPageGroupImpl_fields Operate_ChangePermissions_def)
  have al: "aliased dst src sz (m_impl t) (m_impl ?t4)"
    by (rule map_group_aliases [OF assms(1-6,8) g]) (simp add: Operate_ChangePermissions_def)
  note ok = same_table [OF assms(1) f4(1-3)]
  have r: "range_all (\<lambda>v. fst v \<noteq> st0) (table_pages ?t4) (unat dst) (unat dst + unat sz)"
    unfolding f4(1) by (rule range_all_mono [OF assms(10)]) (use st0 in auto)
  have hp: "\<not> has_properties st0 alias_permission Attr_Locked v0" "\<not> has_properties State_Stack Perm_UserReadWrite Attr_None w0"
    by (simp_all add: v w Attr_Locked_def Attr_IpcLocked_def Attr_DeviceShared_def state_values)
  have none: "Attr_None AND (Attr_IpcLocked OR Attr_DeviceShared) = Attr_None" by (simp add: Attr_None_def)
  obtain t5 t6 where u: "update_blocks (Manager_Update (UpdateAllocator_ctor ?na) src ?n st0 alias_permission Attr_Locked Merge_Locked Merge_None) ?t4 = Inr t5"
    "update_blocks (Manager_Update (UpdateAllocator_ctor ?nb) dst ?n State_Stack Perm_UserReadWrite Attr_None Merge_Normal Merge_None) t5 = Inr t6"
    "table_ok t6" "same_space ?t4 t6" "m_memory_block_slab ?t4 \<le> m_memory_block_slab t6" "m_block_infos t6 = m_block_infos ?t4"
    "table_pages t6 = on_range (unat dst) (unat dst + unat sz) (update_effect State_Stack Perm_UserReadWrite Attr_None)
       (on_range (unat src) (unat src + unat sz) (update_effect st0 alias_permission Attr_Locked) (table_pages t))"
    using two_updates [OF ok(1) _ _ assms(4-6) ap r _ hp(1) ignored_Locked(1) _ hp(2) none, of Merge_Locked Merge_None Merge_Normal Merge_None]
      assms(2,3) v0 w0 unfolding f4 ok(2) by blast
  have "MapMemory is_heap dst src sz t = Inr t6"
    unfolding MapMemory_def chk chk' R_TRY_simps prod.case new_allocators [OF na] Let_def
    using g u(1,2) by (simp add: R_TRY_simps)
  moreover have "m_memory_block_slab t \<le> m_memory_block_slab t6 + 4"
    using u(5) f4(4) blocks_for_two [OF order_refl, of "table_tree t" "unat src" "unat src + unat sz" "unat dst" "unat dst + unat sz"]
    by simp
  ultimately show ?thesis
    using u(3,4,6,7) al f4(2,3,5) by (simp add: same_space_def)
qed

section \<open>Unmapping an alias\<close>

lemma MapPages_clear_spec:
  assumes "b + n \<le> length (backing_addr pt)" "length (backing_addr pt) \<le> 2 ^ 36"
  shows "length (pointers (MapPages_clear n (word_of_nat b) k pt)) = length (pointers pt) \<and>
     length (blocks (MapPages_clear n (word_of_nat b) k pt)) = length (blocks pt) \<and>
     length (backing_addr (MapPages_clear n (word_of_nat b) k pt)) = length (backing_addr pt) \<and>
     page_size (MapPages_clear n (word_of_nat b) k pt) = page_size pt \<and>
     (\<forall>i. backing_addr (MapPages_clear n (word_of_nat b) k pt) ! i = (if b \<le> i \<and> i < b + n then 0 else backing_addr pt ! i))"
  using assms
proof (induction n arbitrary: b pt)
  case (Suc n)
  have u: "unat (word_of_nat b :: u64) = b" using Suc.prems by (intro unat_u64_of_nat) simp
  let ?pt = "pt\<lparr> pointers := (pointers pt)[b := PageInfo_Store 0 k], backing_addr := (backing_addr pt)[b := 0],
      blocks := (blocks pt)[b := 0] \<rparr>"
  have st: "MapPages_clear (Suc n) (word_of_nat b) k pt = MapPages_clear n (word_of_nat (Suc b)) k ?pt"
    by (simp only: MapPages_clear.simps u) (simp add: add.commute)
  have "Suc b + n \<le> length (backing_addr ?pt)" "length (backing_addr ?pt) \<le> 2 ^ 36" using Suc.prems by simp_all
  note ih = Suc.IH [OF this]
  show ?case using ih Suc.prems unfolding st by (auto simp: nth_list_update not_less_eq_eq less_Suc_eq_le)
qed auto

lemma unmap_region_targets:
  assumes "table_shape pt" "unat base = 4096 * b" "unat sz mod 4096 = 0" "b + unat sz div 4096 \<le> length (backing_addr pt)"
    "pt' = fst (UnmapRegion pt base sz sep m)"
  shows "table_shape pt'" "length (backing_addr pt') = length (backing_addr pt)"
    "target pt' i = (if b \<le> i \<and> i < b + unat sz div 4096 then None else target pt i)"
proof -
  let ?n = "unat sz div 4096"
  have "unat (base div YUZU_PAGESIZE) = b" using assms(2) by (simp add: unat_div page_constants)
  moreover have "base div YUZU_PAGESIZE = word_of_nat (unat (base div YUZU_PAGESIZE))" by simp
  ultimately have b: "base div YUZU_PAGESIZE = word_of_nat b" by (simp only:)
  have n: "unat (sz div YUZU_PAGESIZE) = ?n" by (simp add: unat_div page_constants)
  have pt': "pt' = MapPages_clear ?n (word_of_nat b) Unmapped pt"
    using assms(5) by (simp add: UnmapRegion_def MapPages_def b [simplified] n [simplified])
  have "length (backing_addr pt) \<le> 2 ^ 36" using assms(1) by (simp add: table_shape_def)
  note sp = MapPages_clear_spec [OF assms(4) this, of Unmapped, folded pt']
  show "table_shape pt'" "length (backing_addr pt') = length (backing_addr pt)"
    using sp assms(1) by (simp_all add: table_shape_def)
  show "target pt' i = (if b \<le> i \<and> i < b + ?n then None else target pt i)"
    using sp by (auto simp: target_def)
qed

lemma Operate_Unmap_fields:
  "m_memory_block_manager (Operate_Unmap h sep v n t) = m_memory_block_manager t"
  "m_memory_block_slab (Operate_Unmap h sep v n t) = m_memory_block_slab t"
  "m_address_space_start (Operate_Unmap h sep v n t) = m_address_space_start t"
  "m_address_space_end (Operate_Unmap h sep v n t) = m_address_space_end t"
  "m_impl (Operate_Unmap h sep v n t) = fst (UnmapRegion (m_impl t) v (n * PageSize) sep (m_memory t))"
  by (simp_all add: Operate_Unmap_def set_impl_def Let_def split: prod.split)

lemma unmap_memory_result:
  assumes "table_ok t" "Contains src sz t" "Contains dst sz t" "unat src mod 4096 = 0" "unat dst mod 4096 = 0" "unat sz mod 4096 = 0"
    "4 \<le> m_memory_block_slab t"
    "MakePageGroup (m_impl t) is_heap [] dst (sz div PageSize) (m_block_infos t) = Inr (pg, infos)"
    "IsValidPageGroup (m_impl t) is_heap pg src (sz div PageSize)"
    "range_all (alias_page st0 alias_permission Attr_Locked) (table_pages t) (unat src) (unat src + unat sz)"
    "range_all (plain_page State_Stack Perm_UserReadWrite) (table_pages t) (unat dst) (unat dst + unat sz)"
  shows "\<exists>t'. UnmapMemory is_heap dst src sz t = Inr t' \<and> table_ok t' \<and>
     m_impl t' = fst (UnmapRegion (m_impl t) dst sz False (m_memory t)) \<and>
     table_pages t' = on_range (unat dst) (unat dst + unat sz) (update_effect State_None Perm_None Attr_None)
       (on_range (unat src) (unat src + unat sz) (update_effect st0 Perm_UserReadWrite Attr_None) (table_pages t))"
proof -
  let ?n = "sz div PageSize" and ?na = "blocks_needed (table_tree t) (unat src) (unat src + unat sz)"
    and ?nb = "blocks_needed (table_tree t) (unat dst) (unat dst + unat sz)"
  obtain v0 og ic dc where v0: "table_pages t (unat src) = Some v0" and v: "v0 = (st0, alias_permission, og, Attr_Locked, ic, dc)"
    and flag: "st0 AND State_FlagCanAlias = State_FlagCanAlias"
    using first_in_range [OF assms(1,2,10)] by (metis alias_page.elims(2))
  obtain w0 og' ic' dc' where w0: "table_pages t (unat dst) = Some w0" and w: "w0 = (State_Stack, Perm_UserReadWrite, og', 0, ic', dc')"
    using first_in_range [OF assms(1,3,11)] by (metis plain_page.elims(2))
  have st0: "st0 \<noteq> State_Stack" using flag by (auto simp: state_values State_FlagCanAlias_def)
  have chk: "CheckMemoryState src sz \<lparr> state_mask = State_FlagCanAlias, want_state = State_FlagCanAlias, perm_mask = Perm_All,
       want_perm = Perm_NotMapped OR Perm_KernelRead, attr_mask = Attr_All, want_attr = Attr_Locked \<rparr> DefaultMemoryIgnoreAttr t =
       Inr (st0, alias_permission, Attr_Locked AND NOT DefaultMemoryIgnoreAttr, ?na)"
    using v0 by (intro check_passes [OF assms(1,2,4,6) _ assms(10)]) (auto simp: v Perm_All_neutral Attr_All_neutral or.commute)
  have chk': "CheckMemoryState dst sz \<lparr> state_mask = State_All, want_state = State_Stack, perm_mask = Perm_None,
       want_perm = Perm_None, attr_mask = Attr_All, want_attr = Attr_None \<rparr> DefaultMemoryIgnoreAttr t =
       Inr (State_Stack, Perm_UserReadWrite, 0 AND NOT DefaultMemoryIgnoreAttr, ?nb)"
    using w0 by (intro check_passes [OF assms(1,3,5,6) _ assms(11)])
      (auto simp: w State_All_def State_None_def Perm_None_def Attr_None_def Attr_All_neutral)
  have ap: "apart src dst sz"
    using st0 by (intro apart_ranges [OF assms(1-3,10,11)]) auto
  note na = blocks_for_two [OF assms(7), of "table_tree t" "unat src" "unat src + unat sz" "unat dst" "unat dst + unat sz"]
  let ?t2 = "t\<lparr> m_memory_block_slab := m_memory_block_slab t - ?na - ?nb \<rparr>"
  let ?t3 = "(Operate_Unmap is_heap False dst ?n (?t2\<lparr> m_block_infos := infos \<rparr>))\<lparr> m_block_infos := m_block_infos ?t2 \<rparr>"
  let ?t4 = "Operate_ChangePermissions src ?n Perm_UserReadWrite ?t3"
  have f4: "m_memory_block_manager ?t4 = m_memory_block_manager t" "m_address_space_start ?t4 = m_address_space_start t"
    "m_address_space_end ?t4 = m_address_space_end t"
    "m_impl ?t4 = fst (UnmapRegion (m_impl t) dst sz False (m_memory t))"
    by (simp_all add: Operate_Unmap_fields Operate_ChangePermissions_def range_size [OF assms(6)])
  note ok = same_table [OF assms(1) f4(1-3)]
  have r: "range_all (\<lambda>v. fst v \<noteq> st0) (table_pages ?t4) (unat dst) (unat dst + unat sz)"
    unfolding f4(1) by (rule range_all_mono [OF assms(11)]) (use st0 in auto)
  have hp: "\<not> has_properties st0 Perm_UserReadWrite Attr_None v0" "\<not> has_properties State_None Perm_None Attr_None w0"
    by (simp_all add: v w Attr_None_def Attr_Locked_def Attr_IpcLocked_def Attr_DeviceShared_def State_None_def state_values)
  have none: "Attr_None AND (Attr_IpcLocked OR Attr_DeviceShared) = Attr_None" by (simp add: Attr_None_def)
  obtain t5 t6 where u: "update_blocks (Manager_Update (UpdateAllocator_ctor ?na) src ?n st0 Perm_UserReadWrite Attr_None Merge_None Merge_Locked) ?t4 = Inr t5"
    "update_blocks (Manager_Update (UpdateAllocator_ctor ?nb) dst ?n State_None Perm_None Attr_None Merge_None Merge_Normal) t5 = Inr t6"
    "table_ok t6" "same_space ?t4 t6"
    "table_pages t6 = on_range (unat dst) (unat dst + unat sz) (update_effect State_None Perm_None Attr_None)
       (on_range (unat src) (unat src + unat sz) (update_effect st0 Perm_UserReadWrite Attr_None) (table_pages t))"
    using two_updates [OF ok(1) _ _ assms(4-6) ap r _ hp(1) none _ hp(2) none, of Merge_None Merge_Locked Merge_None Merge_Normal]
      assms(2,3) v0 w0 unfolding f4 ok(2) by blast
  have "UnmapMemory is_heap dst src sz t = Inr t6"
    unfolding UnmapMemory_def chk chk' R_TRY_simps prod.case new_allocators [OF na] Let_def
    using assms(8,9) u(1,2) by (simp add: R_TRY_simps)
  moreover have "m_impl t6 = fst (UnmapRegion (m_impl t) dst sz False (m_memory t))"
    using u(4) f4(4) by (simp add: same_space_def)
  ultimately show ?thesis using u(3,5) by blast
qed

end
