(* ===== verification/KPageTableAliasCalls.thy ===== *)
theory KPageTableAliasCalls
  imports KPageTableCalls KPageTableAliases
begin

text \<open>
  The system calls that alias memory: mapping gives the destination the physical pages of the source
  and locks the source, unmapping undoes it; a destination outside of the address space brings the
  emulator down.
\<close>

unbundle bit_operations_syntax

lemma Is4KBAligned_iff: "Is4KBAligned v \<longleftrightarrow> unat v mod 4096 = 0"
  using IsAligned_PageSize [of v] by (simp add: Is4KBAligned_def IsAligned_def PageSize_def)

lemma sanity_checks:
  assumes "table_ok t" "Is4KBAligned dst" "Is4KBAligned src" "Is4KBAligned sz" "Contains src sz t" "dst < dst + sz"
  shows "MapUnmapMemorySanityChecks dst src sz t = Inr ()"
proof -
  have "sz \<noteq> 0" using range_in_table(2) [OF assms(1,5)] by auto
  then show ?thesis using assms(2-) by (simp add: MapUnmapMemorySanityChecks_def IsValidAddressRange_def Contains_def)
qed

text \<open>The group of the source is the group of the destination after the mapping, and it is valid for the source.\<close>

lemma aliased_groups:
  assumes "table_ok t" "Contains src sz t" "Contains dst sz t" "unat src mod 4096 = 0" "unat dst mod 4096 = 0" "unat sz mod 4096 = 0"
    "alias_ready is_heap dst src sz t" "aliased dst src sz (m_impl t) pt" "apart src dst sz"
  shows "\<exists>pg infos. MakePageGroup pt is_heap [] dst (sz div PageSize) (m_block_infos t) = Inr (pg, infos) \<and>
     IsValidPageGroup pt is_heap pg src (sz div PageSize)"
proof -
  let ?s = "unat src div 4096" and ?d = "unat dst div 4096" and ?n = "sz div PageSize"
  have pt: "backed (m_impl t)" "table_shape (m_impl t)" "unat (m_address_space_end t) \<le> 4096 * length (backing_addr (m_impl t))"
    using assms(7) by (simp_all add: alias_ready_def)
  have al: "table_shape pt" "\<And>i. target pt i = target (m_impl t) (if ?d \<le> i \<and> i < ?d + unat ?n then ?s + (i - ?d) else i)"
    using assms(8) by (simp_all add: aliased_def unat_div_PageSize)
  have np: "unat ?n = unat sz div 4096" by (simp add: unat_div_PageSize)
  have ps: "page_size pt = PageSize" using al(1) by (simp add: table_shape_def)
  have "?s + unat ?n \<le> length (backing_addr (m_impl t))" "?d + unat ?n \<le> length (backing_addr (m_impl t))"
    using range_in_table(1) [OF assms(1,2)] range_in_table(1) [OF assms(1,3)] pt(3) np by simp_all
  moreover have "length (backing_addr (m_impl t)) \<le> 2 ^ 36" using pt(2) by (simp add: table_shape_def)
  ultimately have b: "?s + unat ?n < 2 ^ 52" "?d + unat ?n < 2 ^ 52" by simp_all
  have bk: "backed pt" using pt(1) ps al(2) by (simp add: backed_target)
  have n0: "?n \<noteq> 0" using in_space_range(2) [OF assms(1,2,4,6)] .
  obtain pg infos where g: "MakePageGroup (m_impl t) is_heap [] src ?n (m_block_infos t) = Inr (pg, infos)"
    using assms(7) by (auto simp: alias_ready_def)
  have "MakePageGroup pt is_heap [] dst ?n (m_block_infos t) = Inr (pg, infos)"
    using group_same_targets [OF pt(1) ps assms(4,5) n0 b, of is_heap "[]" "m_block_infos t"] g al(2) by simp
  moreover have "target (m_impl t) (?s + j) = target pt (?s + j)" if "j < unat ?n" for j
  proof -
    have "\<not> (?d \<le> ?s + j \<and> ?s + j < ?d + unat ?n)"
      using assms(4-6,9) that by (auto simp: apart_def np mod_eq_0_iff_dvd dvd_def)
    then show ?thesis unfolding al(2) by (simp only: if_False)
  qed
  from group_same_targets [OF pt(1) ps assms(4,4) n0 b(1,1) this, of is_heap "[]" "m_block_infos t"] g
  have "MakePageGroup pt is_heap [] src ?n (m_block_infos t) = Inr (pg, infos)" by simp
  then have "IsValidPageGroup pt is_heap pg src ?n"
    using made_group_valid [OF bk assms(4) n0] b(1) by simp
  ultimately show ?thesis by blast
qed

text \<open>Mapping and unmapping restores the pages.\<close>

lemma alias_pages:
  assumes "range_all (alias_page st0 Perm_UserReadWrite 0) f (unat src) (unat src + unat sz)"
    "range_all (plain_page State_Free Perm_None) f (unat dst) (unat dst + unat sz)" "apart src dst sz"
    "g = on_range (unat dst) (unat dst + unat sz) (update_effect State_Stack Perm_UserReadWrite Attr_None)
       (on_range (unat src) (unat src + unat sz) (update_effect st0 alias_permission Attr_Locked) f)"
  shows "range_all (alias_page st0 alias_permission Attr_Locked) g (unat src) (unat src + unat sz)"
    "range_all (plain_page State_Stack Perm_UserReadWrite) g (unat dst) (unat dst + unat sz)"
    "on_range (unat dst) (unat dst + unat sz) (update_effect State_None Perm_None Attr_None)
       (on_range (unat src) (unat src + unat sz) (update_effect st0 Perm_UserReadWrite Attr_None) g) = f"
proof -
  have in_src: "f x = Some v \<Longrightarrow> alias_page st0 Perm_UserReadWrite 0 v" if "unat src \<le> x" "x < unat src + unat sz" for x v
    using assms(1) that unfolding range_all_def by blast
  have in_dst: "f x = Some v \<Longrightarrow> plain_page State_Free Perm_None v" if "unat dst \<le> x" "x < unat dst + unat sz" for x v
    using assms(2) that unfolding range_all_def by blast
  have gs: "g x = map_option (update_effect st0 alias_permission Attr_Locked) (f x)" if "unat src \<le> x" "x < unat src + unat sz" for x
    using assms(3,4) that by (auto simp: on_range_def apart_def)
  have gd: "g x = map_option (update_effect State_Stack Perm_UserReadWrite Attr_None) (f x)" if "unat dst \<le> x" "x < unat dst + unat sz" for x
    using assms(3,4) that by (auto simp: on_range_def apart_def)
  have "alias_page st0 alias_permission Attr_Locked (update_effect st0 alias_permission Attr_Locked v)"
    "update_effect st0 Perm_UserReadWrite Attr_None (update_effect st0 alias_permission Attr_Locked v) = v"
    if "alias_page st0 Perm_UserReadWrite 0 v" for v
    using that by (cases v, auto simp: ignored_Locked Attr_None_def)+
  note locked = this
  have "plain_page State_Stack Perm_UserReadWrite (update_effect State_Stack Perm_UserReadWrite Attr_None v)"
    "update_effect State_None Perm_None Attr_None (update_effect State_Stack Perm_UserReadWrite Attr_None v) = v"
    if "plain_page State_Free Perm_None v" for v
    using that by (cases v, auto simp: State_None_def State_Free_def Attr_None_def)+
  note plain = this
  show "range_all (alias_page st0 alias_permission Attr_Locked) g (unat src) (unat src + unat sz)"
    unfolding range_all_def using gs in_src locked(1) by fastforce
  show "range_all (plain_page State_Stack Perm_UserReadWrite) g (unat dst) (unat dst + unat sz)"
    unfolding range_all_def using gd in_dst plain(1) by fastforce
  show "on_range (unat dst) (unat dst + unat sz) (update_effect State_None Perm_None Attr_None)
      (on_range (unat src) (unat src + unat sz) (update_effect st0 Perm_UserReadWrite Attr_None) g) = f"
  proof
    fix x
    consider "unat src \<le> x \<and> x < unat src + unat sz" | "unat dst \<le> x \<and> x < unat dst + unat sz"
      | "\<not> (unat src \<le> x \<and> x < unat src + unat sz)" "\<not> (unat dst \<le> x \<and> x < unat dst + unat sz)" by blast
    then show "on_range (unat dst) (unat dst + unat sz) (update_effect State_None Perm_None Attr_None)
        (on_range (unat src) (unat src + unat sz) (update_effect st0 Perm_UserReadWrite Attr_None) g) x = f x"
    proof cases
      case 1
      then show ?thesis
        using assms(3) gs [of x] in_src [of x] locked(2) by (cases "f x") (auto simp: on_range_def apart_def)
    next
      case 2
      then show ?thesis
        using assms(3) gd [of x] in_dst [of x] plain(2) by (cases "f x") (auto simp: on_range_def apart_def)
    next
      case 3
      then show ?thesis by (simp only: assms(4) on_range_def if_False)
    qed
  qed
qed

text \<open>A locked source cannot be reprotected.\<close>

lemma locked_source:
  assumes "table_ok t" "Contains src sz t" "unat src mod 4096 = 0" "unat sz mod 4096 = 0"
    "range_all (alias_page st0 alias_permission Attr_Locked) (table_pages t) (unat src) (unat src + unat sz)"
  shows "svc_SetMemoryPermission src sz 1 t = Inl (Failed kernel_result.ResultInvalidCurrentMemory)"
proof -
  obtain v where v: "table_pages t (unat src) = Some v" "alias_page st0 alias_permission Attr_Locked v"
    using first_in_range [OF assms(1,2,5)] .
  then obtain og ic dc where v1: "table_pages t (unat src) = Some (st0, alias_permission, og, Attr_Locked, ic, dc)"
    by (cases v) auto
  have "\<not> range_all (reprotectable st0 alias_permission) (table_pages t) (unat src) (unat src + unat sz)"
    using range_all_first [of "reprotectable st0 alias_permission" "table_pages t" "unat src" "unat src + unat sz"]
      v1 range_in_table(2) [OF assms(1,2)] by (auto simp: Attr_Locked_def)
  then show ?thesis
    using permission_check [OF assms(1-4) v1] assms(2-4) range_in_table(2) [OF assms(1,2)]
    by (simp add: svc_SetMemoryPermission_def SetMemoryPermission_def R_TRY_simps Let_def IsValidSetMemoryPermission_def
        Contains_def word_less_nat_alt IsAligned_PageSize)
qed

lemma map_unmap_memory:
  assumes "table_ok t" "Contains src sz t" "Contains dst sz t" "unat src mod 4096 = 0" "unat dst mod 4096 = 0" "unat sz mod 4096 = 0"
    "8 \<le> m_memory_block_slab t" "alias_ready is_heap dst src sz t"
    "range_all (alias_page st0 Perm_UserReadWrite 0) (table_pages t) (unat src) (unat src + unat sz)"
    "range_all (plain_page State_Free Perm_None) (table_pages t) (unat dst) (unat dst + unat sz)"
  shows "\<exists>t1 t2. MapMemory is_heap dst src sz t = Inr t1 \<and> table_ok t1 \<and> Contains src sz t1 \<and>
     aliased dst src sz (m_impl t) (m_impl t1) \<and>
     range_all (alias_page st0 alias_permission Attr_Locked) (table_pages t1) (unat src) (unat src + unat sz) \<and>
     UnmapMemory is_heap dst src sz t1 = Inr t2 \<and> table_ok t2 \<and> table_pages t2 = table_pages t \<and>
     m_impl t2 = fst (UnmapRegion (m_impl t1) dst sz False (m_memory t1))"
proof -
  have four: "4 \<le> m_memory_block_slab t" using assms(7) by simp
  obtain t1 where t1: "MapMemory is_heap dst src sz t = Inr t1" "table_ok t1"
    "m_address_space_start t1 = m_address_space_start t" "m_address_space_end t1 = m_address_space_end t"
    "m_memory_block_slab t \<le> m_memory_block_slab t1 + 4" "m_block_infos t1 = m_block_infos t"
    "aliased dst src sz (m_impl t) (m_impl t1)"
    "table_pages t1 = on_range (unat dst) (unat dst + unat sz) (update_effect State_Stack Perm_UserReadWrite Attr_None)
       (on_range (unat src) (unat src + unat sz) (update_effect st0 alias_permission Attr_Locked) (table_pages t))"
    using map_memory_result [OF assms(1-6) four assms(8-10)] by blast
  have c1: "Contains src sz t1" "Contains dst sz t1" using assms(2,3) t1(3,4) by (simp_all add: Contains_def)
  have "alias_page st0 Perm_UserReadWrite 0 v \<Longrightarrow> \<not> plain_page State_Free Perm_None v" for v
    using alias_flag by (cases v) auto
  then have ap: "apart src dst sz" by (rule apart_ranges [OF assms(1-3,9,10)])
  note pg = alias_pages [OF assms(9,10) ap t1(8)]
  obtain gr infos where g: "MakePageGroup (m_impl t1) is_heap [] dst (sz div PageSize) (m_block_infos t1) = Inr (gr, infos)"
    "IsValidPageGroup (m_impl t1) is_heap gr src (sz div PageSize)"
    using aliased_groups [OF assms(1-6,8) t1(7) ap] t1(6) by auto
  have "4 \<le> m_memory_block_slab t1" using t1(5) assms(7) by simp
  from unmap_memory_result [OF t1(2) c1 assms(4-6) this g pg(1,2)] show ?thesis
    using t1(1,2,7) c1(1) pg(1) unfolding pg(3) by blast
qed

text \<open>The translations after an alias has been unmapped.\<close>

lemma unmapped_targets:
  assumes "table_ok t" "Contains dst sz t" "unat dst mod 4096 = 0" "unat sz mod 4096 = 0" "alias_ready is_heap dst src sz t"
    "aliased dst src sz (m_impl t) pt" "pt' = fst (UnmapRegion pt dst sz False m)"
  shows "target pt' i = (if unat dst div 4096 \<le> i \<and> i < unat dst div 4096 + unat sz div 4096 then None else target (m_impl t) i)"
proof -
  let ?d = "unat dst div 4096" and ?n = "unat sz div 4096"
  have pt: "table_shape pt" "length (backing_addr pt) = length (backing_addr (m_impl t))"
    using assms(6) by (simp_all add: aliased_def)
  have "unat (m_address_space_end t) \<le> 4096 * length (backing_addr (m_impl t))" using assms(5) by (simp add: alias_ready_def)
  then have le: "?d + ?n \<le> length (backing_addr pt)" using range_in_table(1) [OF assms(1,2)] pt(2) by simp
  have d: "unat dst = 4096 * ?d" using assms(3) by (simp add: mod_eq_0_iff_dvd)
  show ?thesis using unmap_region_targets(3) [OF pt(1) d assms(4) le assms(7), of i] assms(6) by (simp add: aliased_def)
qed

text \<open>
  Property C7. Aliases. When the pages of the source have one state that can be aliased, are read-write and have no
  attribute, the pages of the destination are free, and the page table can store the alias,
  \<^verbatim>\<open>svcMapMemory\<close> succeeds: every page of the destination gets the physical page of the source, and
  the source is locked, so that reprotecting it fails. \<^verbatim>\<open>svcUnmapMemory\<close> then succeeds: every address has the
  properties it had before, the pages of the destination are unmapped and all other
  translations are as before.
\<close>

theorem svc_map_memory_round_trip:
  assumes "table_ok t" "8 \<le> m_memory_block_slab t" "Is4KBAligned dst" "Is4KBAligned src" "Is4KBAligned sz"
    "Contains src sz t" "Contains dst sz t" "alias_ready is_heap dst src sz t"
    "range_all (alias_page st0 Perm_UserReadWrite 0) (table_pages t) (unat src) (unat src + unat sz)"
    "range_all (plain_page State_Free Perm_None) (table_pages t) (unat dst) (unat dst + unat sz)"
  shows "\<exists>t1 t2. svc_MapMemory is_heap dst src sz t = Inr t1 \<and>
     (\<forall>j < unat sz div 4096. target (m_impl t1) (unat dst div 4096 + j) = target (m_impl t) (unat src div 4096 + j)) \<and>
     svc_SetMemoryPermission src sz 1 t1 = Inl (Failed kernel_result.ResultInvalidCurrentMemory) \<and>
     svc_UnmapMemory is_heap dst src sz t1 = Inr t2 \<and> table_ok t2 \<and>
     (\<forall>x. map_option properties (FindBlock x (m_memory_block_manager t2)) =
          map_option properties (FindBlock x (m_memory_block_manager t))) \<and>
     (\<forall>i. target (m_impl t2) i =
        (if unat dst div 4096 \<le> i \<and> i < unat dst div 4096 + unat sz div 4096 then None else target (m_impl t) i))"
proof -
  have al: "unat src mod 4096 = 0" "unat dst mod 4096 = 0" "unat sz mod 4096 = 0"
    using assms(3-5) by (simp_all add: Is4KBAligned_iff)
  have lt: "dst < dst + sz" using assms(7) by (simp add: Contains_def)
  obtain t1 t2 where t: "MapMemory is_heap dst src sz t = Inr t1" "table_ok t1" "Contains src sz t1"
    "aliased dst src sz (m_impl t) (m_impl t1)"
    "range_all (alias_page st0 alias_permission Attr_Locked) (table_pages t1) (unat src) (unat src + unat sz)"
    "UnmapMemory is_heap dst src sz t1 = Inr t2" "table_ok t2" "table_pages t2 = table_pages t"
    "m_impl t2 = fst (UnmapRegion (m_impl t1) dst sz False (m_memory t1))"
    using map_unmap_memory [OF assms(1,6,7) al assms(2,8-10)] by blast
  have "well_formed (m_memory_block_manager t)" "well_formed (m_memory_block_manager t2)"
    using assms(1) t(7) by (simp_all add: table_ok_def)
  moreover have "svc_MapMemory is_heap dst src sz t = Inr t1" "svc_UnmapMemory is_heap dst src sz t1 = Inr t2"
    using sanity_checks [OF assms(1,3-6) lt] sanity_checks [OF t(2) assms(3-5) t(3) lt] t(1,6)
    by (simp_all add: svc_MapMemory_def svc_UnmapMemory_def R_TRY_simps)
  moreover note locked_source [OF t(2,3) al(1,3) t(5)] unmapped_targets [OF assms(1,7) al(2,3) assms(8) t(4,9)]
  ultimately show ?thesis
    using t(4,7,8) by (intro exI [of _ t1] exI [of _ t2] conjI) (auto simp: pages_FindBlock aliased_def)
qed

text \<open>A space of normal and free memory, and its table over the small backing.\<close>

definition mixed_space :: KMemoryBlockManager where
  "mixed_space = \<lparr> m_memory_block_tree =
       [Block_Initialize 0x8000 8 State_Normal Perm_UserReadWrite Attr_None blank_block,
        Block_Initialize 0x10000 8 State_Free Perm_None Attr_None blank_block],
     m_start_address = 0x8000, m_end_address = 0x18000 \<rparr>"

definition mixed_table :: "unit KPageTableBase" where
  "mixed_table = (small_table mixed_space)\<lparr> m_impl := small_backing \<rparr>"

lemma mixed_space_ok: "well_formed mixed_space"
  by (simp add: well_formed_def mixed_space_def lo_def hi_def Block_Initialize_def coalesced_Cons CanMergeWith_def
      HasSameProperties_def state_values State_Free_def)

lemma mixed_space_pages:
  "pages mixed_space x =
     (if 0x8000 \<le> x \<and> x < 0x10000 then Some (State_Normal, Perm_UserReadWrite, 0, 0, 0, 0)
      else if 0x10000 \<le> x \<and> x < 0x18000 then Some (State_Free, Perm_None, 0, 0, 0, 0) else None)"
  by (simp add: pages_def mixed_space_def lo_def hi_def Block_Initialize_def properties_def Perm_None_def Attr_None_def)

lemma mixed_table_facts:
  "m_memory_block_manager mixed_table = mixed_space" "m_impl mixed_table = small_backing" "m_memory_block_slab mixed_table = 8"
  "m_block_infos mixed_table = 8" "m_address_space_end mixed_table = 0x18000" "table_ok mixed_table"
  "Contains 0xA000 0x2000 mixed_table" "Contains 0x11000 0x2000 mixed_table"
  using mixed_space_ok by (simp_all add: mixed_table_def small_table_def table_ok_def Contains_def mixed_space_def)

lemma mixed_table_ready: "alias_ready (\<lambda>_. True) 0x11000 0xA000 0x2000 mixed_table"
proof -
  have "targets small_backing 10 2 = [0x8000A000, 0x8000B000]" by code_simp
  moreover have "mappable 17 [0x8000A000, 0x8000B000]" by (simp add: mappable_Cons mappable_def [of _ "[]"])
  moreover have "table_shape small_backing" by (simp add: table_shape_def small_backing_def)
  ultimately show ?thesis
    using small_backing_ok small_backing_group
    by (simp add: alias_ready_def mixed_table_facts PageSize_def) (simp add: small_backing_def)
qed

theorem svc_map_memory_round_trip_witness:
  "\<exists>t1 t2. svc_MapMemory (\<lambda>_. True) 0x11000 0xA000 0x2000 mixed_table = Inr t1 \<and>
     target (m_impl t1) 0x12 = Some 0x8000B000 \<and>
     svc_UnmapMemory (\<lambda>_. True) 0x11000 0xA000 0x2000 t1 = Inr t2 \<and> target (m_impl t2) 0x12 = None"
proof -
  have src: "range_all (alias_page State_Normal Perm_UserReadWrite 0) (table_pages mixed_table) (unat (0xA000 :: u64))
      (unat (0xA000 :: u64) + unat (0x2000 :: u64))"
    by (simp add: range_all_def mixed_table_facts mixed_space_pages state_values State_FlagCanAlias_def)
  have dst: "range_all (plain_page State_Free Perm_None) (table_pages mixed_table) (unat (0x11000 :: u64))
      (unat (0x11000 :: u64) + unat (0x2000 :: u64))"
    by (simp add: range_all_def mixed_table_facts mixed_space_pages)
  have slab: "8 \<le> m_memory_block_slab mixed_table" by (simp add: mixed_table_facts)
  have args: "Is4KBAligned 0x11000" "Is4KBAligned 0xA000" "Is4KBAligned 0x2000" by (simp_all add: Is4KBAligned_def)
  have t: "target small_backing 11 = Some 0x8000B000" by code_simp
  obtain t1 t2 where r: "svc_MapMemory (\<lambda>_. True) 0x11000 0xA000 0x2000 mixed_table = Inr t1"
    "\<forall>j < unat (0x2000 :: u64) div 4096. target (m_impl t1) (unat (0x11000 :: u64) div 4096 + j) =
       target (m_impl mixed_table) (unat (0xA000 :: u64) div 4096 + j)"
    "svc_UnmapMemory (\<lambda>_. True) 0x11000 0xA000 0x2000 t1 = Inr t2"
    "\<forall>i. target (m_impl t2) i = (if unat (0x11000 :: u64) div 4096 \<le> i \<and> i < unat (0x11000 :: u64) div 4096 + unat (0x2000 :: u64) div 4096
       then None else target (m_impl mixed_table) i)"
    using svc_map_memory_round_trip [OF mixed_table_facts(6) slab args mixed_table_facts(7,8) mixed_table_ready src dst] by blast
  have "target (m_impl t1) 0x12 = Some 0x8000B000" using r(2) [rule_format, of 1] t by (simp add: mixed_table_facts)
  moreover have "target (m_impl t2) 0x12 = None" using r(4) [rule_format, of "0x12"] by simp
  ultimately show ?thesis using r(1,3) by blast
qed

text \<open>An address outside of the space is in no block.\<close>

lemma outside_no_block:
  assumes "table_ok t" "\<not> Contains_address dst t"
  shows "snd (FindIterator dst (table_tree t)) = []"
proof -
  have tiled: "tiled (unat (m_address_space_start t)) (table_tree t) (unat (m_address_space_end t))"
    using assms(1) unfolding table_ok_def well_formed_def by metis
  have z: "unat (m_address_space_end t) < 2 ^ 64" using unsigned_less [of "m_address_space_end t"] by simp
  have "0 < unat (m_address_space_end t)" using assms(1) by (simp add: table_ok_def word_less_nat_alt)
  then have out: "unat dst < unat (m_address_space_start t) \<or> unat (m_address_space_end t) \<le> unat dst"
    using assms(2) by (auto simp: Contains_address_def word_le_nat_alt unat_sub_small)
  have "\<not> holds_address dst b" if "b \<in> set (table_tree t)" for b
    using tiled_bounds [OF tiled that] holds_address_iff [of b dst] z out by auto
  then show ?thesis by (simp add: FindIterator_def)
qed

text \<open>
  Property C10. A destination that lies outside of the address space. \<^verbatim>\<open>svcMapMemory\<close> checks the source against the
  address space but not the destination: when the source can be aliased, it looks up the block of the
  destination, finds none, and reads through the end iterator of the tree.
\<close>

theorem svc_map_memory_outside_crashes:
  assumes "table_ok t" "Is4KBAligned dst" "Is4KBAligned src" "Is4KBAligned sz" "Contains src sz t" "dst < dst + sz"
    "\<not> Contains_address dst t"
    "range_all (alias_page st0 Perm_UserReadWrite 0) (table_pages t) (unat src) (unat src + unat sz)"
  shows "svc_MapMemory is_heap dst src sz t = Inl (Crashed EndOfTree)"
proof -
  have al: "unat src mod 4096 = 0" "unat sz mod 4096 = 0" using assms(3,4) by (simp_all add: Is4KBAligned_iff)
  obtain v where v: "table_pages t (unat src) = Some v" "alias_page st0 Perm_UserReadWrite 0 v"
    using first_in_range [OF assms(1,5,8)] .
  then obtain og ic dc where v0: "table_pages t (unat src) = Some (st0, Perm_UserReadWrite, og, 0, ic, dc)" by (cases v) auto
  have "CheckMemoryState src sz \<lparr> state_mask = State_FlagCanAlias, want_state = State_FlagCanAlias, perm_mask = Perm_All,
      want_perm = Perm_UserReadWrite, attr_mask = Attr_All, want_attr = Attr_None \<rparr> DefaultMemoryIgnoreAttr t =
      Inr (st0, Perm_UserReadWrite, 0 AND NOT DefaultMemoryIgnoreAttr, blocks_needed (table_tree t) (unat src) (unat src + unat sz))"
    by (rule check_passes [OF assms(1,5) al v0 assms(8)]) (auto simp: Perm_All_neutral Attr_All_neutral Attr_None_def)
  moreover have "CheckMemoryState dst sz free_masks DefaultMemoryIgnoreAttr t = Inl (Crashed EndOfTree)"
    using outside_no_block [OF assms(1,7)] by (simp add: CheckMemoryState_def CheckMemoryState_from_def Let_def)
  ultimately show ?thesis
    using sanity_checks [OF assms(1-6)] by (simp add: svc_MapMemory_def MapMemory_def R_TRY_simps)
qed

theorem svc_map_memory_outside_crashes_witness:
  "svc_MapMemory (\<lambda>_. True) 0x20000 0xA000 0x2000 mixed_table = Inl (Crashed EndOfTree)"
proof -
  have src: "range_all (alias_page State_Normal Perm_UserReadWrite 0) (table_pages mixed_table) (unat (0xA000 :: u64))
      (unat (0xA000 :: u64) + unat (0x2000 :: u64))"
    by (simp add: range_all_def mixed_table_facts mixed_space_pages state_values State_FlagCanAlias_def)
  have args: "Is4KBAligned 0x20000" "Is4KBAligned 0xA000" "Is4KBAligned 0x2000" "(0x20000 :: u64) < 0x20000 + 0x2000"
    "\<not> Contains_address 0x20000 mixed_table"
    by (simp_all add: Is4KBAligned_def Contains_address_def mixed_table_facts)
  show ?thesis
    by (rule svc_map_memory_outside_crashes [OF mixed_table_facts(6) args(1-3) mixed_table_facts(7) args(4,5) src])
qed

end
