(* ===== verification/KPageBitmap.thy ===== *)
theory KPageBitmap
  imports KPageTableBase "HOL-Library.Monad_Syntax"
begin

text \<open>
  The bitmap that the physical memory allocator keeps for the blocks of one size
  (\<^verbatim>\<open>k_page_bitmap.h\<close>), with its random bits and the generator \<^verbatim>\<open>TinyMT\<close> behind them. A bitmap has up to four
  levels: a bit of a level says whether the word below it has any bit set. All bitmaps of a heap lie in one vector
  of words, and a storage pointer is an index of that vector; an access outside of it is undefined behaviour
  and gives \<open>None\<close>. Offsets of bits are natural numbers, since an index of the vector never gets
  near the width of \<^verbatim>\<open>size_t\<close>.
\<close>

unbundle bit_operations_syntax

lemma unat_numeral_64: "unat (64 :: u64) = 64"
  by simp

section \<open>TinyMT\<close>

record TinyMT =
  mt_data :: "u32 list"

definition ParamMat1 :: u32 where "ParamMat1 = 0x8F7011EE"
definition ParamMat2 :: u32 where "ParamMat2 = 0xFC78FF1F"
definition ParamTmat :: u32 where "ParamTmat = 0x3793FDFF"
definition ParamMult :: u32 where "ParamMult = 0x6C078965"
definition TopBitmask :: u32 where "TopBitmask = 0x7FFFFFFF"

definition XorByShifted30 :: "u32 \<Rightarrow> u32" where
  "XorByShifted30 v = v XOR drop_bit 30 v"

definition GenerateRandomU32 :: "TinyMT \<Rightarrow> u32 \<times> TinyMT" where
  "GenerateRandomU32 s =
     (let d = mt_data s;
          x0 = (d ! 0 AND TopBitmask) XOR d ! 1 XOR d ! 2;
          y0 = d ! 3;
          x1 = x0 XOR push_bit 1 x0;
          y1 = y0 XOR drop_bit 1 y0 XOR x1;
          state0 = d ! 1;
          odd_y = y1 AND 1 \<noteq> 0;
          state1 = (if odd_y then d ! 2 XOR ParamMat1 else d ! 2);
          state2 = (if odd_y then (x1 XOR push_bit 10 y1) XOR ParamMat2 else x1 XOR push_bit 10 y1);
          state3 = y1;
          t1 = state0 + drop_bit 8 state2;
          t0 = state3 XOR t1
      in (if t1 AND 1 \<noteq> 0 then t0 XOR ParamTmat else t0, \<lparr> mt_data = [state0, state1, state2, state3] \<rparr>))"

definition FinalizeInitialization :: "TinyMT \<Rightarrow> TinyMT" where
  "FinalizeInitialization s =
     (let d = mt_data s;
          s1 = (if d ! 0 AND TopBitmask = 0 \<and> d ! 1 = 0 \<and> d ! 2 = 0 \<and> d ! 3 = 0
                then \<lparr> mt_data = [0x54, 0x49, 0x4E, 0x59] \<rparr> else s)
      in ((snd \<circ> GenerateRandomU32) ^^ 8) s1)"

primrec TinyMT_Initialize_loop :: "nat list \<Rightarrow> u32 list \<Rightarrow> u32 list" where
  "TinyMT_Initialize_loop [] d = d"
| "TinyMT_Initialize_loop (i # is) d =
     TinyMT_Initialize_loop is
       (d[i mod 4 := d ! (i mod 4) XOR (XorByShifted30 (d ! ((i - 1) mod 4)) * ParamMult + of_nat i)])"

definition TinyMT_Initialize :: "u32 \<Rightarrow> TinyMT" where
  "TinyMT_Initialize seed =
     FinalizeInitialization \<lparr> mt_data = TinyMT_Initialize_loop [1..<8] [seed, ParamMat1, ParamMat2, ParamTmat] \<rparr>"

section \<open>Random bits\<close>

definition countr_zero :: "u64 \<Rightarrow> nat" where
  "countr_zero w = length (takeWhile (\<lambda>i. \<not> bit w i) [0..<64])"

definition countl_zero :: "u64 \<Rightarrow> nat" where
  "countl_zero w = length (takeWhile (\<lambda>i. \<not> bit w i) (rev [0..<64]))"

record RandomBitGenerator =
  gen_rng :: TinyMT
  m_entropy :: u32
  m_bits_available :: u32

text \<open>The seed comes from the host's source of randomness.\<close>

definition new_generator :: "u64 \<Rightarrow> RandomBitGenerator" where
  "new_generator random_u64 = \<lparr> gen_rng = TinyMT_Initialize (ucast random_u64), m_entropy = 0, m_bits_available = 0 \<rparr>"

definition RefreshEntropy :: "RandomBitGenerator \<Rightarrow> RandomBitGenerator" where
  "RefreshEntropy g =
     (let (r, s) = GenerateRandomU32 (gen_rng g) in \<lparr> gen_rng = s, m_entropy = r, m_bits_available = 32 \<rparr>)"

definition GenerateRandomBit :: "RandomBitGenerator \<Rightarrow> bool \<times> RandomBitGenerator" where
  "GenerateRandomBit g =
     (let g1 = (if m_bits_available g = 0 then RefreshEntropy g else g)
      in (m_entropy g1 AND 1 \<noteq> 0,
          g1\<lparr> m_entropy := drop_bit 1 (m_entropy g1), m_bits_available := m_bits_available g1 - 1 \<rparr>))"

fun SelectRandomBit_loop :: "nat \<Rightarrow> u64 \<Rightarrow> nat \<Rightarrow> RandomBitGenerator \<Rightarrow> nat \<times> RandomBitGenerator" where
  "SelectRandomBit_loop cur_num_bits bitmap selected g =
     (if cur_num_bits = 0 then (selected, g)
      else
        let high = drop_bit cur_num_bits bitmap;
            low = bitmap AND NOT (push_bit cur_num_bits (- 1));
            (take_high, g1) = (if high = 0 then (False, g) else if low = 0 then (True, g) else GenerateRandomBit g)
        in if take_high then SelectRandomBit_loop (cur_num_bits div 2) high (selected + cur_num_bits) g1
           else SelectRandomBit_loop (cur_num_bits div 2) low selected g1)"

definition SelectRandomBit :: "u64 \<Rightarrow> RandomBitGenerator \<Rightarrow> nat \<times> RandomBitGenerator" where
  "SelectRandomBit bitmap g = SelectRandomBit_loop 32 bitmap 0 g"

function GenerateRandomBits :: "u32 \<Rightarrow> u64 \<Rightarrow> RandomBitGenerator \<Rightarrow> u64 \<times> RandomBitGenerator" where
  "GenerateRandomBits n result g =
     (if n = 0 then (result, g)
      else
        let g1 = (if m_bits_available g = 0 then RefreshEntropy g else g);
            cur_bits = min n (m_bits_available g1);
            bit_mask = push_bit (unat cur_bits) 1 - 1;
            result1 = push_bit (unat cur_bits) result OR (ucast (m_entropy g1) AND bit_mask)
        in GenerateRandomBits (n - cur_bits) result1
             (g1\<lparr> m_entropy := drop_bit (unat cur_bits) (m_entropy g1), m_bits_available := m_bits_available g1 - cur_bits \<rparr>))"
  by pat_completeness auto

termination GenerateRandomBits
proof (relation "measure (\<lambda>(n, result, g). unat n)")
  show "wf (measure (\<lambda>(n :: u32, result :: u64, g :: RandomBitGenerator). unat n))" by simp
next
  fix n :: u32 and result :: u64 and g g1 :: RandomBitGenerator and cur :: u32 and bm r1 :: u64
  assume n: "n \<noteq> 0" and g1: "g1 = (if m_bits_available g = 0 then RefreshEntropy g else g)"
    and cur: "cur = min n (m_bits_available g1)"
  have "m_bits_available g1 \<noteq> 0" using g1 by (auto simp: RefreshEntropy_def Let_def split: prod.splits)
  then have "cur \<noteq> 0" "cur \<le> n" using n cur by (auto simp: min_def)
  then have "unat (n - cur) < unat n"
    by (simp add: unat_sub word_le_nat_alt diff_less unat_gt_0 n)
  then show "((n - cur, r1, g1\<lparr> m_entropy := drop_bit (unat cur) (m_entropy g1), m_bits_available := m_bits_available g1 - cur \<rparr>), n, result, g)
      \<in> measure (\<lambda>(n, result, g). unat n)" by simp
qed

declare GenerateRandomBits.simps [simp del]

text \<open>Callers ask for a value below a bound that is at least one.\<close>

definition GenerateRandom :: "u64 \<Rightarrow> RandomBitGenerator \<Rightarrow> u64 \<times> RandomBitGenerator" where
  "GenerateRandom mx g =
     (let bits_needed = 1 + (64 - countl_zero mx);
          (rnd, g1) = GenerateRandomBits (of_nat bits_needed) 0 g
      in (rnd - (rnd div mx) * mx, g1))"

section \<open>The bitmap\<close>

record KPageBitmap =
  m_bit_storages :: "nat list"
  m_end_storages :: "nat list"
  bitmap_rng :: RandomBitGenerator
  m_num_bits :: u64
  m_used_depths :: nat

definition MaxDepth :: nat where "MaxDepth = 4"

definition new_bitmap :: "u64 \<Rightarrow> KPageBitmap" where
  "new_bitmap random_u64 =
     \<lparr> m_bit_storages = replicate MaxDepth 0, m_end_storages = replicate MaxDepth 0, bitmap_rng = new_generator random_u64,
       m_num_bits = 0, m_used_depths = 0 \<rparr>"

definition word_at :: "u64 list \<Rightarrow> nat \<Rightarrow> u64 option" where
  "word_at mem i = (if i < length mem then Some (mem ! i) else None)"

function GetRequiredDepth :: "u64 \<Rightarrow> nat" where
  "GetRequiredDepth region_size =
     (if region_size div 64 = 0 then 1 else Suc (GetRequiredDepth (region_size div 64)))"
  by pat_completeness auto

termination GetRequiredDepth
proof (relation "measure unat")
  fix n :: u64
  assume "n div 64 \<noteq> 0"
  then have "unat n div 64 \<noteq> 0" by (metis unat_div unat_eq_zero unat_numeral_64)
  then show "(n div 64, n) \<in> measure unat" by (simp add: unat_div)
qed simp

declare GetRequiredDepth.simps [simp del]

primrec Bitmap_Initialize_loop :: "nat \<Rightarrow> nat \<Rightarrow> u64 \<Rightarrow> KPageBitmap \<Rightarrow> nat \<times> KPageBitmap" where
  "Bitmap_Initialize_loop 0 storage sz bm = (storage, bm)"
| "Bitmap_Initialize_loop (Suc depth) storage sz bm =
     (let sz1 = AlignUp sz 64 div 64;
          storage1 = storage + unat sz1
      in Bitmap_Initialize_loop depth storage1 sz1
           (bm\<lparr> m_bit_storages := (m_bit_storages bm)[depth := storage],
               m_end_storages := (m_end_storages bm)[depth := storage1] \<rparr>))"

text \<open>More than \<open>MaxDepth\<close> levels would be written behind the arrays.\<close>

definition Bitmap_Initialize :: "nat \<Rightarrow> u64 \<Rightarrow> KPageBitmap \<Rightarrow> (nat \<times> KPageBitmap) option" where
  "Bitmap_Initialize storage sz bm =
     (let depths = GetRequiredDepth sz
      in if depths > MaxDepth then None
         else Some (Bitmap_Initialize_loop depths storage sz (bm\<lparr> m_num_bits := 0, m_used_depths := depths \<rparr>)))"

text \<open>The result of a search is \<open>None\<close> where the code returns minus one.\<close>

function FindFreeBlock_loop ::
  "bool \<Rightarrow> KPageBitmap \<Rightarrow> nat \<Rightarrow> nat \<Rightarrow> u64 list \<Rightarrow> RandomBitGenerator \<Rightarrow> (nat option \<times> RandomBitGenerator) option" where
  "FindFreeBlock_loop random bm depth offset mem g =
     do {
       v \<leftarrow> word_at mem (m_bit_storages bm ! depth + offset);
       if v = 0 then Some (None, g)
       else
         let (which, g1) = (if random then SelectRandomBit v g else (countr_zero v, g));
             offset1 = offset * 64 + which
         in if depth + 1 < m_used_depths bm then FindFreeBlock_loop random bm (depth + 1) offset1 mem g1
            else Some (Some offset1, g1)
     }"
  by pat_completeness auto

termination FindFreeBlock_loop
  by (relation "measure (\<lambda>(random, bm, depth, offset, mem, g). m_used_depths bm - depth)") auto

declare FindFreeBlock_loop.simps [simp del]

definition FindFreeBlock :: "bool \<Rightarrow> u64 list \<Rightarrow> KPageBitmap \<Rightarrow> (nat option \<times> KPageBitmap) option" where
  "FindFreeBlock random mem bm =
     do {
       (r, g) \<leftarrow> FindFreeBlock_loop random bm 0 0 mem (bitmap_rng bm);
       Some (r, bm\<lparr> bitmap_rng := g \<rparr>)
     }"

text \<open>
  The search for a range of bits inside one word. A count of zero divides by zero, and for 64 the code shifts a word by
  its width: both are undefined behaviour.
\<close>

definition FindFreeRange_option ::
  "u64 \<Rightarrow> nat \<Rightarrow> nat \<Rightarrow> u64 \<times> u64 \<times> nat option \<times> RandomBitGenerator \<Rightarrow> u64 \<times> u64 \<times> nat option \<times> RandomBitGenerator" where
  "FindFreeRange_option count storage_index opt st =
     (case st of (storage, num_valid_options, chosen_offset, g) \<Rightarrow>
        let free_mask = push_bit (unat count) 1 - 1;
            rest = drop_bit (unat count) storage
        in if storage AND free_mask = free_mask
           then
             let num_valid_options1 = num_valid_options + 1;
                 (rnd, g1) = (if num_valid_options1 = 1 then (0, g) else GenerateRandom num_valid_options1 g)
             in (rest, num_valid_options1,
                 if rnd = 0 then Some (storage_index * 64 + opt * unat count) else chosen_offset, g1)
           else (rest, num_valid_options, chosen_offset, g))"

primrec FindFreeRange_loop ::
  "u64 \<Rightarrow> u64 list \<Rightarrow> nat \<Rightarrow> nat list \<Rightarrow> u64 \<times> nat option \<times> RandomBitGenerator \<Rightarrow> (u64 \<times> nat option \<times> RandomBitGenerator) option" where
  "FindFreeRange_loop count mem storage_start [] st = Some st"
| "FindFreeRange_loop count mem storage_start (storage_index # is) st =
     do {
       storage \<leftarrow> word_at mem (storage_start + storage_index);
       let (_, st1) = fold (FindFreeRange_option count storage_index) [0..<max (64 div unat count) 1] (storage, st);
       FindFreeRange_loop count mem storage_start is st1
     }"

definition FindFreeRange :: "u64 \<Rightarrow> u64 list \<Rightarrow> KPageBitmap \<Rightarrow> (nat option \<times> KPageBitmap) option" where
  "FindFreeRange count mem bm =
     (let storage_start = m_bit_storages bm ! (m_used_depths bm - 1);
          storage_end = m_end_storages bm ! (m_used_depths bm - 1)
      in if \<not> (storage_start < storage_end \<and> count \<le> 64) then Some (None, bm)
         else if count = 0 \<or> count = 64 then None
         else do {
           (_, chosen_offset, g) \<leftarrow> FindFreeRange_loop count mem storage_start [0..<max (storage_end - storage_start) 1]
                                    (0, None, bitmap_rng bm);
           Some (chosen_offset, bm\<lparr> bitmap_rng := g \<rparr>)
         })"

primrec SetBit_loop :: "nat list \<Rightarrow> nat \<Rightarrow> nat \<Rightarrow> u64 list \<Rightarrow> u64 list option" where
  "SetBit_loop storages 0 offset mem = Some mem"
| "SetBit_loop storages (Suc depth) offset mem =
     (let ind = offset div 64;
          bit_mask = push_bit (offset mod 64) 1;
          p = storages ! depth + ind
      in do {
           v \<leftarrow> word_at mem p;
           let mem1 = mem[p := v OR bit_mask];
           if v \<noteq> 0 then Some mem1 else SetBit_loop storages depth ind mem1
         })"

primrec ClearBit_loop :: "nat list \<Rightarrow> nat \<Rightarrow> nat \<Rightarrow> u64 list \<Rightarrow> u64 list option" where
  "ClearBit_loop storages 0 offset mem = Some mem"
| "ClearBit_loop storages (Suc depth) offset mem =
     (let ind = offset div 64;
          bit_mask = push_bit (offset mod 64) 1;
          p = storages ! depth + ind
      in do {
           v \<leftarrow> word_at mem p;
           let v1 = v AND NOT bit_mask;
           let mem1 = mem[p := v1];
           if v1 \<noteq> 0 then Some mem1 else ClearBit_loop storages depth ind mem1
         })"

lemma ClearBit_loop_length: "ClearBit_loop storages n offset mem = Some mem1 \<Longrightarrow> length mem1 = length mem"
proof (induction n arbitrary: offset mem)
  case (Suc n)
  then obtain q v where "mem1 = mem[q := v] \<or> ClearBit_loop storages n (offset div 64) (mem[q := v]) = Some mem1"
    by (fastforce simp: Let_def bind_eq_Some_conv split: if_splits)
  then show ?case using Suc.IH [of "offset div 64" "mem[q := v]"] by auto
qed simp

text \<open>A depth of the code is one less than the number of levels that are left here.\<close>

definition SetBit :: "nat \<Rightarrow> u64 list \<Rightarrow> KPageBitmap \<Rightarrow> (u64 list \<times> KPageBitmap) option" where
  "SetBit offset mem bm =
     do {
       mem1 \<leftarrow> SetBit_loop (m_bit_storages bm) (m_used_depths bm) offset mem;
       Some (mem1, bm\<lparr> m_num_bits := m_num_bits bm + 1 \<rparr>)
     }"

definition ClearBit :: "nat \<Rightarrow> u64 list \<Rightarrow> KPageBitmap \<Rightarrow> (u64 list \<times> KPageBitmap) option" where
  "ClearBit offset mem bm =
     do {
       mem1 \<leftarrow> ClearBit_loop (m_bit_storages bm) (m_used_depths bm) offset mem;
       Some (mem1, bm\<lparr> m_num_bits := m_num_bits bm - 1 \<rparr>)
     }"

function ClearRange_check :: "nat \<Rightarrow> u64 \<Rightarrow> u64 list \<Rightarrow> bool option" where
  "ClearRange_check p remaining mem =
     do {
       v \<leftarrow> word_at mem p;
       if v \<noteq> - 1 then Some False
       else if remaining - 64 > 0 then ClearRange_check (p + 1) (remaining - 64) mem
       else Some True
     }"
  by pat_completeness auto

termination ClearRange_check
  by (relation "measure (\<lambda>(p, remaining, mem). length mem - p)") (auto simp: word_at_def split: if_splits)

function ClearRange_words :: "KPageBitmap \<Rightarrow> nat \<Rightarrow> nat \<Rightarrow> u64 \<Rightarrow> u64 list \<Rightarrow> u64 list option" where
  "ClearRange_words bm p bit_ind remaining mem =
     (if p + bit_ind \<ge> length mem then None
      else
        case ClearBit_loop (m_bit_storages bm) (m_used_depths bm - 1) bit_ind (mem[p + bit_ind := 0]) of
          None \<Rightarrow> None
        | Some mem1 \<Rightarrow>
            if remaining - 64 > 0 then ClearRange_words bm p (bit_ind + 1) (remaining - 64) mem1
            else Some mem1)"
  by pat_completeness auto

termination ClearRange_words
  by (relation "measure (\<lambda>(bm, p, bit_ind, remaining, mem). length mem - (p + bit_ind))") (auto dest!: ClearBit_loop_length)

declare ClearRange_check.simps [simp del] ClearRange_words.simps [simp del]

definition ClearRange :: "nat \<Rightarrow> u64 \<Rightarrow> u64 list \<Rightarrow> KPageBitmap \<Rightarrow> (bool \<times> u64 list \<times> KPageBitmap) option" where
  "ClearRange offset count mem bm =
     (let depth = m_used_depths bm - 1;
          bits = m_bit_storages bm ! depth;
          bit_ind = offset div 64
      in if count < 64
         then
           let bit_mask = push_bit (offset mod 64) (push_bit (unat count) 1 - 1)
           in do {
                v \<leftarrow> word_at mem (bits + bit_ind);
                if v AND bit_mask \<noteq> bit_mask then Some (False, mem, bm)
                else do {
                  let v1 = v AND NOT bit_mask;
                  let mem1 = mem[bits + bit_ind := v1];
                  mem2 \<leftarrow> (if v1 = 0 then ClearBit_loop (m_bit_storages bm) depth bit_ind mem1 else Some mem1);
                  Some (True, mem2, bm\<lparr> m_num_bits := m_num_bits bm - count \<rparr>)
                }
              }
         else do {
           ok \<leftarrow> ClearRange_check (bits + bit_ind) count mem;
           if \<not> ok then Some (False, mem, bm)
           else do {
             mem1 \<leftarrow> ClearRange_words bm bits bit_ind count mem;
             Some (True, mem1, bm\<lparr> m_num_bits := m_num_bits bm - count \<rparr>)
           }
         })"

definition CalculateManagementOverheadSize_bits :: "u64 \<Rightarrow> u64" where
  "CalculateManagementOverheadSize_bits region_size =
     (let overhead = snd (((\<lambda>(sz, overhead_bits). let sz1 = AlignUp sz 64 div 64 in (sz1, overhead_bits + sz1))
                           ^^ GetRequiredDepth region_size) (region_size, 0))
      in overhead * 8)"

end
