(* ===== verification/KPageBitmapProofs.thy ===== *)
theory KPageBitmapProofs
  imports KPageBitmap
begin

text \<open>
  A bitmap stands for the set of its bits: every level holds the set of the words below that are not
  empty. Setting and clearing bits changes that set, a search finds a member whenever there is one, and
  nothing outside of the words of the bitmap changes.
\<close>

unbundle bit_operations_syntax

section \<open>Choosing a bit of a word\<close>

lemma nonzero_has_bit: "v \<noteq> 0 \<Longrightarrow> \<exists>i < 64. bit (v :: u64) i"
  using bit_word_eqI [of v 0] by auto

lemma countr_zero_bit:
  assumes "v \<noteq> 0"
  shows "bit v (countr_zero v)" "countr_zero v < 64"
proof -
  obtain i where i: "i < 64" "bit v i" using nonzero_has_bit [OF assms] by blast
  have "length (takeWhile (\<lambda>i. \<not> bit v i) [0..<64]) \<noteq> length [0..<64]"
  proof
    assume "length (takeWhile (\<lambda>i. \<not> bit v i) [0..<64]) = length [0..<64]"
    then have "takeWhile (\<lambda>i. \<not> bit v i) [0..<64] = [0..<64]" by (metis takeWhile_eq_take take_all order_refl)
    then show False using i unfolding takeWhile_eq_all_conv by auto
  qed
  then have len: "length (takeWhile (\<lambda>i. \<not> bit v i) [0..<64]) < length [0..<64]"
    using length_takeWhile_le [of "\<lambda>i. \<not> bit v i" "[0..<64]"] by linarith
  then show "countr_zero v < 64" by (simp add: countr_zero_def)
  show "bit v (countr_zero v)"
    using nth_length_takeWhile [OF len] len by (simp add: countr_zero_def)
qed

declare SelectRandomBit_loop.simps [simp del]

text \<open>One turn of the selection keeps the half it takes non-empty.\<close>

lemma select_step:
  assumes n: "0 < n" and v: "v \<noteq> 0" "\<forall>i. bit v i \<longrightarrow> i < 2 * n"
    and IH: "\<And>v sel g. v \<noteq> 0 \<Longrightarrow> \<forall>i. bit v i \<longrightarrow> i < n \<Longrightarrow>
      \<exists>j. fst (SelectRandomBit_loop (n div 2) v sel g) = sel + j \<and> bit v j"
  shows "\<exists>j. fst (SelectRandomBit_loop n v sel g) = sel + j \<and> bit v j"
proof -
  let ?high = "drop_bit n v" and ?low = "v AND NOT (push_bit n (- 1))"
  have high: "bit ?high i \<longleftrightarrow> bit v (n + i)" for i by (simp add: bit_drop_bit_eq)
  have low: "bit ?low i \<longleftrightarrow> bit v i \<and> i < n" for i
    by (auto simp: bit_simps dest: bit_imp_le_length)
  have zero: "v = 0" if "?high = 0" "?low = 0"
  proof (rule bit_word_eqI)
    fix i
    have "\<not> bit ?high (i - n)" "\<not> bit ?low i" using that by simp_all
    then show "bit v i = bit 0 i" unfolding high low by (cases "i < n") auto
  qed
  obtain b g1 where c: "(if ?high = 0 then (False, g) else if ?low = 0 then (True, g) else GenerateRandomBit g) = (b, g1)"
    by (metis surj_pair)
  then have ne: "if b then ?high \<noteq> 0 else ?low \<noteq> 0" using v(1) zero by (auto split: if_splits)
  have eq: "SelectRandomBit_loop n v sel g =
      (if b then SelectRandomBit_loop (n div 2) ?high (sel + n) g1 else SelectRandomBit_loop (n div 2) ?low sel g1)"
    using n by (subst SelectRandomBit_loop.simps) (simp only: Let_def c prod.case, simp)
  show ?thesis
  proof (cases b)
    case True
    have "\<forall>i. bit ?high i \<longrightarrow> i < n" using v(2) high by fastforce
    then obtain j where "fst (SelectRandomBit_loop (n div 2) ?high (sel + n) g1) = sel + n + j" "bit ?high j"
      using IH ne True by meson
    then show ?thesis using True by (intro exI [of _ "n + j"]) (simp add: eq high)
  next
    case False
    have "\<forall>i. bit ?low i \<longrightarrow> i < n" using low by blast
    then obtain j where j: "fst (SelectRandomBit_loop (n div 2) ?low sel g1) = sel + j" "bit ?low j"
      using IH ne False by meson
    have "bit v j" using j(2) low by blast
    then show ?thesis using False j(1) by (intro exI [of _ j]) (simp only: eq if_False simp_thms)
  qed
qed

lemma select_loop_bit:
  "v \<noteq> 0 \<Longrightarrow> \<forall>i. bit v i \<longrightarrow> i < 2 * 2 ^ k \<Longrightarrow>
   \<exists>j. fst (SelectRandomBit_loop (2 ^ k) v sel g) = sel + j \<and> bit v j"
proof (induction k arbitrary: v sel g)
  case 0
  have "\<exists>j. fst (SelectRandomBit_loop 0 v sel g) = sel + j \<and> bit v j" if "v \<noteq> 0" "\<forall>i. bit v i \<longrightarrow> i < 1" for v sel g
    using nonzero_has_bit [OF that(1)] that(2) by (subst SelectRandomBit_loop.simps) auto
  then show ?case using select_step [of 1 v sel g] 0 by simp
next
  case (Suc k)
  then show ?case using select_step [of "2 ^ Suc k" v sel g] by simp
qed

lemma SelectRandomBit_bit:
  assumes "v \<noteq> 0"
  shows "bit v (fst (SelectRandomBit v g))" "fst (SelectRandomBit v g) < 64"
proof -
  have "\<forall>i. bit v i \<longrightarrow> i < 2 * 2 ^ 5" by (auto dest: bit_imp_le_length)
  from select_loop_bit [OF assms this, of 0 g] show "bit v (fst (SelectRandomBit v g))"
    by (auto simp: SelectRandomBit_def)
  then show "fst (SelectRandomBit v g) < 64" by (auto dest: bit_imp_le_length)
qed

lemma GenerateRandom_less:
  assumes "0 < mx"
  shows "fst (GenerateRandom mx g) < mx"
proof -
  have "r - (r div mx) * mx = r mod mx" for r :: u64 by (simp add: minus_div_mult_eq_mod)
  then show ?thesis using assms
    by (auto simp: GenerateRandom_def Let_def split: prod.splits) (metis word_mod_less_divisor)
qed

section \<open>The levels of a bitmap\<close>

text \<open>The words from \<open>base\<close> on hold a set of bits.\<close>

definition holds_bits :: "u64 list \<Rightarrow> nat \<Rightarrow> nat \<Rightarrow> nat set \<Rightarrow> bool" where
  "holds_bits mem b e T \<longleftrightarrow>
     b \<le> e \<and> e \<le> length mem \<and> T \<subseteq> {..<64 * (e - b)} \<and> (\<forall>i < 64 * (e - b). bit (mem ! (b + i div 64)) (i mod 64) \<longleftrightarrow> i \<in> T)"

definition parents :: "nat set \<Rightarrow> nat set" where
  "parents T = (\<lambda>i. i div 64) ` T"

primrec levels :: "u64 list \<Rightarrow> nat list \<Rightarrow> nat list \<Rightarrow> nat \<Rightarrow> nat set \<Rightarrow> bool" where
  "levels mem bs es 0 T \<longleftrightarrow> True"
| "levels mem bs es (Suc d) T \<longleftrightarrow> holds_bits mem (bs ! d) (es ! d) T \<and> levels mem bs es d (parents T)"

text \<open>The levels follow each other, the lowest first, and each has a bit for every word below.\<close>

definition layout :: "nat list \<Rightarrow> nat list \<Rightarrow> nat \<Rightarrow> bool" where
  "layout bs es n \<longleftrightarrow>
     (\<forall>d < n. bs ! d < es ! d) \<and> es ! 0 = bs ! 0 + 1 \<and>
     (\<forall>d. Suc d < n \<longrightarrow> es ! Suc d = bs ! d \<and> es ! Suc d - bs ! Suc d \<le> 64 * (es ! d - bs ! d))"

lemma layout_Suc: "layout bs es (Suc (Suc n)) \<Longrightarrow> layout bs es (Suc n)"
  unfolding layout_def by (metis less_SucI)

lemma layout_order:
  assumes "layout bs es (Suc n)"
  shows "d \<le> n \<Longrightarrow> bs ! n \<le> bs ! d \<and> es ! d \<le> es ! 0"
  using assms
proof (induction n arbitrary: d)
  case (Suc n)
  have "bs ! Suc n < es ! Suc n" "es ! Suc n = bs ! n" "bs ! n < es ! n"
    using Suc.prems(2) by (auto simp: layout_def)
  with Suc.IH [OF _ layout_Suc [OF Suc.prems(2)], of d] Suc.IH [OF order_refl layout_Suc [OF Suc.prems(2)]]
  show ?case using Suc.prems(1) by (cases "d = Suc n") auto
qed simp

lemma holds_bits_frame:
  "(\<And>p. b \<le> p \<Longrightarrow> p < e \<Longrightarrow> mem1 ! p = mem ! p) \<Longrightarrow> length mem1 = length mem \<Longrightarrow> holds_bits mem1 b e T = holds_bits mem b e T"
  by (auto simp: holds_bits_def less_mult_imp_div_less mult.commute add.commute less_diff_conv)

text \<open>The levels above a level do not see its words.\<close>

lemma levels_frame:
  assumes "layout bs es n" "length mem1 = length mem" "\<And>p. bs ! (n - 1) \<le> p \<Longrightarrow> p < es ! 0 \<Longrightarrow> mem1 ! p = mem ! p"
  shows "levels mem1 bs es n T = levels mem bs es n T"
  using assms
proof (induction n arbitrary: T)
  case (Suc n)
  have o: "bs ! n \<le> bs ! d \<and> es ! d \<le> es ! 0" if "d \<le> n" for d using layout_order [OF Suc.prems(1) that] .
  have "holds_bits mem1 (bs ! n) (es ! n) T = holds_bits mem (bs ! n) (es ! n) T"
    using Suc.prems(2,3) o [of n] by (intro holds_bits_frame) auto
  moreover have "levels mem1 bs es n (parents T) = levels mem bs es n (parents T)"
  proof (cases n)
    case (Suc m)
    then show ?thesis using Suc.IH [OF _ Suc.prems(2)] layout_Suc Suc.prems(1,3) o [of m] by force
  qed simp
  ultimately show ?case by simp
qed simp

lemma levels_update_below:
  assumes "layout bs es (Suc n)" "p < es ! n"
  shows "levels (mem[p := v]) bs es n T = levels mem bs es n T"
proof (cases n)
  case (Suc m)
  then have "p < bs ! m" using assms by (simp add: layout_def)
  then show ?thesis using assms Suc by (intro levels_frame) (auto simp: layout_Suc)
qed simp

text \<open>A word of a level is zero when its bit in the level above is missing.\<close>

lemma holds_bits_word:
  assumes "holds_bits mem b e T" "w < e - b" "j < 64"
  shows "bit (mem ! (b + w)) j \<longleftrightarrow> w * 64 + j \<in> T"
proof -
  have "w * 64 + j < 64 * (e - b)" using mult_le_mono2 [of "Suc w" "e - b" 64] assms(2,3) by simp
  then have "bit (mem ! (b + (w * 64 + j) div 64)) ((w * 64 + j) mod 64) \<longleftrightarrow> w * 64 + j \<in> T"
    using assms(1) unfolding holds_bits_def by blast
  then show ?thesis using assms(3) by simp
qed

lemma holds_bits_zero:
  assumes "holds_bits mem b e T" "w < e - b"
  shows "mem ! (b + w) = 0 \<longleftrightarrow> w \<notin> parents T"
proof -
  have "mem ! (b + w) = 0 \<longleftrightarrow> (\<forall>j < 64. \<not> bit (mem ! (b + w)) j)"
    using nonzero_has_bit [of "mem ! (b + w)"] by auto
  also have "\<dots> \<longleftrightarrow> (\<forall>j < 64. w * 64 + j \<notin> T)" using holds_bits_word [OF assms] by simp
  also have "\<dots> \<longleftrightarrow> w \<notin> parents T" unfolding parents_def image_def
    by (auto dest: spec [of _ "_ mod 64"]) (metis add.commute mod_less_divisor mod_mult_div_eq mult.commute zero_less_numeral)
  finally show ?thesis .
qed

lemma holds_bits_update:
  assumes "holds_bits mem b e T" "w < e - b" "\<And>j. j < 64 \<Longrightarrow> bit v j \<longleftrightarrow> w * 64 + j \<in> T1"
    "\<And>i. i div 64 \<noteq> w \<Longrightarrow> i \<in> T1 \<longleftrightarrow> i \<in> T"
  shows "holds_bits (mem[b + w := v]) b e T1"
proof -
  have in_w: "i < 64 * (e - b)" if "i div 64 = w" for i
    using that assms(2) by (metis mult.commute div_less_iff_less_mult zero_less_numeral)
  have bit: "bit (mem[b + w := v] ! (b + i div 64)) (i mod 64) \<longleftrightarrow> i \<in> T1" if i: "i < 64 * (e - b)" for i
  proof (cases "i div 64 = w")
    case True
    then have "w * 64 + i mod 64 = i" by (metis div_mult_mod_eq)
    moreover have "b + w < length mem" using assms(1,2) unfolding holds_bits_def by linarith
    ultimately show ?thesis using assms(3) [of "i mod 64"] True by simp
  next
    case False
    then show ?thesis using assms(1) assms(4) [OF False] i by (auto simp: holds_bits_def)
  qed
  have "i < 64 * (e - b)" if "i \<in> T1" for i
    using that assms(1) assms(4) [of i] in_w [of i] by (cases "i div 64 = w") (auto simp: holds_bits_def)
  then show ?thesis using assms(1) bit by (auto simp: holds_bits_def)
qed

text \<open>A change of a word in the lowest of the levels, and the levels above after it.\<close>

lemma level_change:
  assumes "layout bs es (Suc n)" "levels mem bs es (Suc n) T" "w < es ! n - bs ! n"
    "\<And>j. j < 64 \<Longrightarrow> bit v j \<longleftrightarrow> w * 64 + j \<in> T1" "\<And>i. i div 64 \<noteq> w \<Longrightarrow> i \<in> T1 \<longleftrightarrow> i \<in> T"
  shows "holds_bits (mem[bs ! n + w := v]) (bs ! n) (es ! n) T1" "levels (mem[bs ! n + w := v]) bs es n (parents T)"
    "word_at mem (bs ! n + w) = Some (mem ! (bs ! n + w))" "v = 0 \<longleftrightarrow> w \<notin> parents T1"
    "x \<noteq> w \<Longrightarrow> x \<in> parents T1 \<longleftrightarrow> x \<in> parents T"
proof -
  have h: "holds_bits mem (bs ! n) (es ! n) T" using assms(2) by simp
  show h1: "holds_bits (mem[bs ! n + w := v]) (bs ! n) (es ! n) T1"
    using holds_bits_update [OF h assms(3-5)] .
  show "levels (mem[bs ! n + w := v]) bs es n (parents T)"
    using assms(1-3) by (subst levels_update_below) auto
  have lt: "bs ! n + w < length mem" using h assms(3) unfolding holds_bits_def by linarith
  then show "word_at mem (bs ! n + w) = Some (mem ! (bs ! n + w))" by (simp add: word_at_def)
  show "v = 0 \<longleftrightarrow> w \<notin> parents T1" using holds_bits_zero [OF h1 assms(3)] lt by simp
  show "x \<noteq> w \<Longrightarrow> x \<in> parents T1 \<longleftrightarrow> x \<in> parents T" using assms(5) by (auto simp: parents_def image_def)
qed

text \<open>Nothing changes outside of the words of the first \<open>n\<close> levels.\<close>

definition only_levels :: "nat list \<Rightarrow> nat list \<Rightarrow> nat \<Rightarrow> u64 list \<Rightarrow> u64 list \<Rightarrow> bool" where
  "only_levels bs es n mem mem1 \<longleftrightarrow>
     length mem1 = length mem \<and> (\<forall>p. (0 < n \<longrightarrow> p < bs ! (n - 1) \<or> es ! 0 \<le> p) \<longrightarrow> mem1 ! p = mem ! p)"

lemma only_levels_refl: "only_levels bs es n mem mem"
  by (simp add: only_levels_def)

lemma only_levels_Suc:
  assumes "layout bs es (Suc n)" "w < es ! n - bs ! n" "only_levels bs es n (mem[bs ! n + w := v]) mem1"
  shows "only_levels bs es (Suc n) mem mem1"
proof -
  have le: "es ! n \<le> es ! 0" using layout_order [OF assms(1), of n] by simp
  have "mem1 ! p = mem ! p" if p: "p < bs ! n \<or> es ! 0 \<le> p" for p
  proof -
    have "0 < n \<longrightarrow> p < bs ! (n - 1) \<or> es ! 0 \<le> p"
      using p assms(1) layout_order [OF assms(1), of "n - 1"] by fastforce
    then have "mem1 ! p = mem[bs ! n + w := v] ! p" using assms(3) by (simp add: only_levels_def)
    moreover have "bs ! n + w \<noteq> p" using p le assms(2) by linarith
    ultimately show ?thesis by simp
  qed
  then show ?thesis using assms(3) by (simp add: only_levels_def)
qed

lemma levels_join:
  assumes "layout bs es (Suc n)" "holds_bits mem (bs ! n) (es ! n) T" "only_levels bs es n mem mem1"
    "levels mem1 bs es n (parents T)"
  shows "levels mem1 bs es (Suc n) T"
proof -
  have "mem1 ! p = mem ! p" if "p < es ! n" for p
    using that assms(1,3) by (cases n) (auto simp: only_levels_def layout_def)
  then show ?thesis using assms holds_bits_frame [of "bs ! n" "es ! n" mem1 mem T] by (simp add: only_levels_def)
qed

section \<open>Setting and clearing bits\<close>

definition in_lowest :: "nat list \<Rightarrow> nat list \<Rightarrow> nat \<Rightarrow> nat \<Rightarrow> bool" where
  "in_lowest bs es n offset \<longleftrightarrow> (0 < n \<longrightarrow> offset < 64 * (es ! (n - 1) - bs ! (n - 1)))"

lemma in_lowest_parent:
  assumes "layout bs es (Suc n)" "in_lowest bs es (Suc n) offset"
  shows "in_lowest bs es n (offset div 64)" "offset div 64 < es ! n - bs ! n"
proof -
  show *: "offset div 64 < es ! n - bs ! n" using assms(2) by (simp add: in_lowest_def less_mult_imp_div_less mult.commute)
  show "in_lowest bs es n (offset div 64)" using * assms(1) by (cases n) (auto simp: in_lowest_def layout_def)
qed

lemma word_bit_64: "bit (v :: u64) j \<Longrightarrow> j < 64"
  by (auto dest: bit_imp_le_length)

lemma bit_single: "bit (2 ^ k :: u64) j \<longleftrightarrow> j = k \<and> k < 64"
  by (auto simp: bit_exp_iff dest: word_bit_64)

lemma same_bit: "j < 64 \<Longrightarrow> offset div 64 * 64 + j = offset \<longleftrightarrow> j = offset mod 64" for offset :: nat
  by (metis div_mult_mod_eq add_left_cancel)

lemma SetBit_loop_levels:
  assumes "layout bs es n" "levels mem bs es n T" "offset \<notin> T" "in_lowest bs es n offset"
  shows "\<exists>mem1. SetBit_loop bs n offset mem = Some mem1 \<and> levels mem1 bs es n (insert offset T) \<and> only_levels bs es n mem mem1"
  using assms
proof (induction n arbitrary: mem T offset)
  case 0
  then show ?case by (simp add: only_levels_def)
next
  case (Suc n)
  let ?w = "offset div 64"
  let ?v = "mem ! (bs ! n + ?w)"
  let ?v1 = "?v OR push_bit (offset mod 64) 1"
  let ?mem1 = "mem[bs ! n + ?w := ?v1]"
  note w = in_lowest_parent [OF Suc.prems(1,4)]
  have h: "holds_bits mem (bs ! n) (es ! n) T" using Suc.prems(2) by simp
  have bit: "bit ?v1 j \<longleftrightarrow> ?w * 64 + j \<in> insert offset T" if "j < 64" for j
    using holds_bits_word [OF h w(2) that] same_bit [OF that, of offset] that
    by (auto simp: bit_or_iff bit_single)
  have c1: "holds_bits ?mem1 (bs ! n) (es ! n) (insert offset T)" "levels ?mem1 bs es n (parents T)"
    "word_at mem (bs ! n + ?w) = Some ?v"
    using level_change(1-3) [OF Suc.prems(1,2) w(2) bit] by blast+
  have par: "parents (insert offset T) = insert ?w (parents T)" by (simp add: parents_def)
  have lay: "layout bs es n" if "0 < n" using that Suc.prems(1) layout_Suc by (cases n) auto
  show ?case
  proof (cases "?v = 0")
    case True
    then have "?w \<notin> parents T" using holds_bits_zero [OF h w(2)] by simp
    then obtain mem2 where m2: "SetBit_loop bs n ?w ?mem1 = Some mem2" "levels mem2 bs es n (insert ?w (parents T))"
      "only_levels bs es n ?mem1 mem2"
      using Suc.IH [OF _ c1(2) _ w(1)] lay by (cases n) (auto simp: only_levels_def)
    have "SetBit_loop bs (Suc n) offset mem = Some mem2" using True c1(3) m2(1) by (simp add: Let_def)
    then show ?thesis
      using levels_join [OF Suc.prems(1) c1(1) m2(3)] m2(2) only_levels_Suc [OF Suc.prems(1) w(2) m2(3)] par by simp
  next
    case False
    then have "?w \<in> parents T" using holds_bits_zero [OF h w(2)] by simp
    then have "parents (insert offset T) = parents T" using par by (simp add: insert_absorb)
    then have "levels ?mem1 bs es (Suc n) (insert offset T)" using c1 by simp
    moreover have "SetBit_loop bs (Suc n) offset mem = Some ?mem1" using False c1(3) by (simp add: Let_def)
    moreover have "only_levels bs es (Suc n) mem ?mem1"
      using only_levels_Suc [OF Suc.prems(1) w(2) only_levels_refl] .
    ultimately show ?thesis by blast
  qed
qed

text \<open>
  Clearing a word down to a set that is given by its bits, and then its bit in the levels above when it is empty: one bit
  is cleared like this, and so is a range inside of a word.
\<close>

lemma parents_removed:
  assumes "T1 \<subseteq> T" "\<And>i. i div 64 \<noteq> w \<Longrightarrow> i \<in> T1 \<longleftrightarrow> i \<in> T" "w \<in> parents T"
  shows "parents T1 = (if w \<in> parents T1 then parents T else parents T - {w})"
proof -
  have "x \<in> parents T1 \<longleftrightarrow> x \<in> parents T" if "x \<noteq> w" for x
    using that assms(2) by (auto simp: parents_def image_def)
  then have "x \<in> parents T1 \<longleftrightarrow> x \<in> (if w \<in> parents T1 then parents T else parents T - {w})" for x
    using assms(3) by (cases "x = w") auto
  then show ?thesis by blast
qed

lemma clear_word_levels:
  assumes lay: "layout bs es (Suc n)" and lev: "levels mem bs es (Suc n) T" and w: "w < es ! n - bs ! n" "in_lowest bs es n w"
    and T1: "T1 \<subseteq> T" "\<And>i. i div 64 \<noteq> w \<Longrightarrow> i \<in> T1 \<longleftrightarrow> i \<in> T" "w \<in> parents T"
    and bit: "\<And>j. j < 64 \<Longrightarrow> bit v j \<longleftrightarrow> w * 64 + j \<in> T1"
    and IH: "\<And>mem T. layout bs es n \<Longrightarrow> levels mem bs es n T \<Longrightarrow> w \<in> T \<Longrightarrow>
      \<exists>mem1. ClearBit_loop bs n w mem = Some mem1 \<and> levels mem1 bs es n (T - {w}) \<and> only_levels bs es n mem mem1"
  shows "\<exists>mem1. (if v \<noteq> 0 then Some (mem[bs ! n + w := v]) else ClearBit_loop bs n w (mem[bs ! n + w := v])) = Some mem1 \<and>
    levels mem1 bs es (Suc n) T1 \<and> only_levels bs es (Suc n) mem mem1"
proof -
  let ?mem1 = "mem[bs ! n + w := v]"
  have c: "holds_bits ?mem1 (bs ! n) (es ! n) T1" "levels ?mem1 bs es n (parents T)" "v = 0 \<longleftrightarrow> w \<notin> parents T1"
    using level_change(1,2,4) [OF lay lev w(1) bit T1(2)] by blast+
  have layn: "layout bs es n" if "0 < n" using that lay layout_Suc by (cases n) auto
  show ?thesis
  proof (cases "v = 0")
    case True
    then have par: "parents T1 = parents T - {w}" using c(3) parents_removed [OF T1] by simp
    obtain mem2 where m2: "ClearBit_loop bs n w ?mem1 = Some mem2" "levels mem2 bs es n (parents T - {w})"
      "only_levels bs es n ?mem1 mem2"
      using IH [OF _ c(2) T1(3)] layn by (cases n) (auto simp: only_levels_def)
    then show ?thesis
      using True levels_join [OF lay c(1) m2(3)] only_levels_Suc [OF lay w(1) m2(3)] par by simp
  next
    case False
    then have "parents T1 = parents T" using c(3) parents_removed [OF T1] by simp
    moreover have "only_levels bs es (Suc n) mem ?mem1"
      using only_levels_Suc [OF lay w(1) only_levels_refl] .
    ultimately show ?thesis using False c(1,2) by simp
  qed
qed

lemma ClearBit_loop_levels:
  assumes "layout bs es n" "levels mem bs es n T" "offset \<in> T"
  shows "\<exists>mem1. ClearBit_loop bs n offset mem = Some mem1 \<and> levels mem1 bs es n (T - {offset}) \<and> only_levels bs es n mem mem1"
  using assms
proof (induction n arbitrary: mem T offset)
  case 0
  then show ?case by (simp add: only_levels_def)
next
  case (Suc n)
  let ?w = "offset div 64"
  let ?v1 = "mem ! (bs ! n + ?w) AND NOT (push_bit (offset mod 64) 1)"
  have h: "holds_bits mem (bs ! n) (es ! n) T" using Suc.prems(2) by simp
  then have "in_lowest bs es (Suc n) offset" using Suc.prems(3) by (auto simp: holds_bits_def in_lowest_def)
  note w = in_lowest_parent [OF Suc.prems(1) this]
  have bit: "bit ?v1 j \<longleftrightarrow> ?w * 64 + j \<in> T - {offset}" if "j < 64" for j
    using holds_bits_word [OF h w(2) that] same_bit [OF that, of offset] that
    by (auto simp: bit_and_iff bit_not_iff bit_single)
  have "word_at mem (bs ! n + ?w) = Some (mem ! (bs ! n + ?w))"
    using level_change(3) [OF Suc.prems(1,2) w(2) bit] by auto
  then have eq: "ClearBit_loop bs (Suc n) offset mem =
      (if ?v1 \<noteq> 0 then Some (mem[bs ! n + ?w := ?v1]) else ClearBit_loop bs n ?w (mem[bs ! n + ?w := ?v1]))"
    by (simp add: Let_def)
  have "?w \<in> parents T" using Suc.prems(3) by (simp add: parents_def)
  moreover have "i \<in> T - {offset} \<longleftrightarrow> i \<in> T" if "i div 64 \<noteq> ?w" for i using that by auto
  ultimately show ?case
    unfolding eq using clear_word_levels [OF Suc.prems(1,2) w(2,1) Diff_subset _ _ bit Suc.IH] by blast
qed

section \<open>Bitmaps as sets\<close>

text \<open>A bitmap in the vector stands for a set of offsets below its size, and knows how many there are.\<close>

definition bitmap_ok :: "u64 list \<Rightarrow> KPageBitmap \<Rightarrow> nat set \<Rightarrow> bool" where
  "bitmap_ok mem bm T \<longleftrightarrow>
     0 < m_used_depths bm \<and> layout (m_bit_storages bm) (m_end_storages bm) (m_used_depths bm) \<and>
     levels mem (m_bit_storages bm) (m_end_storages bm) (m_used_depths bm) T \<and> unat (m_num_bits bm) = card T"

definition bitmap_start :: "KPageBitmap \<Rightarrow> nat" where
  "bitmap_start bm = m_bit_storages bm ! (m_used_depths bm - 1)"

definition bitmap_end :: "KPageBitmap \<Rightarrow> nat" where
  "bitmap_end bm = m_end_storages bm ! 0"

definition bitmap_bits :: "KPageBitmap \<Rightarrow> nat" where
  "bitmap_bits bm = 64 * (m_end_storages bm ! (m_used_depths bm - 1) - m_bit_storages bm ! (m_used_depths bm - 1))"

definition same_place :: "KPageBitmap \<Rightarrow> KPageBitmap \<Rightarrow> bool" where
  "same_place bm bm1 \<longleftrightarrow> m_bit_storages bm1 = m_bit_storages bm \<and> m_end_storages bm1 = m_end_storages bm \<and>
     m_used_depths bm1 = m_used_depths bm"

definition only_bitmap :: "KPageBitmap \<Rightarrow> u64 list \<Rightarrow> u64 list \<Rightarrow> bool" where
  "only_bitmap bm mem mem1 \<longleftrightarrow>
     length mem1 = length mem \<and> (\<forall>p. p < bitmap_start bm \<or> bitmap_end bm \<le> p \<longrightarrow> mem1 ! p = mem ! p)"

lemmas bitmap_places = bitmap_start_def bitmap_end_def bitmap_bits_def same_place_def only_bitmap_def

lemma bitmap_ok_depth:
  assumes "bitmap_ok mem bm T"
  obtains n where "m_used_depths bm = Suc n"
  using assms by (auto simp: bitmap_ok_def gr0_conv_Suc)

lemma bitmap_ok_finite:
  assumes "bitmap_ok mem bm T"
  shows "T \<subseteq> {..<bitmap_bits bm}" "finite T" "bitmap_end bm \<le> length mem" "bitmap_start bm < bitmap_end bm"
proof -
  obtain n where n: "m_used_depths bm = Suc n" using bitmap_ok_depth [OF assms] .
  have "holds_bits mem (m_bit_storages bm ! n) (m_end_storages bm ! n) T" using assms n by (simp add: bitmap_ok_def)
  then show sub: "T \<subseteq> {..<bitmap_bits bm}" using n by (simp add: bitmap_bits_def holds_bits_def)
  then show "finite T" by (rule finite_subset) simp
  have lay: "layout (m_bit_storages bm) (m_end_storages bm) (Suc n)" using assms n by (simp add: bitmap_ok_def)
  have "levels mem (m_bit_storages bm) (m_end_storages bm) (Suc d) U \<Longrightarrow> m_end_storages bm ! 0 \<le> length mem" for d U
    by (induction d arbitrary: U) (auto simp: holds_bits_def)
  then show "bitmap_end bm \<le> length mem" using assms n unfolding bitmap_ok_def bitmap_end_def by metis
  show "bitmap_start bm < bitmap_end bm"
    using layout_order [OF lay, of 0] lay n by (simp add: bitmap_start_def bitmap_end_def layout_def)
qed

lemma bitmap_ok_frame:
  assumes "bitmap_ok mem bm T" "length mem1 = length mem" "\<And>p. bitmap_start bm \<le> p \<Longrightarrow> p < bitmap_end bm \<Longrightarrow> mem1 ! p = mem ! p"
  shows "bitmap_ok mem1 bm T"
  using assms levels_frame [of "m_bit_storages bm" "m_end_storages bm" "m_used_depths bm" mem1 mem T]
  by (simp add: bitmap_ok_def bitmap_start_def bitmap_end_def)

lemma SetBit_ok:
  assumes "bitmap_ok mem bm T" "offset \<notin> T" "offset < bitmap_bits bm" "card T + 1 < 2 ^ 64"
  shows "\<exists>mem1 bm1. SetBit offset mem bm = Some (mem1, bm1) \<and> bitmap_ok mem1 bm1 (insert offset T) \<and> same_place bm bm1 \<and> only_bitmap bm mem mem1"
proof -
  have b: "0 < m_used_depths bm" "layout (m_bit_storages bm) (m_end_storages bm) (m_used_depths bm)"
    "levels mem (m_bit_storages bm) (m_end_storages bm) (m_used_depths bm) T" "unat (m_num_bits bm) = card T"
    using assms(1) by (simp_all add: bitmap_ok_def)
  have "in_lowest (m_bit_storages bm) (m_end_storages bm) (m_used_depths bm) offset"
    using assms(3) by (simp add: in_lowest_def bitmap_bits_def)
  from SetBit_loop_levels [OF b(2,3) assms(2) this] obtain mem1 where
    m: "SetBit_loop (m_bit_storages bm) (m_used_depths bm) offset mem = Some mem1"
    "levels mem1 (m_bit_storages bm) (m_end_storages bm) (m_used_depths bm) (insert offset T)"
    "only_levels (m_bit_storages bm) (m_end_storages bm) (m_used_depths bm) mem mem1" by blast
  have "unat (m_num_bits bm + 1) = card (insert offset T)"
    using b(4) assms(2,4) bitmap_ok_finite(2) [OF assms(1)] unat_inc [of "m_num_bits bm"] by simp
  then show ?thesis using m b by (simp add: SetBit_def bitmap_ok_def bitmap_places only_levels_def)
qed

lemma ClearBit_ok:
  assumes "bitmap_ok mem bm T" "offset \<in> T"
  shows "\<exists>mem1 bm1. ClearBit offset mem bm = Some (mem1, bm1) \<and> bitmap_ok mem1 bm1 (T - {offset}) \<and> same_place bm bm1 \<and> only_bitmap bm mem mem1"
proof -
  have b: "0 < m_used_depths bm" "layout (m_bit_storages bm) (m_end_storages bm) (m_used_depths bm)"
    "levels mem (m_bit_storages bm) (m_end_storages bm) (m_used_depths bm) T" "unat (m_num_bits bm) = card T"
    using assms(1) by (simp_all add: bitmap_ok_def)
  from ClearBit_loop_levels [OF b(2,3) assms(2)] obtain mem1 where
    m: "ClearBit_loop (m_bit_storages bm) (m_used_depths bm) offset mem = Some mem1"
    "levels mem1 (m_bit_storages bm) (m_end_storages bm) (m_used_depths bm) (T - {offset})"
    "only_levels (m_bit_storages bm) (m_end_storages bm) (m_used_depths bm) mem mem1" by blast
  have "0 < card T" using assms(2) bitmap_ok_finite(2) [OF assms(1)] by (auto simp: card_gt_0_iff)
  then have "unat (m_num_bits bm - 1) = card (T - {offset})"
    using b(4) assms(2) unat_dec [of "m_num_bits bm"] by (simp add: card_Diff_singleton)
  then show ?thesis using m b by (simp add: ClearBit_def bitmap_ok_def bitmap_places only_levels_def)
qed

text \<open>A range inside of one word is cleared when all of it is set, and left alone otherwise.\<close>

lemma bit_range_mask:
  assumes "s + c \<le> 64"
  shows "bit (push_bit s (push_bit c 1 - 1) :: u64) j \<longleftrightarrow> s \<le> j \<and> j < s + c"
proof -
  have "(push_bit c 1 - 1 :: u64) = mask c" by (simp add: mask_eq_exp_minus_1)
  then show ?thesis using assms by (auto simp: bit_push_bit_iff bit_mask_iff)
qed

lemma and_mask_subset: "(v :: u64) AND m = m \<longleftrightarrow> (\<forall>j < 64. bit m j \<longrightarrow> bit v j)"
  by (auto simp: bit_eq_iff bit_and_iff dest: word_bit_64)

lemma ClearRange_ok:
  assumes ok: "bitmap_ok mem bm T" and c: "0 < count" "count < 64" "offset mod 64 + unat count \<le> 64" and off: "offset < bitmap_bits bm"
  shows "if {offset..<offset + unat count} \<subseteq> T
    then \<exists>mem1 bm1. ClearRange offset count mem bm = Some (True, mem1, bm1) \<and>
      bitmap_ok mem1 bm1 (T - {offset..<offset + unat count}) \<and> same_place bm bm1 \<and> only_bitmap bm mem mem1
    else ClearRange offset count mem bm = Some (False, mem, bm)"
proof -
  obtain n where n: "m_used_depths bm = Suc n" using bitmap_ok_depth [OF ok] .
  let ?bs = "m_bit_storages bm" and ?es = "m_end_storages bm" and ?w = "offset div 64" and ?R = "{offset..<offset + unat count}"
  let ?v = "mem ! (?bs ! n + ?w)" and ?m = "push_bit (offset mod 64) (push_bit (unat count) 1 - 1) :: u64"
  have b: "layout ?bs ?es (Suc n)" "levels mem ?bs ?es (Suc n) T" "unat (m_num_bits bm) = card T"
    using ok n by (simp_all add: bitmap_ok_def del: levels.simps)
  then have h: "holds_bits mem (?bs ! n) (?es ! n) T" by simp
  have "in_lowest ?bs ?es (Suc n) offset" using off n by (simp add: in_lowest_def bitmap_bits_def)
  note w = in_lowest_parent [OF b(1) this]
  have at: "word_at mem (?bs ! n + ?w) = Some ?v"
    using h w(2) unfolding holds_bits_def word_at_def by auto
  have R: "?w * 64 + j \<in> ?R \<longleftrightarrow> bit ?m j" if "j < 64" for j
    unfolding bit_range_mask [OF c(3)] atLeastLessThan_iff using div_mult_mod_eq [of offset 64] by linarith
  have word: "bit ?v j \<longleftrightarrow> ?w * 64 + j \<in> T" if "j < 64" for j using holds_bits_word [OF h w(2) that] .
  have Rw: "i div 64 = ?w" if "i \<in> ?R" for i
  proof -
    have "offset mod 64 + (i - offset) < 64" using that c(3) by auto
    from div_same [OF this] show ?thesis using that by simp
  qed
  have all: "?v AND ?m = ?m \<longleftrightarrow> ?R \<subseteq> T"
  proof -
    have "i \<in> T" if "\<forall>j < 64. ?w * 64 + j \<in> ?R \<longrightarrow> ?w * 64 + j \<in> T" "i \<in> ?R" for i
      using that(1) [rule_format, of "i mod 64"] that(2) Rw [OF that(2)] div_mult_mod_eq [of i 64] by simp
    then have "?R \<subseteq> T \<longleftrightarrow> (\<forall>j < 64. ?w * 64 + j \<in> ?R \<longrightarrow> ?w * 64 + j \<in> T)" by blast
    then show ?thesis using R word unfolding and_mask_subset by blast
  qed
  have un: "ClearRange offset count mem bm =
      (if ?v AND ?m \<noteq> ?m then Some (False, mem, bm)
       else do {
         mem2 \<leftarrow> (if ?v AND NOT ?m \<noteq> 0 then Some (mem[?bs ! n + ?w := ?v AND NOT ?m])
                  else ClearBit_loop ?bs n ?w (mem[?bs ! n + ?w := ?v AND NOT ?m]));
         Some (True, mem2, bm\<lparr> m_num_bits := m_num_bits bm - count \<rparr>) })"
    using c(2) n at unfolding ClearRange_def Let_def by simp
  show ?thesis
  proof (cases "?R \<subseteq> T")
    case True
    have "offset \<in> T" using True c(1) by (auto simp: word_gt_0 unat_gt_0)
    then have par: "?w \<in> parents T" by (simp add: parents_def)
    have bit: "bit (?v AND NOT ?m) j \<longleftrightarrow> ?w * 64 + j \<in> T - ?R" if "j < 64" for j
      using R [OF that] word [OF that] that by (simp add: bit_and_iff bit_not_iff)
    have other: "i \<in> T - ?R \<longleftrightarrow> i \<in> T" if "i div 64 \<noteq> ?w" for i using that Rw by blast
    have lay: "layout ?bs ?es n" if "0 < n" using that b(1) layout_Suc by (cases n) auto
    from clear_word_levels [OF b(1,2) w(2,1) Diff_subset other par bit ClearBit_loop_levels] obtain mem1 where
      m: "(if ?v AND NOT ?m \<noteq> 0 then Some (mem[?bs ! n + ?w := ?v AND NOT ?m])
           else ClearBit_loop ?bs n ?w (mem[?bs ! n + ?w := ?v AND NOT ?m])) = Some mem1"
      "levels mem1 ?bs ?es (Suc n) (T - ?R)" "only_levels ?bs ?es (Suc n) mem mem1" by blast
    have "card (T - ?R) = card T - unat count"
      using True by (subst card_Diff_subset) auto
    moreover have "unat count \<le> card T" using card_mono [OF bitmap_ok_finite(2) [OF ok] True] by simp
    ultimately have "unat (m_num_bits bm - count) = card (T - ?R)" using b(3) by (simp add: unat_sub word_le_nat_alt)
    then show ?thesis using True all m b n
      by (simp add: un bitmap_ok_def bitmap_places only_levels_def del: levels.simps)
  next
    case False
    then show ?thesis using all by (simp add: un)
  qed
qed

section \<open>Searching\<close>

text \<open>The set that a level holds, counted from the top.\<close>

lemma levels_nth:
  "levels mem bs es n T \<Longrightarrow> d < n \<Longrightarrow> holds_bits mem (bs ! d) (es ! d) ((parents ^^ (n - Suc d)) T)"
proof (induction n arbitrary: T)
  case (Suc n)
  show ?case
  proof (cases "d = n")
    case False
    then have "Suc n - Suc d = Suc (n - Suc d)" using Suc.prems(2) by simp
    then show ?thesis using Suc False by (simp add: funpow_swap1)
  qed (use Suc.prems in simp)
qed simp

lemma FindFreeBlock_loop_finds:
  assumes ok: "bitmap_ok mem bm T"
  shows "depth < m_used_depths bm \<Longrightarrow> offset \<in> parents ((parents ^^ (m_used_depths bm - Suc depth)) T) \<Longrightarrow>
    \<exists>x g1. FindFreeBlock_loop random bm depth offset mem g = Some (Some x, g1) \<and> x \<in> T"
proof (induction "m_used_depths bm - depth" arbitrary: depth offset g)
  case (Suc k)
  let ?T = "(parents ^^ (m_used_depths bm - Suc depth)) T"
  let ?b = "m_bit_storages bm ! depth" and ?e = "m_end_storages bm ! depth"
  have h: "holds_bits mem ?b ?e ?T" using levels_nth ok Suc.prems(1) by (simp add: bitmap_ok_def)
  have off: "offset < ?e - ?b"
    using Suc.prems(2) h by (auto simp: parents_def holds_bits_def less_mult_imp_div_less mult.commute)
  then have at: "word_at mem (?b + offset) = Some (mem ! (?b + offset))"
    using h unfolding holds_bits_def word_at_def by auto
  have v: "mem ! (?b + offset) \<noteq> 0" using holds_bits_zero [OF h off] Suc.prems(2) by simp
  obtain which g1 where s: "(if random then SelectRandomBit (mem ! (?b + offset)) g else (countr_zero (mem ! (?b + offset)), g)) = (which, g1)"
    by (metis surj_pair)
  then have which: "bit (mem ! (?b + offset)) which" "which < 64"
    using SelectRandomBit_bit [OF v, of g] countr_zero_bit [OF v] by (auto split: if_splits)
  then have x: "offset * 64 + which \<in> ?T" using holds_bits_word [OF h off] by simp
  have step: "FindFreeBlock_loop random bm depth offset mem g =
      (if depth + 1 < m_used_depths bm then FindFreeBlock_loop random bm (depth + 1) (offset * 64 + which) mem g1
       else Some (Some (offset * 64 + which), g1))"
    by (subst FindFreeBlock_loop.simps) (simp only: at v s bind.simps if_False Let_def prod.case)
  show ?case
  proof (cases "depth + 1 < m_used_depths bm")
    case True
    then have "m_used_depths bm - Suc depth = Suc (m_used_depths bm - Suc (Suc depth))" by simp
    then have "offset * 64 + which \<in> parents ((parents ^^ (m_used_depths bm - Suc (depth + 1))) T)" using x by simp
    moreover have "k = m_used_depths bm - (depth + 1)" using Suc.hyps(2) by simp
    ultimately show ?thesis unfolding step using True Suc.hyps(1) [of "depth + 1"] by auto
  next
    case False
    then have "m_used_depths bm - Suc depth = 0" by simp
    then show ?thesis using x False by (simp add: step)
  qed
qed simp

lemma parents_empty: "(parents ^^ n) {} = {}"
  by (induction n) (simp_all add: parents_def)

lemma parents_nonempty: "T \<noteq> {} \<Longrightarrow> (parents ^^ n) T \<noteq> {}"
  by (induction n) (simp_all add: parents_def)

text \<open>The search finds a member of the set whenever there is one, also where the bits are chosen at random.\<close>

lemma FindFreeBlock_ok:
  assumes ok: "bitmap_ok mem bm T"
  shows "if T = {} then FindFreeBlock random mem bm = Some (None, bm)
    else \<exists>x bm1. FindFreeBlock random mem bm = Some (Some x, bm1) \<and> x \<in> T \<and> bitmap_ok mem bm1 T \<and> same_place bm bm1 \<and> m_num_bits bm1 = m_num_bits bm"
proof -
  obtain n where n: "m_used_depths bm = Suc n" using bitmap_ok_depth [OF ok] .
  let ?T = "(parents ^^ (m_used_depths bm - Suc 0)) T"
  have h: "holds_bits mem (m_bit_storages bm ! 0) (m_end_storages bm ! 0) ?T" using levels_nth ok by (simp add: bitmap_ok_def)
  have one: "m_end_storages bm ! 0 = m_bit_storages bm ! 0 + 1" using ok by (simp add: bitmap_ok_def layout_def)
  have at: "word_at mem (m_bit_storages bm ! 0) = Some (mem ! (m_bit_storages bm ! 0))"
    using h one by (simp add: holds_bits_def word_at_def)
  show ?thesis
  proof (cases "T = {}")
    case True
    then have "?T = {}" by (simp add: parents_empty)
    then have "mem ! (m_bit_storages bm ! 0) = 0" using holds_bits_zero [OF h, of 0] one by (simp add: parents_def)
    then show ?thesis using True at by (subst FindFreeBlock_def, subst FindFreeBlock_loop.simps) simp
  next
    case False
    then obtain y where y: "y \<in> ?T" using parents_nonempty by blast
    then have "y < 64" using h one by (auto simp: holds_bits_def)
    then have "0 \<in> parents ?T" using y by (auto simp: parents_def image_def intro!: bexI [of _ y])
    then obtain x g1 where "FindFreeBlock_loop random bm 0 0 mem (bitmap_rng bm) = Some (Some x, g1)" "x \<in> T"
      using FindFreeBlock_loop_finds [OF ok, of 0 0 random "bitmap_rng bm"] n by auto
    then show ?thesis using False ok by (simp add: FindFreeBlock_def same_place_def bitmap_ok_def)
  qed
qed

section \<open>Setting up a bitmap\<close>

definition words_for :: "nat \<Rightarrow> nat" where
  "words_for n = (n + 63) div 64"

lemma words_for_carry: "0 < n mod 64 \<Longrightarrow> words_for n = Suc (n div 64)"
proof -
  have "(n + 63) div 64 = Suc q" if "q * 64 + r = n" "0 < r" "r < 64" for q r
    using that by (intro div_nat_eqI) simp_all
  then show "0 < n mod 64 \<Longrightarrow> words_for n = Suc (n div 64)"
    unfolding words_for_def by (metis div_mult_mod_eq mod_less_divisor zero_less_numeral)
qed

lemma AlignUp_words: "unat sz + 63 < 2 ^ 64 \<Longrightarrow> unat (AlignUp sz 64 div 64) = words_for (unat sz)"
proof -
  assume b: "unat sz + 63 < 2 ^ 64"
  have d: "unat (sz - sz mod 64) = unat sz - unat sz mod 64"
    by (simp add: unat_sub word_le_nat_alt unat_mod)
  have m: "unat sz = unat sz div 64 * 64 + unat sz mod 64" by simp
  show ?thesis
  proof (cases "sz mod 64 = 0")
    case True
    then have "unat sz mod 64 = 0" by (metis unat_mod unat_numeral_64 unat_0)
    then show ?thesis using True m d by (simp add: AlignUp_def words_for_def unat_div)
  next
    case False
    then have z: "0 < unat sz mod 64" by (metis unat_mod unat_numeral_64 unat_eq_zero gr0I)
    have "unat (sz - sz mod 64 + 64) = (unat sz - unat sz mod 64 + 64) mod 2 ^ 64"
      by (simp add: unat_word_ariths d)
    also have "\<dots> = unat sz - unat sz mod 64 + 64" using b z by (intro mod_less) linarith
    finally have "unat (AlignUp sz 64 div 64) = (unat sz div 64 * 64 + 64) div 64"
      using False by (simp add: AlignUp_def unat_div minus_mod_eq_div_mult)
    also have "\<dots> = words_for (unat sz)" using z by (simp add: words_for_carry)
    finally show ?thesis .
  qed
qed

lemma words_for_bounds: "n \<le> 64 * words_for n" "64 * words_for n \<le> n + 63" "0 < n \<Longrightarrow> 0 < words_for n"
  unfolding words_for_def by linarith+

lemma GetRequiredDepth_bound: "unat sz < 64 ^ GetRequiredDepth sz"
proof (induction sz rule: GetRequiredDepth.induct)
  case (1 sz)
  show ?case
  proof (cases "sz div 64 = 0")
    case True
    then have "unat sz div 64 = 0" by (metis unat_div unat_eq_zero unat_numeral_64)
    then show ?thesis using True by (subst GetRequiredDepth.simps) simp
  next
    case False
    then have "unat sz div 64 < 64 ^ GetRequiredDepth (sz div 64)" using 1 by (simp add: unat_div)
    then show ?thesis using False by (subst GetRequiredDepth.simps) (simp add: div_less_iff_less_mult mult.commute)
  qed
qed

lemma Bitmap_Initialize_loop_layout:
  assumes "Bitmap_Initialize_loop n storage sz bm = (e, bm1)" "n \<le> length (m_bit_storages bm)" "n \<le> length (m_end_storages bm)"
    "0 < n" "0 < unat sz" "unat sz \<le> 64 ^ n" "unat sz + 63 < 2 ^ 64"
  shows "layout (m_bit_storages bm1) (m_end_storages bm1) n \<and> m_bit_storages bm1 ! (n - 1) = storage \<and>
    m_end_storages bm1 ! (n - 1) = storage + words_for (unat sz) \<and> e = m_end_storages bm1 ! 0 \<and>
    (\<forall>d \<ge> n. m_bit_storages bm1 ! d = m_bit_storages bm ! d \<and> m_end_storages bm1 ! d = m_end_storages bm ! d) \<and>
    m_used_depths bm1 = m_used_depths bm \<and> m_num_bits bm1 = m_num_bits bm"
  using assms
proof (induction n arbitrary: storage sz bm)
  case (Suc n)
  let ?sz = "AlignUp sz 64 div 64" and ?bm = "bm\<lparr> m_bit_storages := (m_bit_storages bm)[n := storage],
     m_end_storages := (m_end_storages bm)[n := storage + unat (AlignUp sz 64 div 64)] \<rparr>"
  have w: "unat ?sz = words_for (unat sz)" by (rule AlignUp_words [OF Suc.prems(7)])
  note wb = words_for_bounds [of "unat sz"]
  have len: "n < length (m_bit_storages bm)" "n < length (m_end_storages bm)" using Suc.prems(2,3) by simp_all
  have rec: "Bitmap_Initialize_loop n (storage + unat ?sz) ?sz ?bm = (e, bm1)" using Suc.prems(1) by (simp add: Let_def)
  show ?case
  proof (cases "n = 0")
    case True
    then have "words_for (unat sz) = 1" using Suc.prems(5,6) wb by (simp add: words_for_def)
    then show ?thesis using True rec len w by (auto simp: layout_def nth_list_update)
  next
    case False
    then have 64: "unat ?sz \<le> 64 ^ n" using Suc.prems(6) wb(2) w by (simp add: words_for_def less_mult_imp_div_less)
    have "unat ?sz + 63 < 2 ^ 64" using Suc.prems(7) wb(2) w by linarith
    from Suc.IH [OF rec _ _ _ _ 64 this] False Suc.prems(2,3,5) wb(3) w
    have IH: "layout (m_bit_storages bm1) (m_end_storages bm1) n" "m_bit_storages bm1 ! (n - 1) = storage + unat ?sz"
      "m_end_storages bm1 ! (n - 1) = storage + unat ?sz + words_for (unat ?sz)" "e = m_end_storages bm1 ! 0"
      "\<forall>d \<ge> n. m_bit_storages bm1 ! d = m_bit_storages ?bm ! d \<and> m_end_storages bm1 ! d = m_end_storages ?bm ! d"
      "m_used_depths bm1 = m_used_depths bm" "m_num_bits bm1 = m_num_bits bm" by auto
    have n: "m_bit_storages bm1 ! n = storage" "m_end_storages bm1 ! n = storage + unat ?sz"
      using IH(5) [rule_format, of n] Suc.prems(2,3) by simp_all
    have "layout (m_bit_storages bm1) (m_end_storages bm1) (Suc n)"
      unfolding layout_def
    proof (intro conjI allI impI)
      show "m_bit_storages bm1 ! d < m_end_storages bm1 ! d" if "d < Suc n" for d
        using that IH(1) n w wb(3) Suc.prems(5) by (cases "d = n") (auto simp: layout_def)
      show "m_end_storages bm1 ! 0 = m_bit_storages bm1 ! 0 + 1" using IH(1) by (simp add: layout_def)
      fix d
      assume "Suc d < Suc n"
      then show "m_end_storages bm1 ! Suc d = m_bit_storages bm1 ! d"
        using IH(1-3) n by (cases "Suc d = n") (auto simp: layout_def)
      show "m_end_storages bm1 ! Suc d - m_bit_storages bm1 ! Suc d \<le> 64 * (m_end_storages bm1 ! d - m_bit_storages bm1 ! d)"
      proof (cases "Suc d = n")
        case True
        then show ?thesis using IH(2,3) n words_for_bounds(1) [of "unat ?sz"] by auto
      next
        case False
        then have "Suc d < n" using \<open>Suc d < Suc n\<close> by simp
        then show ?thesis using IH(1) unfolding layout_def by blast
      qed
    qed
    then show ?thesis using n w IH by auto
  qed
qed simp

lemma levels_zero:
  assumes "layout bs es n" "es ! 0 \<le> length mem" "\<And>p. bs ! (n - 1) \<le> p \<Longrightarrow> p < es ! 0 \<Longrightarrow> mem ! p = 0"
  shows "levels mem bs es n {}"
  using assms
proof (induction n)
  case (Suc n)
  have o: "bs ! n \<le> bs ! d \<and> es ! d \<le> es ! 0" if "d \<le> n" for d using layout_order [OF Suc.prems(1) that] .
  have lt: "bs ! n < es ! n" using Suc.prems(1) by (simp add: layout_def)
  have "mem ! (bs ! n + i div 64) = 0" if "i < 64 * (es ! n - bs ! n)" for i
    using Suc.prems(3) o [of n] less_mult_imp_div_less [of i "es ! n - bs ! n" 64] that by (simp add: mult.commute less_diff_conv)
  then have "holds_bits mem (bs ! n) (es ! n) {}" using lt o [of n] Suc.prems(2) by (simp add: holds_bits_def)
  moreover have "levels mem bs es n {}"
  proof (cases n)
    case (Suc m)
    then show ?thesis using Suc.IH Suc.prems layout_Suc o [of m] by force
  qed simp
  ultimately show ?case by (simp add: parents_def)
qed simp

lemma Bitmap_Initialize_ok:
  assumes "GetRequiredDepth sz \<le> MaxDepth" "0 < unat sz" "length (m_bit_storages bm) = MaxDepth" "length (m_end_storages bm) = MaxDepth"
  shows "\<exists>e bm1. Bitmap_Initialize storage sz bm = Some (e, bm1) \<and> bitmap_start bm1 = storage \<and> bitmap_end bm1 = e \<and>
    unat sz \<le> bitmap_bits bm1 \<and>
    (\<forall>mem. e \<le> length mem \<longrightarrow> (\<forall>p. storage \<le> p \<and> p < e \<longrightarrow> mem ! p = 0) \<longrightarrow> bitmap_ok mem bm1 {})"
proof -
  let ?n = "GetRequiredDepth sz" and ?bm = "bm\<lparr> m_num_bits := 0, m_used_depths := GetRequiredDepth sz \<rparr>"
  obtain e bm1 where l: "Bitmap_Initialize_loop ?n storage sz ?bm = (e, bm1)" by (metis surj_pair)
  have n: "0 < ?n" by (subst GetRequiredDepth.simps) simp
  have lt: "unat sz < 64 ^ ?n" by (rule GetRequiredDepth_bound)
  moreover have "(64 :: nat) ^ ?n \<le> 64 ^ 4" using assms(1) by (intro power_increasing) (auto simp: MaxDepth_def)
  ultimately have "unat sz + 63 < 2 ^ 64" by simp
  from Bitmap_Initialize_loop_layout [OF l _ _ n assms(2) less_imp_le [OF lt] this] assms(1,3,4)
  have b: "layout (m_bit_storages bm1) (m_end_storages bm1) ?n" "m_bit_storages bm1 ! (?n - 1) = storage"
    "m_end_storages bm1 ! (?n - 1) = storage + words_for (unat sz)" "e = m_end_storages bm1 ! 0"
    "m_used_depths bm1 = ?n" "m_num_bits bm1 = 0" by simp_all
  have "bitmap_ok mem bm1 {}" if "e \<le> length mem" "\<forall>p. storage \<le> p \<and> p < e \<longrightarrow> mem ! p = 0" for mem
    using levels_zero [OF b(1), of mem] that b n by (simp add: bitmap_ok_def)
  then show ?thesis
    using l b assms(1) words_for_bounds(1) [of "unat sz"]
    by (simp add: Bitmap_Initialize_def bitmap_start_def bitmap_end_def bitmap_bits_def)
qed

end
