(* ===== verification/DmntCheatTypes.thy ===== *)
theory DmntCheatTypes
  imports Prelude
begin

text \<open>
  Data of the cheat virtual machine: \<^verbatim>\<open>core/memory/dmnt_cheat_types.h\<close> and the
  enumerations, opcode structs and machine state of \<^verbatim>\<open>core/memory/dmnt_cheat_vm.h\<close>.
  Enumerations have an extra \<open>..._Other\<close> constructor for the field values of an
  instruction word that name no enumerator, since the decoder casts four-bit fields
  without a check. Opcode structs are the constructors of one variant, their fields
  positional in the order of the struct. A \<^verbatim>\<open>VmInt\<close> union is its 64 bits of storage.
\<close>

unbundle bit_operations_syntax

section \<open>Enumerations\<close>

datatype MemoryAccessType = MainNso | Heap | Alias | Aslr | MemoryAccessType_Other u32

definition to_MemoryAccessType :: "u32 \<Rightarrow> MemoryAccessType" where
  "to_MemoryAccessType n =
     (if n = 0 then MainNso else if n = 1 then Heap else if n = 2 then Alias
      else if n = 3 then Aslr else MemoryAccessType_Other n)"

primrec of_MemoryAccessType :: "MemoryAccessType \<Rightarrow> u32" where
  "of_MemoryAccessType MainNso = 0"
| "of_MemoryAccessType Heap = 1"
| "of_MemoryAccessType Alias = 2"
| "of_MemoryAccessType Aslr = 3"
| "of_MemoryAccessType (MemoryAccessType_Other n) = n"

datatype ConditionalComparisonType = GT | GE | LT | LE | EQ | NE | ConditionalComparisonType_Other u32

definition to_ConditionalComparisonType :: "u32 \<Rightarrow> ConditionalComparisonType" where
  "to_ConditionalComparisonType n =
     (if n = 1 then GT else if n = 2 then GE else if n = 3 then LT else if n = 4 then LE
      else if n = 5 then EQ else if n = 6 then NE else ConditionalComparisonType_Other n)"

primrec of_ConditionalComparisonType :: "ConditionalComparisonType \<Rightarrow> u32" where
  "of_ConditionalComparisonType GT = 1"
| "of_ConditionalComparisonType GE = 2"
| "of_ConditionalComparisonType LT = 3"
| "of_ConditionalComparisonType LE = 4"
| "of_ConditionalComparisonType EQ = 5"
| "of_ConditionalComparisonType NE = 6"
| "of_ConditionalComparisonType (ConditionalComparisonType_Other n) = n"

datatype RegisterArithmeticType =
    Addition | Subtraction | Multiplication | LeftShift | RightShift
  | LogicalAnd | LogicalOr | LogicalNot | LogicalXor | Arithmetic_None
  | RegisterArithmeticType_Other u32

definition to_RegisterArithmeticType :: "u32 \<Rightarrow> RegisterArithmeticType" where
  "to_RegisterArithmeticType n =
     (if n = 0 then Addition else if n = 1 then Subtraction else if n = 2 then Multiplication
      else if n = 3 then LeftShift else if n = 4 then RightShift else if n = 5 then LogicalAnd
      else if n = 6 then LogicalOr else if n = 7 then LogicalNot else if n = 8 then LogicalXor
      else if n = 9 then Arithmetic_None else RegisterArithmeticType_Other n)"

primrec of_RegisterArithmeticType :: "RegisterArithmeticType \<Rightarrow> u32" where
  "of_RegisterArithmeticType Addition = 0"
| "of_RegisterArithmeticType Subtraction = 1"
| "of_RegisterArithmeticType Multiplication = 2"
| "of_RegisterArithmeticType LeftShift = 3"
| "of_RegisterArithmeticType RightShift = 4"
| "of_RegisterArithmeticType LogicalAnd = 5"
| "of_RegisterArithmeticType LogicalOr = 6"
| "of_RegisterArithmeticType LogicalNot = 7"
| "of_RegisterArithmeticType LogicalXor = 8"
| "of_RegisterArithmeticType Arithmetic_None = 9"
| "of_RegisterArithmeticType (RegisterArithmeticType_Other n) = n"

text \<open>The decoder maps unnamed offset types to \<^verbatim>\<open>None\<close>, so this one has no extra case.\<close>

datatype StoreRegisterOffsetType = Offset_None | Offset_Reg | Offset_Imm | MemReg | MemImm | MemImmReg

datatype CompareRegisterValueType =
    MemoryRelAddr | MemoryOfsReg | RegisterRelAddr | RegisterOfsReg | StaticValue | OtherRegister
  | CompareRegisterValueType_Other u32

definition to_CompareRegisterValueType :: "u32 \<Rightarrow> CompareRegisterValueType" where
  "to_CompareRegisterValueType n =
     (if n = 0 then MemoryRelAddr else if n = 1 then MemoryOfsReg else if n = 2 then RegisterRelAddr
      else if n = 3 then RegisterOfsReg else if n = 4 then StaticValue
      else if n = 5 then OtherRegister else CompareRegisterValueType_Other n)"

datatype SaveRestoreRegisterOpType =
    Restore | Save | ClearSaved | ClearRegs | SaveRestoreRegisterOpType_Other u32

definition to_SaveRestoreRegisterOpType :: "u32 \<Rightarrow> SaveRestoreRegisterOpType" where
  "to_SaveRestoreRegisterOpType n =
     (if n = 0 then Restore else if n = 1 then Save else if n = 2 then ClearSaved
      else if n = 3 then ClearRegs else SaveRestoreRegisterOpType_Other n)"

primrec of_SaveRestoreRegisterOpType :: "SaveRestoreRegisterOpType \<Rightarrow> u32" where
  "of_SaveRestoreRegisterOpType Restore = 0"
| "of_SaveRestoreRegisterOpType Save = 1"
| "of_SaveRestoreRegisterOpType ClearSaved = 2"
| "of_SaveRestoreRegisterOpType ClearRegs = 3"
| "of_SaveRestoreRegisterOpType (SaveRestoreRegisterOpType_Other n) = n"

datatype DebugLogValueType =
    Log_MemoryRelAddr | Log_MemoryOfsReg | Log_RegisterRelAddr | Log_RegisterOfsReg
  | Log_RegisterValue | DebugLogValueType_Other u32

definition to_DebugLogValueType :: "u32 \<Rightarrow> DebugLogValueType" where
  "to_DebugLogValueType n =
     (if n = 0 then Log_MemoryRelAddr else if n = 1 then Log_MemoryOfsReg
      else if n = 2 then Log_RegisterRelAddr else if n = 3 then Log_RegisterOfsReg
      else if n = 4 then Log_RegisterValue else DebugLogValueType_Other n)"

primrec of_DebugLogValueType :: "DebugLogValueType \<Rightarrow> u32" where
  "of_DebugLogValueType Log_MemoryRelAddr = 0"
| "of_DebugLogValueType Log_MemoryOfsReg = 1"
| "of_DebugLogValueType Log_RegisterRelAddr = 2"
| "of_DebugLogValueType Log_RegisterOfsReg = 3"
| "of_DebugLogValueType Log_RegisterValue = 4"
| "of_DebugLogValueType (DebugLogValueType_Other n) = n"

section \<open>Opcodes\<close>

type_synonym VmInt = u64

datatype CheatVmOpcode =
    \<comment> \<open>bit width, memory type, offset register, relative address, value\<close>
    StoreStaticOpcode u32 MemoryAccessType u32 u64 VmInt
    \<comment> \<open>bit width, memory type, condition, relative address, value\<close>
  | BeginConditionalOpcode u32 MemoryAccessType ConditionalComparisonType u64 VmInt
    \<comment> \<open>is else\<close>
  | EndConditionalOpcode bool
    \<comment> \<open>start loop, register, iterations\<close>
  | ControlLoopOpcode bool u32 u32
    \<comment> \<open>register, value\<close>
  | LoadRegisterStaticOpcode u32 u64
    \<comment> \<open>bit width, memory type, register, load from register, relative address\<close>
  | LoadRegisterMemoryOpcode u32 MemoryAccessType u32 bool u64
    \<comment> \<open>bit width, register, increment register, add offset register, offset register, value\<close>
  | StoreStaticToAddressOpcode u32 u32 bool bool u32 u64
    \<comment> \<open>bit width, register, operation, value\<close>
  | PerformArithmeticStaticOpcode u32 u32 RegisterArithmeticType u32
    \<comment> \<open>key mask\<close>
  | BeginKeypressConditionalOpcode u32
    \<comment> \<open>bit width, operation, destination, source 1, source 2, has immediate, value\<close>
  | PerformArithmeticRegisterOpcode u32 RegisterArithmeticType u32 u32 u32 bool VmInt
    \<comment> \<open>bit width, stored register, address register, increment, offset type, memory type,
        offset register, relative address\<close>
  | StoreRegisterToAddressOpcode u32 u32 u32 bool StoreRegisterOffsetType MemoryAccessType u32 u64
    \<comment> \<open>bit width, condition, value register, operand type, memory type, address register,
        other register, offset register, relative address, value\<close>
  | BeginRegisterConditionalOpcode u32 ConditionalComparisonType u32 CompareRegisterValueType
      MemoryAccessType u32 u32 u32 u64 VmInt
    \<comment> \<open>destination, source, operation\<close>
  | SaveRestoreRegisterOpcode u32 u32 SaveRestoreRegisterOpType
    \<comment> \<open>operation, which registers\<close>
  | SaveRestoreRegisterMaskOpcode SaveRestoreRegisterOpType "bool list"
    \<comment> \<open>static register, register\<close>
  | ReadWriteStaticRegisterOpcode u32 u32
  | PauseProcessOpcode
  | ResumeProcessOpcode
    \<comment> \<open>bit width, log id, value type, memory type, address register, value register,
        offset register, relative address\<close>
  | DebugLogOpcode u32 u32 DebugLogValueType MemoryAccessType u32 u32 u32 u64
    \<comment> \<open>opcode type\<close>
  | UnrecognizedInstruction u32

section \<open>Process metadata and cheat entries\<close>

record MemoryRegionExtents =
  base :: u64
  ext_size :: u64

record CheatProcessMetadata =
  process_id :: u64
  title_id :: u64
  main_nso_extents :: MemoryRegionExtents
  heap_extents :: MemoryRegionExtents
  alias_extents :: MemoryRegionExtents
  aslr_extents :: MemoryRegionExtents
  main_nso_build_id :: "u8 list"

record CheatDefinition =
  readable_name :: string
  def_num_opcodes :: u32
  opcodes :: "u32 list"

record CheatEntry =
  enabled :: bool
  cheat_id :: u32
  cheat_def :: CheatDefinition

section \<open>The virtual machine\<close>

definition MaximumProgramOpcodeCount :: nat where
  "MaximumProgramOpcodeCount = 0x400"

definition NumRegisters :: nat where
  "NumRegisters = 0x10"

definition NumReadableStaticRegisters :: nat where
  "NumReadableStaticRegisters = 0x80"

definition NumWritableStaticRegisters :: nat where
  "NumWritableStaticRegisters = 0x80"

definition NumStaticRegisters :: nat where
  "NumStaticRegisters = NumReadableStaticRegisters + NumWritableStaticRegisters"

text \<open>The callback interface, over the state \<open>'e\<close> of whatever implements it.\<close>

record 'e Callbacks =
  MemoryReadUnsafe :: "u64 \<Rightarrow> nat \<Rightarrow> 'e \<Rightarrow> u8 list \<times> 'e"
  MemoryWriteUnsafe :: "u64 \<Rightarrow> u8 list \<Rightarrow> 'e \<Rightarrow> 'e"
  HidKeysDown :: "'e \<Rightarrow> u64 \<times> 'e"
  PauseProcess :: "'e \<Rightarrow> 'e"
  ResumeProcess :: "'e \<Rightarrow> 'e"
  DebugLog :: "u8 \<Rightarrow> u64 \<Rightarrow> 'e \<Rightarrow> 'e"
  CommandLog :: "string \<Rightarrow> 'e \<Rightarrow> 'e"

text \<open>The members of \<^verbatim>\<open>DmntCheatVm\<close>, with the callbacks' state as \<open>env\<close>.\<close>

record 'e DmntCheatVm =
  num_opcodes :: nat
  instruction_ptr :: nat
  condition_depth :: nat
  decode_success :: bool
  program :: "u32 list"
  registers :: "u64 list"
  saved_values :: "u64 list"
  static_registers :: "u64 list"
  loop_tops :: "nat list"
  env :: 'e

definition DmntCheatVm_ctor :: "'e \<Rightarrow> 'e DmntCheatVm" where
  "DmntCheatVm_ctor e =
     \<lparr> num_opcodes = 0, instruction_ptr = 0, condition_depth = 0, decode_success = False,
       program = replicate MaximumProgramOpcodeCount 0, registers = replicate NumRegisters 0,
       saved_values = replicate NumRegisters 0,
       static_registers = replicate NumStaticRegisters 0,
       loop_tops = replicate NumRegisters 0, env = e \<rparr>"

text \<open>The arrays have their sizes and the program length is within its array.\<close>

definition vm_wf :: "'e DmntCheatVm \<Rightarrow> bool" where
  "vm_wf v \<longleftrightarrow>
     length (program v) = MaximumProgramOpcodeCount \<and> num_opcodes v \<le> MaximumProgramOpcodeCount \<and>
     length (registers v) = NumRegisters \<and> length (saved_values v) = NumRegisters \<and>
     length (static_registers v) = NumStaticRegisters \<and> length (loop_tops v) = NumRegisters"

lemmas vm_size_defs = MaximumProgramOpcodeCount_def NumRegisters_def NumReadableStaticRegisters_def
  NumWritableStaticRegisters_def NumStaticRegisters_def

lemma vm_wf_ctor: "vm_wf (DmntCheatVm_ctor e)"
  by (simp add: vm_wf_def DmntCheatVm_ctor_def)

lemma MemoryAccessType_roundtrip: "of_MemoryAccessType (to_MemoryAccessType n) = n"
  by (simp add: to_MemoryAccessType_def)

lemma ConditionalComparisonType_roundtrip:
  "of_ConditionalComparisonType (to_ConditionalComparisonType n) = n"
  by (simp add: to_ConditionalComparisonType_def)

lemma RegisterArithmeticType_roundtrip: "of_RegisterArithmeticType (to_RegisterArithmeticType n) = n"
  by (simp add: to_RegisterArithmeticType_def)

end
