(* ===== verification/DmntCheatDecode.thy ===== *)
theory DmntCheatDecode
  imports DmntCheatTypes
begin

text \<open>
  The instruction decoder, \<^verbatim>\<open>DmntCheatVm::DecodeNextOpcode\<close>, one definition per case of
  its switch, and \<^verbatim>\<open>SkipConditionalBlock\<close>. The decoder's local \<^verbatim>\<open>valid\<close> and the
  instruction pointer travel in a \<open>reader\<close>. Where the source joins two calls of
  \<^verbatim>\<open>GetNextDword\<close> with \<^verbatim>\<open>|\<close>, the left call comes first, which is the order the opcode
  formats in its comments describe.
\<close>

unbundle bit_operations_syntax

section \<open>Reading instruction words\<close>

record reader =
  r_ip :: nat
  r_valid :: bool

definition GetNextDword :: "'e DmntCheatVm \<Rightarrow> reader \<Rightarrow> u32 \<times> reader" where
  "GetNextDword v r =
     (if r_ip r \<ge> num_opcodes v then (0, r\<lparr> r_valid := False \<rparr>)
      else (program v ! r_ip r, r\<lparr> r_ip := r_ip r + 1 \<rparr>))"

definition GetNextVmInt :: "'e DmntCheatVm \<Rightarrow> u32 \<Rightarrow> reader \<Rightarrow> VmInt \<times> reader" where
  "GetNextVmInt v bit_width r =
     (let (first_dword, r1) = GetNextDword v r
      in if bit_width = 1 then (ucast (ucast first_dword :: u8), r1)
         else if bit_width = 2 then (ucast (ucast first_dword :: u16), r1)
         else if bit_width = 4 then (ucast first_dword, r1)
         else if bit_width = 8 then
           (let (second_dword, r2) = GetNextDword v r1
            in (push_bit 32 (ucast first_dword) OR ucast second_dword, r2))
         else (0, r1))"

text \<open>\<^verbatim>\<open>(w >> n) & 0xF\<close>, the nybbles the formats are written in.\<close>

definition nybble :: "nat \<Rightarrow> u32 \<Rightarrow> u32" where
  "nybble n w = drop_bit n w AND 0xF"

definition wide_address :: "u32 \<Rightarrow> u32 \<Rightarrow> u64" where
  "wide_address high low = push_bit 32 (ucast high) OR ucast low"

section \<open>The cases of the decoder\<close>

text \<open>0TMR00AA AAAAAAAA YYYYYYYY (YYYYYYYY)\<close>

definition Decode_StoreStatic :: "'e DmntCheatVm \<Rightarrow> u32 \<Rightarrow> reader \<Rightarrow> CheatVmOpcode \<times> reader" where
  "Decode_StoreStatic v first_dword r =
     (let (second_dword, r1) = GetNextDword v r;
          bit_width = nybble 24 first_dword;
          (val, r2) = GetNextVmInt v bit_width r1
      in (StoreStaticOpcode bit_width (to_MemoryAccessType (nybble 20 first_dword))
            (nybble 16 first_dword) (wide_address (first_dword AND 0xFF) second_dword) val, r2))"

text \<open>1TMC00AA AAAAAAAA YYYYYYYY (YYYYYYYY)\<close>

definition Decode_BeginConditional :: "'e DmntCheatVm \<Rightarrow> u32 \<Rightarrow> reader \<Rightarrow> CheatVmOpcode \<times> reader" where
  "Decode_BeginConditional v first_dword r =
     (let (second_dword, r1) = GetNextDword v r;
          bit_width = nybble 24 first_dword;
          (val, r2) = GetNextVmInt v bit_width r1
      in (BeginConditionalOpcode bit_width (to_MemoryAccessType (nybble 20 first_dword))
            (to_ConditionalComparisonType (nybble 16 first_dword))
            (wide_address (first_dword AND 0xFF) second_dword) val, r2))"

text \<open>20000000\<close>

definition Decode_EndConditional :: "u32 \<Rightarrow> reader \<Rightarrow> CheatVmOpcode \<times> reader" where
  "Decode_EndConditional first_dword r = (EndConditionalOpcode (nybble 24 first_dword = 1), r)"

text \<open>300R0000 VVVVVVVV and 310R0000\<close>

definition Decode_ControlLoop :: "'e DmntCheatVm \<Rightarrow> u32 \<Rightarrow> reader \<Rightarrow> CheatVmOpcode \<times> reader" where
  "Decode_ControlLoop v first_dword r =
     (let start_loop = (nybble 24 first_dword = 0); reg_index = nybble 20 first_dword
      in if start_loop then
           (let (num_iters, r1) = GetNextDword v r
            in (ControlLoopOpcode start_loop reg_index num_iters, r1))
         else (ControlLoopOpcode start_loop reg_index 0, r))"

text \<open>400R0000 VVVVVVVV VVVVVVVV\<close>

definition Decode_LoadRegisterStatic :: "'e DmntCheatVm \<Rightarrow> u32 \<Rightarrow> reader \<Rightarrow> CheatVmOpcode \<times> reader" where
  "Decode_LoadRegisterStatic v first_dword r =
     (let (high, r1) = GetNextDword v r; (low, r2) = GetNextDword v r1
      in (LoadRegisterStaticOpcode (nybble 16 first_dword) (wide_address high low), r2))"

text \<open>5TMRI0AA AAAAAAAA\<close>

definition Decode_LoadRegisterMemory :: "'e DmntCheatVm \<Rightarrow> u32 \<Rightarrow> reader \<Rightarrow> CheatVmOpcode \<times> reader" where
  "Decode_LoadRegisterMemory v first_dword r =
     (let (second_dword, r1) = GetNextDword v r
      in (LoadRegisterMemoryOpcode (nybble 24 first_dword)
            (to_MemoryAccessType (nybble 20 first_dword)) (nybble 16 first_dword)
            (nybble 12 first_dword \<noteq> 0) (wide_address (first_dword AND 0xFF) second_dword), r1))"

text \<open>6T0RIor0 VVVVVVVV VVVVVVVV\<close>

definition Decode_StoreStaticToAddress :: "'e DmntCheatVm \<Rightarrow> u32 \<Rightarrow> reader \<Rightarrow> CheatVmOpcode \<times> reader" where
  "Decode_StoreStaticToAddress v first_dword r =
     (let (high, r1) = GetNextDword v r; (low, r2) = GetNextDword v r1
      in (StoreStaticToAddressOpcode (nybble 24 first_dword) (nybble 16 first_dword)
            (nybble 12 first_dword \<noteq> 0) (nybble 8 first_dword \<noteq> 0) (nybble 4 first_dword)
            (wide_address high low), r2))"

text \<open>7T0RC000 VVVVVVVV\<close>

definition Decode_PerformArithmeticStatic :: "'e DmntCheatVm \<Rightarrow> u32 \<Rightarrow> reader \<Rightarrow> CheatVmOpcode \<times> reader" where
  "Decode_PerformArithmeticStatic v first_dword r =
     (let (val, r1) = GetNextDword v r
      in (PerformArithmeticStaticOpcode (nybble 24 first_dword) (nybble 16 first_dword)
            (to_RegisterArithmeticType (nybble 12 first_dword)) val, r1))"

text \<open>8kkkkkkk\<close>

definition Decode_BeginKeypressConditional :: "u32 \<Rightarrow> reader \<Rightarrow> CheatVmOpcode \<times> reader" where
  "Decode_BeginKeypressConditional first_dword r =
     (BeginKeypressConditionalOpcode (first_dword AND 0x0FFFFFFF), r)"

text \<open>9TCRSIs0 (VVVVVVVV (VVVVVVVV))\<close>

definition Decode_PerformArithmeticRegister :: "'e DmntCheatVm \<Rightarrow> u32 \<Rightarrow> reader \<Rightarrow> CheatVmOpcode \<times> reader" where
  "Decode_PerformArithmeticRegister v first_dword r =
     (let bit_width = nybble 24 first_dword;
          math_type = to_RegisterArithmeticType (nybble 20 first_dword);
          dst = nybble 16 first_dword;
          src1 = nybble 12 first_dword;
          has_immediate = (nybble 8 first_dword \<noteq> 0)
      in if has_immediate then
           (let (val, r1) = GetNextVmInt v bit_width r
            in (PerformArithmeticRegisterOpcode bit_width math_type dst src1 0 has_immediate val, r1))
         else
           (PerformArithmeticRegisterOpcode bit_width math_type dst src1 (nybble 4 first_dword)
              has_immediate 0, r))"

text \<open>ATSRIOxa (aaaaaaaa)\<close>

definition Decode_StoreRegisterToAddress :: "'e DmntCheatVm \<Rightarrow> u32 \<Rightarrow> reader \<Rightarrow> CheatVmOpcode \<times> reader" where
  "Decode_StoreRegisterToAddress v first_dword r =
     (let mk = StoreRegisterToAddressOpcode (nybble 24 first_dword) (nybble 20 first_dword)
                 (nybble 16 first_dword) (nybble 12 first_dword \<noteq> 0);
          ofs_type = nybble 8 first_dword;
          ofs_reg_index = nybble 4 first_dword;
          mem_type = to_MemoryAccessType (nybble 4 first_dword)
      in if ofs_type = 0 then (mk Offset_None MainNso ofs_reg_index 0, r)
         else if ofs_type = 1 then (mk Offset_Reg MainNso ofs_reg_index 0, r)
         else if ofs_type = 2 then
           (let (low, r1) = GetNextDword v r
            in (mk Offset_Imm MainNso ofs_reg_index (wide_address (first_dword AND 0xF) low), r1))
         else if ofs_type = 3 then (mk MemReg mem_type ofs_reg_index 0, r)
         else if ofs_type = 4 \<or> ofs_type = 5 then
           (let (low, r1) = GetNextDword v r
            in (mk (if ofs_type = 4 then MemImm else MemImmReg) mem_type ofs_reg_index
                  (wide_address (first_dword AND 0xF) low), r1))
         else (mk Offset_None MainNso ofs_reg_index 0, r))"

text \<open>C0TcSX##\<close>

definition Decode_BeginRegisterConditional :: "'e DmntCheatVm \<Rightarrow> u32 \<Rightarrow> reader \<Rightarrow> CheatVmOpcode \<times> reader" where
  "Decode_BeginRegisterConditional v first_dword r =
     (let bit_width = nybble 20 first_dword;
          comp_type = to_CompareRegisterValueType (nybble 8 first_dword);
          mk = BeginRegisterConditionalOpcode bit_width
                 (to_ConditionalComparisonType (nybble 16 first_dword)) (nybble 12 first_dword) comp_type
      in case comp_type of
           StaticValue \<Rightarrow>
             (let (val, r1) = GetNextVmInt v bit_width r in (mk MainNso 0 0 0 0 val, r1))
         | OtherRegister \<Rightarrow> (mk MainNso 0 (nybble 4 first_dword) 0 0 0, r)
         | MemoryRelAddr \<Rightarrow>
             (let (low, r1) = GetNextDword v r
              in (mk (to_MemoryAccessType (nybble 4 first_dword)) 0 0 0
                    (wide_address (first_dword AND 0xF) low) 0, r1))
         | MemoryOfsReg \<Rightarrow>
             (mk (to_MemoryAccessType (nybble 4 first_dword)) 0 0 (first_dword AND 0xF) 0 0, r)
         | RegisterRelAddr \<Rightarrow>
             (let (low, r1) = GetNextDword v r
              in (mk MainNso (nybble 4 first_dword) 0 0 (wide_address (first_dword AND 0xF) low) 0, r1))
         | RegisterOfsReg \<Rightarrow> (mk MainNso (nybble 4 first_dword) 0 (first_dword AND 0xF) 0 0, r)
         | CompareRegisterValueType_Other _ \<Rightarrow> (mk MainNso 0 0 0 0 0, r))"

text \<open>C10D0Sx0\<close>

definition Decode_SaveRestoreRegister :: "u32 \<Rightarrow> reader \<Rightarrow> CheatVmOpcode \<times> reader" where
  "Decode_SaveRestoreRegister first_dword r =
     (SaveRestoreRegisterOpcode (nybble 16 first_dword) (nybble 8 first_dword)
        (to_SaveRestoreRegisterOpType (nybble 4 first_dword)), r)"

text \<open>C2x0XXXX\<close>

definition Decode_SaveRestoreRegisterMask :: "u32 \<Rightarrow> reader \<Rightarrow> CheatVmOpcode \<times> reader" where
  "Decode_SaveRestoreRegisterMask first_dword r =
     (SaveRestoreRegisterMaskOpcode (to_SaveRestoreRegisterOpType (nybble 20 first_dword))
        (map (\<lambda>i. first_dword AND push_bit i 1 \<noteq> 0) [0..<NumRegisters]), r)"

text \<open>C3000XXx\<close>

definition Decode_ReadWriteStaticRegister :: "u32 \<Rightarrow> reader \<Rightarrow> CheatVmOpcode \<times> reader" where
  "Decode_ReadWriteStaticRegister first_dword r =
     (ReadWriteStaticRegisterOpcode (drop_bit 4 first_dword AND 0xFF) (first_dword AND 0xF), r)"

text \<open>FFFTIX##\<close>

definition Decode_DebugLog :: "'e DmntCheatVm \<Rightarrow> u32 \<Rightarrow> reader \<Rightarrow> CheatVmOpcode \<times> reader" where
  "Decode_DebugLog v first_dword r =
     (let val_type = to_DebugLogValueType (nybble 8 first_dword);
          mk = DebugLogOpcode (nybble 16 first_dword) (nybble 12 first_dword) val_type
      in case val_type of
           Log_RegisterValue \<Rightarrow> (mk MainNso 0 (nybble 4 first_dword) 0 0, r)
         | Log_MemoryRelAddr \<Rightarrow>
             (let (low, r1) = GetNextDword v r
              in (mk (to_MemoryAccessType (nybble 4 first_dword)) 0 0 0
                    (wide_address (first_dword AND 0xF) low), r1))
         | Log_MemoryOfsReg \<Rightarrow>
             (mk (to_MemoryAccessType (nybble 4 first_dword)) 0 0 (first_dword AND 0xF) 0, r)
         | Log_RegisterRelAddr \<Rightarrow>
             (let (low, r1) = GetNextDword v r
              in (mk MainNso (nybble 4 first_dword) 0 0 (wide_address (first_dword AND 0xF) low), r1))
         | Log_RegisterOfsReg \<Rightarrow> (mk MainNso (nybble 4 first_dword) 0 (first_dword AND 0xF) 0, r)
         | DebugLogValueType_Other _ \<Rightarrow> (mk MainNso 0 0 0 0, r))"

section \<open>The decoder\<close>

text \<open>The opcode number: one nybble, two from 0xC on, three from 0xF0 on.\<close>

definition opcode_type :: "u32 \<Rightarrow> u32" where
  "opcode_type first_dword =
     (let t0 = nybble 28 first_dword;
          t1 = (if t0 \<ge> 12 then push_bit 4 t0 OR nybble 24 first_dword else t0)
      in if t1 \<ge> 0xF0 then push_bit 4 t1 OR nybble 20 first_dword else t1)"

definition begin_conditional_block :: "u32 \<Rightarrow> bool" where
  "begin_conditional_block t \<longleftrightarrow> t = 1 \<or> t = 8 \<or> t = 0xC0"

definition Decode_opcode :: "'e DmntCheatVm \<Rightarrow> u32 \<Rightarrow> u32 \<Rightarrow> reader \<Rightarrow> CheatVmOpcode \<times> reader" where
  "Decode_opcode v t first_dword r =
     (if t = 0 then Decode_StoreStatic v first_dword r
      else if t = 1 then Decode_BeginConditional v first_dword r
      else if t = 2 then Decode_EndConditional first_dword r
      else if t = 3 then Decode_ControlLoop v first_dword r
      else if t = 4 then Decode_LoadRegisterStatic v first_dword r
      else if t = 5 then Decode_LoadRegisterMemory v first_dword r
      else if t = 6 then Decode_StoreStaticToAddress v first_dword r
      else if t = 7 then Decode_PerformArithmeticStatic v first_dword r
      else if t = 8 then Decode_BeginKeypressConditional first_dword r
      else if t = 9 then Decode_PerformArithmeticRegister v first_dword r
      else if t = 10 then Decode_StoreRegisterToAddress v first_dword r
      else if t = 0xC0 then Decode_BeginRegisterConditional v first_dword r
      else if t = 0xC1 then Decode_SaveRestoreRegister first_dword r
      else if t = 0xC2 then Decode_SaveRestoreRegisterMask first_dword r
      else if t = 0xC3 then Decode_ReadWriteStaticRegister first_dword r
      else if t = 0xFF0 then (PauseProcessOpcode, r)
      else if t = 0xFF1 then (ResumeProcessOpcode, r)
      else if t = 0xFFF then Decode_DebugLog v first_dword r
      else (UnrecognizedInstruction t, r\<lparr> r_valid := False \<rparr>))"

text \<open>
  The result is the opcode and its \<^verbatim>\<open>begin_conditional_block\<close> flag, or \<open>None\<close> where
  the function returns false; the scope guard folds \<^verbatim>\<open>valid\<close> into \<^verbatim>\<open>decode_success\<close>.
\<close>

definition DecodeNextOpcode ::
  "'e DmntCheatVm \<Rightarrow> (CheatVmOpcode \<times> bool) option \<times> 'e DmntCheatVm" where
  "DecodeNextOpcode v =
     (let r0 = \<lparr> r_ip = instruction_ptr v, r_valid = decode_success v \<rparr>;
          (first_dword, r1) = GetNextDword v r0
      in if \<not> r_valid r1 then
           (None, v\<lparr> instruction_ptr := r_ip r1, decode_success := False \<rparr>)
         else
           let t = opcode_type first_dword;
               (opc, r2) = Decode_opcode v t first_dword r1;
               v' = v\<lparr> instruction_ptr := r_ip r2, decode_success := decode_success v \<and> r_valid r2 \<rparr>
           in (if r_valid r2 then Some (opc, begin_conditional_block t) else None, v'))"

section \<open>What decoding does to the machine\<close>

text \<open>The reader only moves forward, within the program, and never becomes valid again.\<close>

definition reader_step :: "'e DmntCheatVm \<Rightarrow> reader \<Rightarrow> reader \<Rightarrow> bool" where
  "reader_step v r r' \<longleftrightarrow>
     r_ip r \<le> r_ip r' \<and> (r_ip r \<le> num_opcodes v \<longrightarrow> r_ip r' \<le> num_opcodes v) \<and>
     (r_valid r' \<longrightarrow> r_valid r)"

lemma reader_step_refl [simp]: "reader_step v r r"
  by (simp add: reader_step_def)

lemma reader_step_invalid [simp]: "reader_step v r (r\<lparr> r_valid := False \<rparr>)"
  by (simp add: reader_step_def)

lemma reader_step_trans: "reader_step v r r1 \<Longrightarrow> reader_step v r1 r2 \<Longrightarrow> reader_step v r r2"
  by (auto simp: reader_step_def)

lemma GetNextDword_step: "reader_step v r (snd (GetNextDword v r))"
  by (simp add: reader_step_def GetNextDword_def)

lemma GetNextVmInt_step: "reader_step v r (snd (GetNextVmInt v w r))"
  using GetNextDword_step [of v r] GetNextDword_step [of v "snd (GetNextDword v r)"]
  by (auto simp: GetNextVmInt_def Let_def split: prod.splits intro: reader_step_trans)

lemma two_dwords_step: "reader_step v r (snd (GetNextDword v (snd (GetNextDword v r))))"
  by (rule reader_step_trans [OF GetNextDword_step GetNextDword_step])

lemma dword_vmint_step: "reader_step v r (snd (GetNextVmInt v w (snd (GetNextDword v r))))"
  by (rule reader_step_trans [OF GetNextDword_step GetNextVmInt_step])

lemmas reader_steps = GetNextDword_step GetNextVmInt_step two_dwords_step dword_vmint_step

lemmas decode_case_defs = Decode_StoreStatic_def Decode_BeginConditional_def Decode_EndConditional_def
  Decode_ControlLoop_def Decode_LoadRegisterStatic_def Decode_LoadRegisterMemory_def
  Decode_StoreStaticToAddress_def Decode_PerformArithmeticStatic_def
  Decode_BeginKeypressConditional_def Decode_PerformArithmeticRegister_def
  Decode_StoreRegisterToAddress_def Decode_BeginRegisterConditional_def
  Decode_SaveRestoreRegister_def Decode_SaveRestoreRegisterMask_def
  Decode_ReadWriteStaticRegister_def Decode_DebugLog_def

lemma decode_cases_step:
  "reader_step v r (snd (Decode_StoreStatic v w r))"
  "reader_step v r (snd (Decode_BeginConditional v w r))"
  "reader_step v r (snd (Decode_EndConditional w r))"
  "reader_step v r (snd (Decode_ControlLoop v w r))"
  "reader_step v r (snd (Decode_LoadRegisterStatic v w r))"
  "reader_step v r (snd (Decode_LoadRegisterMemory v w r))"
  "reader_step v r (snd (Decode_StoreStaticToAddress v w r))"
  "reader_step v r (snd (Decode_PerformArithmeticStatic v w r))"
  "reader_step v r (snd (Decode_BeginKeypressConditional w r))"
  "reader_step v r (snd (Decode_PerformArithmeticRegister v w r))"
  "reader_step v r (snd (Decode_StoreRegisterToAddress v w r))"
  "reader_step v r (snd (Decode_SaveRestoreRegister w r))"
  "reader_step v r (snd (Decode_SaveRestoreRegisterMask w r))"
  "reader_step v r (snd (Decode_ReadWriteStaticRegister w r))"
  by (simp_all add: decode_case_defs case_prod_unfold Let_def reader_steps)

lemma decode_operand_cases_step:
  "reader_step v r (snd (Decode_BeginRegisterConditional v w r))"
  "reader_step v r (snd (Decode_DebugLog v w r))"
  by (simp_all add: decode_case_defs case_prod_unfold Let_def reader_steps
      split: CompareRegisterValueType.split DebugLogValueType.split)

lemma Decode_opcode_step: "reader_step v r (snd (Decode_opcode v t w r))"
  unfolding Decode_opcode_def
  by (simp add: decode_cases_step decode_operand_cases_step)

lemma DecodeNextOpcode_Some:
  assumes "DecodeNextOpcode v = (Some (opc, b), v')"
  obtains i where "v' = v\<lparr> instruction_ptr := i \<rparr>" "instruction_ptr v < i" "i \<le> num_opcodes v"
    "instruction_ptr v < num_opcodes v" "decode_success v" "decode_success v'"
    "b = begin_conditional_block (opcode_type (program v ! instruction_ptr v))"
    "opc = fst (Decode_opcode v (opcode_type (program v ! instruction_ptr v))
       (program v ! instruction_ptr v) \<lparr> r_ip = instruction_ptr v + 1, r_valid = True \<rparr>)"
proof -
  let ?w = "program v ! instruction_ptr v"
  let ?r = "\<lparr> r_ip = instruction_ptr v + 1, r_valid = True \<rparr>"
  have ip: "instruction_ptr v < num_opcodes v" and d: "decode_success v"
    using assms by (auto simp: DecodeNextOpcode_def GetNextDword_def Let_def
        split: if_splits prod.splits)
  let ?r2 = "snd (Decode_opcode v (opcode_type ?w) ?w ?r)"
  have e: "r_valid ?r2" "v' = v\<lparr> instruction_ptr := r_ip ?r2 \<rparr>"
    "b = begin_conditional_block (opcode_type ?w)" "opc = fst (Decode_opcode v (opcode_type ?w) ?w ?r)"
    using assms ip d
    by (auto simp: DecodeNextOpcode_def GetNextDword_def Let_def case_prod_unfold split: if_splits)
  have "reader_step v ?r ?r2" by (rule Decode_opcode_step)
  then have "instruction_ptr v < r_ip ?r2" "r_ip ?r2 \<le> num_opcodes v"
    using ip by (auto simp: reader_step_def)
  then show ?thesis using that [OF e(2)] ip d e by simp
qed

lemma DecodeNextOpcode_None:
  assumes "DecodeNextOpcode v = (None, v')"
  obtains i where "v' = v\<lparr> instruction_ptr := i, decode_success := False \<rparr>"
    "instruction_ptr v \<le> i" "instruction_ptr v \<le> num_opcodes v \<Longrightarrow> i \<le> num_opcodes v"
proof -
  let ?r0 = "\<lparr> r_ip = instruction_ptr v, r_valid = decode_success v \<rparr>"
  let ?d = "GetNextDword v ?r0"
  let ?r2 = "snd (Decode_opcode v (opcode_type (fst ?d)) (fst ?d) (snd ?d))"
  have s1: "reader_step v ?r0 (snd ?d)" by (rule GetNextDword_step)
  have s2: "reader_step v ?r0 ?r2" by (rule reader_step_trans [OF s1 Decode_opcode_step])
  have "v' = v\<lparr> instruction_ptr := r_ip (if r_valid (snd ?d) then ?r2 else snd ?d), decode_success := False \<rparr>"
    using assms by (auto simp: DecodeNextOpcode_def Let_def case_prod_unfold split: if_splits)
  then show ?thesis
    using s1 s2 by (intro that [of "r_ip (if r_valid (snd ?d) then ?r2 else snd ?d)"])
      (auto simp: reader_step_def)
qed

section \<open>Skipping conditional blocks\<close>

datatype vm_error = InvalidConditionDepth | UndefinedShift

function (sequential) Skip_loop :: "bool \<Rightarrow> nat \<Rightarrow> 'e DmntCheatVm \<Rightarrow> 'e DmntCheatVm" where
  "Skip_loop is_if desired_depth v =
     (if condition_depth v > desired_depth then
        (case DecodeNextOpcode v of
           (None, v1) \<Rightarrow> v1
         | (Some (opc, begins), v1) \<Rightarrow>
             if begins then
               Skip_loop is_if desired_depth (v1\<lparr> condition_depth := condition_depth v1 + 1 \<rparr>)
             else (case opc of
                 EndConditionalOpcode is_else \<Rightarrow>
                   if \<not> is_else then
                     Skip_loop is_if desired_depth (v1\<lparr> condition_depth := condition_depth v1 - 1 \<rparr>)
                   else if is_if \<and> condition_depth v1 - 1 = desired_depth then v1
                   else Skip_loop is_if desired_depth v1
               | _ \<Rightarrow> Skip_loop is_if desired_depth v1))
      else v)"
  by pat_completeness auto
termination
  by (relation "measure (\<lambda>(is_if, d, v). num_opcodes v - instruction_ptr v)")
     (auto elim!: DecodeNextOpcode_Some [OF sym])

declare Skip_loop.simps [simp del]

definition SkipConditionalBlock :: "bool \<Rightarrow> 'e DmntCheatVm \<Rightarrow> vm_error + 'e DmntCheatVm" where
  "SkipConditionalBlock is_if v =
     (if condition_depth v > 0 then Inr (Skip_loop is_if (condition_depth v - 1) v)
      else Inl InvalidConditionDepth)"

text \<open>
  The specification of skipping: the instruction stream as tokens, and the code segments
  that are properly nested. A \<open>segment\<close> may hold \<^verbatim>\<open>else\<close> markers of its own level when
  its flag is set; nested blocks may always hold them.
\<close>

datatype block_token = Begin_tok | Else_tok | End_tok | Plain_tok

definition token :: "'e DmntCheatVm \<Rightarrow> nat \<Rightarrow> (block_token \<times> nat) option" where
  "token v i =
     (case DecodeNextOpcode (v\<lparr> instruction_ptr := i, decode_success := True \<rparr>) of
        (None, _) \<Rightarrow> None
      | (Some (opc, begins), v') \<Rightarrow>
          Some (if begins then Begin_tok
                else case opc of EndConditionalOpcode is_else \<Rightarrow> if is_else then Else_tok else End_tok
                     | _ \<Rightarrow> Plain_tok,
                instruction_ptr v'))"

inductive segment :: "'e DmntCheatVm \<Rightarrow> bool \<Rightarrow> nat \<Rightarrow> nat \<Rightarrow> bool" for v where
  seg_nil: "segment v el i i"
| seg_plain: "token v i = Some (Plain_tok, j) \<Longrightarrow> segment v el j k \<Longrightarrow> segment v el i k"
| seg_else: "token v i = Some (Else_tok, j) \<Longrightarrow> segment v True j k \<Longrightarrow> segment v True i k"
| seg_block: "token v i = Some (Begin_tok, j) \<Longrightarrow> segment v True j k \<Longrightarrow>
     token v k = Some (End_tok, l) \<Longrightarrow> segment v el l m \<Longrightarrow> segment v el i m"

inductive_cases segmentE: "segment v el i k"

lemma GetNextDword_frame [simp]:
  "GetNextDword (v\<lparr> instruction_ptr := i \<rparr>) = GetNextDword v"
  "GetNextDword (v\<lparr> condition_depth := d \<rparr>) = GetNextDword v"
  "GetNextDword (v\<lparr> decode_success := b \<rparr>) = GetNextDword v"
  by (simp_all add: GetNextDword_def fun_eq_iff)

lemma GetNextVmInt_frame [simp]:
  "GetNextVmInt (v\<lparr> instruction_ptr := i \<rparr>) = GetNextVmInt v"
  "GetNextVmInt (v\<lparr> condition_depth := d \<rparr>) = GetNextVmInt v"
  "GetNextVmInt (v\<lparr> decode_success := b \<rparr>) = GetNextVmInt v"
  by (intro ext; simp only: GetNextVmInt_def GetNextDword_frame)+

lemma Decode_opcode_frame [simp]:
  "Decode_opcode (v\<lparr> instruction_ptr := i \<rparr>) = Decode_opcode v"
  "Decode_opcode (v\<lparr> condition_depth := d \<rparr>) = Decode_opcode v"
  "Decode_opcode (v\<lparr> decode_success := b \<rparr>) = Decode_opcode v"
  by (intro ext; simp only: Decode_opcode_def decode_case_defs GetNextDword_frame GetNextVmInt_frame)+

lemma token_depth [simp]:
  "token (v\<lparr> condition_depth := d \<rparr>) i = token v i" "token (v\<lparr> instruction_ptr := d \<rparr>) i = token v i"
  "token (v\<lparr> decode_success := b \<rparr>) i = token v i"
  by (auto simp: token_def DecodeNextOpcode_def Let_def case_prod_unfold)

text \<open>The machine at instruction \<open>i\<close> and conditional depth \<open>d\<close>.\<close>

abbreviation at_pos :: "'e DmntCheatVm \<Rightarrow> nat \<Rightarrow> nat \<Rightarrow> 'e DmntCheatVm" where
  "at_pos v i d \<equiv> v\<lparr> instruction_ptr := i, decode_success := True, condition_depth := d \<rparr>"

lemma Decode_at_pos:
  assumes "token v i = Some (t, j)"
  obtains opc b where "DecodeNextOpcode (at_pos v i d) = (Some (opc, b), at_pos v j d)"
    "t = (if b then Begin_tok
          else case opc of EndConditionalOpcode is_else \<Rightarrow> if is_else then Else_tok else End_tok
               | _ \<Rightarrow> Plain_tok)"
  using assms
  by (auto simp: token_def DecodeNextOpcode_def Let_def case_prod_unfold split: if_splits)

lemma Skip_loop_token:
  assumes t: "token v i = Some (t, j)" and d: "desired < d"
  shows "Skip_loop is_if desired (at_pos v i d) =
    (case t of Begin_tok \<Rightarrow> Skip_loop is_if desired (at_pos v j (d + 1))
     | End_tok \<Rightarrow> Skip_loop is_if desired (at_pos v j (d - 1))
     | Else_tok \<Rightarrow> if is_if \<and> d - 1 = desired then at_pos v j d else Skip_loop is_if desired (at_pos v j d)
     | Plain_tok \<Rightarrow> Skip_loop is_if desired (at_pos v j d))"
proof -
  obtain opc b where D: "DecodeNextOpcode (at_pos v i d) = (Some (opc, b), at_pos v j d)"
    and T: "t = (if b then Begin_tok
          else case opc of EndConditionalOpcode is_else \<Rightarrow> if is_else then Else_tok else End_tok
               | _ \<Rightarrow> Plain_tok)"
    using Decode_at_pos [OF t] by blast
  show ?thesis
    using d by (subst Skip_loop.simps) (cases opc; simp add: D T)
qed

lemma Skip_loop_segment:
  assumes "segment v el i k" "desired < d" "el \<Longrightarrow> \<not> is_if \<or> d - 1 \<noteq> desired"
  shows "Skip_loop is_if desired (at_pos v i d) = Skip_loop is_if desired (at_pos v k d)"
  using assms
proof (induction arbitrary: d rule: segment.induct)
  case (seg_nil el i)
  show ?case ..
next
  case (seg_plain i j el k)
  then show ?case by (simp add: Skip_loop_token)
next
  case (seg_else i j k)
  then show ?case by (auto simp: Skip_loop_token)
next
  case (seg_block i j k l el m)
  have "Skip_loop is_if desired (at_pos v i d) = Skip_loop is_if desired (at_pos v j (d + 1))"
    using seg_block by (simp add: Skip_loop_token)
  also have "\<dots> = Skip_loop is_if desired (at_pos v k (d + 1))"
    using seg_block by (intro seg_block.IH) auto
  also have "\<dots> = Skip_loop is_if desired (at_pos v l d)"
    using seg_block by (simp add: Skip_loop_token)
  also have "\<dots> = Skip_loop is_if desired (at_pos v m d)"
    using seg_block by (intro seg_block.IH) auto
  finally show ?case .
qed

lemma Skip_loop_done: "\<not> desired < d \<Longrightarrow> Skip_loop is_if desired (at_pos v i d) = at_pos v i d"
  by (subst Skip_loop.simps) simp

section \<open>Operand bounds\<close>

text \<open>Every register operand names one of the machine's registers.\<close>

definition reg_ok :: "u32 \<Rightarrow> bool" where
  "reg_ok i \<longleftrightarrow> unat i < NumRegisters"

fun opcode_in_bounds :: "CheatVmOpcode \<Rightarrow> bool" where
  "opcode_in_bounds (StoreStaticOpcode w m ofs rel val) = reg_ok ofs"
| "opcode_in_bounds (ControlLoopOpcode start reg n) = reg_ok reg"
| "opcode_in_bounds (LoadRegisterStaticOpcode reg val) = reg_ok reg"
| "opcode_in_bounds (LoadRegisterMemoryOpcode w m reg from_reg rel) = reg_ok reg"
| "opcode_in_bounds (StoreStaticToAddressOpcode w reg inc add ofs val) = (reg_ok reg \<and> reg_ok ofs)"
| "opcode_in_bounds (PerformArithmeticStaticOpcode w reg mt val) = reg_ok reg"
| "opcode_in_bounds (PerformArithmeticRegisterOpcode w mt dst s1 s2 imm val) =
     (reg_ok dst \<and> reg_ok s1 \<and> reg_ok s2)"
| "opcode_in_bounds (StoreRegisterToAddressOpcode w str addr inc ot m ofs rel) =
     (reg_ok str \<and> reg_ok addr \<and> reg_ok ofs)"
| "opcode_in_bounds (BeginRegisterConditionalOpcode w c vr ct m addr oth ofs rel val) =
     (reg_ok vr \<and> reg_ok addr \<and> reg_ok oth \<and> reg_ok ofs)"
| "opcode_in_bounds (SaveRestoreRegisterOpcode dst src ot) = (reg_ok dst \<and> reg_ok src)"
| "opcode_in_bounds (SaveRestoreRegisterMaskOpcode ot act) = (length act = NumRegisters)"
| "opcode_in_bounds (ReadWriteStaticRegisterOpcode st idx) =
     (unat st < NumStaticRegisters \<and> reg_ok idx)"
| "opcode_in_bounds (DebugLogOpcode w lid vt m addr vr ofs rel) =
     (reg_ok addr \<and> reg_ok vr \<and> reg_ok ofs)"
| "opcode_in_bounds _ = True"

lemma unat_and_mask_less: "unat (w AND (15 :: u32)) < 16" "unat (w AND (255 :: u32)) < 256"
  using word_and_le1 [of w 15] word_and_le1 [of w 255] by (simp_all add: word_le_nat_alt)

lemma reg_ok_operand [simp]: "reg_ok (nybble n w)" "reg_ok (w AND 15)" "reg_ok 0"
  by (simp_all add: reg_ok_def nybble_def NumRegisters_def unat_and_mask_less)

lemma decode_cases_in_bounds:
  "opcode_in_bounds (fst (Decode_StoreStatic v w r))"
  "opcode_in_bounds (fst (Decode_BeginConditional v w r))"
  "opcode_in_bounds (fst (Decode_EndConditional w r))"
  "opcode_in_bounds (fst (Decode_ControlLoop v w r))"
  "opcode_in_bounds (fst (Decode_LoadRegisterStatic v w r))"
  "opcode_in_bounds (fst (Decode_LoadRegisterMemory v w r))"
  "opcode_in_bounds (fst (Decode_StoreStaticToAddress v w r))"
  "opcode_in_bounds (fst (Decode_PerformArithmeticStatic v w r))"
  "opcode_in_bounds (fst (Decode_BeginKeypressConditional w r))"
  "opcode_in_bounds (fst (Decode_PerformArithmeticRegister v w r))"
  "opcode_in_bounds (fst (Decode_StoreRegisterToAddress v w r))"
  "opcode_in_bounds (fst (Decode_SaveRestoreRegister w r))"
  "opcode_in_bounds (fst (Decode_SaveRestoreRegisterMask w r))"
  "opcode_in_bounds (fst (Decode_ReadWriteStaticRegister w r))"
  by (simp_all add: decode_case_defs case_prod_unfold Let_def vm_size_defs unat_and_mask_less)

lemma decode_operand_cases_in_bounds:
  "opcode_in_bounds (fst (Decode_BeginRegisterConditional v w r))"
  "opcode_in_bounds (fst (Decode_DebugLog v w r))"
  by (simp_all add: decode_case_defs case_prod_unfold Let_def
      split: CompareRegisterValueType.split DebugLogValueType.split)

lemma Decode_opcode_in_bounds: "opcode_in_bounds (fst (Decode_opcode v t w r))"
  unfolding Decode_opcode_def
  by (simp add: decode_cases_in_bounds decode_operand_cases_in_bounds)

section \<open>Properties\<close>

text \<open>
  Property C31. The decoder is memory safe and makes progress: when it returns an opcode it
  consumed at least one word and none beyond the program, it changed nothing but the
  instruction pointer, and every register operand of the opcode is within the machine's
  register files; when it fails, decoding has failed for good and the instruction pointer
  is still within the program.
\<close>

theorem decoder_safe_and_progressing:
  assumes "instruction_ptr v \<le> num_opcodes v"
  shows "case DecodeNextOpcode v of
           (Some (opc, begins), v') \<Rightarrow>
             opcode_in_bounds opc \<and> v' = v\<lparr> instruction_ptr := instruction_ptr v' \<rparr> \<and>
             instruction_ptr v < instruction_ptr v' \<and> instruction_ptr v' \<le> num_opcodes v
         | (None, v') \<Rightarrow>
             v' = v\<lparr> instruction_ptr := instruction_ptr v', decode_success := False \<rparr> \<and>
             instruction_ptr v' \<le> num_opcodes v \<and> (\<forall>v''. fst (DecodeNextOpcode (v'\<lparr> env := v'' \<rparr>)) = None)"
proof (cases "DecodeNextOpcode v")
  case (Pair res v')
  show ?thesis
  proof (cases res)
    case None
    obtain i where i: "v' = v\<lparr> instruction_ptr := i, decode_success := False \<rparr>" "i \<le> num_opcodes v"
      using DecodeNextOpcode_None [of v v'] Pair None assms by blast
    have "fst (DecodeNextOpcode (v'\<lparr> env := e \<rparr>)) = None" for e
      using i(1) by (simp add: DecodeNextOpcode_def GetNextDword_def Let_def)
    with i show ?thesis using Pair None by simp
  next
    case (Some a)
    obtain opc b where ob: "a = (opc, b)" by (cases a)
    obtain i where "v' = v\<lparr> instruction_ptr := i \<rparr>" "instruction_ptr v < i" "i \<le> num_opcodes v"
      "opc = fst (Decode_opcode v (opcode_type (program v ! instruction_ptr v))
         (program v ! instruction_ptr v) \<lparr> r_ip = instruction_ptr v + 1, r_valid = True \<rparr>)"
      using DecodeNextOpcode_Some [of v opc b v'] Pair Some ob by metis
    then show ?thesis using Pair Some ob by (simp add: Decode_opcode_in_bounds)
  qed
qed

text \<open>
  Property C25. Skipping a conditional block finds its matching marker: with a properly nested
  body between the instruction pointer and a marker, \<^verbatim>\<open>SkipConditionalBlock(true)\<close> stops
  right after that marker, having left the block at an end marker and staying inside it at
  an \<^verbatim>\<open>else\<close> marker; \<^verbatim>\<open>SkipConditionalBlock(false)\<close> passes over \<^verbatim>\<open>else\<close> markers and stops
  after the end marker.
\<close>

theorem skip_conditional_block_matches:
  assumes depth: "condition_depth v = Suc d" and ok: "decode_success v"
    and body: "segment v (\<not> is_if) (instruction_ptr v) k"
    and marker: "token v k = Some (t, l)" "t = End_tok \<or> (is_if \<and> t = Else_tok)"
  shows "SkipConditionalBlock is_if v =
    Inr (v\<lparr> instruction_ptr := l, condition_depth := (if t = End_tok then d else Suc d) \<rparr>)"
proof -
  have v: "v = at_pos v (instruction_ptr v) (Suc d)" using depth ok by (cases v) simp
  have "Skip_loop is_if d v = Skip_loop is_if d (at_pos v k (Suc d))"
    by (subst v, rule Skip_loop_segment [OF body]) auto
  also have "\<dots> = at_pos v l (if t = End_tok then d else Suc d)"
    using marker by (auto simp: Skip_loop_token Skip_loop_done)
  also have "\<dots> = v\<lparr> instruction_ptr := l, condition_depth := (if t = End_tok then d else Suc d) \<rparr>"
    using ok by (cases v) simp
  finally show ?thesis using depth by (simp add: SkipConditionalBlock_def)
qed

text \<open>A keypress conditional with a nested keypress conditional, an else part and an end.\<close>

definition nested_program :: "u32 list" where
  "nested_program = [0x80000001, 0x80000002, 0xFF000000, 0x20000000, 0x21000000, 0xFF100000, 0x20000000]"

definition nested_vm :: "unit DmntCheatVm" where
  "nested_vm = (DmntCheatVm_ctor ())\<lparr> program := nested_program @ replicate 1017 0, num_opcodes := 7,
      instruction_ptr := 1, condition_depth := 1, decode_success := True \<rparr>"

lemma nested_tokens:
  "token nested_vm 1 = Some (Begin_tok, 2)" "token nested_vm 2 = Some (Plain_tok, 3)"
  "token nested_vm 3 = Some (End_tok, 4)" "token nested_vm 4 = Some (Else_tok, 5)"
  by code_simp+

theorem skip_conditional_block_matches_witness:
  "segment nested_vm False 1 4 \<and> token nested_vm 4 = Some (Else_tok, 5) \<and>
   SkipConditionalBlock True nested_vm = Inr (nested_vm\<lparr> instruction_ptr := 5, condition_depth := 1 \<rparr>)"
proof -
  have s: "segment nested_vm False 1 4"
    by (rule seg_block [OF nested_tokens(1) seg_plain [OF nested_tokens(2) seg_nil] nested_tokens(3) seg_nil])
  have c: "condition_depth nested_vm = Suc 0" "decode_success nested_vm" "instruction_ptr nested_vm = 1"
    by (simp_all add: nested_vm_def)
  show ?thesis
    using s nested_tokens(4) skip_conditional_block_matches [OF c(1,2), of True 4 Else_tok 5] c(3)
    by simp
qed

theorem decoder_safe_and_progressing_witness:
  "instruction_ptr nested_vm \<le> num_opcodes nested_vm \<and>
   fst (DecodeNextOpcode nested_vm) = Some (BeginKeypressConditionalOpcode 2, True) \<and>
   instruction_ptr (snd (DecodeNextOpcode nested_vm)) \<le> num_opcodes nested_vm"
proof -
  have a: "instruction_ptr nested_vm \<le> num_opcodes nested_vm" by (simp add: nested_vm_def)
  have b: "fst (DecodeNextOpcode nested_vm) = Some (BeginKeypressConditionalOpcode 2, True)" by code_simp
  show ?thesis
    using a b decoder_safe_and_progressing [OF a] by (auto split: prod.splits)
qed

end
