(* ===== verification/DmntCheatLog.thy ===== *)
theory DmntCheatLog
  imports DmntCheatDecode
begin

text \<open>
  \<^verbatim>\<open>DmntCheatVm::LogOpcode\<close>: the lines it hands to \<^verbatim>\<open>CommandLog\<close> for each opcode, in
  order. The \<^verbatim>\<open>fmt\<close> conversions the virtual machine uses are upper-case hexadecimal,
  optionally padded with zeros, and decimal.
\<close>

unbundle bit_operations_syntax

section \<open>Number formats\<close>

definition digit_char :: "nat \<Rightarrow> char" where
  "digit_char d = (if d < 10 then char_of (48 + d) else char_of (55 + d))"

fun digits_in :: "nat \<Rightarrow> nat \<Rightarrow> string" where
  "digits_in b n =
     (if b \<le> 1 \<or> n < b then [digit_char n] else digits_in b (n div b) @ [digit_char (n mod b)])"

declare digits_in.simps [simp del]

definition fmt_X :: "'a::len word \<Rightarrow> string" where
  "fmt_X w = digits_in 16 (unat w)"

definition fmt_0X :: "nat \<Rightarrow> 'a::len word \<Rightarrow> string" where
  "fmt_0X n w = (let s = fmt_X w in replicate (n - length s) (CHR ''0'') @ s)"

definition fmt_d :: "'a::len word \<Rightarrow> string" where
  "fmt_d w = digits_in 10 (unat w)"

definition fmt_bool :: "bool \<Rightarrow> string" where
  "fmt_bool b = (if b then ''1'' else ''0'')"

section \<open>The lines of each opcode\<close>

definition Log_StoreRegisterToAddress ::
  "u32 \<Rightarrow> u32 \<Rightarrow> u32 \<Rightarrow> bool \<Rightarrow> StoreRegisterOffsetType \<Rightarrow> MemoryAccessType \<Rightarrow> u32 \<Rightarrow> u64 \<Rightarrow> string list" where
  "Log_StoreRegisterToAddress w str addr inc ofs_type mem_type ofs rel =
     [''Opcode: Store Register to Address'', ''Bit Width: '' @ fmt_X w, ''S Reg Idx: '' @ fmt_X str,
      ''A Reg Idx: '' @ fmt_X addr, ''Incr Reg:  '' @ fmt_bool inc] @
     (case ofs_type of
        Offset_None \<Rightarrow> []
      | Offset_Reg \<Rightarrow> [''O Reg Idx: '' @ fmt_X ofs]
      | Offset_Imm \<Rightarrow> [''Rel Addr:  '' @ fmt_X rel]
      | MemReg \<Rightarrow> [''Mem Type:  '' @ fmt_X (of_MemoryAccessType mem_type)]
      | MemImm \<Rightarrow> [''Mem Type:  '' @ fmt_X (of_MemoryAccessType mem_type), ''Rel Addr:  '' @ fmt_X rel]
      | MemImmReg \<Rightarrow> [''Mem Type:  '' @ fmt_X (of_MemoryAccessType mem_type), ''Rel Addr:  '' @ fmt_X rel])"

definition Log_BeginRegisterConditional ::
  "u32 \<Rightarrow> ConditionalComparisonType \<Rightarrow> u32 \<Rightarrow> CompareRegisterValueType \<Rightarrow> MemoryAccessType \<Rightarrow>
   u32 \<Rightarrow> u32 \<Rightarrow> u32 \<Rightarrow> u64 \<Rightarrow> VmInt \<Rightarrow> string list" where
  "Log_BeginRegisterConditional w cond vr comp_type mem_type addr oth ofs rel val =
     [''Opcode: Begin Register Conditional'', ''Bit Width: '' @ fmt_X w,
      ''Cond Type: '' @ fmt_X (of_ConditionalComparisonType cond), ''V Reg Idx: '' @ fmt_X vr] @
     (case comp_type of
        StaticValue \<Rightarrow> [''Comp Type: Static Value'', ''Value:     '' @ fmt_X val]
      | OtherRegister \<Rightarrow> [''Comp Type: Other Register'', ''X Reg Idx: '' @ fmt_X oth]
      | MemoryRelAddr \<Rightarrow> [''Comp Type: Memory Relative Address'',
          ''Mem Type:  '' @ fmt_X (of_MemoryAccessType mem_type), ''Rel Addr:  '' @ fmt_X rel]
      | MemoryOfsReg \<Rightarrow> [''Comp Type: Memory Offset Register'',
          ''Mem Type:  '' @ fmt_X (of_MemoryAccessType mem_type), ''O Reg Idx: '' @ fmt_X ofs]
      | RegisterRelAddr \<Rightarrow> [''Comp Type: Register Relative Address'',
          ''A Reg Idx: '' @ fmt_X addr, ''Rel Addr:  '' @ fmt_X rel]
      | RegisterOfsReg \<Rightarrow> [''Comp Type: Register Offset Register'',
          ''A Reg Idx: '' @ fmt_X addr, ''O Reg Idx: '' @ fmt_X ofs]
      | CompareRegisterValueType_Other _ \<Rightarrow> [])"

definition Log_DebugLog ::
  "u32 \<Rightarrow> u32 \<Rightarrow> DebugLogValueType \<Rightarrow> MemoryAccessType \<Rightarrow> u32 \<Rightarrow> u32 \<Rightarrow> u32 \<Rightarrow> u64 \<Rightarrow> string list" where
  "Log_DebugLog w log_id val_type mem_type addr vr ofs rel =
     [''Opcode: Debug Log'', ''Bit Width: '' @ fmt_X w, ''Log ID:    '' @ fmt_X log_id,
      ''Val Type:  '' @ fmt_X (of_DebugLogValueType val_type)] @
     (case val_type of
        Log_RegisterValue \<Rightarrow> [''Val Type:  Register Value'', ''X Reg Idx: '' @ fmt_X vr]
      | Log_MemoryRelAddr \<Rightarrow> [''Val Type:  Memory Relative Address'',
          ''Mem Type:  '' @ fmt_X (of_MemoryAccessType mem_type), ''Rel Addr:  '' @ fmt_X rel]
      | Log_MemoryOfsReg \<Rightarrow> [''Val Type:  Memory Offset Register'',
          ''Mem Type:  '' @ fmt_X (of_MemoryAccessType mem_type), ''O Reg Idx: '' @ fmt_X ofs]
      | Log_RegisterRelAddr \<Rightarrow> [''Val Type:  Register Relative Address'',
          ''A Reg Idx: '' @ fmt_X addr, ''Rel Addr:  '' @ fmt_X rel]
      | Log_RegisterOfsReg \<Rightarrow> [''Val Type:  Register Offset Register'',
          ''A Reg Idx: '' @ fmt_X addr, ''O Reg Idx: '' @ fmt_X ofs]
      | DebugLogValueType_Other _ \<Rightarrow> [])"

fun LogOpcode :: "CheatVmOpcode \<Rightarrow> string list" where
  "LogOpcode (StoreStaticOpcode w m ofs rel val) =
     [''Opcode: Store Static'', ''Bit Width: '' @ fmt_X w, ''Mem Type:  '' @ fmt_X (of_MemoryAccessType m),
      ''Reg Idx:   '' @ fmt_X ofs, ''Rel Addr:  '' @ fmt_X rel, ''Value:     '' @ fmt_X val]"
| "LogOpcode (BeginConditionalOpcode w m c rel val) =
     [''Opcode: Begin Conditional'', ''Bit Width: '' @ fmt_X w,
      ''Mem Type:  '' @ fmt_X (of_MemoryAccessType m),
      ''Cond Type: '' @ fmt_X (of_ConditionalComparisonType c),
      ''Rel Addr:  '' @ fmt_X rel, ''Value:     '' @ fmt_X val]"
| "LogOpcode (EndConditionalOpcode is_else) = [''Opcode: End Conditional'']"
| "LogOpcode (ControlLoopOpcode start_loop reg n) =
     (if start_loop
      then [''Opcode: Start Loop'', ''Reg Idx:   '' @ fmt_X reg, ''Num Iters: '' @ fmt_X n]
      else [''Opcode: End Loop'', ''Reg Idx:   '' @ fmt_X reg])"
| "LogOpcode (LoadRegisterStaticOpcode reg val) =
     [''Opcode: Load Register Static'', ''Reg Idx:   '' @ fmt_X reg, ''Value:     '' @ fmt_X val]"
| "LogOpcode (LoadRegisterMemoryOpcode w m reg from_reg rel) =
     [''Opcode: Load Register Memory'', ''Bit Width: '' @ fmt_X w, ''Reg Idx:   '' @ fmt_X reg,
      ''Mem Type:  '' @ fmt_X (of_MemoryAccessType m), ''From Reg:  '' @ fmt_bool from_reg,
      ''Rel Addr:  '' @ fmt_X rel]"
| "LogOpcode (StoreStaticToAddressOpcode w reg inc add ofs val) =
     [''Opcode: Store Static to Address'', ''Bit Width: '' @ fmt_X w, ''Reg Idx:   '' @ fmt_X reg] @
     (if add then [''O Reg Idx: '' @ fmt_X ofs] else []) @
     [''Incr Reg:  '' @ fmt_bool inc, ''Value:     '' @ fmt_X val]"
| "LogOpcode (PerformArithmeticStaticOpcode w reg mt val) =
     [''Opcode: Perform Static Arithmetic'', ''Bit Width: '' @ fmt_X w, ''Reg Idx:   '' @ fmt_X reg,
      ''Math Type: '' @ fmt_X (of_RegisterArithmeticType mt), ''Value:     '' @ fmt_X val]"
| "LogOpcode (BeginKeypressConditionalOpcode key_mask) =
     [''Opcode: Begin Keypress Conditional'', ''Key Mask:  '' @ fmt_X key_mask]"
| "LogOpcode (PerformArithmeticRegisterOpcode w mt dst s1 s2 imm val) =
     [''Opcode: Perform Register Arithmetic'', ''Bit Width: '' @ fmt_X w, ''Dst Idx:   '' @ fmt_X dst,
      ''Src1 Idx:  '' @ fmt_X s1] @
     (if imm then [''Value:     '' @ fmt_X val] else [''Src2 Idx:  '' @ fmt_X s2])"
| "LogOpcode (StoreRegisterToAddressOpcode w str addr inc ot m ofs rel) =
     Log_StoreRegisterToAddress w str addr inc ot m ofs rel"
| "LogOpcode (BeginRegisterConditionalOpcode w c vr ct m addr oth ofs rel val) =
     Log_BeginRegisterConditional w c vr ct m addr oth ofs rel val"
| "LogOpcode (SaveRestoreRegisterOpcode dst src ot) =
     [''Opcode: Save or Restore Register'', ''Dst Idx:   '' @ fmt_X dst, ''Src Idx:   '' @ fmt_X src,
      ''Op Type:   '' @ fmt_d (of_SaveRestoreRegisterOpType ot)]"
| "LogOpcode (SaveRestoreRegisterMaskOpcode ot act) =
     [''Opcode: Save or Restore Register Mask'',
      ''Op Type:   '' @ fmt_d (of_SaveRestoreRegisterOpType ot)] @
     map (\<lambda>i. ''Act['' @ fmt_0X 2 (word_of_nat i :: u64) @ '']:   '' @ fmt_bool (act ! i)) [0..<NumRegisters]"
| "LogOpcode (ReadWriteStaticRegisterOpcode st idx) =
     [''Opcode: Read/Write Static Register'',
      (if unat st < NumReadableStaticRegisters then ''Op Type: ReadStaticRegister''
       else ''Op Type: WriteStaticRegister''),
      ''Reg Idx   '' @ fmt_X idx, ''Stc Idx   '' @ fmt_X st]"
| "LogOpcode PauseProcessOpcode = []"
| "LogOpcode ResumeProcessOpcode = []"
| "LogOpcode (DebugLogOpcode w lid vt m addr vr ofs rel) = Log_DebugLog w lid vt m addr vr ofs rel"
| "LogOpcode (UnrecognizedInstruction t) = [''Unknown opcode: '' @ fmt_X t]"

text \<open>Each line goes through the \<^verbatim>\<open>CommandLog\<close> callback.\<close>

definition log_lines :: "'e Callbacks \<Rightarrow> string list \<Rightarrow> 'e DmntCheatVm \<Rightarrow> 'e DmntCheatVm" where
  "log_lines cb ls v = v\<lparr> env := fold (CommandLog cb) ls (env v) \<rparr>"

lemma digits_in_nonempty: "digits_in b n \<noteq> []"
  by (subst digits_in.simps) simp

lemma fmt_0X_length: "n \<le> length (fmt_0X n w)"
  by (simp add: fmt_0X_def Let_def)

end
