(* ===== verification/DmntCheatVm.thy ===== *)
theory DmntCheatVm
  imports DmntCheatLog
begin

text \<open>
  Execution of cheat programs: \<^verbatim>\<open>GetVmInt\<close>, \<^verbatim>\<open>GetCheatProcessAddress\<close>, \<^verbatim>\<open>ResetState\<close>,
  \<^verbatim>\<open>LoadProgram\<close> and \<^verbatim>\<open>Execute\<close> of \<^verbatim>\<open>core/memory/dmnt_cheat_vm.cpp\<close>, one definition per
  branch of the interpreter's dispatch. Two things the C++ leaves to crash or to chance are
  error values: skipping at conditional depth zero (\<^verbatim>\<open>UNREACHABLE_MSG\<close>) and shifting a
  64-bit register by 64 or more (undefined behaviour).
\<close>

unbundle bit_operations_syntax

section \<open>Bytes of a value in guest memory\<close>

definition valid_width :: "u32 \<Rightarrow> bool" where
  "valid_width w \<longleftrightarrow> w = 1 \<or> w = 2 \<or> w = 4 \<or> w = 8"

text \<open>Overwriting the first bytes of the object, the rest kept.\<close>

definition overwrite_low :: "u64 \<Rightarrow> u8 list \<Rightarrow> u64" where
  "overwrite_low old bs = (old AND NOT (mask (8 * length bs))) OR word_of_bytes bs"

section \<open>Helpers of the interpreter\<close>

definition GetVmInt :: "VmInt \<Rightarrow> u32 \<Rightarrow> u64" where
  "GetVmInt val bit_width =
     (if bit_width = 1 then ucast (ucast val :: u8)
      else if bit_width = 2 then ucast (ucast val :: u16)
      else if bit_width = 4 then ucast (ucast val :: u32)
      else if bit_width = 8 then val
      else 0)"

definition GetCheatProcessAddress :: "CheatProcessMetadata \<Rightarrow> MemoryAccessType \<Rightarrow> u64 \<Rightarrow> u64" where
  "GetCheatProcessAddress metadata mem_type rel_address =
     (case mem_type of
        Heap \<Rightarrow> base (heap_extents metadata) + rel_address
      | Alias \<Rightarrow> base (alias_extents metadata) + rel_address
      | Aslr \<Rightarrow> base (aslr_extents metadata) + rel_address
      | _ \<Rightarrow> base (main_nso_extents metadata) + rel_address)"

definition ResetState :: "'e DmntCheatVm \<Rightarrow> 'e DmntCheatVm" where
  "ResetState v =
     v\<lparr> registers := replicate NumRegisters 0, saved_values := replicate NumRegisters 0,
       loop_tops := replicate NumRegisters 0, instruction_ptr := 0, condition_depth := 0,
       decode_success := True \<rparr>"

text \<open>Register access, and the callback accesses through a 64-bit local or register.\<close>

abbreviation reg :: "'e DmntCheatVm \<Rightarrow> u32 \<Rightarrow> u64" where
  "reg v i \<equiv> registers v ! unat i"

definition set_reg :: "u32 \<Rightarrow> u64 \<Rightarrow> 'e DmntCheatVm \<Rightarrow> 'e DmntCheatVm" where
  "set_reg i x v = v\<lparr> registers := (registers v)[unat i := x] \<rparr>"

definition write_memory :: "'e Callbacks \<Rightarrow> u64 \<Rightarrow> u64 \<Rightarrow> u32 \<Rightarrow> 'e DmntCheatVm \<Rightarrow> 'e DmntCheatVm" where
  "write_memory cb addr val bit_width v =
     (if valid_width bit_width
      then v\<lparr> env := MemoryWriteUnsafe cb addr (low_bytes (unat bit_width) val) (env v) \<rparr>
      else v)"

definition read_memory :: "'e Callbacks \<Rightarrow> u64 \<Rightarrow> u64 \<Rightarrow> u32 \<Rightarrow> 'e DmntCheatVm \<Rightarrow> u64 \<times> 'e DmntCheatVm" where
  "read_memory cb addr old bit_width v =
     (if valid_width bit_width
      then let (bs, e) = MemoryReadUnsafe cb addr (unat bit_width) (env v)
           in (overwrite_low old bs, v\<lparr> env := e \<rparr>)
      else (old, v))"

definition compare_values :: "ConditionalComparisonType \<Rightarrow> u64 \<Rightarrow> u64 \<Rightarrow> bool" where
  "compare_values cond_type src_value cond_value =
     (case cond_type of
        GT \<Rightarrow> src_value > cond_value
      | GE \<Rightarrow> src_value \<ge> cond_value
      | LT \<Rightarrow> src_value < cond_value
      | LE \<Rightarrow> src_value \<le> cond_value
      | EQ \<Rightarrow> src_value = cond_value
      | NE \<Rightarrow> src_value \<noteq> cond_value
      | ConditionalComparisonType_Other _ \<Rightarrow> False)"

definition truncate_width :: "u32 \<Rightarrow> u64 \<Rightarrow> u64" where
  "truncate_width bit_width x =
     (if bit_width = 1 then ucast (ucast x :: u8)
      else if bit_width = 2 then ucast (ucast x :: u16)
      else if bit_width = 4 then ucast (ucast x :: u32)
      else x)"

text \<open>The value of a register at a width, zero at a width that is none.\<close>

definition register_at_width :: "u32 \<Rightarrow> u64 \<Rightarrow> u64" where
  "register_at_width bit_width x =
     (if bit_width = 1 then ucast (ucast (x AND 0xFF) :: u8)
      else if bit_width = 2 then ucast (ucast (x AND 0xFFFF) :: u16)
      else if bit_width = 4 then ucast (ucast (x AND 0xFFFFFFFF) :: u32)
      else if bit_width = 8 then x AND 0xFFFFFFFFFFFFFFFF
      else 0)"

definition shift_left :: "u64 \<Rightarrow> u64 \<Rightarrow> vm_error + u64" where
  "shift_left x n = (if n < 64 then Inr (push_bit (unat n) x) else Inl UndefinedShift)"

definition shift_right :: "u64 \<Rightarrow> u64 \<Rightarrow> vm_error + u64" where
  "shift_right x n = (if n < 64 then Inr (drop_bit (unat n) x) else Inl UndefinedShift)"

section \<open>Loading a program\<close>

text \<open>The copy loop of one entry, from opcode \<open>n\<close> on, \<open>k\<close> opcodes to go.\<close>

primrec LoadProgram_copy :: "nat \<Rightarrow> nat \<Rightarrow> u32 list \<Rightarrow> 'e DmntCheatVm \<Rightarrow> 'e DmntCheatVm" where
  "LoadProgram_copy 0 n ops v = v"
| "LoadProgram_copy (Suc k) n ops v =
     LoadProgram_copy k (Suc n) ops
       (v\<lparr> program := (program v)[num_opcodes v := ops ! n], num_opcodes := num_opcodes v + 1 \<rparr>)"

primrec LoadProgram_loop :: "CheatEntry list \<Rightarrow> 'e DmntCheatVm \<Rightarrow> bool \<times> 'e DmntCheatVm" where
  "LoadProgram_loop [] v = (True, v)"
| "LoadProgram_loop (e # es) v =
     (if enabled e then
        (if unat (def_num_opcodes (cheat_def e)) + num_opcodes v > MaximumProgramOpcodeCount
         then (False, v\<lparr> num_opcodes := 0 \<rparr>)
         else LoadProgram_loop es
                (LoadProgram_copy (unat (def_num_opcodes (cheat_def e))) 0 (opcodes (cheat_def e)) v))
      else LoadProgram_loop es v)"

definition LoadProgram :: "CheatEntry list \<Rightarrow> 'e DmntCheatVm \<Rightarrow> bool \<times> 'e DmntCheatVm" where
  "LoadProgram entries v = LoadProgram_loop entries (v\<lparr> num_opcodes := 0 \<rparr>)"

definition GetProgramSize :: "'e DmntCheatVm \<Rightarrow> nat" where
  "GetProgramSize v = num_opcodes v"

section \<open>The branches of the interpreter\<close>

definition Execute_StoreStatic ::
  "'e Callbacks \<Rightarrow> CheatProcessMetadata \<Rightarrow> u32 \<Rightarrow> MemoryAccessType \<Rightarrow> u32 \<Rightarrow> u64 \<Rightarrow> VmInt \<Rightarrow>
   'e DmntCheatVm \<Rightarrow> 'e DmntCheatVm" where
  "Execute_StoreStatic cb md bit_width mem_type offset_register rel_address val v =
     (let dst_address = GetCheatProcessAddress md mem_type (rel_address + reg v offset_register);
          dst_value = GetVmInt val bit_width
      in write_memory cb dst_address dst_value bit_width v)"

definition Execute_BeginConditional ::
  "'e Callbacks \<Rightarrow> CheatProcessMetadata \<Rightarrow> u32 \<Rightarrow> MemoryAccessType \<Rightarrow> ConditionalComparisonType \<Rightarrow>
   u64 \<Rightarrow> VmInt \<Rightarrow> 'e DmntCheatVm \<Rightarrow> vm_error + 'e DmntCheatVm" where
  "Execute_BeginConditional cb md bit_width mem_type cond_type rel_address val v =
     (let src_address = GetCheatProcessAddress md mem_type rel_address;
          (src_value, v1) = read_memory cb src_address 0 bit_width v;
          cond_value = GetVmInt val bit_width
      in if \<not> compare_values cond_type src_value cond_value then SkipConditionalBlock True v1
         else Inr v1)"

definition Execute_EndConditional :: "bool \<Rightarrow> 'e DmntCheatVm \<Rightarrow> vm_error + 'e DmntCheatVm" where
  "Execute_EndConditional is_else v =
     (if is_else then SkipConditionalBlock False v
      else if condition_depth v > 0 then Inr (v\<lparr> condition_depth := condition_depth v - 1 \<rparr>)
      else Inr v)"

definition Execute_ControlLoop :: "bool \<Rightarrow> u32 \<Rightarrow> u32 \<Rightarrow> 'e DmntCheatVm \<Rightarrow> 'e DmntCheatVm" where
  "Execute_ControlLoop start_loop reg_index num_iters v =
     (if start_loop then
        (set_reg reg_index (ucast num_iters) v)
          \<lparr> loop_tops := (loop_tops v)[unat reg_index := instruction_ptr v] \<rparr>
      else
        let v1 = set_reg reg_index (reg v reg_index - 1) v
        in if reg v1 reg_index \<noteq> 0
           then v1\<lparr> instruction_ptr := loop_tops v1 ! unat reg_index \<rparr>
           else v1)"

definition Execute_LoadRegisterStatic :: "u32 \<Rightarrow> u64 \<Rightarrow> 'e DmntCheatVm \<Rightarrow> 'e DmntCheatVm" where
  "Execute_LoadRegisterStatic reg_index val v = set_reg reg_index val v"

definition Execute_LoadRegisterMemory ::
  "'e Callbacks \<Rightarrow> CheatProcessMetadata \<Rightarrow> u32 \<Rightarrow> MemoryAccessType \<Rightarrow> u32 \<Rightarrow> bool \<Rightarrow> u64 \<Rightarrow>
   'e DmntCheatVm \<Rightarrow> 'e DmntCheatVm" where
  "Execute_LoadRegisterMemory cb md bit_width mem_type reg_index load_from_reg rel_address v =
     (let src_address = (if load_from_reg then reg v reg_index + rel_address
                         else GetCheatProcessAddress md mem_type rel_address);
          (val, v1) = read_memory cb src_address (reg v reg_index) bit_width v
      in set_reg reg_index val v1)"

definition Execute_StoreStaticToAddress ::
  "'e Callbacks \<Rightarrow> u32 \<Rightarrow> u32 \<Rightarrow> bool \<Rightarrow> bool \<Rightarrow> u32 \<Rightarrow> u64 \<Rightarrow> 'e DmntCheatVm \<Rightarrow> 'e DmntCheatVm" where
  "Execute_StoreStaticToAddress cb bit_width reg_index increment_reg add_offset_reg offset_reg_index val v =
     (let dst_address = reg v reg_index + (if add_offset_reg then reg v offset_reg_index else 0);
          v1 = write_memory cb dst_address val bit_width v
      in if increment_reg then set_reg reg_index (reg v1 reg_index + ucast bit_width) v1 else v1)"

definition Execute_PerformArithmeticStatic ::
  "u32 \<Rightarrow> u32 \<Rightarrow> RegisterArithmeticType \<Rightarrow> u32 \<Rightarrow> 'e DmntCheatVm \<Rightarrow> vm_error + 'e DmntCheatVm" where
  "Execute_PerformArithmeticStatic bit_width reg_index math_type val v =
     (let x = reg v reg_index;
          res = (case math_type of
                   Addition \<Rightarrow> Inr (x + ucast val)
                 | Subtraction \<Rightarrow> Inr (x - ucast val)
                 | Multiplication \<Rightarrow> Inr (x * ucast val)
                 | LeftShift \<Rightarrow> shift_left x (ucast val)
                 | RightShift \<Rightarrow> shift_right x (ucast val)
                 | _ \<Rightarrow> Inr x)
      in case res of
           Inl e \<Rightarrow> Inl e
         | Inr y \<Rightarrow> Inr (set_reg reg_index (truncate_width bit_width y) v))"

definition Execute_BeginKeypressConditional ::
  "u32 \<Rightarrow> u64 \<Rightarrow> 'e DmntCheatVm \<Rightarrow> vm_error + 'e DmntCheatVm" where
  "Execute_BeginKeypressConditional key_mask kDown v =
     (if ucast key_mask AND kDown \<noteq> ucast key_mask then SkipConditionalBlock True v else Inr v)"

definition Execute_PerformArithmeticRegister ::
  "u32 \<Rightarrow> RegisterArithmeticType \<Rightarrow> u32 \<Rightarrow> u32 \<Rightarrow> u32 \<Rightarrow> bool \<Rightarrow> VmInt \<Rightarrow>
   'e DmntCheatVm \<Rightarrow> vm_error + 'e DmntCheatVm" where
  "Execute_PerformArithmeticRegister bit_width math_type dst src1 src2 has_immediate val v =
     (let operand_1_value = reg v src1;
          operand_2_value = (if has_immediate then GetVmInt val bit_width else reg v src2);
          res = (case math_type of
                   Addition \<Rightarrow> Inr (operand_1_value + operand_2_value)
                 | Subtraction \<Rightarrow> Inr (operand_1_value - operand_2_value)
                 | Multiplication \<Rightarrow> Inr (operand_1_value * operand_2_value)
                 | LeftShift \<Rightarrow> shift_left operand_1_value operand_2_value
                 | RightShift \<Rightarrow> shift_right operand_1_value operand_2_value
                 | LogicalAnd \<Rightarrow> Inr (operand_1_value AND operand_2_value)
                 | LogicalOr \<Rightarrow> Inr (operand_1_value OR operand_2_value)
                 | LogicalNot \<Rightarrow> Inr (NOT operand_1_value)
                 | LogicalXor \<Rightarrow> Inr (operand_1_value XOR operand_2_value)
                 | Arithmetic_None \<Rightarrow> Inr operand_1_value
                 | RegisterArithmeticType_Other _ \<Rightarrow> Inr 0)
      in case res of
           Inl e \<Rightarrow> Inl e
         | Inr y \<Rightarrow> Inr (set_reg dst (truncate_width bit_width y) v))"

definition Execute_StoreRegisterToAddress ::
  "'e Callbacks \<Rightarrow> CheatProcessMetadata \<Rightarrow> u32 \<Rightarrow> u32 \<Rightarrow> u32 \<Rightarrow> bool \<Rightarrow> StoreRegisterOffsetType \<Rightarrow>
   MemoryAccessType \<Rightarrow> u32 \<Rightarrow> u64 \<Rightarrow> 'e DmntCheatVm \<Rightarrow> 'e DmntCheatVm" where
  "Execute_StoreRegisterToAddress cb md bit_width str_reg addr_reg increment_reg ofs_type mem_type
     ofs_reg rel_address v =
     (let dst_value = reg v str_reg;
          dst_address =
            (case ofs_type of
               Offset_None \<Rightarrow> reg v addr_reg
             | Offset_Reg \<Rightarrow> reg v addr_reg + reg v ofs_reg
             | Offset_Imm \<Rightarrow> reg v addr_reg + rel_address
             | MemReg \<Rightarrow> GetCheatProcessAddress md mem_type (reg v addr_reg)
             | MemImm \<Rightarrow> GetCheatProcessAddress md mem_type rel_address
             | MemImmReg \<Rightarrow> GetCheatProcessAddress md mem_type (reg v addr_reg + rel_address));
          v1 = write_memory cb dst_address dst_value bit_width v
      in if increment_reg then set_reg addr_reg (reg v1 addr_reg + ucast bit_width) v1 else v1)"

definition Execute_BeginRegisterConditional ::
  "'e Callbacks \<Rightarrow> CheatProcessMetadata \<Rightarrow> u32 \<Rightarrow> ConditionalComparisonType \<Rightarrow> u32 \<Rightarrow>
   CompareRegisterValueType \<Rightarrow> MemoryAccessType \<Rightarrow> u32 \<Rightarrow> u32 \<Rightarrow> u32 \<Rightarrow> u64 \<Rightarrow> VmInt \<Rightarrow>
   'e DmntCheatVm \<Rightarrow> vm_error + 'e DmntCheatVm" where
  "Execute_BeginRegisterConditional cb md bit_width cond_type val_reg comp_type mem_type addr_reg
     other_reg ofs_reg rel_address val v =
     (let src_value = register_at_width bit_width (reg v val_reg);
          (cond_value, v1) =
            (case comp_type of
               StaticValue \<Rightarrow> (GetVmInt val bit_width, v)
             | OtherRegister \<Rightarrow> (register_at_width bit_width (reg v other_reg), v)
             | MemoryRelAddr \<Rightarrow>
                 read_memory cb (GetCheatProcessAddress md mem_type rel_address) 0 bit_width v
             | MemoryOfsReg \<Rightarrow>
                 read_memory cb (GetCheatProcessAddress md mem_type (reg v ofs_reg)) 0 bit_width v
             | RegisterRelAddr \<Rightarrow> read_memory cb (reg v addr_reg + rel_address) 0 bit_width v
             | RegisterOfsReg \<Rightarrow> read_memory cb (reg v addr_reg + reg v ofs_reg) 0 bit_width v
             | CompareRegisterValueType_Other _ \<Rightarrow> read_memory cb 0 0 bit_width v)
      in if \<not> compare_values cond_type src_value cond_value then SkipConditionalBlock True v1
         else Inr v1)"

definition Execute_SaveRestoreRegister ::
  "u32 \<Rightarrow> u32 \<Rightarrow> SaveRestoreRegisterOpType \<Rightarrow> 'e DmntCheatVm \<Rightarrow> 'e DmntCheatVm" where
  "Execute_SaveRestoreRegister dst src op_type v =
     (case op_type of
        ClearRegs \<Rightarrow> set_reg dst 0 v
      | ClearSaved \<Rightarrow> v\<lparr> saved_values := (saved_values v)[unat dst := 0] \<rparr>
      | Save \<Rightarrow> v\<lparr> saved_values := (saved_values v)[unat dst := reg v src] \<rparr>
      | _ \<Rightarrow> set_reg dst (saved_values v ! unat src) v)"

text \<open>One array updated from another where the mask says so, element by element.\<close>

definition masked_copy :: "SaveRestoreRegisterOpType \<Rightarrow> bool list \<Rightarrow> u64 list \<Rightarrow> u64 list \<Rightarrow> u64 list" where
  "masked_copy op_type should_operate src dst =
     map (\<lambda>i. if should_operate ! i
               then (if op_type = ClearSaved \<or> op_type = ClearRegs then 0 else src ! i)
               else dst ! i) [0..<NumRegisters]"

definition Execute_SaveRestoreRegisterMask ::
  "SaveRestoreRegisterOpType \<Rightarrow> bool list \<Rightarrow> 'e DmntCheatVm \<Rightarrow> 'e DmntCheatVm" where
  "Execute_SaveRestoreRegisterMask op_type should_operate v =
     (if op_type = ClearSaved \<or> op_type = Save
      then v\<lparr> saved_values := masked_copy op_type should_operate (registers v) (saved_values v) \<rparr>
      else v\<lparr> registers := masked_copy op_type should_operate (saved_values v) (registers v) \<rparr>)"

definition Execute_ReadWriteStaticRegister :: "u32 \<Rightarrow> u32 \<Rightarrow> 'e DmntCheatVm \<Rightarrow> 'e DmntCheatVm" where
  "Execute_ReadWriteStaticRegister static_idx idx v =
     (if unat static_idx < NumReadableStaticRegisters
      then set_reg idx (static_registers v ! unat static_idx) v
      else v\<lparr> static_registers := (static_registers v)[unat static_idx := reg v idx] \<rparr>)"

definition Execute_DebugLog ::
  "'e Callbacks \<Rightarrow> CheatProcessMetadata \<Rightarrow> u32 \<Rightarrow> u32 \<Rightarrow> DebugLogValueType \<Rightarrow> MemoryAccessType \<Rightarrow>
   u32 \<Rightarrow> u32 \<Rightarrow> u32 \<Rightarrow> u64 \<Rightarrow> 'e DmntCheatVm \<Rightarrow> 'e DmntCheatVm" where
  "Execute_DebugLog cb md bit_width log_id val_type mem_type addr_reg val_reg ofs_reg rel_address v =
     (let (log_value, v1) =
            (case val_type of
               Log_RegisterValue \<Rightarrow> (register_at_width bit_width (reg v val_reg), v)
             | Log_MemoryRelAddr \<Rightarrow>
                 read_memory cb (GetCheatProcessAddress md mem_type rel_address) 0 bit_width v
             | Log_MemoryOfsReg \<Rightarrow>
                 read_memory cb (GetCheatProcessAddress md mem_type (reg v ofs_reg)) 0 bit_width v
             | Log_RegisterRelAddr \<Rightarrow> read_memory cb (reg v addr_reg + rel_address) 0 bit_width v
             | Log_RegisterOfsReg \<Rightarrow> read_memory cb (reg v addr_reg + reg v ofs_reg) 0 bit_width v
             | DebugLogValueType_Other _ \<Rightarrow> read_memory cb 0 0 bit_width v)
      in v1\<lparr> env := DebugLog cb (ucast log_id) log_value (env v1) \<rparr>)"

section \<open>The interpreter\<close>

fun Execute_opcode ::
  "'e Callbacks \<Rightarrow> CheatProcessMetadata \<Rightarrow> u64 \<Rightarrow> CheatVmOpcode \<Rightarrow> 'e DmntCheatVm \<Rightarrow>
   vm_error + 'e DmntCheatVm" where
  "Execute_opcode cb md kDown (StoreStaticOpcode w m ofs rel val) v =
     Inr (Execute_StoreStatic cb md w m ofs rel val v)"
| "Execute_opcode cb md kDown (BeginConditionalOpcode w m c rel val) v =
     Execute_BeginConditional cb md w m c rel val v"
| "Execute_opcode cb md kDown (EndConditionalOpcode is_else) v = Execute_EndConditional is_else v"
| "Execute_opcode cb md kDown (ControlLoopOpcode start r n) v = Inr (Execute_ControlLoop start r n v)"
| "Execute_opcode cb md kDown (LoadRegisterStaticOpcode r val) v = Inr (Execute_LoadRegisterStatic r val v)"
| "Execute_opcode cb md kDown (LoadRegisterMemoryOpcode w m r from_reg rel) v =
     Inr (Execute_LoadRegisterMemory cb md w m r from_reg rel v)"
| "Execute_opcode cb md kDown (StoreStaticToAddressOpcode w r inc add ofs val) v =
     Inr (Execute_StoreStaticToAddress cb w r inc add ofs val v)"
| "Execute_opcode cb md kDown (PerformArithmeticStaticOpcode w r mt val) v =
     Execute_PerformArithmeticStatic w r mt val v"
| "Execute_opcode cb md kDown (BeginKeypressConditionalOpcode m) v =
     Execute_BeginKeypressConditional m kDown v"
| "Execute_opcode cb md kDown (PerformArithmeticRegisterOpcode w mt dst s1 s2 imm val) v =
     Execute_PerformArithmeticRegister w mt dst s1 s2 imm val v"
| "Execute_opcode cb md kDown (StoreRegisterToAddressOpcode w str addr inc ot m ofs rel) v =
     Inr (Execute_StoreRegisterToAddress cb md w str addr inc ot m ofs rel v)"
| "Execute_opcode cb md kDown (BeginRegisterConditionalOpcode w c vr ct m addr oth ofs rel val) v =
     Execute_BeginRegisterConditional cb md w c vr ct m addr oth ofs rel val v"
| "Execute_opcode cb md kDown (SaveRestoreRegisterOpcode dst src ot) v =
     Inr (Execute_SaveRestoreRegister dst src ot v)"
| "Execute_opcode cb md kDown (SaveRestoreRegisterMaskOpcode ot act) v =
     Inr (Execute_SaveRestoreRegisterMask ot act v)"
| "Execute_opcode cb md kDown (ReadWriteStaticRegisterOpcode st idx) v =
     Inr (Execute_ReadWriteStaticRegister st idx v)"
| "Execute_opcode cb md kDown PauseProcessOpcode v = Inr (v\<lparr> env := PauseProcess cb (env v) \<rparr>)"
| "Execute_opcode cb md kDown ResumeProcessOpcode v = Inr (v\<lparr> env := ResumeProcess cb (env v) \<rparr>)"
| "Execute_opcode cb md kDown (DebugLogOpcode w lid vt m addr vr ofs rel) v =
     Inr (Execute_DebugLog cb md w lid vt m addr vr ofs rel v)"
| "Execute_opcode cb md kDown (UnrecognizedInstruction t) v = Inr v"

text \<open>What \<^verbatim>\<open>Execute\<close> logs before it runs an opcode.\<close>

definition trace_lines :: "CheatVmOpcode \<Rightarrow> 'e DmntCheatVm \<Rightarrow> string list" where
  "trace_lines opc v =
     [''Instruction Ptr: '' @ fmt_0X 4 (word_of_nat (instruction_ptr v) :: u32)] @
     map (\<lambda>i. ''Registers['' @ fmt_0X 2 (word_of_nat i :: u64) @ '']: '' @ fmt_0X 16 (registers v ! i))
       [0..<NumRegisters] @
     map (\<lambda>i. ''SavedRegs['' @ fmt_0X 2 (word_of_nat i :: u64) @ '']: '' @ fmt_0X 16 (saved_values v ! i))
       [0..<NumRegisters] @
     LogOpcode opc"

text \<open>One turn of the loop body, after a successful decode.\<close>

definition Execute_step ::
  "'e Callbacks \<Rightarrow> CheatProcessMetadata \<Rightarrow> u64 \<Rightarrow> CheatVmOpcode \<Rightarrow> bool \<Rightarrow> 'e DmntCheatVm \<Rightarrow>
   vm_error + 'e DmntCheatVm" where
  "Execute_step cb md kDown opc begins v =
     (let v1 = log_lines cb (trace_lines opc v) v;
          v2 = (if begins then v1\<lparr> condition_depth := condition_depth v1 + 1 \<rparr> else v1)
      in Execute_opcode cb md kDown opc v2)"

text \<open>
  The loop may run forever (a program can jump back without bound), so it takes fuel:
  \<open>None\<close> when the fuel runs out, otherwise the error or the final machine.
\<close>

primrec Execute_loop ::
  "nat \<Rightarrow> 'e Callbacks \<Rightarrow> CheatProcessMetadata \<Rightarrow> u64 \<Rightarrow> 'e DmntCheatVm \<Rightarrow>
   (vm_error + 'e DmntCheatVm) option" where
  "Execute_loop 0 cb md kDown v = None"
| "Execute_loop (Suc fuel) cb md kDown v =
     (case DecodeNextOpcode v of
        (None, v1) \<Rightarrow> Some (Inr v1)
      | (Some (opc, begins), v1) \<Rightarrow>
          (case Execute_step cb md kDown opc begins v1 of
             Inl e \<Rightarrow> Some (Inl e)
           | Inr v2 \<Rightarrow> Execute_loop fuel cb md kDown v2))"

definition start_lines :: "CheatProcessMetadata \<Rightarrow> u64 \<Rightarrow> string list" where
  "start_lines md kDown =
     [''Started VM execution.'',
      ''Main NSO:  '' @ fmt_0X 12 (base (main_nso_extents md)),
      ''Heap:      '' @ fmt_0X 12 (base (main_nso_extents md)),
      ''Keys Down: '' @ fmt_0X 8 (ucast (kDown AND 0x0FFFFFFF) :: u32)]"

definition Execute ::
  "nat \<Rightarrow> 'e Callbacks \<Rightarrow> CheatProcessMetadata \<Rightarrow> 'e DmntCheatVm \<Rightarrow> (vm_error + 'e DmntCheatVm) option" where
  "Execute fuel cb md v =
     (let (kDown, e) = HidKeysDown cb (env v);
          v1 = log_lines cb (start_lines md kDown) (v\<lparr> env := e \<rparr>)
      in Execute_loop fuel cb md kDown (ResetState v1))"

end
