(* ===== verification/DmntCheatSafety.thy ===== *)
theory DmntCheatSafety
  imports DmntCheatVm
begin

text \<open>
  What running a cheat program can and cannot do to the virtual machine: the arrays keep
  their sizes, the program and the read-only half of the static registers never change,
  a program without loop ends always finishes within one step per word, the only opcode
  that reaches the interpreter's fatal error is an \<^verbatim>\<open>else\<close> outside every conditional, and
  \<^verbatim>\<open>LoadProgram\<close> concatenates the enabled entries.
\<close>

unbundle bit_operations_syntax

section \<open>Frames\<close>

text \<open>
  \<open>vm_frame v v'\<close>: the machine \<open>v'\<close> still has its array sizes, and the program and the
  read-only static registers of \<open>v\<close>.
\<close>

definition vm_frame :: "'e DmntCheatVm \<Rightarrow> 'e DmntCheatVm \<Rightarrow> bool" where
  "vm_frame v v' \<longleftrightarrow>
     vm_wf v' \<and> program v' = program v \<and> num_opcodes v' = num_opcodes v \<and>
     take NumReadableStaticRegisters (static_registers v') =
     take NumReadableStaticRegisters (static_registers v)"

lemma vm_frame_refl: "vm_wf v \<Longrightarrow> vm_frame v v"
  by (simp add: vm_frame_def)

lemma vm_frame_trans: "vm_frame u v \<Longrightarrow> vm_frame v w \<Longrightarrow> vm_frame u w"
  by (simp add: vm_frame_def)

lemma vm_frame_wf: "vm_frame u v \<Longrightarrow> vm_wf v"
  by (simp add: vm_frame_def)

lemma vm_wf_updates [simp]:
  "vm_wf (v\<lparr> instruction_ptr := i \<rparr>) = vm_wf v" "vm_wf (v\<lparr> condition_depth := d \<rparr>) = vm_wf v"
  "vm_wf (v\<lparr> decode_success := b \<rparr>) = vm_wf v" "vm_wf (v\<lparr> env := e \<rparr>) = vm_wf v"
  by (simp_all add: vm_wf_def)

lemma vm_frame_updates [simp]:
  "vm_frame u (v\<lparr> instruction_ptr := i \<rparr>) = vm_frame u v"
  "vm_frame u (v\<lparr> condition_depth := d \<rparr>) = vm_frame u v"
  "vm_frame u (v\<lparr> decode_success := b \<rparr>) = vm_frame u v"
  "vm_frame u (v\<lparr> env := e \<rparr>) = vm_frame u v"
  by (simp_all add: vm_frame_def)

lemma vm_frame_arrays:
  "vm_frame u v \<Longrightarrow> length xs = NumRegisters \<Longrightarrow> vm_frame u (v\<lparr> registers := xs \<rparr>)"
  "vm_frame u v \<Longrightarrow> length xs = NumRegisters \<Longrightarrow> vm_frame u (v\<lparr> saved_values := xs \<rparr>)"
  "vm_frame u v \<Longrightarrow> length ys = NumRegisters \<Longrightarrow> vm_frame u (v\<lparr> loop_tops := ys \<rparr>)"
  by (auto simp: vm_frame_def vm_wf_def)

lemma vm_frame_lengths:
  "vm_frame u v \<Longrightarrow> length (registers v) = NumRegisters"
  "vm_frame u v \<Longrightarrow> length (saved_values v) = NumRegisters"
  "vm_frame u v \<Longrightarrow> length (loop_tops v) = NumRegisters"
  by (simp_all add: vm_frame_def vm_wf_def)

lemma vm_frame_set_reg [simp]: "vm_frame u v \<Longrightarrow> vm_frame u (set_reg i x v)"
  by (simp add: set_reg_def vm_frame_arrays vm_frame_lengths)

lemma vm_frame_write_memory [simp]: "vm_frame u (write_memory cb a x w v) = vm_frame u v"
  by (simp add: write_memory_def)

lemma vm_frame_read_memory [simp]: "vm_frame u (snd (read_memory cb a x w v)) = vm_frame u v"
  by (simp add: read_memory_def case_prod_unfold Let_def)

lemma vm_frame_log_lines [simp]: "vm_frame u (log_lines cb ls v) = vm_frame u v"
  by (simp add: log_lines_def)

lemma vm_frame_ResetState: "vm_frame u v \<Longrightarrow> vm_frame u (ResetState v)"
  by (simp add: ResetState_def vm_frame_arrays)

text \<open>The instruction pointer and the other control fields under the memory helpers.\<close>

lemma control_set_reg [simp]:
  "instruction_ptr (set_reg i x v) = instruction_ptr v"
  "condition_depth (set_reg i x v) = condition_depth v"
  "num_opcodes (set_reg i x v) = num_opcodes v" "program (set_reg i x v) = program v"
  "loop_tops (set_reg i x v) = loop_tops v" "decode_success (set_reg i x v) = decode_success v"
  by (simp_all add: set_reg_def)

lemma control_write_memory [simp]:
  "instruction_ptr (write_memory cb a x w v) = instruction_ptr v"
  "condition_depth (write_memory cb a x w v) = condition_depth v"
  by (simp_all add: write_memory_def)

lemma control_read_memory [simp]:
  "instruction_ptr (snd (read_memory cb a x w v)) = instruction_ptr v"
  "condition_depth (snd (read_memory cb a x w v)) = condition_depth v"
  by (simp_all add: read_memory_def case_prod_unfold Let_def)

lemma control_log_lines [simp]:
  "instruction_ptr (log_lines cb ls v) = instruction_ptr v"
  "condition_depth (log_lines cb ls v) = condition_depth v"
  by (simp_all add: log_lines_def)

section \<open>Decoding and skipping within the frame\<close>

lemma Decode_frame_Some:
  assumes "DecodeNextOpcode v = (Some (opc, b), v')" "vm_frame u v"
  shows "vm_frame u v'" "instruction_ptr v < instruction_ptr v'" "instruction_ptr v < num_opcodes v"
    "condition_depth v' = condition_depth v" "opcode_in_bounds opc"
  using assms by (auto elim!: DecodeNextOpcode_Some simp: Decode_opcode_in_bounds)

lemma Decode_frame_None:
  assumes "DecodeNextOpcode v = (None, v')" "vm_frame u v"
  shows "vm_frame u v'" "instruction_ptr v \<le> instruction_ptr v'"
  using assms by (auto elim!: DecodeNextOpcode_None)

lemma Skip_loop_frame:
  "vm_frame u v \<Longrightarrow>
   vm_frame u (Skip_loop is_if d v) \<and> instruction_ptr v \<le> instruction_ptr (Skip_loop is_if d v)"
proof (induction is_if d v rule: Skip_loop.induct)
  case (1 is_if d v)
  show ?case
  proof (cases "d < condition_depth v")
    case False
    then show ?thesis using 1 by (subst (1 2) Skip_loop.simps) simp
  next
    case True
    obtain res v1 where D: "DecodeNextOpcode v = (res, v1)" by (cases "DecodeNextOpcode v")
    show ?thesis
    proof (cases res)
      case None
      then show ?thesis
        using Decode_frame_None [OF D [unfolded None] "1.prems"] True D by (subst (1 2) Skip_loop.simps) simp
    next
      case (Some a)
      obtain opc b where a: "a = (opc, b)" by (cases a)
      note f = Decode_frame_Some [OF D [unfolded Some a] "1.prems"]
      note ih = "1.IH" [OF True D [symmetric] Some a [symmetric]]
      show ?thesis
        using True D Some a f ih by (subst (1 2) Skip_loop.simps) (cases opc; force)
    qed
  qed
qed

lemma SkipConditionalBlock_frame:
  assumes "SkipConditionalBlock is_if v = Inr v'" "vm_frame u v"
  shows "vm_frame u v' \<and> instruction_ptr v \<le> instruction_ptr v'"
  using assms Skip_loop_frame [of u v] by (auto simp: SkipConditionalBlock_def split: if_splits)

section \<open>One opcode\<close>

lemmas execute_plain_defs = Execute_StoreStatic_def Execute_ControlLoop_def
  Execute_LoadRegisterStatic_def Execute_LoadRegisterMemory_def Execute_StoreStaticToAddress_def
  Execute_PerformArithmeticStatic_def Execute_PerformArithmeticRegister_def
  Execute_StoreRegisterToAddress_def Execute_SaveRestoreRegister_def
  Execute_SaveRestoreRegisterMask_def Execute_DebugLog_def

lemma masked_copy_length [simp]: "length (masked_copy t ms xs ys) = NumRegisters"
  by (simp add: masked_copy_def)

lemma vm_frame_static:
  "vm_frame u v \<Longrightarrow> NumReadableStaticRegisters \<le> i \<Longrightarrow>
   vm_frame u (v\<lparr> static_registers := (static_registers v)[i := x] \<rparr>)"
  by (auto simp: vm_frame_def vm_wf_def)

lemma frame_stores:
  "vm_frame u v \<Longrightarrow> vm_frame u (Execute_StoreStatic cb md w m ofs rel val v)"
  "vm_frame u v \<Longrightarrow> vm_frame u (Execute_StoreStaticToAddress cb w r inc add ofs val v)"
  "vm_frame u v \<Longrightarrow> vm_frame u (Execute_StoreRegisterToAddress cb md w str addr inc ot m ofs rel v)"
  "instruction_ptr (Execute_StoreStatic cb md w m ofs rel val v) = instruction_ptr v"
  "instruction_ptr (Execute_StoreStaticToAddress cb w r inc add ofs val v) = instruction_ptr v"
  "instruction_ptr (Execute_StoreRegisterToAddress cb md w str addr inc ot m ofs rel v) = instruction_ptr v"
  by (simp_all add: Execute_StoreStatic_def Execute_StoreStaticToAddress_def
      Execute_StoreRegisterToAddress_def Let_def)

lemma frame_loads:
  "vm_frame u v \<Longrightarrow> vm_frame u (Execute_LoadRegisterStatic r val v)"
  "vm_frame u v \<Longrightarrow> vm_frame u (Execute_LoadRegisterMemory cb md w m r from_reg rel v)"
  "instruction_ptr (Execute_LoadRegisterStatic r val v) = instruction_ptr v"
  "instruction_ptr (Execute_LoadRegisterMemory cb md w m r from_reg rel v) = instruction_ptr v"
  by (simp_all add: Execute_LoadRegisterStatic_def Execute_LoadRegisterMemory_def Let_def case_prod_unfold)

lemma frame_loop:
  "vm_frame u v \<Longrightarrow> vm_frame u (Execute_ControlLoop start r n v)"
  "start \<Longrightarrow> instruction_ptr (Execute_ControlLoop start r n v) = instruction_ptr v"
  by (simp_all add: Execute_ControlLoop_def Let_def vm_frame_arrays vm_frame_lengths)

lemma frame_registers:
  "vm_frame u v \<Longrightarrow> vm_frame u (Execute_SaveRestoreRegister d s t v)"
  "vm_frame u v \<Longrightarrow> vm_frame u (Execute_SaveRestoreRegisterMask t act v)"
  "vm_frame u v \<Longrightarrow> vm_frame u (Execute_ReadWriteStaticRegister st idx v)"
  "instruction_ptr (Execute_SaveRestoreRegister d s t v) = instruction_ptr v"
  "instruction_ptr (Execute_SaveRestoreRegisterMask t act v) = instruction_ptr v"
  "instruction_ptr (Execute_ReadWriteStaticRegister st idx v) = instruction_ptr v"
  by (simp_all add: Execute_SaveRestoreRegister_def Execute_SaveRestoreRegisterMask_def
      Execute_ReadWriteStaticRegister_def vm_frame_arrays vm_frame_lengths vm_frame_static
      split: SaveRestoreRegisterOpType.split)

lemma frame_debug_log:
  "vm_frame u v \<Longrightarrow> vm_frame u (Execute_DebugLog cb md w lid vt m addr vr ofs rel v)"
  "instruction_ptr (Execute_DebugLog cb md w lid vt m addr vr ofs rel v) = instruction_ptr v"
  by (simp_all add: Execute_DebugLog_def case_prod_unfold Let_def split: DebugLogValueType.split)

lemma frame_arithmetic:
  "Execute_PerformArithmeticStatic w r mt val v = Inr v' \<Longrightarrow> vm_frame u v \<Longrightarrow>
     vm_frame u v' \<and> instruction_ptr v' = instruction_ptr v"
  "Execute_PerformArithmeticRegister w mt d s1 s2 imm x v = Inr v' \<Longrightarrow> vm_frame u v \<Longrightarrow>
     vm_frame u v' \<and> instruction_ptr v' = instruction_ptr v"
  by (auto simp: Execute_PerformArithmeticStatic_def Execute_PerformArithmeticRegister_def Let_def
      split: sum.splits)

lemma frame_conditional:
  "(if c then SkipConditionalBlock is_if v else Inr v) = Inr v' \<Longrightarrow> vm_frame u v \<Longrightarrow>
     vm_frame u v' \<and> instruction_ptr v \<le> instruction_ptr v'"
  by (auto simp: SkipConditionalBlock_frame split: if_splits)

lemma frame_conditionals:
  "Execute_BeginConditional cb md w m c rel val v = Inr v' \<Longrightarrow> vm_frame u v \<Longrightarrow>
     vm_frame u v' \<and> instruction_ptr v \<le> instruction_ptr v'"
  "Execute_BeginKeypressConditional key k v = Inr v' \<Longrightarrow> vm_frame u v \<Longrightarrow>
     vm_frame u v' \<and> instruction_ptr v \<le> instruction_ptr v'"
  "Execute_EndConditional is_else v = Inr v' \<Longrightarrow> vm_frame u v \<Longrightarrow>
     vm_frame u v' \<and> instruction_ptr v \<le> instruction_ptr v'"
  by (auto simp: Execute_BeginConditional_def Execute_BeginKeypressConditional_def
      Execute_EndConditional_def case_prod_unfold Let_def split: if_splits
      dest!: SkipConditionalBlock_frame [where u = u])

lemma compare_operand_frame:
  assumes "vm_frame u v"
  shows "vm_frame u (snd (case ct of
               StaticValue \<Rightarrow> (x, v) | OtherRegister \<Rightarrow> (y, v)
             | MemoryRelAddr \<Rightarrow> read_memory cb a1 0 w v | MemoryOfsReg \<Rightarrow> read_memory cb a2 0 w v
             | RegisterRelAddr \<Rightarrow> read_memory cb a3 0 w v | RegisterOfsReg \<Rightarrow> read_memory cb a4 0 w v
             | CompareRegisterValueType_Other _ \<Rightarrow> read_memory cb 0 0 w v))"
    "instruction_ptr (snd (case ct of
               StaticValue \<Rightarrow> (x, v) | OtherRegister \<Rightarrow> (y, v)
             | MemoryRelAddr \<Rightarrow> read_memory cb a1 0 w v | MemoryOfsReg \<Rightarrow> read_memory cb a2 0 w v
             | RegisterRelAddr \<Rightarrow> read_memory cb a3 0 w v | RegisterOfsReg \<Rightarrow> read_memory cb a4 0 w v
             | CompareRegisterValueType_Other _ \<Rightarrow> read_memory cb 0 0 w v)) = instruction_ptr v"
  using assms by (cases ct; simp)+

lemma frame_register_conditional:
  assumes "Execute_BeginRegisterConditional cb md w c vr ct m addr oth ofs rel val v = Inr v'" "vm_frame u v"
  shows "vm_frame u v' \<and> instruction_ptr v \<le> instruction_ptr v'"
  using frame_conditional [OF assms(1) [unfolded Execute_BeginRegisterConditional_def Let_def case_prod_unfold]]
    compare_operand_frame [OF assms(2)] by metis

text \<open>Every opcode stays in the frame, and only the end of a loop moves backwards.\<close>

fun loop_end :: "CheatVmOpcode \<Rightarrow> bool" where
  "loop_end (ControlLoopOpcode start r n) = (\<not> start)"
| "loop_end _ = False"

lemma Execute_opcode_frame:
  assumes "Execute_opcode cb md k opc v = Inr v'" "vm_frame u v"
  shows "vm_frame u v' \<and> (\<not> loop_end opc \<longrightarrow> instruction_ptr v \<le> instruction_ptr v')"
  using assms
  by (cases opc)
    (auto simp: frame_stores frame_loads frame_loop frame_registers frame_debug_log
      dest: frame_arithmetic frame_conditionals frame_register_conditional)

lemma Execute_step_frame:
  assumes "Execute_step cb md k opc b v = Inr v'" "vm_frame u v"
  shows "vm_frame u v' \<and> (\<not> loop_end opc \<longrightarrow> instruction_ptr v \<le> instruction_ptr v')"
  using Execute_opcode_frame [OF assms(1) [unfolded Execute_step_def Let_def], of u] assms(2)
  by (cases b) simp_all

section \<open>Whole runs\<close>

lemma Execute_loop_frame:
  "Execute_loop fuel cb md k v = Some (Inr v') \<Longrightarrow> vm_frame u v \<Longrightarrow> vm_frame u v'"
proof (induction fuel arbitrary: v)
  case (Suc fuel)
  obtain res v1 where D: "DecodeNextOpcode v = (res, v1)" by (cases "DecodeNextOpcode v")
  show ?case
  proof (cases res)
    case None
    then show ?thesis using Suc.prems D Decode_frame_None(1) [OF D [unfolded None]] by simp
  next
    case (Some a)
    obtain opc b where a: "a = (opc, b)" by (cases a)
    note f = Decode_frame_Some [OF D [unfolded Some a] Suc.prems(2)]
    show ?thesis
      using Suc D Some a Execute_step_frame [of cb md k opc b v1 _ u] f(1)
      by (auto split: sum.splits)
  qed
qed simp

lemma Execute_loop_more_fuel:
  "Execute_loop fuel cb md k v = Some r \<Longrightarrow> Execute_loop (fuel + extra) cb md k v = Some r"
  by (induction fuel arbitrary: v) (auto split: option.splits prod.splits sum.splits)

text \<open>
  A program is straight-line when no word of it decodes to the end of a loop, whatever
  position decoding starts from.
\<close>

definition straight_line :: "'e DmntCheatVm \<Rightarrow> bool" where
  "straight_line v \<longleftrightarrow>
     list_all (\<lambda>i. case DecodeNextOpcode (v\<lparr> instruction_ptr := i, decode_success := True \<rparr>) of
                     (Some (opc, b), v') \<Rightarrow> \<not> loop_end opc
                   | (None, v') \<Rightarrow> True) [0..<num_opcodes v]"

text \<open>Decoding reads only the program, its length, the instruction pointer and the status.\<close>

lemma GetNextDword_cong:
  "program u = program v \<Longrightarrow> num_opcodes u = num_opcodes v \<Longrightarrow> GetNextDword u = GetNextDword v"
  by (simp add: GetNextDword_def fun_eq_iff)

lemma Decode_opcode_cong:
  assumes "program u = program v" "num_opcodes u = num_opcodes v"
  shows "Decode_opcode u = Decode_opcode v"
proof -
  note d = GetNextDword_cong [OF assms]
  have "GetNextVmInt u = GetNextVmInt v" by (intro ext) (simp only: GetNextVmInt_def d)
  then show ?thesis by (intro ext) (simp only: Decode_opcode_def decode_case_defs d)
qed

lemma Decode_result_cong:
  assumes "program u = program v" "num_opcodes u = num_opcodes v"
    "instruction_ptr u = instruction_ptr v" "decode_success u = decode_success v"
  shows "fst (DecodeNextOpcode u) = fst (DecodeNextOpcode v)"
  using assms by (simp add: DecodeNextOpcode_def GetNextDword_cong [OF assms(1,2)]
      Decode_opcode_cong [OF assms(1,2)] Let_def case_prod_unfold)

lemma straight_line_decode:
  assumes "straight_line u" "vm_frame u v" "DecodeNextOpcode v = (Some (opc, b), v')"
  shows "\<not> loop_end opc"
proof -
  let ?i = "instruction_ptr v"
  have ok: "decode_success v" using assms(3) by (auto elim: DecodeNextOpcode_Some)
  have ip: "?i < num_opcodes u"
    using Decode_frame_Some(3) [OF assms(3,2)] assms(2) by (simp add: vm_frame_def)
  have "fst (DecodeNextOpcode (u\<lparr> instruction_ptr := ?i, decode_success := True \<rparr>)) = Some (opc, b)"
    using Decode_result_cong [of "u\<lparr> instruction_ptr := ?i, decode_success := True \<rparr>" v]
      assms(2,3) ok by (simp add: vm_frame_def)
  with assms(1) ip show ?thesis
    by (fastforce simp: straight_line_def list_all_iff case_prod_unfold split: option.splits)
qed

lemma Execute_loop_terminates:
  "straight_line u \<Longrightarrow> vm_frame u v \<Longrightarrow> num_opcodes u - instruction_ptr v < fuel \<Longrightarrow>
   \<exists>r. Execute_loop fuel cb md k v = Some r"
proof (induction fuel arbitrary: v)
  case (Suc fuel)
  obtain res v1 where D: "DecodeNextOpcode v = (res, v1)" by (cases "DecodeNextOpcode v")
  show ?case
  proof (cases res)
    case None
    then show ?thesis using D by simp
  next
    case (Some a)
    obtain opc b where a: "a = (opc, b)" by (cases a)
    note f = Decode_frame_Some [OF D [unfolded Some a] Suc.prems(2)]
    note n = straight_line_decode [OF Suc.prems(1,2) D [unfolded Some a]]
    show ?thesis
    proof (cases "Execute_step cb md k opc b v1")
      case (Inl e)
      then show ?thesis using D Some a by simp
    next
      case (Inr v2)
      from Execute_step_frame [OF Inr f(1)] n
      have g: "vm_frame u v2" "instruction_ptr v1 \<le> instruction_ptr v2" by auto
      have "num_opcodes v = num_opcodes u" using Suc.prems(2) by (simp add: vm_frame_def)
      then have "num_opcodes u - instruction_ptr v2 < fuel" using f(2,3) g(2) Suc.prems(3) by linarith
      from Suc.IH [OF Suc.prems(1) g(1) this] show ?thesis using D Some a Inr by simp
    qed
  qed
qed simp

section \<open>Loading\<close>

lemma LoadProgram_copy_eq:
  assumes "num_opcodes v + k \<le> length (program v)" "n + k \<le> length ops"
  shows "LoadProgram_copy k n ops v =
    v\<lparr> program := take (num_opcodes v) (program v) @ take k (drop n ops) @ drop (num_opcodes v + k) (program v),
      num_opcodes := num_opcodes v + k \<rparr>"
  using assms
proof (induction k arbitrary: n v)
  case (Suc k)
  let ?v = "v\<lparr> program := (program v)[num_opcodes v := ops ! n], num_opcodes := num_opcodes v + 1 \<rparr>"
  have "take k (drop (Suc n) ops) = take k (drop 1 (drop n ops))" by simp
  moreover have "drop n ops = ops ! n # drop (Suc n) ops" using Suc.prems by (simp add: Cons_nth_drop_Suc)
  moreover have "take (Suc (num_opcodes v)) ((program v)[num_opcodes v := ops ! n]) =
      take (num_opcodes v) (program v) @ [ops ! n]"
    using Suc.prems by (simp add: take_Suc_conv_app_nth)
  moreover have "LoadProgram_copy k (Suc n) ops ?v =
    ?v\<lparr> program := take (num_opcodes ?v) (program ?v) @ take k (drop (Suc n) ops) @
        drop (num_opcodes ?v + k) (program ?v), num_opcodes := num_opcodes ?v + k \<rparr>"
    using Suc.prems by (intro Suc.IH) auto
  ultimately show ?case by simp
qed simp

definition entry_ok :: "CheatEntry \<Rightarrow> bool" where
  "entry_ok e \<longleftrightarrow> unat (def_num_opcodes (cheat_def e)) \<le> length (opcodes (cheat_def e))"

text \<open>The words of the enabled entries, in order.\<close>

definition enabled_words :: "CheatEntry list \<Rightarrow> u32 list" where
  "enabled_words es =
     concat (map (\<lambda>e. take (unat (def_num_opcodes (cheat_def e))) (opcodes (cheat_def e)))
               (filter enabled es))"

lemma LoadProgram_loop_eq:
  assumes "list_all entry_ok es" "length (program v) = MaximumProgramOpcodeCount"
    "num_opcodes v \<le> MaximumProgramOpcodeCount"
  shows "if num_opcodes v + length (enabled_words es) \<le> MaximumProgramOpcodeCount
    then LoadProgram_loop es v = (True,
       v\<lparr> program := take (num_opcodes v) (program v) @ enabled_words es @
           drop (num_opcodes v + length (enabled_words es)) (program v),
         num_opcodes := num_opcodes v + length (enabled_words es) \<rparr>)
    else fst (LoadProgram_loop es v) = False \<and> num_opcodes (snd (LoadProgram_loop es v)) = 0"
  using assms
proof (induction es arbitrary: v)
  case Nil
  then show ?case by (simp add: enabled_words_def)
next
  case (Cons e es)
  let ?k = "unat (def_num_opcodes (cheat_def e))"
  let ?ops = "opcodes (cheat_def e)"
  let ?v = "LoadProgram_copy ?k 0 ?ops v"
  have es: "list_all entry_ok es" and "entry_ok e" using Cons.prems(1) by simp_all
  then have k: "?k \<le> length ?ops" by (simp add: entry_ok_def)
  show ?case
  proof (cases "enabled e")
    case False
    then have "enabled_words (e # es) = enabled_words es" by (simp add: enabled_words_def)
    with False Cons.IH [OF es Cons.prems(2,3)] show ?thesis by simp
  next
    case True
    then have w: "enabled_words (e # es) = take ?k ?ops @ enabled_words es"
      by (simp add: enabled_words_def)
    show ?thesis
    proof (cases "?k + num_opcodes v > MaximumProgramOpcodeCount")
      case big: True
      then show ?thesis using True w k by simp
    next
      case False
      have v: "?v = v\<lparr> program := take (num_opcodes v) (program v) @ take ?k ?ops @
          drop (num_opcodes v + ?k) (program v), num_opcodes := num_opcodes v + ?k \<rparr>"
        using LoadProgram_copy_eq [of v ?k 0 ?ops] False k Cons.prems(2) by simp
      have "length (program ?v) = MaximumProgramOpcodeCount" "num_opcodes ?v \<le> MaximumProgramOpcodeCount"
        using v k False Cons.prems(2) by auto
      note ih = Cons.IH [OF es this]
      let ?n = "num_opcodes v + ?k"
      let ?m = "length (enabled_words es)"
      have n: "num_opcodes ?v = ?n" using v by simp
      have l: "num_opcodes v + length (enabled_words (e # es)) = ?n + ?m" using w k by simp
      have t: "take ?n (program ?v) = take (num_opcodes v) (program v) @ take ?k ?ops"
        using v k False Cons.prems(2) by simp
      have d: "drop (?n + ?m) (program ?v) = drop (?n + ?m) (program v)"
        using v k False Cons.prems(2) by (simp add: add_ac)
      have u: "?v\<lparr> program := ps, num_opcodes := j \<rparr> = v\<lparr> program := ps, num_opcodes := j \<rparr>" for ps j
        using v by simp
      have s: "LoadProgram_loop (e # es) v = LoadProgram_loop es ?v" using True False by simp
      show ?thesis
        using ih [unfolded n t d u append_assoc] unfolding s l unfolding w append_assoc .
    qed
  qed
qed

section \<open>Where the interpreter gives up\<close>

lemma SkipConditionalBlock_total: "0 < condition_depth v \<Longrightarrow> SkipConditionalBlock b v \<noteq> Inl err"
  by (simp add: SkipConditionalBlock_def)

lemma conditionals_total:
  "0 < condition_depth v \<Longrightarrow> Execute_BeginConditional cb md w m c rel val v \<noteq> Inl err"
  "0 < condition_depth v \<Longrightarrow> Execute_BeginKeypressConditional key k v \<noteq> Inl err"
  "0 < condition_depth v \<Longrightarrow>
     Execute_BeginRegisterConditional cb md w c vr ct m addr oth ofs rel val v \<noteq> Inl err"
  by (simp_all add: Execute_BeginConditional_def Execute_BeginKeypressConditional_def
      Execute_BeginRegisterConditional_def case_prod_unfold Let_def SkipConditionalBlock_total
      split: CompareRegisterValueType.split)

lemma arithmetic_no_depth_error:
  "Execute_PerformArithmeticStatic w r mt val v \<noteq> Inl InvalidConditionDepth"
  "Execute_PerformArithmeticRegister w mt d s1 s2 imm x v \<noteq> Inl InvalidConditionDepth"
  by (auto simp: Execute_PerformArithmeticStatic_def Execute_PerformArithmeticRegister_def Let_def
      shift_left_def shift_right_def split: sum.splits RegisterArithmeticType.splits if_splits)

text \<open>The opcodes that open a conditional block, as their flag says.\<close>

fun begins_block :: "CheatVmOpcode \<Rightarrow> bool" where
  "begins_block (BeginConditionalOpcode w m c rel val) = True"
| "begins_block (BeginKeypressConditionalOpcode key) = True"
| "begins_block (BeginRegisterConditionalOpcode w c vr ct m addr oth ofs rel val) = True"
| "begins_block _ = False"

lemma begins_block_decode_cases:
  "\<not> begins_block (fst (Decode_StoreStatic v w r))" "begins_block (fst (Decode_BeginConditional v w r))"
  "\<not> begins_block (fst (Decode_EndConditional w r))" "\<not> begins_block (fst (Decode_ControlLoop v w r))"
  "\<not> begins_block (fst (Decode_LoadRegisterStatic v w r))" "\<not> begins_block (fst (Decode_LoadRegisterMemory v w r))"
  "\<not> begins_block (fst (Decode_StoreStaticToAddress v w r))"
  "\<not> begins_block (fst (Decode_PerformArithmeticStatic v w r))"
  "begins_block (fst (Decode_BeginKeypressConditional w r))"
  "\<not> begins_block (fst (Decode_PerformArithmeticRegister v w r))"
  "\<not> begins_block (fst (Decode_SaveRestoreRegister w r))" "\<not> begins_block (fst (Decode_SaveRestoreRegisterMask w r))"
  "\<not> begins_block (fst (Decode_ReadWriteStaticRegister w r))"
  by (simp_all add: decode_case_defs case_prod_unfold Let_def)

lemma begins_block_decode_operand_cases:
  "\<not> begins_block (fst (Decode_StoreRegisterToAddress v w r))"
  "begins_block (fst (Decode_BeginRegisterConditional v w r))"
  "\<not> begins_block (fst (Decode_DebugLog v w r))"
  by (simp_all add: decode_case_defs case_prod_unfold Let_def
      split: CompareRegisterValueType.split DebugLogValueType.split)

lemma begins_block_decode:
  "begins_block (fst (Decode_opcode v t w r)) = begin_conditional_block t"
  by (simp add: Decode_opcode_def begin_conditional_block_def begins_block_decode_cases
      begins_block_decode_operand_cases)

section \<open>Properties\<close>

text \<open>
  Property C18. A cheat program cannot damage the virtual machine: whatever it does through
  its opcodes, every array of the machine keeps its size (so that all later register accesses
  are in range), the loaded program is unchanged, and the half of the static registers a
  cheat may only read keeps its contents.
\<close>

theorem execute_preserves_machine:
  assumes "vm_wf v" "Execute fuel cb md v = Some (Inr v')"
  shows "vm_wf v' \<and> program v' = program v \<and> num_opcodes v' = num_opcodes v \<and>
    (\<forall>i < NumReadableStaticRegisters. static_registers v' ! i = static_registers v ! i)"
proof -
  have "vm_frame v (ResetState (log_lines cb ls (v\<lparr> env := e \<rparr>)))" for ls e
    using assms(1) by (simp add: vm_frame_ResetState vm_frame_refl)
  from Execute_loop_frame [OF assms(2) [unfolded Execute_def Let_def case_prod_unfold] this]
  have f: "vm_frame v v'" .
  have "static_registers v' ! i = static_registers v ! i" if "i < NumReadableStaticRegisters" for i
    using f that nth_take [of i NumReadableStaticRegisters] unfolding vm_frame_def by metis
  with f show ?thesis by (simp add: vm_frame_def)
qed

text \<open>
  Property C32. A program without loop ends always finishes: from a well-formed machine,
  \<^verbatim>\<open>Execute\<close> returns (normally or through an error of the model) after at most one turn of
  its loop per word of the program, and more fuel does not change the outcome.
\<close>

theorem straight_line_terminates:
  assumes "vm_wf v" "straight_line v"
  shows "\<exists>r. \<forall>extra. Execute (num_opcodes v + 1 + extra) cb md v = Some r"
proof -
  let ?v = "ResetState (log_lines cb (start_lines md (fst (HidKeysDown cb (env v))))
      (v\<lparr> env := snd (HidKeysDown cb (env v)) \<rparr>))"
  have "vm_frame v ?v" using assms(1) by (simp add: vm_frame_ResetState vm_frame_refl)
  then obtain r where "Execute_loop (num_opcodes v + 1) cb md (fst (HidKeysDown cb (env v))) ?v = Some r"
    using Execute_loop_terminates [OF assms(2), of ?v "num_opcodes v + 1"] by fastforce
  then have "Execute (num_opcodes v + 1 + extra) cb md v = Some r" for extra
    using Execute_loop_more_fuel by (fastforce simp: Execute_def Let_def case_prod_unfold)
  then show ?thesis by blast
qed

text \<open>
  The fatal error of the interpreter has one cause: an instruction that decodes
  raises it exactly when it is an \<^verbatim>\<open>else\<close> marker outside every conditional block. The
  conditional opcodes never do, since each enters its block before it may skip it.
\<close>

theorem invalid_condition_depth_iff:
  assumes "DecodeNextOpcode v = (Some (opc, begins), v1)"
  shows "Execute_step cb md k opc begins v1 = Inl InvalidConditionDepth \<longleftrightarrow>
    opc = EndConditionalOpcode True \<and> condition_depth v = 0"
proof -
  have d: "condition_depth v1 = condition_depth v" and b: "begins = begins_block opc"
    using assms by (auto elim!: DecodeNextOpcode_Some simp: begins_block_decode)
  show ?thesis
    using d b by (cases opc)
      (simp_all add: Execute_step_def Let_def Execute_EndConditional_def SkipConditionalBlock_def
        conditionals_total arithmetic_no_depth_error)
qed

text \<open>
  \<^verbatim>\<open>LoadProgram\<close> succeeds exactly when the words of the enabled entries fit the
  program array together, and the program is then their concatenation in order; otherwise no
  program is loaded.
\<close>

theorem load_program_concatenates:
  assumes "list_all entry_ok es" "vm_wf v"
  shows "fst (LoadProgram es v) = (length (enabled_words es) \<le> MaximumProgramOpcodeCount) \<and>
    (if length (enabled_words es) \<le> MaximumProgramOpcodeCount
     then take (GetProgramSize (snd (LoadProgram es v))) (program (snd (LoadProgram es v))) = enabled_words es
     else GetProgramSize (snd (LoadProgram es v)) = 0) \<and>
    (fst (LoadProgram es v) \<longrightarrow> vm_wf (snd (LoadProgram es v)))"
  using LoadProgram_loop_eq [OF assms(1), of "v\<lparr> num_opcodes := 0 \<rparr>"] assms(2)
  by (auto simp: LoadProgram_def GetProgramSize_def vm_wf_def split: if_splits)

text \<open>The program of the last property, and the two states its run alternates between.\<close>

definition diverging_vm :: "'e \<Rightarrow> 'e DmntCheatVm" where
  "diverging_vm e =
     (DmntCheatVm_ctor e)\<lparr> program := [0x40000000, 0, 2, 0x31000000] @ replicate 1020 0, num_opcodes := 4 \<rparr>"

definition loop_head :: "'e DmntCheatVm \<Rightarrow> bool" where
  "loop_head v \<longleftrightarrow>
     take 4 (program v) = [0x40000000, 0, 2, 0x31000000] \<and> num_opcodes v = 4 \<and>
     instruction_ptr v = 0 \<and> decode_success v \<and> length (registers v) = 16 \<and>
     loop_tops v = replicate 16 0"

definition loop_foot :: "'e DmntCheatVm \<Rightarrow> bool" where
  "loop_foot v \<longleftrightarrow>
     take 4 (program v) = [0x40000000, 0, 2, 0x31000000] \<and> num_opcodes v = 4 \<and>
     instruction_ptr v = 3 \<and> decode_success v \<and> length (registers v) = 16 \<and>
     registers v ! 0 = 2 \<and> loop_tops v = replicate 16 0"

lemma diverging_words:
  assumes "take 4 (program v) = [0x40000000, 0, 2, 0x31000000]"
  shows "program v ! 0 = 0x40000000" "program v ! Suc 0 = 0" "program v ! Suc (Suc 0) = 2" "program v ! 3 = 0x31000000"
  using arg_cong [OF assms, of "\<lambda>xs. xs ! 0"] arg_cong [OF assms, of "\<lambda>xs. xs ! 1"]
    arg_cong [OF assms, of "\<lambda>xs. xs ! 2"] arg_cong [OF assms, of "\<lambda>xs. xs ! 3"]
  by (simp_all add: numeral_2_eq_2)

lemma diverging_types:
  "opcode_type 0x40000000 = 4" "opcode_type 0x31000000 = 3"
  "nybble 16 0x40000000 = 0" "nybble 24 0x31000000 = 1" "nybble 20 0x31000000 = 0"
  "begin_conditional_block 4 = False" "begin_conditional_block 3 = False"
  by code_simp+

lemma loop_head_decode:
  assumes "loop_head v"
  shows "DecodeNextOpcode v =
    (Some (LoadRegisterStaticOpcode 0 2, False), v\<lparr> instruction_ptr := 3 \<rparr>)"
  using assms diverging_words [of v]
  by (simp add: loop_head_def DecodeNextOpcode_def GetNextDword_def Decode_opcode_def
      Decode_LoadRegisterStatic_def diverging_types wide_address_def numeral_3_eq_3)

lemma loop_foot_decode:
  assumes "loop_foot v"
  shows "DecodeNextOpcode v =
    (Some (ControlLoopOpcode False 0 0, False), v\<lparr> instruction_ptr := 4 \<rparr>)"
  using assms diverging_words [of v]
  by (simp add: loop_foot_def DecodeNextOpcode_def GetNextDword_def Decode_opcode_def
      Decode_ControlLoop_def diverging_types)

lemma loop_head_step:
  assumes "loop_head v"
  shows "\<exists>v'. Execute_step cb md k (LoadRegisterStaticOpcode 0 2) False (v\<lparr> instruction_ptr := 3 \<rparr>) = Inr v' \<and>
    loop_foot v'"
  using assms by (simp add: loop_head_def loop_foot_def Execute_step_def log_lines_def
      Execute_LoadRegisterStatic_def set_reg_def)

lemma loop_foot_step:
  assumes "loop_foot v"
  shows "\<exists>v'. Execute_step cb md k (ControlLoopOpcode False 0 0) False (v\<lparr> instruction_ptr := 4 \<rparr>) = Inr v' \<and>
    loop_head v'"
  using assms by (simp add: loop_head_def loop_foot_def Execute_step_def log_lines_def
      Execute_ControlLoop_def set_reg_def)

lemma loop_diverges:
  "(loop_head v \<longrightarrow> Execute_loop fuel cb md k v = None) \<and> (loop_foot v \<longrightarrow> Execute_loop fuel cb md k v = None)"
proof (induction fuel arbitrary: v)
  case (Suc fuel)
  show ?case
    using Suc.IH loop_head_decode [of v] loop_foot_decode [of v] loop_head_step [of v cb md k]
      loop_foot_step [of v cb md k] by auto
qed simp

text \<open>
  Property C37. The interpreter has no bound on loops: the four-word program that sets register 0
  to two and then ends a loop on register 0 it never started jumps back to the beginning each
  time, so that \<^verbatim>\<open>Execute\<close> never returns, whatever the callbacks do.
\<close>

theorem cheat_program_can_diverge: "Execute fuel cb md (diverging_vm e) = None"
proof -
  have "loop_head (ResetState (log_lines cb ls ((diverging_vm e)\<lparr> env := e' \<rparr>)))" for ls e'
    by (simp add: loop_head_def ResetState_def log_lines_def diverging_vm_def NumRegisters_def)
  then show ?thesis
    by (simp add: Execute_def case_prod_unfold Let_def loop_diverges [THEN conjunct1, THEN mp])
qed

section \<open>Witnesses\<close>

text \<open>Callbacks that do nothing, and the program that tests for two keys and pauses.\<close>

definition idle_callbacks :: "unit Callbacks" where
  "idle_callbacks =
     \<lparr> MemoryReadUnsafe = (\<lambda>a n e. (replicate n 0, e)), MemoryWriteUnsafe = (\<lambda>a bs e. e),
       HidKeysDown = (\<lambda>e. (0, e)), PauseProcess = (\<lambda>e. e), ResumeProcess = (\<lambda>e. e),
       DebugLog = (\<lambda>i x e. e), CommandLog = (\<lambda>s e. e) \<rparr>"

definition no_metadata :: CheatProcessMetadata where
  "no_metadata =
     (let none = \<lparr> base = 0, ext_size = 0 \<rparr>
      in \<lparr> process_id = 0, title_id = 0, main_nso_extents = none, heap_extents = none,
           alias_extents = none, aslr_extents = none, main_nso_build_id = replicate 32 0 \<rparr>)"

lemma nested_vm_wf: "vm_wf nested_vm"
  by (simp add: nested_vm_def vm_wf_def DmntCheatVm_ctor_def vm_size_defs nested_program_def)

theorem straight_line_terminates_witness:
  "vm_wf nested_vm \<and> straight_line nested_vm \<and>
   (\<exists>r. Execute (num_opcodes nested_vm + 1) idle_callbacks no_metadata nested_vm = Some r)"
proof -
  have s: "straight_line nested_vm" by code_simp
  obtain r where "\<forall>extra. Execute (num_opcodes nested_vm + 1 + extra) idle_callbacks no_metadata nested_vm = Some r"
    using straight_line_terminates [OF nested_vm_wf s] by blast
  then have "Execute (num_opcodes nested_vm + 1 + 0) idle_callbacks no_metadata nested_vm = Some r" by blast
  then show ?thesis using nested_vm_wf s by simp
qed

theorem execute_preserves_machine_witness:
  "\<exists>v'. Execute 8 idle_callbacks no_metadata nested_vm = Some (Inr v') \<and> instruction_ptr v' = 7 \<and>
     vm_wf v' \<and> program v' = program nested_vm"
proof -
  let ?r = "Execute 8 idle_callbacks no_metadata nested_vm"
  have "(case ?r of Some (Inr v') \<Rightarrow> instruction_ptr v' = 7 | _ \<Rightarrow> False)" by code_simp
  then obtain v' where v: "?r = Some (Inr v')" "instruction_ptr v' = 7"
    by (auto split: option.splits sum.splits)
  show ?thesis using v execute_preserves_machine [OF nested_vm_wf v(1)] by blast
qed

text \<open>A top-level \<^verbatim>\<open>else\<close>: the one-word program 21000000.\<close>

definition stray_else_vm :: "unit DmntCheatVm" where
  "stray_else_vm = (DmntCheatVm_ctor ())\<lparr> program := 0x21000000 # replicate 1023 0, num_opcodes := 1,
      decode_success := True \<rparr>"

theorem invalid_condition_depth_iff_witness:
  "DecodeNextOpcode stray_else_vm =
     (Some (EndConditionalOpcode True, False), stray_else_vm\<lparr> instruction_ptr := 1 \<rparr>) \<and>
   Execute_step idle_callbacks no_metadata 0 (EndConditionalOpcode True) False
     (stray_else_vm\<lparr> instruction_ptr := 1 \<rparr>) = Inl InvalidConditionDepth"
proof -
  have d: "DecodeNextOpcode stray_else_vm =
     (Some (EndConditionalOpcode True, False), stray_else_vm\<lparr> instruction_ptr := 1 \<rparr>)"
    by code_simp
  then show ?thesis
    using invalid_condition_depth_iff [OF d, of idle_callbacks no_metadata 0]
    by (simp add: stray_else_vm_def DmntCheatVm_ctor_def)
qed

definition two_entries :: "CheatEntry list" where
  "two_entries =
     (let d = (\<lambda>n ops. \<lparr> readable_name = [], def_num_opcodes = n, opcodes = ops @ replicate 253 0 \<rparr>)
      in [\<lparr> enabled = True, cheat_id = 0, cheat_def = d 2 [0x20000000, 0xFF000000, 0] \<rparr>,
          \<lparr> enabled = False, cheat_id = 1, cheat_def = d 1 [0xFF100000, 0, 0] \<rparr>,
          \<lparr> enabled = True, cheat_id = 2, cheat_def = d 1 [0x21000000, 0, 0] \<rparr>])"

theorem load_program_concatenates_witness:
  "list_all entry_ok two_entries \<and> vm_wf nested_vm \<and> fst (LoadProgram two_entries nested_vm) \<and>
   take (GetProgramSize (snd (LoadProgram two_entries nested_vm)))
     (program (snd (LoadProgram two_entries nested_vm))) = [0x20000000, 0xFF000000, 0x21000000]"
proof -
  have e: "list_all entry_ok two_entries" by code_simp
  have w: "enabled_words two_entries = [0x20000000, 0xFF000000, 0x21000000]" by code_simp
  show ?thesis
    using load_program_concatenates [OF e nested_vm_wf] e nested_vm_wf
    unfolding w by (simp add: MaximumProgramOpcodeCount_def)
qed

end
