(* ===== verification/CheatParser.thy ===== *)
theory CheatParser
  imports DmntCheatSafety
begin

text \<open>
  The text format of cheats: \<^verbatim>\<open>ExtractName\<close> and \<^verbatim>\<open>TextCheatParser::Parse\<close> of
  \<^verbatim>\<open>core/memory/cheat_engine.cpp\<close>. The loop runs over the rest of the text from the current
  index. \<^verbatim>\<open>ExtractName\<close> compares one character past the end of the view before it gives up;
  that character is the parameter \<open>past\<close>. A failed parse is the empty list, as in the code.
  Character classes are those of the C locale.
\<close>

unbundle bit_operations_syntax

section \<open>Characters\<close>

definition isspace :: "char \<Rightarrow> bool" where
  "isspace c \<longleftrightarrow> (let n = of_char c :: nat in n = 32 \<or> 9 \<le> n \<and> n \<le> 13)"

definition xdigit_value :: "char \<Rightarrow> nat option" where
  "xdigit_value c =
     (let n = of_char c :: nat
      in if 48 \<le> n \<and> n \<le> 57 then Some (n - 48)
         else if 65 \<le> n \<and> n \<le> 70 then Some (n - 55)
         else if 97 \<le> n \<and> n \<le> 102 then Some (n - 87)
         else None)"

definition isxdigit :: "char \<Rightarrow> bool" where
  "isxdigit c \<longleftrightarrow> xdigit_value c \<noteq> None"

text \<open>\<^verbatim>\<open>strtoul(hex, nullptr, 16)\<close> on hexadecimal digits.\<close>

definition strtoul16 :: "string \<Rightarrow> nat" where
  "strtoul16 hex = foldl (\<lambda>acc c. 16 * acc + the (xdigit_value c)) 0 hex"

section \<open>The parser\<close>

definition readable_name_size :: nat where "readable_name_size = 0x40"

definition max_opcodes :: nat where "max_opcodes = 0x100"

definition CheatEntry_ctor :: CheatEntry where
  "CheatEntry_ctor =
     \<lparr> enabled = False, cheat_id = 0,
       cheat_def = \<lparr> readable_name = replicate readable_name_size (char_of (0 :: nat)),
         def_num_opcodes = 0, opcodes = replicate max_opcodes 0 \<rparr> \<rparr>"

text \<open>The name before the first match in the text from the start index, and its full size.\<close>

definition ExtractName :: "char \<Rightarrow> string \<Rightarrow> char \<Rightarrow> string \<times> nat" where
  "ExtractName past data match =
     (let name_size = length (takeWhile (\<lambda>c. c \<noteq> match) (data @ [past]))
      in if name_size > length data then ([], 0)
         else (take (if name_size > readable_name_size then readable_name_size else name_size) data,
               name_size))"

definition set_name :: "string \<Rightarrow> CheatEntry \<Rightarrow> CheatEntry" where
  "set_name name e =
     (let d = cheat_def e; n = min (length (readable_name d)) (length name);
          copied = take n name @ drop n (readable_name d)
      in e\<lparr> cheat_def := d\<lparr> readable_name := copied[length copied - 1 := char_of (0 :: nat)] \<rparr> \<rparr>)"

definition add_opcode :: "u32 \<Rightarrow> CheatEntry \<Rightarrow> CheatEntry" where
  "add_opcode value e =
     (let d = cheat_def e
      in e\<lparr> cheat_def := d\<lparr> opcodes := (opcodes d)[unat (def_num_opcodes d) := value],
              def_num_opcodes := def_num_opcodes d + 1 \<rparr> \<rparr>)"

function Parse_loop ::
  "char \<Rightarrow> string \<Rightarrow> nat option \<Rightarrow> CheatEntry list \<Rightarrow> CheatEntry list option" where
  "Parse_loop past data current_entry out =
     (case data of
        [] \<Rightarrow> Some out
      | c # rest \<Rightarrow>
          if isspace c then Parse_loop past rest current_entry out
          else if c = CHR ''{'' then
            (if def_num_opcodes (cheat_def (out ! 0)) > 0 then None
             else
               let (name, name_size) = ExtractName past rest (CHR ''}'')
               in if name = [] then None
                  else Parse_loop past (drop (name_size + 1) rest) (Some 0)
                         (out[0 := set_name name (out ! 0)]))
          else if c = CHR ''['' then
            (let (name, name_size) = ExtractName past rest (CHR '']'')
             in if name = [] then None
                else Parse_loop past (drop (name_size + 1) rest) (Some (length out))
                       (out @ [set_name name CheatEntry_ctor]))
          else if isxdigit c then
            (case current_entry of
               None \<Rightarrow> None
             | Some k \<Rightarrow>
                 if unat (def_num_opcodes (cheat_def (out ! k))) \<ge> length (opcodes (cheat_def (out ! k)))
                 then None
                 else
                   let hex = take 8 data
                   in if \<not> list_all isxdigit hex then None
                      else Parse_loop past (drop 8 rest) current_entry
                             (out[k := add_opcode (word_of_nat (strtoul16 hex)) (out ! k)]))
          else None)"
  by pat_completeness auto
termination
  by (relation "measure (\<lambda>(past, data, cur, out). length data)") auto

declare Parse_loop.simps [simp del]

definition finish_entry :: "nat \<times> CheatEntry \<Rightarrow> CheatEntry" where
  "finish_entry p =
     (snd p)\<lparr> enabled := def_num_opcodes (cheat_def (snd p)) > 0, cheat_id := word_of_nat (fst p) \<rparr>"

definition Parse :: "char \<Rightarrow> string \<Rightarrow> CheatEntry list" where
  "Parse past data =
     (case Parse_loop past data None [CheatEntry_ctor] of
        None \<Rightarrow> []
      | Some out \<Rightarrow> map finish_entry (enumerate 0 out))"

section \<open>What the parser builds\<close>

definition parsed_ok :: "CheatEntry \<Rightarrow> bool" where
  "parsed_ok e \<longleftrightarrow>
     length (readable_name (cheat_def e)) = readable_name_size
     \<and> last (readable_name (cheat_def e)) = char_of (0 :: nat)
     \<and> length (opcodes (cheat_def e)) = max_opcodes
     \<and> unat (def_num_opcodes (cheat_def e)) \<le> max_opcodes"

lemma parsed_ok_ctor: "parsed_ok CheatEntry_ctor"
  by (simp add: parsed_ok_def CheatEntry_ctor_def readable_name_size_def max_opcodes_def)

lemma parsed_ok_set_name:
  assumes "parsed_ok e"
  shows "parsed_ok (set_name name e)"
proof -
  let ?d = "cheat_def e"
  let ?n = "min (length (readable_name ?d)) (length name)"
  let ?c = "take ?n name @ drop ?n (readable_name ?d)"
  have len: "length ?c = readable_name_size" using assms by (simp add: parsed_ok_def)
  then have "?c \<noteq> []" by (auto simp: readable_name_size_def)
  then have "last (?c[length ?c - 1 := char_of (0 :: nat)]) = char_of (0 :: nat)"
    by (simp add: last_list_update)
  then show ?thesis using assms len by (simp add: parsed_ok_def set_name_def Let_def)
qed

lemma parsed_ok_add_opcode:
  assumes "parsed_ok e" "unat (def_num_opcodes (cheat_def e)) < max_opcodes"
  shows "parsed_ok (add_opcode w e)"
  using assms unat_inc [of "def_num_opcodes (cheat_def e)"]
  by (simp add: parsed_ok_def add_opcode_def Let_def max_opcodes_def)

text \<open>The current entry exists, and every entry keeps its shape.\<close>

definition parse_inv :: "nat option \<Rightarrow> CheatEntry list \<Rightarrow> bool" where
  "parse_inv cur out \<longleftrightarrow>
     out \<noteq> [] \<and> list_all parsed_ok out \<and> (\<forall>k. cur = Some k \<longrightarrow> k < length out)"

lemma Parse_loop_inv:
  "parse_inv cur out \<Longrightarrow> Parse_loop past data cur out = Some out' \<Longrightarrow>
   out' \<noteq> [] \<and> list_all parsed_ok out'"
proof (induction past data cur out rule: Parse_loop.induct)
  case (1 past data cur out)
  have upd: "parse_inv c (out[k := e])" if "parsed_ok e" "parse_inv cur out" "c = Some k \<and> k < length out" for c k e
    using that by (auto simp: parse_inv_def list_all_length nth_list_update)
  have app: "parse_inv (Some (length out)) (out @ [e])" if "parsed_ok e" "parse_inv cur out" for e
    using that by (simp add: parse_inv_def)
  have nth: "parsed_ok (out ! k)" if "k < length out" for k
    using "1.prems"(1) that by (simp add: parse_inv_def list_all_length)
  show ?case
  proof (cases data)
    case Nil
    then show ?thesis using "1.prems" by (simp add: Parse_loop.simps parse_inv_def)
  next
    case (Cons c rest)
    note def = Parse_loop.simps [of past data cur out]
    consider (space) "isspace c" | (master) "\<not> isspace c" "c = CHR ''{''"
      | (entry) "\<not> isspace c" "c = CHR ''[''"
      | (word) "\<not> isspace c" "c \<noteq> CHR ''{''" "c \<noteq> CHR ''[''" "isxdigit c"
      | (bad) "\<not> isspace c" "c \<noteq> CHR ''{''" "c \<noteq> CHR ''[''" "\<not> isxdigit c"
      by blast
    then show ?thesis
    proof cases
      case space
      then show ?thesis using "1.prems" "1.IH"(1) [OF Cons space] def Cons by simp
    next
      case master
      obtain name n where nm: "ExtractName past rest (CHR ''}'') = (name, n)" by fastforce
      have "0 < length out" using "1.prems"(1) by (simp add: parse_inv_def)
      then have "parse_inv (Some 0) (out[0 := set_name name (out ! 0)])"
        using upd nth "1.prems"(1) parsed_ok_set_name by blast
      then show ?thesis
        using "1.prems"(2) "1.IH"(2) [OF Cons master _ nm [symmetric]] def Cons master nm
        by (auto split: if_splits)
    next
      case entry
      obtain name n where nm: "ExtractName past rest (CHR '']'') = (name, n)" by fastforce
      have "parse_inv (Some (length out)) (out @ [set_name name CheatEntry_ctor])"
        using app "1.prems"(1) parsed_ok_set_name [OF parsed_ok_ctor] by blast
      then show ?thesis
        using "1.prems"(2) "1.IH"(3) [OF Cons entry(1) _ entry(2) nm [symmetric]] def Cons entry nm
        by (auto split: if_splits)
    next
      case word
      obtain k where k: "cur = Some k"
        using "1.prems"(2) def Cons word by (cases cur) auto
      have kl: "k < length out" using "1.prems"(1) k by (simp add: parse_inv_def)
      have len: "length (opcodes (cheat_def (out ! k))) = max_opcodes"
        using nth [OF kl] by (simp add: parsed_ok_def)
      let ?out = "out[k := add_opcode (word_of_nat (strtoul16 (take 8 data))) (out ! k)]"
      have "parse_inv (Some k) ?out" if "unat (def_num_opcodes (cheat_def (out ! k))) < max_opcodes"
        using upd [OF parsed_ok_add_opcode [OF nth [OF kl] that] "1.prems"(1)] kl by blast
      then show ?thesis
        using "1.prems"(2) "1.IH"(4) [OF Cons word(1-4) k _ refl] def Cons word k len
        by (auto split: if_splits)
    next
      case bad
      then show ?thesis using "1.prems"(2) def Cons by simp
    qed
  qed
qed

text \<open>
  Property C38. Whatever the text and whatever follows it in memory, every entry that the
  parser returns is well formed: the name fills its 64 characters and ends in a null
  character, at most 256 of the 256 words are used, the entry is enabled exactly when it has
  words, and its number is its position.
\<close>

theorem parse_output_well_formed:
  "list_all (\<lambda>(i, e).
      let d = cheat_def e
      in length (readable_name d) = 64 \<and> last (readable_name d) = char_of (0 :: nat)
         \<and> length (opcodes d) = 256 \<and> unat (def_num_opcodes d) \<le> 256
         \<and> (enabled e \<longleftrightarrow> def_num_opcodes d > 0) \<and> cheat_id e = word_of_nat i)
     (enumerate 0 (Parse past data))"
proof (cases "Parse_loop past data None [CheatEntry_ctor]")
  case None
  then show ?thesis by (simp add: Parse_def)
next
  case (Some out)
  have "parse_inv None [CheatEntry_ctor]" by (simp add: parse_inv_def parsed_ok_ctor)
  from Parse_loop_inv [OF this Some] have ok: "\<forall>i < length out. parsed_ok (out ! i)"
    by (simp add: list_all_length)
  have P: "Parse past data = map finish_entry (enumerate 0 out)" using Some by (simp add: Parse_def)
  then have nth: "Parse past data ! i = finish_entry (i, out ! i)" if "i < length out" for i
    using that by (simp add: nth_enumerate_eq)
  have len: "length (Parse past data) = length out" using P by simp
  show ?thesis
    using ok
    by (auto simp: list_all_length len nth nth_enumerate_eq finish_entry_def parsed_ok_def
        readable_name_size_def max_opcodes_def Let_def)
qed

section \<open>Printing and parsing\<close>

text \<open>A hexadecimal rendering of fixed width, and the text of a cheat list.\<close>

primrec hexn :: "nat \<Rightarrow> nat \<Rightarrow> string" where
  "hexn 0 n = []"
| "hexn (Suc k) n = hexn k (n div 16) @ [digit_char (n mod 16)]"

definition newline :: char where "newline = char_of (10 :: nat)"

definition render_words :: "u32 list \<Rightarrow> string" where
  "render_words ws = concat (map (\<lambda>w. hexn 8 (unat w) @ [newline]) ws)"

definition render_entry :: "string \<times> u32 list \<Rightarrow> string" where
  "render_entry e = CHR ''['' # fst e @ CHR '']'' # newline # render_words (snd e)"

definition render_master :: "string \<times> u32 list \<Rightarrow> string" where
  "render_master e = CHR ''{'' # fst e @ CHR ''}'' # newline # render_words (snd e)"

definition source_ok :: "char \<Rightarrow> string \<times> u32 list \<Rightarrow> bool" where
  "source_ok close e \<longleftrightarrow>
     fst e \<noteq> [] \<and> length (fst e) < readable_name_size \<and> close \<notin> set (fst e)
     \<and> length (snd e) \<le> max_opcodes"

definition entry_of :: "string \<times> u32 list \<Rightarrow> CheatEntry" where
  "entry_of e =
     \<lparr> enabled = False, cheat_id = 0,
       cheat_def =
         \<lparr> readable_name = fst e @ replicate (readable_name_size - length (fst e)) (char_of (0 :: nat)),
           def_num_opcodes = word_of_nat (length (snd e)),
           opcodes = snd e @ replicate (max_opcodes - length (snd e)) 0 \<rparr> \<rparr>"

lemma xdigit_digit_char: "d < 16 \<Longrightarrow> xdigit_value (digit_char d) = Some d"
  by (auto simp: digit_char_def xdigit_value_def Let_def)

lemma hexn_props: "length (hexn k n) = k" "list_all isxdigit (hexn k n)"
  by (induction k arbitrary: n) (simp_all add: isxdigit_def xdigit_digit_char)

lemma strtoul16_hexn: "strtoul16 (hexn k n) = n mod 16 ^ k"
proof (induction k arbitrary: n)
  case (Suc k)
  have "strtoul16 (hexn (Suc k) n) = 16 * strtoul16 (hexn k (n div 16)) + n mod 16"
    by (simp add: strtoul16_def xdigit_digit_char)
  also have "\<dots> = n mod 16 ^ Suc k" using Suc by (simp add: mod_mult2_eq)
  finally show ?case .
qed (simp add: strtoul16_def)

lemma digit_not_special:
  "isxdigit c \<Longrightarrow> \<not> isspace c \<and> c \<noteq> CHR ''{'' \<and> c \<noteq> CHR ''[''"
  by (auto simp: isxdigit_def xdigit_value_def isspace_def Let_def split: if_splits)

lemma Parse_word:
  assumes "length (opcodes (cheat_def (out ! k))) = max_opcodes"
    "unat (def_num_opcodes (cheat_def (out ! k))) < max_opcodes"
  shows "Parse_loop past (hexn 8 (unat w) @ newline # rest) (Some k) out
    = Parse_loop past rest (Some k) (out[k := add_opcode w (out ! k)])"
proof -
  obtain c cs where h: "hexn 8 (unat w) = c # cs" "length cs = 7"
    using hexn_props(1) [of 8 "unat w"] by (cases "hexn 8 (unat w)") auto
  have x: "isxdigit c" "list_all isxdigit (c # cs)" using hexn_props(2) [of 8 "unat w"] h by auto
  have v: "word_of_nat (strtoul16 (c # cs)) = w"
    using strtoul16_hexn [of 8 "unat w"] h unsigned_less [of w, where 'a = nat] by simp
  show ?thesis
    using assms x h v digit_not_special [OF x(1)]
    by (subst Parse_loop.simps) simp
qed

lemma add_opcode_entry_of:
  assumes "length ws < max_opcodes"
  shows "add_opcode w (entry_of (name, ws)) = entry_of (name, ws @ [w])"
proof -
  have n: "unat (word_of_nat (length ws) :: u32) = length ws"
    using assms by (simp add: max_opcodes_def unat_word_of_nat)
  have "max_opcodes - length ws = Suc (max_opcodes - Suc (length ws))" using assms by simp
  then show ?thesis
    by (simp add: add_opcode_def entry_of_def n list_update_append add.commute)
qed

lemma entry_of_fields:
  "length (opcodes (cheat_def (entry_of (name, ws)))) = max_opcodes"
  "unat (def_num_opcodes (cheat_def (entry_of (name, ws)))) = length ws"
  if "length ws \<le> max_opcodes"
  using that by (simp_all add: entry_of_def max_opcodes_def unat_word_of_nat)

lemma Parse_words:
  assumes "length ws + length vs \<le> max_opcodes" "k < length out" "out ! k = entry_of (name, ws)"
  shows "Parse_loop past (render_words vs @ rest) (Some k) out
    = Parse_loop past rest (Some k) (out[k := entry_of (name, ws @ vs)])"
  using assms
proof (induction vs arbitrary: ws out)
  case Nil
  then have "out[k := entry_of (name, ws)] = out" by (metis list_update_id)
  then show ?case by (simp add: render_words_def)
next
  case (Cons v vs)
  let ?out = "out[k := entry_of (name, ws @ [v])]"
  have "Parse_loop past (render_words (v # vs) @ rest) (Some k) out
      = Parse_loop past (render_words vs @ rest) (Some k) ?out"
    using Cons.prems Parse_word [of out k past v "render_words vs @ rest"]
    by (simp add: render_words_def entry_of_fields add_opcode_entry_of)
  also have "\<dots> = Parse_loop past rest (Some k) (?out[k := entry_of (name, (ws @ [v]) @ vs)])"
    using Cons.prems by (intro Cons.IH) simp_all
  finally show ?case by simp
qed

lemma ExtractName_found:
  assumes "close \<notin> set name" "length name < readable_name_size"
  shows "ExtractName past (name @ close # rest) close = (name, length name)"
proof -
  have "takeWhile (\<lambda>c. c \<noteq> close) ((name @ close # rest) @ [past]) = name"
    using assms(1) by (simp add: takeWhile_append)
  then show ?thesis using assms(2) by (simp add: ExtractName_def)
qed

lemma set_name_ctor:
  assumes "length name < readable_name_size"
  shows "set_name name CheatEntry_ctor = entry_of (name, [])"
proof -
  let ?z = "char_of (0 :: nat)"
  let ?pad = "replicate (readable_name_size - length name) ?z"
  have "\<not> readable_name_size - Suc 0 < length name" using assms by simp
  then have "(name @ ?pad)[readable_name_size - Suc 0 := ?z] = name @ ?pad"
    using assms by (simp add: list_update_append list_update_same_conv)
  then show ?thesis
    using assms by (simp add: set_name_def CheatEntry_ctor_def entry_of_def Let_def)
qed

lemma Parse_newline: "Parse_loop past (newline # rest) cur out = Parse_loop past rest cur out"
  by (subst Parse_loop.simps) (simp add: newline_def isspace_def)

lemma Parse_named:
  assumes e: "source_ok (CHR '']'') e"
  shows "Parse_loop past (render_entry e @ rest) cur out
    = Parse_loop past rest (Some (length out)) (out @ [entry_of e])"
proof -
  obtain name ws where [simp]: "e = (name, ws)" by fastforce
  have nm: "name \<noteq> []" "length name < readable_name_size" "CHR '']'' \<notin> set name"
    and ws: "length ws \<le> max_opcodes"
    using e by (simp_all add: source_ok_def)
  let ?rest = "newline # render_words ws @ rest"
  have "Parse_loop past (render_entry e @ rest) cur out
      = Parse_loop past ?rest (Some (length out)) (out @ [entry_of (name, [])])"
    using nm ExtractName_found [OF nm(3,2), of past ?rest]
    by (subst Parse_loop.simps) (simp add: render_entry_def isspace_def set_name_ctor)
  also have "\<dots> = Parse_loop past (render_words ws @ rest) (Some (length out)) (out @ [entry_of (name, [])])"
    by (rule Parse_newline)
  also have "\<dots> = Parse_loop past rest (Some (length out)) (out @ [entry_of e])"
    using Parse_words [where ws = "[]" and vs = ws and k = "length out" and name = name
        and out = "out @ [entry_of (name, [])]"] ws by simp
  finally show ?thesis .
qed

lemma Parse_master:
  assumes e: "source_ok (CHR ''}'') e"
  shows "Parse_loop past (render_master e @ rest) cur [CheatEntry_ctor]
    = Parse_loop past rest (Some 0) [entry_of e]"
proof -
  obtain name ws where [simp]: "e = (name, ws)" by fastforce
  have nm: "name \<noteq> []" "length name < readable_name_size" "CHR ''}'' \<notin> set name"
    and ws: "length ws \<le> max_opcodes"
    using e by (simp_all add: source_ok_def)
  let ?rest = "newline # render_words ws @ rest"
  have "Parse_loop past (render_master e @ rest) cur [CheatEntry_ctor]
      = Parse_loop past ?rest (Some 0) [entry_of (name, [])]"
    using nm ExtractName_found [OF nm(3,2), of past ?rest]
    by (subst Parse_loop.simps)
       (simp add: render_master_def isspace_def set_name_ctor, simp add: CheatEntry_ctor_def)
  also have "\<dots> = Parse_loop past (render_words ws @ rest) (Some 0) [entry_of (name, [])]"
    by (rule Parse_newline)
  also have "\<dots> = Parse_loop past rest (Some 0) [entry_of e]"
    using Parse_words [where ws = "[]" and vs = ws and k = 0 and name = name
        and out = "[entry_of (name, [])]"] ws by simp
  finally show ?thesis .
qed

lemma Parse_entries:
  "list_all (source_ok (CHR '']'')) es \<Longrightarrow>
   Parse_loop past (concat (map render_entry es)) cur out = Some (out @ map entry_of es)"
proof (induction es arbitrary: cur out)
  case Nil
  then show ?case by (simp add: Parse_loop.simps)
next
  case (Cons e es)
  then show ?case by (simp add: Parse_named)
qed

text \<open>
  Property C29. Printing and parsing are inverse: the text of a master cheat and any list of
  named cheats (names of 1 to 63 characters without the closing bracket, at most 256 words
  each) parses back to exactly these cheats, in order, numbered from zero, with the names
  padded by null characters and every word recovered.
\<close>

theorem parse_print_round_trip:
  assumes "source_ok (CHR ''}'') master" "list_all (source_ok (CHR '']'')) es"
  shows "Parse past (render_master master @ concat (map render_entry es))
    = map finish_entry (enumerate 0 (map entry_of (master # es)))"
  using assms by (simp add: Parse_def Parse_master Parse_entries)

theorem parse_print_round_trip_witness:
  "Parse (char_of (0 :: nat)) (render_master (''Master'', [0x580F0000]) @ render_entry (''A'', [1, 0x2F]))
     = map finish_entry (enumerate 0 (map entry_of [(''Master'', [0x580F0000]), (''A'', [1, 0x2F])]))
   \<and> render_entry (''A'', [1, 0x2F])
     = ''[A]'' @ newline # ''00000001'' @ newline # ''0000002F'' @ [newline]"
proof -
  have "source_ok (CHR ''}'') (''Master'', [0x580F0000])" "source_ok (CHR '']'') (''A'', [1, 0x2F])"
    by (simp_all add: source_ok_def readable_name_size_def max_opcodes_def)
  moreover have "render_entry (''A'', [1, 0x2F])
      = ''[A]'' @ newline # ''00000001'' @ newline # ''0000002F'' @ [newline]"
    by code_simp
  ultimately show ?thesis
    using parse_print_round_trip [where es = "[(''A'', [1, 0x2F])]"] by simp
qed

end
