(* ===== verification/CheatVmEnvironment.thy ===== *)
theory CheatVmEnvironment
  imports DmntCheatSafety
begin

text \<open>
  The interface between the cheat interpreter and its environment: whatever relation every
  callback respects, a whole run respects. The locale states the contract once; the cheat
  engine interprets it on its own callbacks.
\<close>

locale vm_environment =
  fixes cb :: "'e Callbacks" and safe :: "'e \<Rightarrow> 'e \<Rightarrow> bool"
  assumes safe_refl: "safe e e"
    and safe_trans: "safe e e' \<Longrightarrow> safe e' e'' \<Longrightarrow> safe e e''"
    and safe_read: "n \<le> 8 \<Longrightarrow> safe e (snd (MemoryReadUnsafe cb addr n e))"
    and safe_write: "length bs \<le> 8 \<Longrightarrow> safe e (MemoryWriteUnsafe cb addr bs e)"
    and safe_keys: "safe e (snd (HidKeysDown cb e))"
    and safe_pause: "safe e (PauseProcess cb e)"
    and safe_resume: "safe e (ResumeProcess cb e)"
    and safe_debug: "safe e (DebugLog cb i x e)"
    and safe_log: "safe e (CommandLog cb s e)"
begin

definition vm_safe :: "'e DmntCheatVm \<Rightarrow> 'e DmntCheatVm \<Rightarrow> bool" where
  "vm_safe v v' \<longleftrightarrow> safe (env v) (env v')"

lemma vm_safe_same: "env v' = env v \<Longrightarrow> vm_safe v v'"
  by (simp add: vm_safe_def safe_refl)

lemma vm_safe_trans: "vm_safe u v \<Longrightarrow> vm_safe v w \<Longrightarrow> vm_safe u w"
  unfolding vm_safe_def by (rule safe_trans)

lemma width_bound: "valid_width w \<Longrightarrow> unat w \<le> 8"
  by (auto simp: valid_width_def)

lemma vm_safe_write: "vm_safe v (write_memory cb a x w v)"
  by (simp add: write_memory_def vm_safe_def safe_refl safe_write low_bytes_def width_bound)

lemma vm_safe_read: "vm_safe v (snd (read_memory cb a x w v))"
  by (simp add: read_memory_def vm_safe_def Let_def case_prod_unfold safe_refl safe_read width_bound)

lemma safe_log_fold: "safe e (fold (CommandLog cb) ls e)"
proof (induction ls arbitrary: e)
  case (Cons l ls)
  show ?case using safe_trans [OF safe_log Cons.IH] by simp
qed (simp add: safe_refl)

lemma vm_safe_log: "vm_safe v (log_lines cb ls v)"
  by (simp add: log_lines_def vm_safe_def safe_log_fold)

lemma env_set_reg [simp]: "env (set_reg i x v) = env v"
  by (simp add: set_reg_def)

lemma env_ResetState [simp]: "env (ResetState v) = env v"
  by (simp add: ResetState_def)

lemma env_decode: "env (snd (DecodeNextOpcode v)) = env v"
  by (simp add: DecodeNextOpcode_def Let_def case_prod_unfold)

lemma env_Skip_loop: "env (Skip_loop is_if d v) = env v"
proof (induction is_if d v rule: Skip_loop.induct)
  case (1 is_if d v)
  obtain res v1 where D: "DecodeNextOpcode v = (res, v1)" by (cases "DecodeNextOpcode v")
  have e: "env v1 = env v" using env_decode [of v] D by simp
  show ?case
  proof (cases "d < condition_depth v")
    case True
    show ?thesis
    proof (cases res)
      case None
      then show ?thesis using True D e by (subst Skip_loop.simps) simp
    next
      case (Some a)
      obtain opc b where a: "a = (opc, b)" by (cases a)
      show ?thesis
        using True D Some a e "1.IH" [OF True D [symmetric] Some a [symmetric]]
        by (subst Skip_loop.simps) (cases opc; force)
    qed
  qed (subst Skip_loop.simps, simp)
qed

lemma env_Skip: "SkipConditionalBlock b v = Inr v' \<Longrightarrow> env v' = env v"
  by (auto simp: SkipConditionalBlock_def env_Skip_loop split: if_splits)

lemma skip_safe: "vm_safe u v \<Longrightarrow> SkipConditionalBlock b v = Inr v' \<Longrightarrow> vm_safe u v'"
  using env_Skip [of b v v'] by (simp add: vm_safe_def)

text \<open>The branches of the interpreter that touch the environment.\<close>

lemma loads_safe:
  "vm_safe v (Execute_LoadRegisterMemory cb md w m r from_reg rel v)"
  "vm_safe v (Execute_DebugLog cb md w lid vt m addr vr ofs rel v)"
proof -
  show "vm_safe v (Execute_LoadRegisterMemory cb md w m r from_reg rel v)"
    using vm_safe_read
    by (simp add: Execute_LoadRegisterMemory_def Let_def case_prod_unfold vm_safe_def)
  have debug: "vm_safe v (t\<lparr> env := DebugLog cb i x (env t) \<rparr>)" if "vm_safe v t" for t i x
    using that safe_trans [OF _ safe_debug] by (simp add: vm_safe_def)
  show "vm_safe v (Execute_DebugLog cb md w lid vt m addr vr ofs rel v)"
    by (cases vt) (simp_all add: Execute_DebugLog_def Let_def case_prod_unfold debug vm_safe_read
        vm_safe_same)
qed

lemma stores_safe:
  "vm_safe v (Execute_StoreStatic cb md w m ofs rel val v)"
  "vm_safe v (Execute_StoreStaticToAddress cb w r inc add ofs val v)"
  "vm_safe v (Execute_StoreRegisterToAddress cb md w str addr inc ot m ofs rel v)"
  using vm_safe_write
  by (simp_all add: Execute_StoreStatic_def Execute_StoreStaticToAddress_def
      Execute_StoreRegisterToAddress_def Let_def vm_safe_def)

lemma conditionals_safe:
  "Execute_BeginConditional cb md w m c rel val v = Inr v' \<Longrightarrow> vm_safe v v'"
  "Execute_BeginRegisterConditional cb md w c vr ct m addr oth ofs rel val v = Inr v' \<Longrightarrow> vm_safe v v'"
proof -
  assume "Execute_BeginConditional cb md w m c rel val v = Inr v'"
  then show "vm_safe v v'"
    using skip_safe [OF vm_safe_read] vm_safe_read
    by (auto simp: Execute_BeginConditional_def Let_def case_prod_unfold split: if_splits)
next
  have refl: "vm_safe v v" by (simp add: vm_safe_same)
  assume "Execute_BeginRegisterConditional cb md w c vr ct m addr oth ofs rel val v = Inr v'"
  then show "vm_safe v v'"
    using skip_safe [OF vm_safe_read] vm_safe_read skip_safe [OF refl] refl
    by (cases ct)
       (auto simp: Execute_BeginRegisterConditional_def Let_def case_prod_unfold split: if_splits)
qed

lemma register_ops_env:
  "env (Execute_ControlLoop start r n v) = env v"
  "env (Execute_SaveRestoreRegister dst src ot v) = env v"
  "env (Execute_SaveRestoreRegisterMask ot act v) = env v"
  "env (Execute_ReadWriteStaticRegister st idx v) = env v"
  "Execute_PerformArithmeticStatic w r mt val' v = Inr v' \<Longrightarrow> env v' = env v"
  "Execute_PerformArithmeticRegister w mt dst s1 s2 imm val v = Inr v' \<Longrightarrow> env v' = env v"
  by (auto simp: Execute_ControlLoop_def Execute_SaveRestoreRegister_def
      Execute_SaveRestoreRegisterMask_def Execute_ReadWriteStaticRegister_def Let_def
      Execute_PerformArithmeticStatic_def Execute_PerformArithmeticRegister_def
      split: SaveRestoreRegisterOpType.splits sum.splits)

lemma opcode_safe:
  assumes "Execute_opcode cb md k opc v = Inr v'"
  shows "vm_safe v v'"
proof (cases opc)
  case BeginConditionalOpcode
  then show ?thesis using conditionals_safe(1) assms by auto
next
  case BeginRegisterConditionalOpcode
  then show ?thesis using conditionals_safe(2) assms by auto
next
  case EndConditionalOpcode
  then show ?thesis
    using assms by (auto simp: Execute_EndConditional_def intro!: vm_safe_same dest: env_Skip split: if_splits)
next
  case BeginKeypressConditionalOpcode
  then show ?thesis
    using assms by (auto simp: Execute_BeginKeypressConditional_def intro!: vm_safe_same dest: env_Skip split: if_splits)
next
  case PerformArithmeticStaticOpcode
  then show ?thesis using assms register_ops_env(5) by (auto intro!: vm_safe_same)
next
  case PerformArithmeticRegisterOpcode
  then show ?thesis using assms register_ops_env(6) by (auto intro!: vm_safe_same)
next
  case PauseProcessOpcode
  then show ?thesis using assms by (auto simp: vm_safe_def safe_pause)
next
  case ResumeProcessOpcode
  then show ?thesis using assms by (auto simp: vm_safe_def safe_resume)
qed (use assms in \<open>auto simp: loads_safe stores_safe Execute_LoadRegisterStatic_def register_ops_env
      vm_safe_same\<close>)

lemma step_safe: "Execute_step cb md k opc b v = Inr v' \<Longrightarrow> vm_safe v v'"
proof -
  assume *: "Execute_step cb md k opc b v = Inr v'"
  let ?v1 = "log_lines cb (trace_lines opc v) v"
  let ?v2 = "if b then ?v1\<lparr> condition_depth := condition_depth ?v1 + 1 \<rparr> else ?v1"
  have "vm_safe v ?v2" using vm_safe_log by (simp add: vm_safe_def)
  moreover have "vm_safe ?v2 v'" using * by (simp add: Execute_step_def Let_def opcode_safe)
  ultimately show "vm_safe v v'" by (rule vm_safe_trans)
qed

lemma loop_safe: "Execute_loop fuel cb md k v = Some (Inr v') \<Longrightarrow> vm_safe v v'"
proof (induction fuel arbitrary: v)
  case (Suc fuel)
  obtain res v1 where D: "DecodeNextOpcode v = (res, v1)" by (cases "DecodeNextOpcode v")
  have s: "vm_safe v v1" using env_decode [of v] D by (simp add: vm_safe_same)
  show ?case
  proof (cases res)
    case None
    then show ?thesis using Suc.prems D s by simp
  next
    case (Some a)
    obtain opc b where a: "a = (opc, b)" by (cases a)
    obtain v2 where "Execute_step cb md k opc b v1 = Inr v2" "Execute_loop fuel cb md k v2 = Some (Inr v')"
      using Suc.prems D Some a by (auto split: sum.splits)
    then show ?thesis using Suc.IH step_safe s by (meson vm_safe_trans)
  qed
qed simp

lemma run_safe: "Execute fuel cb md v = Some (Inr v') \<Longrightarrow> safe (env v) (env v')"
proof -
  assume *: "Execute fuel cb md v = Some (Inr v')"
  let ?k = "HidKeysDown cb (env v)"
  let ?v1 = "log_lines cb (start_lines md (fst ?k)) (v\<lparr> env := snd ?k \<rparr>)"
  have "vm_safe v (v\<lparr> env := snd ?k \<rparr>)" by (simp add: vm_safe_def safe_keys)
  then have "vm_safe v (ResetState ?v1)"
    using vm_safe_trans [OF _ vm_safe_log] by (simp add: vm_safe_def)
  moreover have "vm_safe (ResetState ?v1) v'"
    using * by (intro loop_safe) (simp add: Execute_def Let_def case_prod_unfold)
  ultimately show ?thesis using vm_safe_trans by (auto simp: vm_safe_def)
qed

end

end
