(* ===== verification/CheatEngine.thy ===== *)
theory CheatEngine
  imports CheatParser CheatVmEnvironment GuestMemoryBlocks
begin

text \<open>
  The cheat engine, \<^verbatim>\<open>core/memory/cheat_engine.cpp\<close>: the callbacks through which cheats reach
  the guest (\<^verbatim>\<open>StandardVmCallbacks\<close>) over the model of guest memory, and \<^verbatim>\<open>CheatEngine\<close>
  itself, which reloads and runs the cheat program once per callback of the core timing.

  Parameters: the GPU side of memory accesses (as in the memory model), the kernel's
  \<^verbatim>\<open>IsSuspended\<close> and \<^verbatim>\<open>SetActivity\<close> of the application process, and what \<^verbatim>\<open>Initialize\<close> reads from
  the process. The buttons pressed since the last read are state, absent while the HID
  service is not up. A fault of the memory model (a null host pointer) is recorded in
  \<open>sys_fault\<close>.
\<close>

unbundle bit_operations_syntax

section \<open>The system as cheats see it\<close>

datatype ProcessActivity = Runnable | Paused

record 'p process_ops =
  IsSuspended :: "'p \<Rightarrow> bool"
  SetActivity :: "ProcessActivity \<Rightarrow> 'p \<Rightarrow> 'p"

record ('g, 'p) cheat_system =
  sys_memory :: "'g Memory_Impl"
  sys_process :: 'p
  sys_press_state :: "u64 option"
  sys_icache :: "(u64 \<times> nat) list"
  sys_debug_log :: "(u8 \<times> u64) list"
  sys_command_log :: "string list"
  sys_fault :: "mem_error option"

section \<open>The callbacks\<close>

definition in_extents :: "MemoryRegionExtents \<Rightarrow> u64 \<Rightarrow> bool" where
  "in_extents r addr \<longleftrightarrow> \<not> (addr < base r \<or> addr \<ge> base r + ext_size r)"

definition IsAddressInRange :: "CheatProcessMetadata \<Rightarrow> u64 \<Rightarrow> bool" where
  "IsAddressInRange md addr \<longleftrightarrow>
     in_extents (main_nso_extents md) addr \<or> in_extents (heap_extents md) addr
     \<or> in_extents (alias_extents md) addr \<or> in_extents (aslr_extents md) addr"

definition Std_MemoryReadUnsafe ::
  "'g GPU \<Rightarrow> CheatProcessMetadata \<Rightarrow> u64 \<Rightarrow> nat \<Rightarrow> ('g, 'p) cheat_system \<Rightarrow>
   u8 list \<times> ('g, 'p) cheat_system" where
  "Std_MemoryReadUnsafe gpu md address n e =
     (if \<not> IsAddressInRange md address \<or> \<not> IsValidVirtualAddress (sys_memory e) address
      then (replicate n 0, e)
      else case ReadBlock gpu address (word_of_nat n) (sys_memory e) of
             Inl (err, m) \<Rightarrow> (replicate n 0, e\<lparr> sys_memory := m, sys_fault := Some err \<rparr>)
           | Inr (ok, m, bs) \<Rightarrow> (bs, e\<lparr> sys_memory := m \<rparr>))"

definition Std_MemoryWriteUnsafe ::
  "'g GPU \<Rightarrow> CheatProcessMetadata \<Rightarrow> u64 \<Rightarrow> u8 list \<Rightarrow> ('g, 'p) cheat_system \<Rightarrow>
   ('g, 'p) cheat_system" where
  "Std_MemoryWriteUnsafe gpu md address bs e =
     (if \<not> IsAddressInRange md address \<or> \<not> IsValidVirtualAddress (sys_memory e) address then e
      else case WriteBlock gpu address bs (word_of_nat (length bs)) (sys_memory e) of
             Inl (err, m) \<Rightarrow> e\<lparr> sys_memory := m, sys_fault := Some err \<rparr>
           | Inr (ok, m) \<Rightarrow>
               (let e1 = e\<lparr> sys_memory := m \<rparr>
                in if ok then e1\<lparr> sys_icache := (address, length bs) # sys_icache e1 \<rparr> else e1))"

definition Std_HidKeysDown :: "('g, 'p) cheat_system \<Rightarrow> u64 \<times> ('g, 'p) cheat_system" where
  "Std_HidKeysDown e =
     (case sys_press_state e of
        None \<Rightarrow> (0, e)
      | Some keys \<Rightarrow> (keys AND 0xFFFFFFFFFFFFFFFF, e\<lparr> sys_press_state := Some 0 \<rparr>))"

definition Std_PauseProcess :: "'p process_ops \<Rightarrow> ('g, 'p) cheat_system \<Rightarrow> ('g, 'p) cheat_system" where
  "Std_PauseProcess ops e =
     (if IsSuspended ops (sys_process e) then e
      else e\<lparr> sys_process := SetActivity ops Paused (sys_process e) \<rparr>)"

definition Std_ResumeProcess :: "'p process_ops \<Rightarrow> ('g, 'p) cheat_system \<Rightarrow> ('g, 'p) cheat_system" where
  "Std_ResumeProcess ops e =
     (if \<not> IsSuspended ops (sys_process e) then e
      else e\<lparr> sys_process := SetActivity ops Runnable (sys_process e) \<rparr>)"

definition Std_DebugLog :: "u8 \<Rightarrow> u64 \<Rightarrow> ('g, 'p) cheat_system \<Rightarrow> ('g, 'p) cheat_system" where
  "Std_DebugLog i x e = e\<lparr> sys_debug_log := (i, x) # sys_debug_log e \<rparr>"

definition Std_CommandLog :: "string \<Rightarrow> ('g, 'p) cheat_system \<Rightarrow> ('g, 'p) cheat_system" where
  "Std_CommandLog s e =
     e\<lparr> sys_command_log :=
          (if s \<noteq> [] \<and> last s = newline then butlast s else s) # sys_command_log e \<rparr>"

definition StandardVmCallbacks ::
  "'g GPU \<Rightarrow> 'p process_ops \<Rightarrow> CheatProcessMetadata \<Rightarrow> ('g, 'p) cheat_system Callbacks" where
  "StandardVmCallbacks gpu ops md =
     \<lparr> MemoryReadUnsafe = Std_MemoryReadUnsafe gpu md,
       MemoryWriteUnsafe = Std_MemoryWriteUnsafe gpu md,
       HidKeysDown = Std_HidKeysDown, PauseProcess = Std_PauseProcess ops,
       ResumeProcess = Std_ResumeProcess ops, DebugLog = Std_DebugLog,
       CommandLog = Std_CommandLog \<rparr>"

section \<open>The engine\<close>

record ('g, 'p) CheatEngine =
  vm :: "('g, 'p) cheat_system DmntCheatVm"
  metadata :: CheatProcessMetadata
  cheats :: "CheatEntry list"
  is_pending_reload :: bool
  event_scheduled :: bool

definition CheatEngine_ctor ::
  "CheatEntry list \<Rightarrow> u8 list \<Rightarrow> ('g, 'p) cheat_system \<Rightarrow> ('g, 'p) CheatEngine" where
  "CheatEngine_ctor entries build_id sys =
     \<lparr> vm = DmntCheatVm_ctor sys, metadata = no_metadata\<lparr> main_nso_build_id := build_id \<rparr>,
       cheats = entries, is_pending_reload = False, event_scheduled = False \<rparr>"

record process_info =
  info_process_id :: u64
  info_program_id :: u64
  info_heap :: MemoryRegionExtents
  info_alias_code :: MemoryRegionExtents
  info_alias :: MemoryRegionExtents

definition CheatEngine_Initialize :: "process_info \<Rightarrow> ('g, 'p) CheatEngine \<Rightarrow> ('g, 'p) CheatEngine" where
  "CheatEngine_Initialize info eng =
     eng\<lparr> event_scheduled := True,
          metadata := (metadata eng)
            \<lparr> process_id := info_process_id info, title_id := info_program_id info,
              heap_extents := info_heap info, aslr_extents := info_alias_code info,
              alias_extents := info_alias info \<rparr>,
          is_pending_reload := True \<rparr>"

definition SetMainMemoryParameters :: "u64 \<Rightarrow> u64 \<Rightarrow> ('g, 'p) CheatEngine \<Rightarrow> ('g, 'p) CheatEngine" where
  "SetMainMemoryParameters main_region_begin main_region_size eng =
     eng\<lparr> metadata := (metadata eng)
           \<lparr> main_nso_extents := \<lparr> base = main_region_begin, ext_size = main_region_size \<rparr> \<rparr> \<rparr>"

definition Reload :: "CheatEntry list \<Rightarrow> ('g, 'p) CheatEngine \<Rightarrow> ('g, 'p) CheatEngine" where
  "Reload reload_cheats eng = eng\<lparr> cheats := reload_cheats, is_pending_reload := True \<rparr>"

text \<open>One callback; fuel and errors are those of \<open>Execute\<close>.\<close>

definition FrameCallback ::
  "nat \<Rightarrow> 'g GPU \<Rightarrow> 'p process_ops \<Rightarrow> ('g, 'p) CheatEngine \<Rightarrow>
   (vm_error + ('g, 'p) CheatEngine) option" where
  "FrameCallback fuel gpu ops eng =
     (let eng1 = (if is_pending_reload eng
                  then eng\<lparr> is_pending_reload := False, vm := snd (LoadProgram (cheats eng) (vm eng)) \<rparr>
                  else eng)
      in if GetProgramSize (vm eng1) = 0 then Some (Inr eng1)
         else case Execute fuel (StandardVmCallbacks gpu ops (metadata eng1)) (metadata eng1) (vm eng1) of
                None \<Rightarrow> None
              | Some (Inl err) \<Rightarrow> Some (Inl err)
              | Some (Inr v) \<Rightarrow> Some (Inr (eng1\<lparr> vm := v \<rparr>)))"

section \<open>What the callbacks may change\<close>

text \<open>Well-formed memory none of whose pages needs the GPU.\<close>

definition plain_memory :: "'g Memory_Impl \<Rightarrow> bool" where
  "plain_memory m \<longleftrightarrow>
     mem_wf m \<and> list_all (\<lambda>i. page_kind m i \<noteq> RasterizerCachedMemory) [0..<page_count m]"

lemma plain_memory_host [simp]: "plain_memory (m\<lparr> host_memory := h \<rparr>) = plain_memory m"
  by (simp add: plain_memory_def)

text \<open>
  The host bytes cheats may change: those behind a mapped guest address at most seven bytes
  after an address the range check accepts.
\<close>

definition cheat_target :: "CheatProcessMetadata \<Rightarrow> 'g Memory_Impl \<Rightarrow> u64 \<Rightarrow> bool" where
  "cheat_target md m p \<longleftrightarrow>
     (\<exists>a i. IsAddressInRange md a \<and> i < 8 \<and> mapped m (unat a + i) \<and> p = guest_ptr m (unat a + i))"

lemma cheat_target_host [simp]: "cheat_target md (m\<lparr> host_memory := h \<rparr>) = cheat_target md m"
  by (simp add: cheat_target_def fun_eq_iff)

definition memory_confined :: "CheatProcessMetadata \<Rightarrow> 'g Memory_Impl \<Rightarrow> 'g Memory_Impl \<Rightarrow> bool" where
  "memory_confined md m m' \<longleftrightarrow>
     m' = m\<lparr> host_memory := host_memory m' \<rparr> \<and>
     (\<forall>p. host_memory m' p \<noteq> host_memory m p \<longrightarrow> cheat_target md m p)"

lemma memory_confined_refl: "memory_confined md m m"
  by (simp add: memory_confined_def)

lemma memory_confined_trans:
  assumes "memory_confined md m m'" "memory_confined md m' m''"
  shows "memory_confined md m m''"
proof -
  obtain h h' where m': "m' = m\<lparr> host_memory := h \<rparr>" and "m'' = m'\<lparr> host_memory := h' \<rparr>"
    using assms unfolding memory_confined_def by blast
  then have "m'' = m\<lparr> host_memory := h' \<rparr>" by simp
  with assms m' show ?thesis by (simp add: memory_confined_def) metis
qed

definition confined :: "CheatProcessMetadata \<Rightarrow> ('g, 'p) cheat_system \<Rightarrow> ('g, 'p) cheat_system \<Rightarrow> bool" where
  "confined md e e' \<longleftrightarrow>
     (plain_memory (sys_memory e) \<longrightarrow>
        memory_confined md (sys_memory e) (sys_memory e') \<and> sys_fault e' = sys_fault e)"

lemma confined_memory: "sys_memory e' = sys_memory e \<Longrightarrow> sys_fault e' = sys_fault e \<Longrightarrow> confined md e e'"
  by (simp add: confined_def memory_confined_refl)

lemma confined_trans:
  assumes "confined md e e'" "confined md e' e''"
  shows "confined md e e''"
  unfolding confined_def
proof
  assume p: "plain_memory (sys_memory e)"
  with assms(1) have c: "memory_confined md (sys_memory e) (sys_memory e')" "sys_fault e' = sys_fault e"
    by (simp_all add: confined_def)
  then have "plain_memory (sys_memory e')" using p unfolding memory_confined_def by (metis plain_memory_host)
  with assms(2) c show "memory_confined md (sys_memory e) (sys_memory e'') \<and> sys_fault e'' = sys_fault e"
    using memory_confined_trans by (auto simp: confined_def)
qed

lemma plain_memory_range:
  assumes "plain_memory m" "AddressSpaceContains (current_page_table m) addr len"
  shows "plain_range m (unat addr) (unat len)"
  unfolding plain_range_def
proof (intro allI impI)
  fix i assume "i < unat len"
  moreover have "unat addr + unat len \<le> 4096 * page_count m"
    using WalkBlock_walk_at(2) [of "(m, ())" addr len] assms by (simp add: plain_memory_def)
  ultimately have "(unat addr + i) div 4096 < page_count m" by simp
  with assms(1) show "page_kind m ((unat addr + i) div 4096) \<noteq> RasterizerCachedMemory"
    by (simp add: plain_memory_def list_all_iff)
qed

lemma ReadBlock_plain:
  assumes "plain_memory m"
  shows "\<exists>ok bs. ReadBlock gpu addr len m = Inr (ok, m, bs)"
proof (cases "AddressSpaceContains (current_page_table m) addr len")
  case True
  then show ?thesis
    using ReadBlockImpl_eq [OF _ True] plain_memory_range [OF assms True] assms
    by (simp add: ReadBlock_def plain_memory_def)
qed (auto simp: ReadBlock_def ReadBlockImpl_def WalkBlock_def ReadBlock_callbacks_def)

lemma WriteBlock_plain:
  assumes "plain_memory m" "length bs < 2 ^ 64"
  shows "\<exists>ok bs'. WriteBlock gpu addr bs (word_of_nat (length bs)) m =
    Inr (ok, m\<lparr> host_memory := guest_write m (unat addr) bs' (host_memory m) \<rparr>) \<and> length bs' \<le> length bs"
proof (cases "AddressSpaceContains (current_page_table m) addr (word_of_nat (length bs))")
  case True
  have "unat (word_of_nat (length bs) :: u64) = length bs" using assms(2) by (rule unat_u64_of_nat)
  then have "WriteBlock gpu addr bs (word_of_nat (length bs)) m =
      Inr (\<forall>i < length bs. mapped m (unat addr + i),
           m\<lparr> host_memory := guest_write m (unat addr) bs (host_memory m) \<rparr>)"
    using WriteBlockImpl_eq [OF _ True, of False bs gpu] plain_memory_range [OF assms(1) True] assms(1)
    by (simp add: WriteBlock_def plain_memory_def)
  then show ?thesis by blast
next
  case False
  then have "WriteBlock gpu addr bs (word_of_nat (length bs)) m =
      Inr (False, m\<lparr> host_memory := guest_write m (unat addr) [] (host_memory m) \<rparr>)"
    by (simp add: WriteBlock_def WriteBlockImpl_def WalkBlock_def WriteBlock_callbacks_def)
  then show ?thesis by (intro exI [of _ False] exI [of _ "[]"]) simp
qed

lemma guest_write_confined:
  assumes "IsAddressInRange md addr" "length bs \<le> 8"
  shows "memory_confined md m (m\<lparr> host_memory := guest_write m (unat addr) bs (host_memory m) \<rparr>)"
  using assms guest_write_other [of bs m "unat addr" _ "host_memory m"]
  by (fastforce simp: memory_confined_def cheat_target_def)

lemma Std_read_confined: "confined md e (snd (Std_MemoryReadUnsafe gpu md addr n e))"
  using ReadBlock_plain [of "sys_memory e" gpu addr "word_of_nat n"]
  by (auto simp: confined_def Std_MemoryReadUnsafe_def memory_confined_refl)

lemma Std_write_confined:
  assumes "length bs \<le> 8"
  shows "confined md e (Std_MemoryWriteUnsafe gpu md addr bs e)"
proof (cases "IsAddressInRange md addr \<and> IsValidVirtualAddress (sys_memory e) addr \<and> plain_memory (sys_memory e)")
  case True
  moreover have "length bs < 2 ^ 64" using assms by simp
  ultimately obtain ok bs' where w: "WriteBlock gpu addr bs (word_of_nat (length bs)) (sys_memory e) =
      Inr (ok, (sys_memory e)\<lparr> host_memory := guest_write (sys_memory e) (unat addr) bs' (host_memory (sys_memory e)) \<rparr>)"
    and "length bs' \<le> 8"
    using WriteBlock_plain [of "sys_memory e" bs gpu addr] assms by fastforce
  then show ?thesis
    using True guest_write_confined [of md addr bs' "sys_memory e"]
    by (simp add: confined_def Std_MemoryWriteUnsafe_def Let_def)
qed (auto simp: confined_def Std_MemoryWriteUnsafe_def memory_confined_refl)

interpretation std_callbacks: vm_environment "StandardVmCallbacks gpu ops md" "confined md"
  for gpu :: "'g GPU" and ops :: "'p process_ops" and md
proof unfold_locales
  fix e e' e'' :: "('g, 'p) cheat_system" and addr :: u64
  show "confined md e e''" if "confined md e e'" "confined md e' e''"
    using that by (rule confined_trans)
  show "confined md e (snd (MemoryReadUnsafe (StandardVmCallbacks gpu ops md) addr n e))" for n
    by (simp add: StandardVmCallbacks_def Std_read_confined)
  show "confined md e (MemoryWriteUnsafe (StandardVmCallbacks gpu ops md) addr bs e)" if "length bs \<le> 8" for bs
    using that by (simp add: StandardVmCallbacks_def Std_write_confined)
qed (auto intro!: confined_memory simp: StandardVmCallbacks_def Std_HidKeysDown_def Std_PauseProcess_def
    Std_ResumeProcess_def Std_DebugLog_def Std_CommandLog_def split: option.splits)

section \<open>Loading\<close>

text \<open>Loading a program changes the program and its length only.\<close>

definition same_machine :: "'e DmntCheatVm \<Rightarrow> 'e DmntCheatVm \<Rightarrow> bool" where
  "same_machine v v' \<longleftrightarrow>
     v' = v\<lparr> program := program v', num_opcodes := num_opcodes v' \<rparr> \<and> length (program v') = length (program v)"

lemma same_machine_trans:
  assumes "same_machine u v" "same_machine v w"
  shows "same_machine u w"
proof -
  from assms obtain ps n qs k where "v = u\<lparr> program := ps, num_opcodes := n \<rparr>"
    "w = v\<lparr> program := qs, num_opcodes := k \<rparr>" unfolding same_machine_def by blast
  then have "w = u\<lparr> program := qs, num_opcodes := k \<rparr>" by simp
  with assms show ?thesis by (simp add: same_machine_def)
qed

lemma LoadProgram_copy_same: "same_machine v (LoadProgram_copy k n ops v)"
proof (induction k arbitrary: n v)
  case (Suc k)
  have "same_machine v (v\<lparr> program := (program v)[i := x], num_opcodes := j \<rparr>)" for i x j
    by (simp add: same_machine_def)
  then show ?case using same_machine_trans [OF _ Suc.IH] by simp
qed (simp add: same_machine_def)

lemma LoadProgram_loop_same: "same_machine v (snd (LoadProgram_loop es v))"
proof (induction es arbitrary: v)
  case (Cons e es)
  then show ?case using same_machine_trans [OF LoadProgram_copy_same Cons.IH]
    by (simp add: same_machine_def)
qed (simp add: same_machine_def)

lemma LoadProgram_same: "same_machine v (snd (LoadProgram es v))"
proof -
  have "same_machine v (v\<lparr> num_opcodes := 0 \<rparr>)" by (simp add: same_machine_def)
  then show ?thesis using same_machine_trans [OF _ LoadProgram_loop_same] by (simp add: LoadProgram_def)
qed

lemma LoadProgram_env [simp]: "env (snd (LoadProgram es v)) = env v"
proof -
  obtain ps n where "snd (LoadProgram es v) = v\<lparr> program := ps, num_opcodes := n \<rparr>"
    using LoadProgram_same unfolding same_machine_def by blast
  then show ?thesis by simp
qed

lemma LoadProgram_words:
  assumes "list_all entry_ok es" "vm_wf v"
  shows "vm_wf (snd (LoadProgram es v))"
    "take (GetProgramSize (snd (LoadProgram es v))) (program (snd (LoadProgram es v))) =
     (if length (enabled_words es) \<le> MaximumProgramOpcodeCount then enabled_words es else [])"
proof -
  let ?v = "snd (LoadProgram es v)"
  note l = LoadProgram_loop_eq [OF assms(1), of "v\<lparr> num_opcodes := 0 \<rparr>"]
  show "take (GetProgramSize ?v) (program ?v) =
      (if length (enabled_words es) \<le> MaximumProgramOpcodeCount then enabled_words es else [])"
    using l assms(2) by (auto simp: LoadProgram_def GetProgramSize_def vm_wf_def split: if_splits)
  have "num_opcodes ?v \<le> MaximumProgramOpcodeCount"
    using l assms(2) by (auto simp: LoadProgram_def vm_wf_def split: if_splits)
  moreover obtain ps n where "?v = v\<lparr> program := ps, num_opcodes := n \<rparr>" "length ps = length (program v)"
    using LoadProgram_same [of v es] unfolding same_machine_def by metis
  ultimately show "vm_wf ?v" using assms(2) by (simp add: vm_wf_def)
qed

lemma finished_entry_words:
  assumes "length (snd e) \<le> max_opcodes"
  shows "entry_ok (finish_entry (n, entry_of e))"
    "enabled_words (finish_entry (n, entry_of e) # es) = snd e @ enabled_words es"
proof -
  have u: "unat (word_of_nat (length (snd e)) :: u32) = length (snd e)"
    using assms by (simp add: max_opcodes_def unat_word_of_nat)
  then show "entry_ok (finish_entry (n, entry_of e))"
    by (simp add: entry_ok_def finish_entry_def entry_of_def)
  have "(0 :: u32) < word_of_nat (length (snd e)) \<longleftrightarrow> snd e \<noteq> []"
    using u by (metis length_greater_0_conv unat_gt_0 unsigned_0 word_gt_0)
  with u show "enabled_words (finish_entry (n, entry_of e) # es) = snd e @ enabled_words es"
    by (simp add: enabled_words_def finish_entry_def entry_of_def)
qed

lemma rendered_words:
  assumes "list_all (\<lambda>e. length (snd e) \<le> max_opcodes) es"
  shows "list_all entry_ok (map finish_entry (enumerate n (map entry_of es)))"
    "enabled_words (map finish_entry (enumerate n (map entry_of es))) = concat (map snd es)"
  using assms
  by (induction es arbitrary: n) (simp_all add: finished_entry_words, simp_all add: enabled_words_def)

section \<open>Properties\<close>

lemma FrameCallback_cases:
  assumes "FrameCallback fuel gpu ops eng = Some (Inr eng')"
  obtains v where "env v = env (vm eng)" "metadata eng' = metadata eng"
    "vm eng' = v \<or> Execute fuel (StandardVmCallbacks gpu ops (metadata eng)) (metadata eng) v = Some (Inr (vm eng'))"
proof -
  let ?v = "if is_pending_reload eng then snd (LoadProgram (cheats eng) (vm eng)) else vm eng"
  have "env ?v = env (vm eng)" by simp
  moreover have "metadata eng' = metadata eng \<and> (vm eng' = ?v \<or>
      Execute fuel (StandardVmCallbacks gpu ops (metadata eng)) (metadata eng) ?v = Some (Inr (vm eng')))"
    using assms
    by (cases "is_pending_reload eng")
       (auto simp: FrameCallback_def Let_def split: if_splits option.splits sum.splits)
  ultimately show ?thesis using that by blast
qed

text \<open>
  Property C11. A callback of the cheat engine never reaches outside the regions of the process:
  over well-formed memory without rasterizer-cached pages, whatever cheats are loaded, no null
  pointer is dereferenced, the page table stays as it is, and every host byte that changes is
  the translation of a mapped guest address at most seven bytes after an address inside the
  main, heap, alias or alias-code region. (Only the first byte of an access is checked, hence
  the seven bytes.)
\<close>

theorem cheat_writes_confined:
  assumes "plain_memory (sys_memory (env (vm eng)))" "FrameCallback fuel gpu ops eng = Some (Inr eng')"
  shows "sys_fault (env (vm eng')) = sys_fault (env (vm eng)) \<and>
    current_page_table (sys_memory (env (vm eng'))) = current_page_table (sys_memory (env (vm eng))) \<and>
    (\<forall>p. host_memory (sys_memory (env (vm eng'))) p \<noteq> host_memory (sys_memory (env (vm eng))) p \<longrightarrow>
       (\<exists>a i. IsAddressInRange (metadata eng) a \<and> i < 8 \<and>
          mapped (sys_memory (env (vm eng))) (unat a + i) \<and>
          p = guest_ptr (sys_memory (env (vm eng))) (unat a + i)))"
proof -
  obtain v where v: "env v = env (vm eng)"
    "vm eng' = v \<or> Execute fuel (StandardVmCallbacks gpu ops (metadata eng)) (metadata eng) v = Some (Inr (vm eng'))"
    using assms(2) by (rule FrameCallback_cases)
  then have "confined (metadata eng) (env (vm eng)) (env (vm eng'))"
    using std_callbacks.run_safe [of fuel gpu ops "metadata eng" "metadata eng" v] std_callbacks.safe_refl by auto
  then obtain h where "sys_fault (env (vm eng')) = sys_fault (env (vm eng))"
    "sys_memory (env (vm eng')) = (sys_memory (env (vm eng)))\<lparr> host_memory := h \<rparr>"
    "\<forall>p. host_memory (sys_memory (env (vm eng'))) p \<noteq> host_memory (sys_memory (env (vm eng))) p \<longrightarrow>
       cheat_target (metadata eng) (sys_memory (env (vm eng))) p"
    using assms(1) unfolding confined_def memory_confined_def by blast
  then show ?thesis unfolding cheat_target_def by simp
qed

text \<open>
  Property C28. From text to execution: after \<^verbatim>\<open>Reload\<close> with the parsed text of a master cheat
  and a list of named cheats, the next callback runs the interpreter on a well-formed machine
  whose program is exactly the words of the text in order, or none when there are more than
  fit; with no words it returns at once. The reload is consumed by the callback.
\<close>

theorem frame_runs_reloaded_cheats:
  assumes "source_ok (CHR ''}'') master" "list_all (source_ok (CHR '']'')) es" "vm_wf (vm eng)"
  shows "\<exists>v. let words = concat (map snd (master # es));
              loaded = Parse past (render_master master @ concat (map render_entry es));
              eng1 = eng\<lparr> cheats := loaded, is_pending_reload := False, vm := v \<rparr>
          in vm_wf v \<and> env v = env (vm eng) \<and>
             take (GetProgramSize v) (program v) =
               (if length words \<le> MaximumProgramOpcodeCount then words else []) \<and>
             FrameCallback fuel gpu ops (Reload loaded eng) =
               (if GetProgramSize v = 0 then Some (Inr eng1)
                else map_option (map_sum id (\<lambda>w. eng1\<lparr> vm := w \<rparr>))
                  (Execute fuel (StandardVmCallbacks gpu ops (metadata eng)) (metadata eng) v))"
proof -
  define loaded where "loaded = Parse past (render_master master @ concat (map render_entry es))"
  have l: "loaded = map finish_entry (enumerate 0 (map entry_of (master # es)))"
    using assms(1,2) by (simp add: loaded_def Parse_def Parse_master Parse_entries)
  have "list_all (\<lambda>e. length (snd e) \<le> max_opcodes) (master # es)"
    using assms(1,2) by (auto simp: source_ok_def list_all_iff)
  note w = rendered_words [OF this, of 0, folded l]
  let ?v = "snd (LoadProgram loaded (vm eng))"
  note lp = LoadProgram_words [OF w(1) assms(3), unfolded w(2)]
  have "FrameCallback fuel gpu ops (Reload loaded eng) =
      (let eng1 = eng\<lparr> cheats := loaded, is_pending_reload := False, vm := ?v \<rparr>
       in if GetProgramSize ?v = 0 then Some (Inr eng1)
          else map_option (map_sum id (\<lambda>w. eng1\<lparr> vm := w \<rparr>))
            (Execute fuel (StandardVmCallbacks gpu ops (metadata eng)) (metadata eng) ?v))"
    by (simp add: FrameCallback_def Reload_def Let_def split: option.split sum.split)
  then show ?thesis using lp unfolding loaded_def [symmetric] Let_def by (intro exI [of _ ?v]) simp
qed

section \<open>Witnesses\<close>

text \<open>
  A process over the small memory, and the one-instruction program 04000000 00000010 0000002A,
  which stores the four bytes of 42 at offset 16 of the main region.
\<close>

definition idle_process :: "bool process_ops" where
  "idle_process = \<lparr> IsSuspended = (\<lambda>s. s), SetActivity = (\<lambda>a s. a = Paused) \<rparr>"

definition tiny_system :: "(unit, bool) cheat_system" where
  "tiny_system =
     \<lparr> sys_memory = tiny_memory, sys_process = False, sys_press_state = None, sys_icache = [],
       sys_debug_log = [], sys_command_log = [], sys_fault = None \<rparr>"

definition poke_vm :: "'e \<Rightarrow> 'e DmntCheatVm" where
  "poke_vm e = (ResetState (DmntCheatVm_ctor e))
     \<lparr> program := [0x04000000, 0x10, 0x2A] @ replicate 1021 0, num_opcodes := 3 \<rparr>"

definition poke_engine :: "(unit, bool) CheatEngine" where
  "poke_engine =
     (SetMainMemoryParameters 0x1000 0x1000
       (CheatEngine_ctor [] (replicate 32 0) tiny_system)) \<lparr> vm := poke_vm tiny_system \<rparr>"

lemma poke_word:
  "opcode_type 0x04000000 = 0" "nybble 24 0x04000000 = 4" "nybble 20 0x04000000 = 0"
  "nybble 16 0x04000000 = 0" "begin_conditional_block 0 = False" "wide_address 0 0x10 = 0x10"
  by code_simp+

lemma poke_decode:
  "DecodeNextOpcode (poke_vm e) =
     (Some (StoreStaticOpcode 4 MainNso 0 0x10 0x2A, False), (poke_vm e)\<lparr> instruction_ptr := 3 \<rparr>)"
  by (simp add: poke_vm_def DecodeNextOpcode_def GetNextDword_def Decode_opcode_def
      Decode_StoreStatic_def GetNextVmInt_def poke_word to_MemoryAccessType_def ResetState_def
      DmntCheatVm_ctor_def numeral_3_eq_3)

lemma poke_end:
  "instruction_ptr v = 3 \<Longrightarrow> num_opcodes v = 3 \<Longrightarrow> fst (DecodeNextOpcode v) = None"
  "env (snd (DecodeNextOpcode v)) = env v"
  by (simp_all add: DecodeNextOpcode_def GetNextDword_def Let_def case_prod_unfold)

lemma poke_reset: "ResetState (log_lines cb ls ((poke_vm e)\<lparr> env := e' \<rparr>)) = poke_vm (fold (CommandLog cb) ls e')"
  by (simp add: poke_vm_def log_lines_def ResetState_def DmntCheatVm_ctor_def)

lemma poke_step:
  "\<exists>ls v. Execute_step cb md k (StoreStaticOpcode 4 MainNso 0 0x10 0x2A) False ((poke_vm e)\<lparr> instruction_ptr := 3 \<rparr>) = Inr v
     \<and> instruction_ptr v = 3 \<and> num_opcodes v = 3
     \<and> env v = MemoryWriteUnsafe cb (base (main_nso_extents md) + 0x10) [0x2A, 0, 0, 0] (fold (CommandLog cb) ls e)"
proof -
  have "low_bytes 4 0x2A = [0x2A, 0, 0, 0]" by code_simp
  then show ?thesis
    by (auto simp: Execute_step_def log_lines_def Execute_StoreStatic_def write_memory_def valid_width_def
      GetCheatProcessAddress_def GetVmInt_def poke_vm_def ResetState_def DmntCheatVm_ctor_def vm_size_defs)
qed

lemma poke_run:
  "\<exists>ls v. Execute 2 cb md (poke_vm e) = Some (Inr v) \<and>
     env v = MemoryWriteUnsafe cb (base (main_nso_extents md) + 0x10) [0x2A, 0, 0, 0]
               (fold (CommandLog cb) ls (snd (HidKeysDown cb e)))"
proof -
  let ?k = "fst (HidKeysDown cb (env (poke_vm e)))"
  let ?e = "fold (CommandLog cb) (start_lines md ?k) (snd (HidKeysDown cb e))"
  have e: "env (poke_vm e) = e" by (simp add: poke_vm_def ResetState_def DmntCheatVm_ctor_def)
  obtain ls v where s: "Execute_step cb md ?k (StoreStaticOpcode 4 MainNso 0 0x10 0x2A) False
       ((poke_vm ?e)\<lparr> instruction_ptr := 3 \<rparr>) = Inr v" and v: "instruction_ptr v = 3" "num_opcodes v = 3"
     "env v = MemoryWriteUnsafe cb (base (main_nso_extents md) + 0x10) [0x2A, 0, 0, 0] (fold (CommandLog cb) ls ?e)"
    using poke_step [of cb md ?k ?e] by (elim exE conjE) (rule that)
  obtain v' where d: "DecodeNextOpcode v = (None, v')" "env v' = env v"
    using poke_end(1) [OF v(1,2)] poke_end(2) [of v] by (metis prod.collapse)
  have "Execute 2 cb md (poke_vm e) = Some (Inr v')"
    using s d(1) by (simp add: Execute_def case_prod_unfold Let_def poke_reset e poke_decode numeral_2_eq_2)
  moreover have "env v' = MemoryWriteUnsafe cb (base (main_nso_extents md) + 0x10) [0x2A, 0, 0, 0]
      (fold (CommandLog cb) (start_lines md ?k @ ls) (snd (HidKeysDown cb e)))"
    using d(2) v(3) by simp
  ultimately show ?thesis by blast
qed

lemma log_fold_memory: "sys_memory (fold Std_CommandLog ls e) = sys_memory e"
  by (induction ls arbitrary: e) (simp_all add: Std_CommandLog_def)

lemma tiny_plain_memory: "plain_memory tiny_memory"
  using tiny_wf tiny_kinds [unfolded numeral_2_eq_2 numeral_3_eq_3] by (simp add: plain_memory_def)

theorem cheat_writes_confined_witness:
  "\<exists>eng'. FrameCallback 2 silent_gpu idle_process poke_engine = Some (Inr eng') \<and>
     host_memory (sys_memory (env (vm eng'))) 0x102010 = 0x2A \<and>
     sys_fault (env (vm eng')) = None \<and>
     current_page_table (sys_memory (env (vm eng'))) = current_page_table tiny_memory"
proof -
  let ?md = "metadata poke_engine"
  let ?cb = "StandardVmCallbacks silent_gpu idle_process ?md"
  have md: "base (main_nso_extents ?md) = 0x1000" "ext_size (main_nso_extents ?md) = 0x1000"
    and eng: "vm poke_engine = poke_vm tiny_system" "\<not> is_pending_reload poke_engine"
    by (simp_all add: poke_engine_def SetMainMemoryParameters_def CheatEngine_ctor_def)
  obtain ls v where r: "Execute 2 ?cb ?md (poke_vm tiny_system) = Some (Inr v)"
    and v: "env v = MemoryWriteUnsafe ?cb 0x1010 [0x2A, 0, 0, 0] (fold (CommandLog ?cb) ls (snd (HidKeysDown ?cb tiny_system)))"
    using poke_run [of ?cb ?md tiny_system] md by auto
  define e where "e = fold Std_CommandLog ls tiny_system"
  have mem: "sys_memory e = tiny_memory" by (simp add: e_def log_fold_memory tiny_system_def)
  have v': "env v = Std_MemoryWriteUnsafe silent_gpu ?md 0x1010 [0x2A, 0, 0, 0] e"
    using v by (simp add: StandardVmCallbacks_def Std_HidKeysDown_def tiny_system_def e_def)
  have c: "AddressSpaceContains (current_page_table tiny_memory) 0x1010 4"
    by (simp add: AddressSpaceContains_def GetAddressSpaceBits_def)
  have "WriteBlock silent_gpu 0x1010 [0x2A, 0, 0, 0] 4 tiny_memory =
      Inr (\<forall>i < 4. mapped tiny_memory (0x1010 + i),
        tiny_memory\<lparr> host_memory := guest_write tiny_memory 0x1010 [0x2A, 0, 0, 0] (host_memory tiny_memory) \<rparr>)"
    using WriteBlockImpl_eq [OF tiny_wf c, of False "[0x2A, 0, 0, 0]" silent_gpu]
      plain_memory_range [OF tiny_plain_memory c] by (simp add: WriteBlock_def)
  moreover have "IsAddressInRange ?md 0x1010"
    using md by (simp add: IsAddressInRange_def in_extents_def)
  moreover have "IsValidVirtualAddress tiny_memory 0x1010"
    by (simp add: IsValidVirtualAddress_def YUZU_PAGEBITS_def ExtractPointer_def mask_eq_exp_minus_1)
  ultimately have w: "sys_memory (env v) = tiny_memory\<lparr> host_memory :=
      guest_write tiny_memory 0x1010 [0x2A, 0, 0, 0] (host_memory tiny_memory) \<rparr>"
    by (simp add: v' Std_MemoryWriteUnsafe_def mem Let_def)
  have "host_memory (sys_memory (env v)) 0x102010 = 0x2A"
    unfolding w by (simp add: mapped_def guest_ptr_def tiny_kinds page_rel_def DramBase_def)
  moreover have f: "FrameCallback 2 silent_gpu idle_process poke_engine = Some (Inr (poke_engine\<lparr> vm := v \<rparr>))"
    using r eng by (simp add: FrameCallback_def GetProgramSize_def poke_vm_def)
  moreover have "sys_memory (env (vm poke_engine)) = tiny_memory" "sys_fault (env (vm poke_engine)) = None"
    by (simp_all add: eng poke_vm_def ResetState_def DmntCheatVm_ctor_def tiny_system_def)
  ultimately show ?thesis
    using cheat_writes_confined [OF _ f] tiny_plain_memory by (intro exI [of _ "poke_engine\<lparr> vm := v \<rparr>"]) simp
qed

lemma poke_vm_wf: "vm_wf (poke_vm e)"
  by (simp add: poke_vm_def vm_wf_def ResetState_def DmntCheatVm_ctor_def vm_size_defs)

theorem frame_runs_reloaded_cheats_witness:
  "\<exists>v. take (GetProgramSize v) (program v) = [0x580F0000, 1, 0x2F] \<and> env v = tiny_system \<and>
     FrameCallback 1 silent_gpu idle_process
       (Reload (Parse CHR ''x'' (render_master (''M'', [0x580F0000]) @ render_entry (''A'', [1, 0x2F]))) poke_engine)
     = map_option (map_sum id (\<lambda>w. poke_engine
           \<lparr> cheats := Parse CHR ''x'' (render_master (''M'', [0x580F0000]) @ render_entry (''A'', [1, 0x2F])),
             is_pending_reload := False, vm := w \<rparr>))
         (Execute 1 (StandardVmCallbacks silent_gpu idle_process (metadata poke_engine)) (metadata poke_engine) v)"
proof -
  have src: "source_ok (CHR ''}'') (''M'', [0x580F0000])" "list_all (source_ok (CHR '']'')) [(''A'', [1, 0x2F])]"
    by (simp_all add: source_ok_def readable_name_size_def max_opcodes_def)
  have wf: "vm_wf (vm poke_engine)" and env: "env (vm poke_engine) = tiny_system"
    by (simp_all add: poke_engine_def poke_vm_wf, simp add: poke_vm_def ResetState_def DmntCheatVm_ctor_def)
  have max: "3 \<le> MaximumProgramOpcodeCount" by (simp add: vm_size_defs)
  show ?thesis
    using frame_runs_reloaded_cheats [OF src wf, where past = "CHR ''x''" and fuel = 1 and gpu = silent_gpu
        and ops = idle_process] env max
    by (auto simp: Let_def)
qed

end
