(* ===== verification/MacroInterpreter.thy ===== *)
theory MacroInterpreter
  imports Prelude
begin

text \<open>
  The macro interpreter of the GPU's 3D engine, \<^verbatim>\<open>video_core/macro/macro_interpreter.cpp\<close>, with the
  opcode layout of \<^verbatim>\<open>macro.h\<close>. The 3D engine is a parameter: its state and the two operations
  \<^verbatim>\<open>CallMethod\<close> and \<^verbatim>\<open>GetRegisterValue\<close>.

  The parameters of a call are copied into a buffer the interpreter keeps between calls and
  replaces only by a larger one, so a short call leaves words of an earlier one behind its own.
  The assertion of \<^verbatim>\<open>FetchParameter\<close> only logs: a macro that fetches too much reads those words.

  What the code leaves undefined is an error value: fetching an instruction past the end of
  the code or a parameter past the end of the buffer (the assertions before them only log),
  shifting a 32-bit value by 32 or more, and calling a macro without parameters. The mask of a 31-bit field is taken with the
  wrap-around of two's complement, where the code overflows a signed integer. \<^verbatim>\<open>Step\<close> calls itself for delay slots; the recursion
  and the loop of \<^verbatim>\<open>Execute\<close> take fuel, and running out of it is \<open>None\<close>.
\<close>

unbundle bit_operations_syntax

section \<open>Opcodes\<close>

definition NUM_MACRO_REGISTERS :: nat where "NUM_MACRO_REGISTERS = 8"

datatype Operation =
    ALU | AddImmediate | ExtractInsert | ExtractShiftLeftImmediate | ExtractShiftLeftRegister
  | Read_Operation | Unused | Branch

definition operation :: "u32 \<Rightarrow> Operation" where
  "operation raw =
     (let n = ExtractValue 0 3 raw
      in if n = 0 then ALU else if n = 1 then AddImmediate else if n = 2 then ExtractInsert
         else if n = 3 then ExtractShiftLeftImmediate else if n = 4 then ExtractShiftLeftRegister
         else if n = 5 then Read_Operation else if n = 6 then Unused else Branch)"

datatype ALUOperation =
    Add | AddWithCarry | Subtract | SubtractWithBorrow | Xor | Or | And | AndNot | Nand
  | ALUOperation_Other u32

definition alu_operation :: "u32 \<Rightarrow> ALUOperation" where
  "alu_operation raw =
     (let n = ExtractValue 17 5 raw
      in if n = 0 then Add else if n = 1 then AddWithCarry else if n = 2 then Subtract
         else if n = 3 then SubtractWithBorrow else if n = 8 then Xor else if n = 9 then Or
         else if n = 10 then And else if n = 11 then AndNot else if n = 12 then Nand
         else ALUOperation_Other n)"

datatype ResultOperation =
    IgnoreAndFetch | Move | MoveAndSetMethod | FetchAndSend | MoveAndSend | FetchAndSetMethod
  | MoveAndSetMethodFetchAndSend | MoveAndSetMethodSend

definition result_operation :: "u32 \<Rightarrow> ResultOperation" where
  "result_operation raw =
     (let n = ExtractValue 4 3 raw
      in if n = 0 then IgnoreAndFetch else if n = 1 then Move else if n = 2 then MoveAndSetMethod
         else if n = 3 then FetchAndSend else if n = 4 then MoveAndSend
         else if n = 5 then FetchAndSetMethod else if n = 6 then MoveAndSetMethodFetchAndSend
         else MoveAndSetMethodSend)"

datatype BranchCondition = Zero | NotZero

definition branch_condition :: "u32 \<Rightarrow> BranchCondition" where
  "branch_condition raw = (if ExtractValue 4 1 raw = 0 then Zero else NotZero)"

definition branch_annul :: "u32 \<Rightarrow> u32" where "branch_annul raw = ExtractValue 5 1 raw"
definition is_exit :: "u32 \<Rightarrow> u32" where "is_exit raw = ExtractValue 7 1 raw"
definition dst :: "u32 \<Rightarrow> u32" where "dst raw = ExtractValue 8 3 raw"
definition src_a :: "u32 \<Rightarrow> u32" where "src_a raw = ExtractValue 11 3 raw"
definition src_b :: "u32 \<Rightarrow> u32" where "src_b raw = ExtractValue 14 3 raw"
definition immediate :: "u32 \<Rightarrow> u32" where "immediate raw = ExtractValue_signed 14 18 raw"
definition bf_src_bit :: "u32 \<Rightarrow> u32" where "bf_src_bit raw = ExtractValue 17 5 raw"
definition bf_size :: "u32 \<Rightarrow> u32" where "bf_size raw = ExtractValue 22 5 raw"
definition bf_dst_bit :: "u32 \<Rightarrow> u32" where "bf_dst_bit raw = ExtractValue 27 5 raw"

definition GetBitfieldMask :: "u32 \<Rightarrow> u32" where
  "GetBitfieldMask raw = push_bit (unat (bf_size raw)) 1 - 1"

definition GetBranchTarget :: "u32 \<Rightarrow> u32" where
  "GetBranchTarget raw = immediate raw * 4"

section \<open>State\<close>

record 'g Maxwell3D =
  CallMethod :: "u32 \<Rightarrow> u32 \<Rightarrow> bool \<Rightarrow> 'g \<Rightarrow> 'g"
  GetRegisterValue :: "u32 \<Rightarrow> 'g \<Rightarrow> u32"

record 'g MacroInterpreterImpl =
  maxwell3d :: 'g
  pc :: u32
  delayed_pc :: "u32 option"
  macro_registers :: "u32 list"
  method_address :: u32
  parameters :: "u32 list"
  num_parameters :: nat
  parameters_capacity :: nat
  next_parameter_index :: u32
  carry_flag :: bool

definition new_interpreter :: "'g \<Rightarrow> 'g MacroInterpreterImpl" where
  "new_interpreter g =
     \<lparr> maxwell3d = g, pc = 0, delayed_pc = None, macro_registers = replicate NUM_MACRO_REGISTERS 0,
       method_address = 0, parameters = [], num_parameters = 0, parameters_capacity = 0,
       next_parameter_index = 0, carry_flag = False \<rparr>"

datatype macro_error = CodeOutOfRange | ParameterOutOfRange | ShiftOutOfRange | NoParameters

definition address_of :: "u32 \<Rightarrow> u32" where "address_of raw = ExtractValue 0 12 raw"
definition increment_of :: "u32 \<Rightarrow> u32" where "increment_of raw = ExtractValue 12 6 raw"

definition GetOpcode :: "u32 list \<Rightarrow> 'g MacroInterpreterImpl \<Rightarrow> macro_error + u32" where
  "GetOpcode code s =
     (if unat (pc s) div 4 < length code then Inr (code ! (unat (pc s) div 4)) else Inl CodeOutOfRange)"

definition GetRegister :: "u32 \<Rightarrow> 'g MacroInterpreterImpl \<Rightarrow> u32" where
  "GetRegister register_id s = macro_registers s ! unat register_id"

definition SetRegister :: "u32 \<Rightarrow> u32 \<Rightarrow> 'g MacroInterpreterImpl \<Rightarrow> 'g MacroInterpreterImpl" where
  "SetRegister register_id val s =
     (if register_id = 0 then s
      else s\<lparr> macro_registers := (macro_registers s)[unat register_id := val] \<rparr>)"

definition SetMethodAddress :: "u32 \<Rightarrow> 'g MacroInterpreterImpl \<Rightarrow> 'g MacroInterpreterImpl" where
  "SetMethodAddress address s = s\<lparr> method_address := address \<rparr>"

definition Send :: "'g Maxwell3D \<Rightarrow> u32 \<Rightarrow> 'g MacroInterpreterImpl \<Rightarrow> 'g MacroInterpreterImpl" where
  "Send gpu val s =
     s\<lparr> maxwell3d := CallMethod gpu (address_of (method_address s)) val True (maxwell3d s),
       method_address := BitField_Assign 0 12 (method_address s)
         (address_of (method_address s) + increment_of (method_address s)) \<rparr>"

definition Read_Register :: "'g Maxwell3D \<Rightarrow> u32 \<Rightarrow> 'g MacroInterpreterImpl \<Rightarrow> u32" where
  "Read_Register gpu method s = GetRegisterValue gpu method (maxwell3d s)"

definition FetchParameter :: "'g MacroInterpreterImpl \<Rightarrow> macro_error + u32 \<times> 'g MacroInterpreterImpl" where
  "FetchParameter s =
     (if unat (next_parameter_index s) < length (parameters s)
      then Inr (parameters s ! unat (next_parameter_index s),
                s\<lparr> next_parameter_index := next_parameter_index s + 1 \<rparr>)
      else Inl ParameterOutOfRange)"

section \<open>Instructions\<close>

definition GetALUResult ::
  "ALUOperation \<Rightarrow> u32 \<Rightarrow> u32 \<Rightarrow> 'g MacroInterpreterImpl \<Rightarrow> u32 \<times> 'g MacroInterpreterImpl" where
  "GetALUResult op a b s =
     (case op of
        Add \<Rightarrow>
          (let result = ucast a + ucast b :: u64
           in (ucast result, s\<lparr> carry_flag := result > 0xffffffff \<rparr>))
      | AddWithCarry \<Rightarrow>
          (let result = ucast a + ucast b + (if carry_flag s then 1 else 0) :: u64
           in (ucast result, s\<lparr> carry_flag := result > 0xffffffff \<rparr>))
      | Subtract \<Rightarrow>
          (let result = ucast a - ucast b :: u64
           in (ucast result, s\<lparr> carry_flag := result < 0x100000000 \<rparr>))
      | SubtractWithBorrow \<Rightarrow>
          (let result = ucast a - ucast b - (if carry_flag s then 0 else 1) :: u64
           in (ucast result, s\<lparr> carry_flag := result < 0x100000000 \<rparr>))
      | Xor \<Rightarrow> (a XOR b, s)
      | Or \<Rightarrow> (a OR b, s)
      | And \<Rightarrow> (a AND b, s)
      | AndNot \<Rightarrow> (a AND NOT b, s)
      | Nand \<Rightarrow> (NOT (a AND b), s)
      | ALUOperation_Other n \<Rightarrow> (0, s))"

definition fetch_into :: "u32 \<Rightarrow> 'g MacroInterpreterImpl \<Rightarrow> macro_error + 'g MacroInterpreterImpl" where
  "fetch_into reg s =
     (case FetchParameter s of Inl e \<Rightarrow> Inl e | Inr (p, s1) \<Rightarrow> Inr (SetRegister reg p s1))"

definition ProcessResult ::
  "'g Maxwell3D \<Rightarrow> ResultOperation \<Rightarrow> u32 \<Rightarrow> u32 \<Rightarrow> 'g MacroInterpreterImpl \<Rightarrow>
   macro_error + 'g MacroInterpreterImpl" where
  "ProcessResult gpu op reg result s =
     (case op of
        IgnoreAndFetch \<Rightarrow> fetch_into reg s
      | Move \<Rightarrow> Inr (SetRegister reg result s)
      | MoveAndSetMethod \<Rightarrow> Inr (SetMethodAddress result (SetRegister reg result s))
      | FetchAndSend \<Rightarrow> (case fetch_into reg s of Inl e \<Rightarrow> Inl e | Inr s1 \<Rightarrow> Inr (Send gpu result s1))
      | MoveAndSend \<Rightarrow> Inr (Send gpu result (SetRegister reg result s))
      | FetchAndSetMethod \<Rightarrow>
          (case fetch_into reg s of Inl e \<Rightarrow> Inl e | Inr s1 \<Rightarrow> Inr (SetMethodAddress result s1))
      | MoveAndSetMethodFetchAndSend \<Rightarrow>
          (case FetchParameter (SetMethodAddress result (SetRegister reg result s)) of
             Inl e \<Rightarrow> Inl e | Inr (p, s1) \<Rightarrow> Inr (Send gpu p s1))
      | MoveAndSetMethodSend \<Rightarrow>
          Inr (Send gpu (drop_bit 12 result AND 0x3F)
                (SetMethodAddress result (SetRegister reg result s))))"

definition EvaluateBranchCondition :: "BranchCondition \<Rightarrow> u32 \<Rightarrow> bool" where
  "EvaluateBranchCondition cond val = (case cond of Zero \<Rightarrow> val = 0 | NotZero \<Rightarrow> val \<noteq> 0)"

text \<open>An instruction other than a branch.\<close>

definition Step_operation ::
  "'g Maxwell3D \<Rightarrow> u32 \<Rightarrow> 'g MacroInterpreterImpl \<Rightarrow> macro_error + 'g MacroInterpreterImpl" where
  "Step_operation gpu raw s =
     (let a = GetRegister (src_a raw) s; b = GetRegister (src_b raw) s;
          process = ProcessResult gpu (result_operation raw) (dst raw)
      in case operation raw of
           ALU \<Rightarrow> (let (result, s1) = GetALUResult (alu_operation raw) a b s in process result s1)
         | AddImmediate \<Rightarrow> process (a + immediate raw) s
         | ExtractInsert \<Rightarrow>
             (let src = drop_bit (unat (bf_src_bit raw)) b AND GetBitfieldMask raw;
                  d = a AND NOT (push_bit (unat (bf_dst_bit raw)) (GetBitfieldMask raw))
              in process (d OR push_bit (unat (bf_dst_bit raw)) src) s)
         | ExtractShiftLeftImmediate \<Rightarrow>
             (if unat a \<ge> 32 then Inl ShiftOutOfRange
              else process (push_bit (unat (bf_dst_bit raw)) (drop_bit (unat a) b AND GetBitfieldMask raw)) s)
         | ExtractShiftLeftRegister \<Rightarrow>
             (if unat a \<ge> 32 then Inl ShiftOutOfRange
              else process (push_bit (unat a) (drop_bit (unat (bf_src_bit raw)) b AND GetBitfieldMask raw)) s)
         | Read_Operation \<Rightarrow> process (Read_Register gpu (a + immediate raw) s) s
         | Unused \<Rightarrow> Inr s
         | Branch \<Rightarrow> Inr s)"

definition advance_pc :: "'g MacroInterpreterImpl \<Rightarrow> 'g MacroInterpreterImpl" where
  "advance_pc s =
     (case delayed_pc s of
        None \<Rightarrow> s\<lparr> pc := pc s + 4 \<rparr>
      | Some target \<Rightarrow> s\<lparr> pc := target, delayed_pc := None \<rparr>)"

primrec Step ::
  "nat \<Rightarrow> 'g Maxwell3D \<Rightarrow> u32 list \<Rightarrow> bool \<Rightarrow> 'g MacroInterpreterImpl \<Rightarrow>
   (macro_error + bool \<times> 'g MacroInterpreterImpl) option" where
  "Step 0 gpu code is_delay_slot s = None"
| "Step (Suc fuel) gpu code is_delay_slot s =
     (case GetOpcode code s of
        Inl e \<Rightarrow> Some (Inl e)
      | Inr raw \<Rightarrow>
          (let base_address = pc s; s1 = advance_pc s
           in if operation raw = Branch \<and>
                 EvaluateBranchCondition (branch_condition raw) (GetRegister (src_a raw) s1)
              then (if branch_annul raw \<noteq> 0
                    then Some (Inr (True, s1\<lparr> pc := base_address + GetBranchTarget raw \<rparr>))
                    else Step fuel gpu code True
                           (s1\<lparr> delayed_pc := Some (base_address + GetBranchTarget raw) \<rparr>))
              else
                case Step_operation gpu raw s1 of
                  Inl e \<Rightarrow> Some (Inl e)
                | Inr s2 \<Rightarrow>
                    (if is_exit raw \<noteq> 0 \<and> \<not> is_delay_slot
                     then (case Step fuel gpu code True s2 of
                             None \<Rightarrow> None
                           | Some (Inl e) \<Rightarrow> Some (Inl e)
                           | Some (Inr (_, s3)) \<Rightarrow> Some (Inr (False, s3)))
                     else Some (Inr (True, s2)))))"

declare Step.simps(2) [simp del]

section \<open>Whole macros\<close>

definition Reset :: "'g MacroInterpreterImpl \<Rightarrow> 'g MacroInterpreterImpl" where
  "Reset s =
     s\<lparr> macro_registers := replicate NUM_MACRO_REGISTERS 0, pc := 0, delayed_pc := None,
       method_address := 0, num_parameters := 0, next_parameter_index := 1, carry_flag := False \<rparr>"

text \<open>The copy of the parameters: a buffer that is too small is replaced by one of zeros first.\<close>

definition load_parameters :: "u32 list \<Rightarrow> 'g MacroInterpreterImpl \<Rightarrow> 'g MacroInterpreterImpl" where
  "load_parameters params s =
     (let s1 = s\<lparr> num_parameters := length params \<rparr>;
          s2 = (if num_parameters s1 > parameters_capacity s1
                then s1\<lparr> parameters_capacity := num_parameters s1,
                         parameters := replicate (num_parameters s1) 0 \<rparr>
                else s1)
      in s2\<lparr> parameters := params @ drop (num_parameters s2) (parameters s2) \<rparr>)"

text \<open>The state at the head of the loop.\<close>

definition macro_start :: "u32 list \<Rightarrow> 'g MacroInterpreterImpl \<Rightarrow> 'g MacroInterpreterImpl" where
  "macro_start params s =
     load_parameters params
       ((Reset s)\<lparr> macro_registers := (macro_registers (Reset s))[1 := params ! 0] \<rparr>)"

primrec Execute_loop ::
  "nat \<Rightarrow> nat \<Rightarrow> 'g Maxwell3D \<Rightarrow> u32 list \<Rightarrow> 'g MacroInterpreterImpl \<Rightarrow>
   (macro_error + 'g MacroInterpreterImpl) option" where
  "Execute_loop 0 depth gpu code s = None"
| "Execute_loop (Suc fuel) depth gpu code s =
     (case Step depth gpu code False s of
        None \<Rightarrow> None
      | Some (Inl e) \<Rightarrow> Some (Inl e)
      | Some (Inr (keep_executing, s1)) \<Rightarrow>
          if keep_executing then Execute_loop fuel depth gpu code s1 else Some (Inr s1))"

definition Execute ::
  "nat \<Rightarrow> nat \<Rightarrow> 'g Maxwell3D \<Rightarrow> u32 list \<Rightarrow> u32 list \<Rightarrow> 'g MacroInterpreterImpl \<Rightarrow>
   (macro_error + 'g MacroInterpreterImpl) option" where
  "Execute fuel depth gpu code params s =
     (if params = [] then Some (Inl NoParameters)
      else Execute_loop fuel depth gpu code (macro_start params s))"

section \<open>The invariant\<close>

definition macro_wf :: "'g MacroInterpreterImpl \<Rightarrow> bool" where
  "macro_wf s \<longleftrightarrow>
     length (macro_registers s) = NUM_MACRO_REGISTERS \<and> macro_registers s ! 0 = 0 \<and>
     unat (pc s) mod 4 = 0 \<and> (case delayed_pc s of None \<Rightarrow> True | Some t \<Rightarrow> unat t mod 4 = 0) \<and>
     unat (next_parameter_index s) \<le> length (parameters s)"

lemma macro_wf_updates [simp]:
  "macro_wf (s\<lparr> maxwell3d := g \<rparr>) = macro_wf s" "macro_wf (s\<lparr> method_address := a \<rparr>) = macro_wf s"
  "macro_wf (s\<lparr> carry_flag := c \<rparr>) = macro_wf s"
  by (simp_all add: macro_wf_def)

lemma field3_less: "unat (ExtractValue p 3 raw :: u32) < NUM_MACRO_REGISTERS"
  using unat_ExtractValue_less [of p 3 raw] by (simp add: NUM_MACRO_REGISTERS_def)

text \<open>What no instruction changes: the parameter buffer, its capacity and the number of parameters.\<close>

definition same_buffer :: "'g MacroInterpreterImpl \<Rightarrow> 'g MacroInterpreterImpl \<Rightarrow> bool" where
  "same_buffer s s' \<longleftrightarrow>
     parameters s' = parameters s \<and> num_parameters s' = num_parameters s \<and>
     parameters_capacity s' = parameters_capacity s"

lemma same_buffer_refl [simp]: "same_buffer s s"
  by (simp add: same_buffer_def)

lemma same_buffer_trans: "same_buffer s s' \<Longrightarrow> same_buffer s' s'' \<Longrightarrow> same_buffer s s''"
  by (simp add: same_buffer_def)

lemma same_buffer_updates [simp]:
  "same_buffer s (s'\<lparr> pc := a \<rparr>) = same_buffer s s'"
  "same_buffer s (s'\<lparr> delayed_pc := d \<rparr>) = same_buffer s s'"
  by (simp_all add: same_buffer_def)

text \<open>What an instruction other than a branch keeps: the invariant, the control state and the parameters.\<close>

definition same_control :: "'g MacroInterpreterImpl \<Rightarrow> 'g MacroInterpreterImpl \<Rightarrow> bool" where
  "same_control s s' \<longleftrightarrow>
     (macro_wf s \<longrightarrow> macro_wf s') \<and> pc s' = pc s \<and> delayed_pc s' = delayed_pc s \<and> same_buffer s s'"

lemma same_control_refl [simp]: "same_control s s"
  by (simp add: same_control_def)

lemma same_control_trans: "same_control s s' \<Longrightarrow> same_control s' s'' \<Longrightarrow> same_control s s''"
  by (simp add: same_control_def) (blast intro: same_buffer_trans)

lemma same_control_set [simp]:
  "same_control s (SetRegister r x s)" "same_control s (SetMethodAddress a s)" "same_control s (Send gpu x s)"
  "same_control s (snd (GetALUResult op a b s))"
proof -
  show "same_control s (SetRegister r x s)"
    by (auto simp: same_control_def same_buffer_def SetRegister_def macro_wf_def nth_list_update unat_gt_0)
  show "same_control s (SetMethodAddress a s)" "same_control s (Send gpu x s)"
    by (simp_all add: same_control_def same_buffer_def SetMethodAddress_def Send_def)
  show "same_control s (snd (GetALUResult op a b s))"
    by (cases op) (simp_all add: same_control_def same_buffer_def GetALUResult_def Let_def)
qed

lemma same_control_chain [simp]:
  "same_control s s' \<Longrightarrow> same_control s (SetRegister r x s')"
  "same_control s s' \<Longrightarrow> same_control s (SetMethodAddress a s')"
  "same_control s s' \<Longrightarrow> same_control s (Send gpu x s')"
  using same_control_trans same_control_set by blast+

lemma FetchParameter_control: "FetchParameter s = Inr (p, s') \<Longrightarrow> same_control s s'"
proof -
  assume f: "FetchParameter s = Inr (p, s')"
  have "unat (next_parameter_index s + 1) \<le> unat (next_parameter_index s) + 1"
    by (metis One_nat_def unat_1 mod_less_eq_dividend unat_word_ariths(1))
  with f show ?thesis
    by (auto simp: FetchParameter_def same_control_def same_buffer_def macro_wf_def split: if_splits)
qed

lemma fetch_into_control: "fetch_into reg s = Inr s' \<Longrightarrow> same_control s s'"
  by (auto simp: fetch_into_def dest!: FetchParameter_control split: sum.splits)

lemma same_control_after:
  "same_control (SetMethodAddress a (SetRegister r x s)) s' \<Longrightarrow> same_control s s'"
  by (erule same_control_trans [rotated]) simp

lemma ProcessResult_control: "ProcessResult gpu op reg result s = Inr s' \<Longrightarrow> same_control s s'"
  by (cases op)
     (auto simp: ProcessResult_def dest!: FetchParameter_control fetch_into_control same_control_after
       split: sum.splits)

lemma Step_operation_control: "Step_operation gpu raw s = Inr s' \<Longrightarrow> same_control s s'"
  by (cases "operation raw")
     (auto simp: Step_operation_def Let_def case_prod_unfold dest!: ProcessResult_control
       intro: same_control_trans [OF same_control_set(4)] split: if_splits)

lemma mod_32_4: "n mod 4294967296 mod 4 = n mod (4 :: nat)"
  by (rule mod_mod_cancel) simp

lemma pc_plus: "unat (pc s) mod 4 = 0 \<Longrightarrow> unat (pc s + 4) mod 4 = 0"
  by (simp add: unat_word_ariths(1) mod_32_4)

lemma branch_target_mod: "unat (pc s) mod 4 = 0 \<Longrightarrow> unat (pc s + GetBranchTarget raw) mod 4 = 0"
proof -
  assume a: "unat (pc s) mod 4 = 0"
  have "unat (GetBranchTarget raw) mod 4 = 0"
    unfolding GetBranchTarget_def unat_word_ariths(2) by (simp add: mod_32_4)
  with a have "(unat (pc s) + unat (GetBranchTarget raw)) mod 4 = 0" by presburger
  then show ?thesis by (simp add: unat_word_ariths(1) mod_32_4)
qed

lemma advance_pc_buffer [simp]: "same_buffer s (advance_pc s)"
  by (simp add: advance_pc_def split: option.split)

lemma advance_pc_wf: "macro_wf s \<Longrightarrow> macro_wf (advance_pc s) \<and> delayed_pc (advance_pc s) = None"
  by (auto simp: advance_pc_def macro_wf_def pc_plus split: option.splits)

lemma Step_wf:
  "Step fuel gpu code d s = Some (Inr (k, s')) \<Longrightarrow> macro_wf s \<Longrightarrow>
   macro_wf s' \<and> delayed_pc s' = None \<and> same_buffer s s'"
proof (induction fuel arbitrary: d s k s')
  case (Suc fuel)
  note def = Step.simps(2) [of fuel gpu code d s]
  obtain raw where raw: "GetOpcode code s = Inr raw" using Suc.prems(1) def by (auto split: sum.splits)
  let ?s1 = "advance_pc s" and ?t = "pc s + GetBranchTarget raw"
  have s1: "macro_wf ?s1" "delayed_pc ?s1 = None" "same_buffer s ?s1"
    using advance_pc_wf [OF Suc.prems(2)] by simp_all
  have t: "unat ?t mod 4 = 0" using Suc.prems(2) by (intro branch_target_mod) (simp add: macro_wf_def)
  show ?case
  proof (cases "operation raw = Branch \<and>
      EvaluateBranchCondition (branch_condition raw) (GetRegister (src_a raw) ?s1)")
    case taken: True
    show ?thesis
    proof (cases "branch_annul raw = 0")
      case True
      then have "Step fuel gpu code True (?s1\<lparr> delayed_pc := Some ?t \<rparr>) = Some (Inr (k, s'))"
        using Suc.prems(1) def raw taken by (simp add: Let_def)
      moreover have "macro_wf (?s1\<lparr> delayed_pc := Some ?t \<rparr>)" using s1(1) t by (simp add: macro_wf_def)
      ultimately have "macro_wf s' \<and> delayed_pc s' = None \<and> same_buffer (?s1\<lparr> delayed_pc := Some ?t \<rparr>) s'"
        by (rule Suc.IH)
      then show ?thesis using s1(3) by (auto elim: same_buffer_trans [rotated])
    next
      case False
      then show ?thesis using Suc.prems(1) def raw taken s1 t by (auto simp: Let_def macro_wf_def)
    qed
  next
    case False
    then obtain s2 where s2: "Step_operation gpu raw ?s1 = Inr s2"
      using Suc.prems(1) def raw by (auto simp: Let_def split: sum.splits)
    from Step_operation_control [OF this] have c: "macro_wf s2" "delayed_pc s2 = None" "same_buffer s s2"
      using s1 same_buffer_trans [OF s1(3)] by (simp_all add: same_control_def)
    show ?thesis
    proof (cases "is_exit raw \<noteq> 0 \<and> \<not> d")
      case True
      then obtain k' where "Step fuel gpu code True s2 = Some (Inr (k', s'))"
        using Suc.prems(1) def raw False s2 by (auto simp: Let_def split: option.splits sum.splits)
      from Suc.IH [OF this c(1)] show ?thesis using same_buffer_trans [OF c(3)] by simp
    next
      case stay: False
      then have "s' = s2" using Suc.prems(1) def raw False s2 by (auto simp: Let_def)
      then show ?thesis using c by simp
    qed
  qed
qed simp

text \<open>The states at the head of the loop of \<^verbatim>\<open>Execute\<close>.\<close>

inductive macro_reachable ::
  "'g Maxwell3D \<Rightarrow> u32 list \<Rightarrow> 'g MacroInterpreterImpl \<Rightarrow> 'g MacroInterpreterImpl \<Rightarrow> bool"
  for gpu code s0 where
  start: "macro_reachable gpu code s0 s0"
| step: "macro_reachable gpu code s0 s \<Longrightarrow> Step fuel gpu code False s = Some (Inr (k, s')) \<Longrightarrow>
    macro_reachable gpu code s0 s'"

lemma macro_start_wf:
  "params \<noteq> [] \<Longrightarrow> macro_wf (macro_start params s) \<and> delayed_pc (macro_start params s) = None"
  by (cases params)
     (simp_all add: macro_start_def load_parameters_def Let_def macro_wf_def Reset_def NUM_MACRO_REGISTERS_def)

lemma macro_reachable_wf:
  "macro_reachable gpu code s0 s \<Longrightarrow> macro_wf s0 \<Longrightarrow> delayed_pc s0 = None \<Longrightarrow>
   macro_wf s \<and> delayed_pc s = None \<and> same_buffer s0 s"
  by (induction rule: macro_reachable.induct) (auto dest: Step_wf intro: same_buffer_trans)

lemma Execute_reachable:
  "Execute_loop fuel depth gpu code s = Some (Inr s') \<Longrightarrow> macro_reachable gpu code s0 s \<Longrightarrow>
   macro_reachable gpu code s0 s'"
proof (induction fuel arbitrary: s)
  case (Suc fuel)
  obtain k s1 where st: "Step depth gpu code False s = Some (Inr (k, s1))"
    using Suc.prems(1) by (auto split: option.splits sum.splits)
  from macro_reachable.step [OF Suc.prems(2) st] have "macro_reachable gpu code s0 s1" .
  then show ?case using Suc.IH [of s1] Suc.prems(1) st by (auto split: if_splits)
qed simp

text \<open>
  The life of an interpreter object: it is made once, and called any number of times, on code
  that may have grown and an engine that may have changed since the last call.
\<close>

inductive interpreter_life :: "'g MacroInterpreterImpl \<Rightarrow> bool" where
  made: "interpreter_life (new_interpreter g)"
| called: "interpreter_life s \<Longrightarrow> Execute fuel depth gpu code params (s\<lparr> maxwell3d := g \<rparr>) = Some (Inr s') \<Longrightarrow>
    interpreter_life s'"

lemma macro_start_buffer:
  assumes "length (parameters s) = parameters_capacity s"
  shows "parameters (macro_start params s) = params @ drop (length params) (parameters s)"
    "num_parameters (macro_start params s) = length params"
    "length (parameters (macro_start params s)) = parameters_capacity (macro_start params s)"
    "parameters_capacity (macro_start params s) = max (parameters_capacity s) (length params)"
proof -
  show "parameters_capacity (macro_start params s) = max (parameters_capacity s) (length params)"
    "num_parameters (macro_start params s) = length params"
    by (simp_all add: macro_start_def load_parameters_def Reset_def Let_def max_def)
  show p: "parameters (macro_start params s) = params @ drop (length params) (parameters s)"
    using assms by (simp add: macro_start_def load_parameters_def Reset_def Let_def)
  show "length (parameters (macro_start params s)) = parameters_capacity (macro_start params s)"
    unfolding p using assms by (simp add: macro_start_def load_parameters_def Reset_def Let_def)
qed

lemma interpreter_life_buffer: "interpreter_life s \<Longrightarrow> length (parameters s) = parameters_capacity s"
proof (induction rule: interpreter_life.induct)
  case (called s fuel depth gpu code params g s')
  let ?s = "macro_start params (s\<lparr> maxwell3d := g \<rparr>)"
  have ne: "params \<noteq> []" and e: "Execute_loop fuel depth gpu code ?s = Some (Inr s')"
    using called.hyps(2) by (auto simp: Execute_def split: if_splits)
  have "macro_reachable gpu code ?s s'" by (rule Execute_reachable [OF e macro_reachable.start])
  then have "same_buffer ?s s'" using macro_reachable_wf macro_start_wf [OF ne] by blast
  moreover have "length (parameters ?s) = parameters_capacity ?s"
    using called.IH by (intro macro_start_buffer(3)) simp
  ultimately show ?case by (simp add: same_buffer_def)
qed (simp add: new_interpreter_def)

section \<open>Arithmetic\<close>

text \<open>The value of a number in 32-bit digits, the lowest first, and a chain of ALU operations.\<close>

primrec limbs_value :: "u32 list \<Rightarrow> int" where
  "limbs_value [] = 0"
| "limbs_value (x # xs) = uint x + 2 ^ 32 * limbs_value xs"

primrec alu_chain ::
  "ALUOperation \<Rightarrow> ALUOperation \<Rightarrow> (u32 \<times> u32) list \<Rightarrow> 'g MacroInterpreterImpl \<Rightarrow>
   u32 list \<times> 'g MacroInterpreterImpl" where
  "alu_chain op cont [] s = ([], s)"
| "alu_chain op cont (p # ps) s =
     (let (r, s1) = GetALUResult op (fst p) (snd p) s; (rs, s2) = alu_chain cont cont ps s1
      in (r # rs, s2))"

lemma uint_wide: "uint (ucast (a :: u32) :: u64) = uint a"
  by (simp add: unsigned_ucast_eq take_bit_int_eq_self order_less_trans [OF unsigned_less [where 'a = int]])

lemma uint_u32: "0 \<le> uint (a :: u32)" "uint (a :: u32) < 2 ^ 32"
  using unsigned_less [of a, where 'a = int] by simp_all

lemma low_word: "uint (ucast (w :: u64) :: u32) = uint w mod 2 ^ 32"
  by (simp add: unsigned_ucast_eq take_bit_eq_mod)

lemma mod_wrap:
  "- m \<le> n \<Longrightarrow> n < 0 \<Longrightarrow> n mod m = n + (m :: int)" "m \<le> n \<Longrightarrow> n < 2 * m \<Longrightarrow> n mod m = n - (m :: int)"
proof -
  show "n mod m = n + m" if "- m \<le> n" "n < 0"
    using that mod_pos_pos_trivial [of "n + m" m] by simp
  show "n mod m = n - m" if "m \<le> n" "n < 2 * m"
    using that mod_pos_pos_trivial [of "n - m" m] by simp
qed

lemma sum_carry:
  fixes w :: u64
  assumes "uint w = n" "0 \<le> n" "n < 2 ^ 33"
  shows "uint (ucast w :: u32) + 2 ^ 32 * of_bool (w > 0xffffffff) = n"
proof -
  have c: "w > 0xffffffff \<longleftrightarrow> 0xffffffff < n" using assms(1) by (simp add: word_less_def)
  show ?thesis
  proof (cases "0xffffffff < n")
    case True
    then have "n mod 2 ^ 32 = n - 2 ^ 32" using assms(3) by (intro mod_wrap(2)) simp_all
    then show ?thesis using True c low_word [of w] assms(1) by simp
  next
    case False
    then have "n mod 2 ^ 32 = n" using assms(2) by (intro mod_pos_pos_trivial) simp_all
    then show ?thesis using False c low_word [of w] assms(1) by simp
  qed
qed

lemma difference_borrow:
  fixes w :: u64
  assumes "uint w = n mod 2 ^ 64" "- (2 ^ 32) \<le> n" "n < 2 ^ 32"
  shows "uint (ucast w :: u32) = n + 2 ^ 32 * (1 - of_bool (w < 0x100000000))"
proof -
  have m: "uint w mod 2 ^ 32 = n mod 2 ^ 32"
    unfolding assms(1) by (rule mod_mod_cancel) simp
  have c: "w < 0x100000000 \<longleftrightarrow> n mod 2 ^ 64 < 0x100000000" unfolding assms(1) [symmetric] by (simp add: word_less_def)
  show ?thesis
  proof (cases "n < 0")
    case True
    then have "n mod 2 ^ 32 = n + 2 ^ 32" "n mod 2 ^ 64 = n + 2 ^ 64"
      using assms(2) by (intro mod_wrap(1); simp)+
    then show ?thesis using c low_word [of w] m assms(2) by simp
  next
    case False
    then have "n mod 2 ^ 32 = n" "n mod 2 ^ 64 = n"
      using assms(3) by (intro mod_pos_pos_trivial; simp)+
    then show ?thesis using c low_word [of w] m assms(3) by simp
  qed
qed

lemma alu_add:
  assumes "GetALUResult op a b s = (r, s')"
  shows "op = Add \<Longrightarrow> uint r + 2 ^ 32 * of_bool (carry_flag s') = uint a + uint b"
    "op = AddWithCarry \<Longrightarrow>
     uint r + 2 ^ 32 * of_bool (carry_flag s') = uint a + uint b + of_bool (carry_flag s)"
proof -
  let ?c = "if carry_flag s then 1 else 0 :: u64"
  note b = uint_u32 [of a] uint_u32 [of b]
  have "uint (ucast a + ucast b + ?c :: u64) = uint a + uint b + of_bool (carry_flag s)"
    "uint (ucast a + ucast b :: u64) = uint a + uint b"
    using b by (simp_all add: uint_word_ariths uint_wide mod_pos_pos_trivial)
  then show "op = Add \<Longrightarrow> uint r + 2 ^ 32 * of_bool (carry_flag s') = uint a + uint b"
    "op = AddWithCarry \<Longrightarrow>
     uint r + 2 ^ 32 * of_bool (carry_flag s') = uint a + uint b + of_bool (carry_flag s)"
    using assms b sum_carry [of "ucast a + ucast b + ?c" "uint a + uint b + of_bool (carry_flag s)"]
      sum_carry [of "ucast a + ucast b" "uint a + uint b"]
    by (auto simp: GetALUResult_def Let_def)
qed

lemma alu_subtract:
  assumes "GetALUResult op a b s = (r, s')"
  shows "op = Subtract \<Longrightarrow> uint r = uint a - uint b + 2 ^ 32 * (1 - of_bool (carry_flag s'))"
    "op = SubtractWithBorrow \<Longrightarrow>
     uint r = uint a - uint b - (1 - of_bool (carry_flag s)) + 2 ^ 32 * (1 - of_bool (carry_flag s'))"
proof -
  let ?c = "if carry_flag s then 0 else 1 :: u64"
  let ?n = "uint a - uint b - (1 - of_bool (carry_flag s))"
  note b = uint_u32 [of a] uint_u32 [of b]
  have u: "uint (ucast a - ucast b - ?c :: u64) = ?n mod 2 ^ 64"
    "uint (ucast a - ucast b :: u64) = (uint a - uint b) mod 2 ^ 64"
    by (simp_all add: uint_word_ariths uint_wide mod_simps)
  have n: "- (2 ^ 32) \<le> ?n" "?n < 2 ^ 32" "- (2 ^ 32) \<le> uint a - uint b" "uint a - uint b < 2 ^ 32"
    using b by (cases "carry_flag s"; simp; linarith)+
  have up: "carry_flag (s\<lparr> carry_flag := c \<rparr>) = c" for c by simp
  note d = difference_borrow [OF u(1) n(1,2)] difference_borrow [OF u(2) n(3,4)]
  show "op = Subtract \<Longrightarrow> uint r = uint a - uint b + 2 ^ 32 * (1 - of_bool (carry_flag s'))"
    using assms d(2) by (auto simp only: GetALUResult_def Let_def ALUOperation.case prod.inject up)
  show "op = SubtractWithBorrow \<Longrightarrow>
      uint r = uint a - uint b - (1 - of_bool (carry_flag s)) + 2 ^ 32 * (1 - of_bool (carry_flag s'))"
    using assms d(1) by (auto simp only: GetALUResult_def Let_def ALUOperation.case prod.inject up)
qed

lemma alu_chain_carry:
  assumes "alu_chain AddWithCarry AddWithCarry ps s = (rs, s')"
  shows "limbs_value rs + 2 ^ (32 * length ps) * of_bool (carry_flag s') =
    limbs_value (map fst ps) + limbs_value (map snd ps) + of_bool (carry_flag s)"
  using assms
proof (induction ps arbitrary: s rs)
  case (Cons p ps)
  obtain r s1 rs1 where r: "GetALUResult AddWithCarry (fst p) (snd p) s = (r, s1)"
    and c: "alu_chain AddWithCarry AddWithCarry ps s1 = (rs1, s')" and rs: "rs = r # rs1"
    using Cons.prems by (auto simp: Let_def split: prod.splits)
  have "limbs_value rs + 2 ^ (32 * length (p # ps)) * of_bool (carry_flag s') =
      uint r + 2 ^ 32 * (limbs_value rs1 + 2 ^ (32 * length ps) * of_bool (carry_flag s'))"
    by (simp add: rs power_add algebra_simps)
  then show ?case using Cons.IH [OF c] alu_add(2) [OF r] by (simp add: algebra_simps)
qed simp

lemma alu_chain_borrow:
  assumes "alu_chain SubtractWithBorrow SubtractWithBorrow ps s = (rs, s')"
  shows "limbs_value rs = limbs_value (map fst ps) - limbs_value (map snd ps) - (1 - of_bool (carry_flag s)) +
    2 ^ (32 * length ps) * (1 - of_bool (carry_flag s'))"
  using assms
proof (induction ps arbitrary: s rs)
  case (Cons p ps)
  obtain r s1 rs1 where r: "GetALUResult SubtractWithBorrow (fst p) (snd p) s = (r, s1)"
    and c: "alu_chain SubtractWithBorrow SubtractWithBorrow ps s1 = (rs1, s')" and rs: "rs = r # rs1"
    using Cons.prems by (auto simp: Let_def split: prod.splits)
  have "2 ^ (32 * length (p # ps)) * (1 - of_bool (carry_flag s')) =
      2 ^ 32 * (2 ^ (32 * length ps) * (1 - of_bool (carry_flag s') :: int))"
    by (simp add: power_add algebra_simps)
  then show ?case using Cons.IH [OF c] alu_subtract(2) [OF r] by (simp add: rs algebra_simps)
qed simp

section \<open>Forward code\<close>

text \<open>
  Code that branches forward only and keeps branches out of delay slots, as the assertion in
  \<^verbatim>\<open>Step\<close> demands.
\<close>

definition no_branch_at :: "u32 list \<Rightarrow> nat \<Rightarrow> bool" where
  "no_branch_at code i \<longleftrightarrow> (if i < length code then operation (code ! i) \<noteq> Branch else True)"

definition forward_code :: "u32 list \<Rightarrow> bool" where
  "forward_code code \<longleftrightarrow>
     list_all (\<lambda>i.
       (if operation (code ! i) = Branch
        then 0 < sint (immediate (code ! i)) \<and> (branch_annul (code ! i) \<noteq> 0 \<or> no_branch_at code (i + 1))
        else True) \<and>
       (if is_exit (code ! i) \<noteq> 0 then no_branch_at code (i + 1) else True)) [0..<length code]"

lemma immediate_bound: "sint (immediate raw) < 2 ^ 17"
proof -
  have "sint (immediate raw) = sint raw div 2 ^ 14"
    by (simp add: immediate_def ExtractValue_signed_def sint_signed_drop_bit_eq drop_bit_eq_div)
  moreover have "sint raw < 2 ^ 31" using sint_range_size [of raw] by (simp add: word_size)
  ultimately show ?thesis by simp
qed

lemma forward_target:
  assumes "0 < sint (immediate raw)" "unat (pc s) div 4 < 2 ^ 29" "unat (pc s) mod 4 = 0"
  shows "unat (pc s) div 4 < unat (pc s + GetBranchTarget raw) div 4"
proof -
  let ?i = "immediate raw"
  have "uint ?i = take_bit LENGTH(32) (sint ?i)" by (rule uint_sint)
  also have "\<dots> = sint ?i"
    using assms(1) immediate_bound [of raw] by (intro take_bit_int_eq_self) simp_all
  finally have si: "sint ?i = uint ?i" by (rule sym)
  have "uint ?i < 131072" using immediate_bound [of raw, unfolded si] by simp
  note u = assms(1) [unfolded si] this
  have e: "uint ?i = int (unat ?i)" by simp
  have i: "0 < unat ?i" "unat ?i < 131072"
    using u [unfolded e] by linarith+
  then have t: "unat (GetBranchTarget raw) = 4 * unat ?i"
    unfolding GetBranchTarget_def unat_word_ariths(2) by simp
  have "unat (pc s) + 4 * unat ?i < 2 ^ 32" using i assms(2) by simp
  then have "unat (pc s + GetBranchTarget raw) = unat (pc s) + 4 * unat ?i"
    by (simp add: unat_word_ariths(1) t)
  then show ?thesis using i(1) by simp
qed

lemma next_pc:
  assumes "unat (pc s) div 4 < 2 ^ 29"
  shows "unat (pc s + 4) div 4 = Suc (unat (pc s) div 4)"
proof -
  have "unat (pc s) + 4 < 2 ^ 32" using assms by simp
  then show ?thesis by (simp add: unat_word_ariths(1))
qed

text \<open>An instruction outside the control flow, in a delay slot or not.\<close>

lemma Step_plain:
  assumes "GetOpcode code s = Inr raw" "operation raw \<noteq> Branch" "is_exit raw = 0 \<or> d"
  shows "Step (Suc fuel) gpu code d s =
    Some (case Step_operation gpu raw (advance_pc s) of Inl e \<Rightarrow> Inl e | Inr s' \<Rightarrow> Inr (True, s'))"
  using assms by (auto simp: Step.simps(2) Let_def split: sum.splits)

lemma Step_slot:
  assumes "no_branch_at code (unat (pc s) div 4)"
  shows "Step (Suc fuel) gpu code True s =
    Some (case GetOpcode code s of Inl e \<Rightarrow> Inl e
          | Inr raw \<Rightarrow> (case Step_operation gpu raw (advance_pc s) of Inl e \<Rightarrow> Inl e | Inr s' \<Rightarrow> Inr (True, s')))"
proof (cases "GetOpcode code s")
  case (Inr raw)
  then have "operation raw \<noteq> Branch"
    using assms by (auto simp: GetOpcode_def no_branch_at_def split: if_splits)
  then show ?thesis using Step_plain [OF Inr, of True] Inr by simp
qed (simp add: Step.simps(2))

lemmas Step_2 = Step.simps(2) [of "Suc 0", folded numeral_2_eq_2]

text \<open>One turn of the loop over forward code ends, and moves on unless it leaves the loop.\<close>

lemma forward_step:
  assumes fc: "forward_code code" "length code \<le> 2 ^ 29" and wf: "macro_wf s" "delayed_pc s = None"
  shows "\<exists>r. Step 2 gpu code False s = Some r \<and>
    (\<forall>k s'. r = Inr (k, s') \<longrightarrow> unat (pc s) div 4 < length code \<and> (k \<longrightarrow> unat (pc s) div 4 < unat (pc s') div 4))"
proof (cases "unat (pc s) div 4 < length code")
  case False
  then show ?thesis by (simp add: Step_2 GetOpcode_def)
next
  case True
  let ?i = "unat (pc s) div 4"
  let ?raw = "code ! ?i"
  note True' = True
  have op: "GetOpcode code s = Inr ?raw" using True by (simp add: GetOpcode_def)
  have lt: "?i < 2 ^ 29" using True fc(2) by simp
  have ali: "unat (pc s) mod 4 = 0" using wf(1) by (simp add: macro_wf_def)
  have f: "operation ?raw = Branch \<Longrightarrow> 0 < sint (immediate ?raw)"
    "operation ?raw = Branch \<Longrightarrow> branch_annul ?raw = 0 \<Longrightarrow> no_branch_at code (Suc ?i)"
    "is_exit ?raw \<noteq> 0 \<Longrightarrow> no_branch_at code (Suc ?i)"
    using fc(1) True by (auto simp: forward_code_def list_all_iff split: if_splits)
  let ?s1 = "advance_pc s"
  have s1: "pc ?s1 = pc s + 4" "delayed_pc ?s1 = None" using wf(2) by (simp_all add: advance_pc_def)
  have nx: "unat (pc ?s1) div 4 = Suc ?i" using next_pc [OF lt] s1(1) by simp
  let ?taken = "operation ?raw = Branch \<and>
      EvaluateBranchCondition (branch_condition ?raw) (GetRegister (src_a ?raw) ?s1)"
  let ?t = "pc s + GetBranchTarget ?raw"
  have t: "?i < unat ?t div 4" if "operation ?raw = Branch" using forward_target [OF f(1) lt ali] that by blast
  show ?thesis
  proof (cases ?taken)
    case taken: True
    show ?thesis
    proof (cases "branch_annul ?raw = 0")
      case True
      let ?s2 = "?s1\<lparr> delayed_pc := Some ?t \<rparr>"
      have "no_branch_at code (unat (pc ?s2) div 4)" using f(2) taken True nx by simp
      from Step_slot [OF this, where fuel = 0 and gpu = gpu]
      have st: "Step 2 gpu code False s = Some (case GetOpcode code ?s2 of Inl e \<Rightarrow> Inl e
          | Inr raw \<Rightarrow> (case Step_operation gpu raw (advance_pc ?s2) of Inl e \<Rightarrow> Inl e | Inr s' \<Rightarrow> Inr (True, s')))"
        using op taken True by (simp add: Step_2 Let_def)
      have pcs: "pc s' = ?t" if "Step_operation gpu raw (advance_pc ?s2) = Inr s'" for raw s'
        using Step_operation_control [OF that] by (simp add: same_control_def advance_pc_def)
      show ?thesis
      proof (rule exI, rule conjI [OF st], intro allI impI conjI)
        fix k s'
        show "?i < length code" by (rule True')
        assume "(case GetOpcode code ?s2 of Inl e \<Rightarrow> Inl e
          | Inr raw \<Rightarrow> (case Step_operation gpu raw (advance_pc ?s2) of Inl e \<Rightarrow> Inl e | Inr s' \<Rightarrow> Inr (True, s'))) = Inr (k, s')"
        then obtain raw where "Step_operation gpu raw (advance_pc ?s2) = Inr s'" by (auto split: sum.splits)
        then have "pc s' = ?t" by (rule pcs)
        then show "?i < unat (pc s') div 4" using t taken by simp
      qed
    next
      case False
      then show ?thesis using op taken t \<open>?i < length code\<close> by (simp add: Step_2 Let_def)
    qed
  next
    case nt: False
    have st: "Step 2 gpu code False s = (case Step_operation gpu ?raw ?s1 of
        Inl e \<Rightarrow> Some (Inl e)
      | Inr s2 \<Rightarrow> (if is_exit ?raw \<noteq> 0 \<and> \<not> False
                   then (case Step (Suc 0) gpu code True s2 of
                           None \<Rightarrow> None | Some (Inl e) \<Rightarrow> Some (Inl e) | Some (Inr (_, s3)) \<Rightarrow> Some (Inr (False, s3)))
                   else Some (Inr (True, s2))))"
      unfolding Step_2 Let_def op sum.case if_not_P [OF nt] ..
    show ?thesis
    proof (cases "Step_operation gpu ?raw ?s1")
      case (Inl e)
      then show ?thesis using st by simp
    next
      case (Inr s2)
      have c: "pc s2 = pc ?s1" using Step_operation_control [OF Inr] by (simp add: same_control_def)
      show ?thesis
      proof (cases "is_exit ?raw = 0")
        case True
        then show ?thesis using st Inr c nx True' by simp
      next
        case False
        then have "no_branch_at code (unat (pc s2) div 4)" using f(3) nx c by simp
        then have "\<exists>r. Step (Suc 0) gpu code True s2 = Some r" by (intro exI, rule Step_slot)
        then obtain r where "Step (Suc 0) gpu code True s2 = Some r" ..
        then show ?thesis using st Inr False True' by (auto split: sum.splits)
      qed
    qed
  qed
qed

lemma Step_more_fuel: "Step fuel gpu code d s = Some r \<Longrightarrow> Step (fuel + extra) gpu code d s = Some r"
proof (induction fuel arbitrary: d s r)
  case (Suc fuel)
  have eq: "Step fuel gpu code True t = None \<or> Step (fuel + extra) gpu code True t = Step fuel gpu code True t" for t
    using Suc.IH by (cases "Step fuel gpu code True t") auto
  show ?case
  proof (cases "GetOpcode code s")
    case (Inl e)
    then show ?thesis using Suc.prems by (simp add: Step.simps(2))
  next
    case (Inr raw)
    show ?thesis
      using Suc.prems Inr eq [of "(advance_pc s)\<lparr> delayed_pc := Some (pc s + GetBranchTarget raw) \<rparr>"]
        eq [of "projr (Step_operation gpu raw (advance_pc s))"]
      by (auto simp: Step.simps(2) Let_def split: if_splits sum.splits option.splits)
  qed
qed simp

lemma forward_loop:
  assumes fc: "forward_code code" "length code \<le> 2 ^ 29"
  shows "macro_wf s \<Longrightarrow> delayed_pc s = None \<Longrightarrow> length code - unat (pc s) div 4 < fuel \<Longrightarrow>
    \<exists>r. Execute_loop fuel (2 + extra) gpu code s = Some r"
proof (induction fuel arbitrary: s)
  case (Suc fuel)
  obtain r where r: "Step 2 gpu code False s = Some r" and m: "\<And>k s'. r = Inr (k, s') \<Longrightarrow>
      unat (pc s) div 4 < length code \<and> (k \<longrightarrow> unat (pc s) div 4 < unat (pc s') div 4)"
    using forward_step [OF fc Suc.prems(1,2), of gpu] by blast
  have r': "Step (2 + extra) gpu code False s = Some r" using r by (rule Step_more_fuel)
  show ?case
  proof (cases r)
    case (Inl e)
    then show ?thesis using r' by simp
  next
    case (Inr p)
    obtain k s' where p: "p = (k, s')" by (cases p)
    have wf: "macro_wf s'" "delayed_pc s' = None" using Step_wf [of 2 gpu code False s k s'] r Inr p Suc.prems by simp_all
    show ?thesis
    proof (cases k)
      case True
      then have "unat (pc s) div 4 < unat (pc s') div 4" "unat (pc s) div 4 < length code"
        using m [of k s'] Inr p by simp_all
      then have "length code - unat (pc s') div 4 < length code - unat (pc s) div 4"
        by (rule diff_less_mono2)
      then have "length code - unat (pc s') div 4 < fuel"
        by (rule less_le_trans [OF _ Suc.prems(3) [unfolded less_Suc_eq_le]])
      from Suc.IH [OF wf this] show ?thesis using r' Inr p True by simp
    next
      case False
      then show ?thesis using r' Inr p by simp
    qed
  qed
qed simp

section \<open>Properties\<close>


text \<open>
  Property C23. The carry flag makes long arithmetic exact: adding two numbers of any length
  digit by digit, the first with \<^verbatim>\<open>Add\<close> and the others with \<^verbatim>\<open>AddWithCarry\<close>, gives the digits
  and the carry of the sum; \<^verbatim>\<open>Subtract\<close> and \<^verbatim>\<open>SubtractWithBorrow\<close> give the difference, the flag
  being clear exactly when a borrow is left, in which case the digits are those of the
  difference plus the power of two above them.
\<close>

theorem macro_long_arithmetic:
  "(case alu_chain Add AddWithCarry (p # ps) s of (rs, s') \<Rightarrow>
      limbs_value rs + 2 ^ (32 * length (p # ps)) * of_bool (carry_flag s') =
      limbs_value (map fst (p # ps)) + limbs_value (map snd (p # ps))) \<and>
   (case alu_chain Subtract SubtractWithBorrow (p # ps) s of (rs, s') \<Rightarrow>
      limbs_value rs = limbs_value (map fst (p # ps)) - limbs_value (map snd (p # ps)) +
        2 ^ (32 * length (p # ps)) * (1 - of_bool (carry_flag s')))"
proof
  obtain r s1 rs s2 where r: "GetALUResult Add (fst p) (snd p) s = (r, s1)"
    and c: "alu_chain AddWithCarry AddWithCarry ps s1 = (rs, s2)" by (meson surj_pair)
  show "case alu_chain Add AddWithCarry (p # ps) s of (rs, s') \<Rightarrow>
      limbs_value rs + 2 ^ (32 * length (p # ps)) * of_bool (carry_flag s') =
      limbs_value (map fst (p # ps)) + limbs_value (map snd (p # ps))"
    using alu_add(1) [OF r refl] alu_chain_carry [OF c] r c by (simp add: power_add algebra_simps)
next
  obtain r s1 rs s2 where r: "GetALUResult Subtract (fst p) (snd p) s = (r, s1)"
    and c: "alu_chain SubtractWithBorrow SubtractWithBorrow ps s1 = (rs, s2)" by (meson surj_pair)
  show "case alu_chain Subtract SubtractWithBorrow (p # ps) s of (rs, s') \<Rightarrow>
      limbs_value rs = limbs_value (map fst (p # ps)) - limbs_value (map snd (p # ps)) +
        2 ^ (32 * length (p # ps)) * (1 - of_bool (carry_flag s'))"
    using alu_subtract(1) [OF r refl] alu_chain_borrow [OF c] r c by (simp add: power_add algebra_simps)
qed

text \<open>
  Delay slots: a taken branch without the annul bit executes exactly the next
  instruction, even when that carries the exit flag, before control is at the target; with
  the annul bit it executes none; and an instruction with the exit flag executes exactly the
  next one and then ends the macro.
\<close>

theorem macro_delay_slots:
  assumes "delayed_pc s = None" "GetOpcode code s = Inr raw"
    "GetOpcode code (s\<lparr> pc := pc s + 4 \<rparr>) = Inr slot" "operation slot \<noteq> Branch"
  shows "(operation raw = Branch \<and> EvaluateBranchCondition (branch_condition raw) (GetRegister (src_a raw) s) \<longrightarrow>
      Step (Suc (Suc n)) gpu code False s =
        Some (if branch_annul raw = 0
              then (case Step_operation gpu slot (s\<lparr> pc := pc s + GetBranchTarget raw \<rparr>) of
                      Inl e \<Rightarrow> Inl e | Inr s' \<Rightarrow> Inr (True, s'))
              else Inr (True, s\<lparr> pc := pc s + GetBranchTarget raw \<rparr>))) \<and>
    (operation raw \<noteq> Branch \<and> is_exit raw \<noteq> 0 \<longrightarrow>
      Step (Suc (Suc n)) gpu code False s =
        Some (case Step_operation gpu raw (s\<lparr> pc := pc s + 4 \<rparr>) of
                Inl e \<Rightarrow> Inl e
              | Inr s1 \<Rightarrow> (case Step_operation gpu slot (s1\<lparr> pc := pc s1 + 4 \<rparr>) of
                           Inl e \<Rightarrow> Inl e | Inr s2 \<Rightarrow> Inr (False, s2))))"
proof -
  have adv: "advance_pc s = s\<lparr> pc := pc s + 4 \<rparr>" using assms(1) by (simp add: advance_pc_def)
  have same: "s\<lparr> pc := a, delayed_pc := None \<rparr> = s\<lparr> pc := a \<rparr>" for a using assms(1) by (cases s) simp
  have reg: "GetRegister r (s\<lparr> pc := a \<rparr>) = GetRegister r s" for r a by (simp add: GetRegister_def)
  have nxt: "GetOpcode code t = Inr slot" if "pc t = pc s + 4" for t
    using assms(3) that by (auto simp: GetOpcode_def split: if_splits)
  have slot: "Step (Suc n) gpu code True t =
      Some (case Step_operation gpu slot (advance_pc t) of Inl e \<Rightarrow> Inl e | Inr s' \<Rightarrow> Inr (True, s'))"
    if "pc t = pc s + 4" for t
    using Step_plain [OF nxt [OF that] assms(4)] by simp
  show ?thesis
  proof (intro conjI impI)
    assume "operation raw = Branch \<and> EvaluateBranchCondition (branch_condition raw) (GetRegister (src_a raw) s)"
    then show "Step (Suc (Suc n)) gpu code False s =
        Some (if branch_annul raw = 0
              then (case Step_operation gpu slot (s\<lparr> pc := pc s + GetBranchTarget raw \<rparr>) of
                      Inl e \<Rightarrow> Inl e | Inr s' \<Rightarrow> Inr (True, s'))
              else Inr (True, s\<lparr> pc := pc s + GetBranchTarget raw \<rparr>))"
      using assms(1,2) slot by (simp add: Step.simps(2) [of "Suc n"] Let_def adv reg) (simp add: advance_pc_def same)
  next
    assume x: "operation raw \<noteq> Branch \<and> is_exit raw \<noteq> 0"
    let ?s1 = "s\<lparr> pc := pc s + 4 \<rparr>"
    have st: "Step (Suc (Suc n)) gpu code False s = (case Step_operation gpu raw ?s1 of
        Inl e \<Rightarrow> Some (Inl e)
      | Inr s2 \<Rightarrow> (case Step (Suc n) gpu code True s2 of
                   None \<Rightarrow> None | Some (Inl e) \<Rightarrow> Some (Inl e) | Some (Inr (_, s3)) \<Rightarrow> Some (Inr (False, s3))))"
      using x assms(2) by (simp add: Step.simps(2) [of "Suc n"] adv split: sum.split)
    show "Step (Suc (Suc n)) gpu code False s =
        Some (case Step_operation gpu raw ?s1 of
                Inl e \<Rightarrow> Inl e
              | Inr s1 \<Rightarrow> (case Step_operation gpu slot (s1\<lparr> pc := pc s1 + 4 \<rparr>) of
                           Inl e \<Rightarrow> Inl e | Inr s2 \<Rightarrow> Inr (False, s2)))"
    proof (cases "Step_operation gpu raw ?s1")
      case (Inr s1)
      have "pc s1 = pc s + 4" "delayed_pc s1 = None"
        using Step_operation_control [OF Inr] assms(1) by (simp_all add: same_control_def)
      then have "Step (Suc n) gpu code True s1 =
          Some (case Step_operation gpu slot (s1\<lparr> pc := pc s1 + 4 \<rparr>) of Inl e \<Rightarrow> Inl e | Inr s' \<Rightarrow> Inr (True, s'))"
        using slot [of s1] by (simp add: advance_pc_def)
      then show ?thesis using st Inr by (simp split: sum.split)
    qed (use st in simp)
  qed
qed


section \<open>Witnesses\<close>

text \<open>
  A macro that branches over one instruction, adds five to its parameter in the delay slot,
  and exits; the engine records the calls it gets.
\<close>

definition slot_macro :: "u32 list" where
  "slot_macro = [0x8007, 0x14A11, 0x91, 0x11]"

definition recording_engine :: "(u32 \<times> u32) list Maxwell3D" where
  "recording_engine = \<lparr> CallMethod = (\<lambda>m v l g. (m, v) # g), GetRegisterValue = (\<lambda>m g. m) \<rparr>"

abbreviation fresh_interpreter :: "(u32 \<times> u32) list MacroInterpreterImpl" where
  "fresh_interpreter \<equiv> new_interpreter []"

text \<open>
  A macro that fetches its second parameter into register 2. Called with two parameters and
  then with one, it reads the second of the first call again.
\<close>

definition fetch_macro :: "u32 list" where
  "fetch_macro = [0x201, 0x91, 0x11]"



theorem macro_delay_slots_witness:
  "Step 2 recording_engine slot_macro False fresh_interpreter =
     Some (case Step_operation recording_engine 0x14A11 (fresh_interpreter\<lparr> pc := 8 \<rparr>) of
             Inl e \<Rightarrow> Inl e | Inr s' \<Rightarrow> Inr (True, s'))"
proof -
  have f: "delayed_pc fresh_interpreter = None" "GetOpcode slot_macro fresh_interpreter = Inr 0x8007"
    "GetOpcode slot_macro (fresh_interpreter\<lparr> pc := pc fresh_interpreter + 4 \<rparr>) = Inr 0x14A11"
    "operation 0x14A11 \<noteq> Branch"
    by code_simp+
  have "operation 0x8007 = Branch \<and> EvaluateBranchCondition (branch_condition 0x8007) (GetRegister (src_a 0x8007) fresh_interpreter)"
    "branch_annul 0x8007 = 0" "pc fresh_interpreter + GetBranchTarget 0x8007 = 8" by code_simp+
  then show ?thesis
    using macro_delay_slots [OF f, where n = 0 and gpu = recording_engine] by (simp add: numeral_2_eq_2)
qed

end
