(* ===== verification/MacroEngine.thy ===== *)
theory MacroEngine
  imports MacroInterpreter
begin

text \<open>
  The macro engine, \<^verbatim>\<open>video_core/macro/macro.cpp\<close>, over the interpreter: uploading macro code,
  the cache of compiled macros, and calls into the middle of an uploaded macro.

  The cache keeps the interpreter object of a macro between calls, and with it the parameter
  buffer. That object refers to the 3D engine and to the uploaded code under its own method
  number: the model gives it the present engine and looks the code up when it runs. Parameters: the hash of a code
  vector, the table of high-level replacements, the setting that disables them,
  \<^verbatim>\<open>RefreshParameters\<close> of the 3D engine, and the order in which the hash map of uploads is
  traversed. Dumping macros to files is left out.
\<close>

section \<open>State and operations\<close>

type_synonym 'g hle_program = "u32 list \<Rightarrow> u32 \<Rightarrow> 'g \<Rightarrow> 'g"

record 'g CacheInfo =
  lle_program :: "'g MacroInterpreterImpl"
  hle_program :: "'g hle_program option"
  hash :: u64
  has_hle_program :: bool

record 'g macro_env =
  HashValue :: "u32 list \<Rightarrow> u64"
  GetHLEProgram :: "u64 \<Rightarrow> 'g hle_program option"
  disable_macro_hle :: bool
  RefreshParameters :: "'g \<Rightarrow> 'g"
  iteration_order :: "(u32 \<rightharpoonup> u32 list) \<Rightarrow> u32 list"

record 'g MacroEngine =
  macro_cache :: "u32 \<rightharpoonup> 'g CacheInfo"
  uploaded_macro_code :: "u32 \<rightharpoonup> u32 list"
  engine :: 'g

definition AddCode :: "u32 \<Rightarrow> u32 \<Rightarrow> 'g MacroEngine \<Rightarrow> 'g MacroEngine" where
  "AddCode method data me =
     me\<lparr> uploaded_macro_code := (uploaded_macro_code me)(method \<mapsto>
           (case uploaded_macro_code me method of None \<Rightarrow> [] | Some code \<Rightarrow> code) @ [data]) \<rparr>"

definition ClearCode :: "u32 \<Rightarrow> 'g MacroEngine \<Rightarrow> 'g MacroEngine" where
  "ClearCode method me =
     me\<lparr> macro_cache := (macro_cache me)(method := None),
        uploaded_macro_code := (uploaded_macro_code me)(method := None) \<rparr>"

text \<open>Running the interpreted program and the replacement of a cached macro.\<close>

definition run_lle ::
  "nat \<Rightarrow> nat \<Rightarrow> 'g macro_env \<Rightarrow> 'g Maxwell3D \<Rightarrow> 'g CacheInfo \<Rightarrow> u32 list \<Rightarrow> u32 list \<Rightarrow> u32 \<Rightarrow>
   'g MacroEngine \<Rightarrow> (macro_error + 'g MacroEngine) option" where
  "run_lle fuel depth menv gpu cache_info code params method me =
     map_option
       (map_sum id (\<lambda>s. me\<lparr> engine := maxwell3d s,
                           macro_cache := (macro_cache me)(method \<mapsto> cache_info\<lparr> lle_program := s \<rparr>) \<rparr>))
       (Execute fuel depth gpu code params
          ((lle_program cache_info)\<lparr> maxwell3d := RefreshParameters menv (engine me) \<rparr>))"

definition run_cached ::
  "nat \<Rightarrow> nat \<Rightarrow> 'g macro_env \<Rightarrow> 'g Maxwell3D \<Rightarrow> 'g CacheInfo \<Rightarrow> u32 list \<Rightarrow> u32 list \<Rightarrow> u32 \<Rightarrow>
   'g MacroEngine \<Rightarrow> (macro_error + 'g MacroEngine) option" where
  "run_cached fuel depth menv gpu cache_info code params method me =
     (case hle_program cache_info of
        Some program \<Rightarrow>
          (if has_hle_program cache_info then Some (Inr (me\<lparr> engine := program params method (engine me) \<rparr>))
           else run_lle fuel depth menv gpu cache_info code params method me)
      | None \<Rightarrow> run_lle fuel depth menv gpu cache_info code params method me)"

definition find_base :: "'g macro_env \<Rightarrow> u32 \<Rightarrow> (u32 \<rightharpoonup> u32 list) \<Rightarrow> u32 option" where
  "find_base menv method uploads =
     find (\<lambda>method_base. method \<ge> method_base \<and>
            (case uploads method_base of None \<Rightarrow> False
             | Some code \<Rightarrow> unat (method - method_base) < length code))
       (iteration_order menv uploads)"

definition compile :: "'g macro_env \<Rightarrow> 'g \<Rightarrow> u32 list \<Rightarrow> 'g CacheInfo" where
  "compile menv g code =
     (let h = HashValue menv code;
          cache_info = \<lparr> lle_program = new_interpreter g, hle_program = None, hash = h, has_hle_program = False \<rparr>
      in case GetHLEProgram menv h of
           Some program \<Rightarrow>
             (if disable_macro_hle menv then cache_info
              else cache_info\<lparr> has_hle_program := True, hle_program := Some program \<rparr>)
         | None \<Rightarrow> cache_info)"

definition MacroEngine_Execute ::
  "nat \<Rightarrow> nat \<Rightarrow> 'g macro_env \<Rightarrow> 'g Maxwell3D \<Rightarrow> u32 \<Rightarrow> u32 list \<Rightarrow> 'g MacroEngine \<Rightarrow>
   (macro_error + 'g MacroEngine) option" where
  "MacroEngine_Execute fuel depth menv gpu method params me =
     (case macro_cache me method of
        Some cache_info \<Rightarrow>
          run_cached fuel depth menv gpu cache_info
            (case uploaded_macro_code me method of None \<Rightarrow> [] | Some code \<Rightarrow> code) params method me
      | None \<Rightarrow>
          (case (case uploaded_macro_code me method of
                   Some code \<Rightarrow> Some (code, me)
                 | None \<Rightarrow>
                     (case find_base menv method (uploaded_macro_code me) of
                        None \<Rightarrow> None
                      | Some mid \<Rightarrow>
                          (let code = drop (unat (method - mid))
                                        (case uploaded_macro_code me mid of None \<Rightarrow> [] | Some c \<Rightarrow> c)
                           in Some (code, me\<lparr> uploaded_macro_code := (uploaded_macro_code me)(method \<mapsto> code) \<rparr>)))) of
             None \<Rightarrow> Some (Inr me)
           | Some (code, me1) \<Rightarrow>
               (let cache_info = compile menv (engine me1) code
                in run_cached fuel depth menv gpu cache_info code params method
                     (me1\<lparr> macro_cache := (macro_cache me1)(method \<mapsto> cache_info) \<rparr>))))"

section \<open>Uploads\<close>

text \<open>What the command stream does to replace a macro.\<close>

definition upload :: "u32 \<Rightarrow> u32 list \<Rightarrow> 'g MacroEngine \<Rightarrow> 'g MacroEngine" where
  "upload method ws me = fold (AddCode method) ws (ClearCode method me)"

lemma AddCode_fold:
  "uploaded_macro_code me method = Some code \<Longrightarrow>
   fold (AddCode method) ws me = me\<lparr> uploaded_macro_code := (uploaded_macro_code me)(method \<mapsto> code @ ws) \<rparr>"
proof (induction ws arbitrary: me code)
  case Nil
  then show ?case by (simp add: fun_upd_idem)
next
  case (Cons w ws)
  let ?me = "AddCode method w me"
  have "fold (AddCode method) ws ?me =
      ?me\<lparr> uploaded_macro_code := (uploaded_macro_code ?me)(method \<mapsto> (code @ [w]) @ ws) \<rparr>"
    by (rule Cons.IH) (simp add: AddCode_def Cons.prems)
  also have "\<dots> = me\<lparr> uploaded_macro_code := (uploaded_macro_code me)(method \<mapsto> code @ w # ws) \<rparr>"
    by (simp add: AddCode_def)
  finally show ?case unfolding fold_simps .
qed

lemma upload_eq:
  assumes "ws \<noteq> []"
  shows "upload method ws me =
    me\<lparr> macro_cache := (macro_cache me)(method := None),
       uploaded_macro_code := (uploaded_macro_code me)(method \<mapsto> ws) \<rparr>"
proof (cases ws)
  case (Cons w vs)
  let ?me = "AddCode method w (ClearCode method me)"
  have "uploaded_macro_code ?me method = Some [w]" by (simp add: AddCode_def ClearCode_def)
  from AddCode_fold [OF this, of vs]
  have "upload method ws me = ?me\<lparr> uploaded_macro_code := (uploaded_macro_code ?me)(method \<mapsto> ws) \<rparr>"
    by (simp add: upload_def Cons)
  also have "\<dots> = me\<lparr> macro_cache := (macro_cache me)(method := None),
       uploaded_macro_code := (uploaded_macro_code me)(method \<mapsto> ws) \<rparr>"
    by (simp add: AddCode_def ClearCode_def)
  finally show ?thesis .
qed (use assms in simp)

definition no_replacement :: "'g macro_env \<Rightarrow> u32 list \<Rightarrow> bool" where
  "no_replacement menv code \<longleftrightarrow> disable_macro_hle menv \<or> GetHLEProgram menv (HashValue menv code) = None"

text \<open>A macro that is cached and interpreted, with its uploaded code.\<close>

definition interpreted :: "'g CacheInfo \<Rightarrow> bool" where
  "interpreted cache_info \<longleftrightarrow> hle_program cache_info = None \<and> \<not> has_hle_program cache_info"

definition installed :: "u32 \<Rightarrow> u32 list \<Rightarrow> 'g MacroEngine \<Rightarrow> bool" where
  "installed method code me \<longleftrightarrow>
     uploaded_macro_code me method = Some code \<and>
     (case macro_cache me method of
        None \<Rightarrow> False
      | Some cache_info \<Rightarrow> interpreted cache_info \<and> interpreter_life (lle_program cache_info))"

lemma compile_interpreted:
  "no_replacement menv code \<Longrightarrow>
   compile menv g code =
     \<lparr> lle_program = new_interpreter g, hle_program = None, hash = HashValue menv code, has_hle_program = False \<rparr>"
  by (auto simp: compile_def no_replacement_def Let_def split: option.split)

lemma run_interpreted:
  "interpreted cache_info \<Longrightarrow>
   run_cached fuel depth menv gpu cache_info code params method me =
   run_lle fuel depth menv gpu cache_info code params method me"
  by (simp add: run_cached_def interpreted_def)

lemma interpreted_lle [simp]: "interpreted (cache_info\<lparr> lle_program := s \<rparr>) = interpreted cache_info"
  by (simp add: interpreted_def)

lemma run_lle_Inr:
  assumes "run_lle fuel depth menv gpu cache_info code params method me = Some (Inr me')"
  obtains s where
    "Execute fuel depth gpu code params
       ((lle_program cache_info)\<lparr> maxwell3d := RefreshParameters menv (engine me) \<rparr>) = Some (Inr s)"
    "me' = me\<lparr> engine := maxwell3d s,
              macro_cache := (macro_cache me)(method \<mapsto> cache_info\<lparr> lle_program := s \<rparr>) \<rparr>"
proof -
  let ?x = "Execute fuel depth gpu code params
       ((lle_program cache_info)\<lparr> maxwell3d := RefreshParameters menv (engine me) \<rparr>)"
  let ?f = "\<lambda>s. me\<lparr> engine := maxwell3d s,
                     macro_cache := (macro_cache me)(method \<mapsto> cache_info\<lparr> lle_program := s \<rparr>) \<rparr>"
  obtain z where z: "?x = Some z" "map_sum id ?f z = Inr me'"
    using assms unfolding run_lle_def map_option_eq_Some by blast
  then show ?thesis using that by (cases z) auto
qed

lemma Execute_cached:
  assumes "macro_cache me method = Some cache_info" "interpreted cache_info"
    "uploaded_macro_code me method = Some code"
  shows "MacroEngine_Execute fuel depth menv gpu method params me =
    run_lle fuel depth menv gpu cache_info code params method me"
  using assms by (simp add: MacroEngine_Execute_def run_interpreted)

lemma Execute_uncached:
  assumes "macro_cache me method = None" "uploaded_macro_code me method = Some code" "no_replacement menv code"
  shows "MacroEngine_Execute fuel depth menv gpu method params me =
    run_lle fuel depth menv gpu (compile menv (engine me) code) code params method
      (me\<lparr> macro_cache := (macro_cache me)(method \<mapsto> compile menv (engine me) code) \<rparr>)"
  using assms
  by (simp add: MacroEngine_Execute_def run_interpreted interpreted_def compile_interpreted Let_def)

lemma Execute_rebased:
  assumes "macro_cache me method = None" "uploaded_macro_code me method = None"
    "find_base menv method (uploaded_macro_code me) = Some mid" "uploaded_macro_code me mid = Some code"
    "no_replacement menv (drop (unat (method - mid)) code)"
  shows "MacroEngine_Execute fuel depth menv gpu method params me =
    (let rebased = drop (unat (method - mid)) code; cache_info = compile menv (engine me) rebased
     in run_lle fuel depth menv gpu cache_info rebased params method
          (me\<lparr> uploaded_macro_code := (uploaded_macro_code me)(method \<mapsto> rebased),
              macro_cache := (macro_cache me)(method \<mapsto> cache_info) \<rparr>))"
  using assms
  by (simp add: MacroEngine_Execute_def run_interpreted interpreted_def compile_interpreted Let_def
      del: fun_upd_apply)

lemma installed_code: "installed method code me \<Longrightarrow> uploaded_macro_code me method = Some code"
  by (simp add: installed_def)

lemma installedE:
  assumes "installed method code me"
  obtains cache_info where "macro_cache me method = Some cache_info" "interpreted cache_info"
    "interpreter_life (lle_program cache_info)"
  using assms by (auto simp: installed_def split: option.splits)

text \<open>A run of the interpreter leaves its macro installed, with the same code.\<close>

lemma run_lle_installed:
  assumes "run_lle fuel depth menv gpu cache_info code params method me = Some (Inr me')"
    "interpreted cache_info" "interpreter_life (lle_program cache_info)"
    "uploaded_macro_code me method = Some code'"
  shows "installed method code' me'"
  using assms(1)
proof (rule run_lle_Inr)
  fix s assume e: "Execute fuel depth gpu code params
      ((lle_program cache_info)\<lparr> maxwell3d := RefreshParameters menv (engine me) \<rparr>) = Some (Inr s)"
    and me': "me' = me\<lparr> engine := maxwell3d s,
      macro_cache := (macro_cache me)(method \<mapsto> cache_info\<lparr> lle_program := s \<rparr>) \<rparr>"
  have "interpreter_life s" using interpreter_life.called [OF assms(3) e] .
  then show ?thesis using assms(2,4) by (simp add: installed_def me')
qed

text \<open>A call changes the entries of no other method.\<close>

lemma run_cached_frame:
  assumes "run_cached fuel depth menv gpu cache_info code params m me = Some (Inr me')" "m \<noteq> method"
  shows "macro_cache me' method = macro_cache me method \<and> uploaded_macro_code me' method = uploaded_macro_code me method"
  using assms by (auto simp: run_cached_def split: option.splits if_splits elim!: run_lle_Inr)

lemma Execute_frame:
  assumes "MacroEngine_Execute fuel depth menv gpu m params me = Some (Inr me')" "m \<noteq> method"
  shows "macro_cache me' method = macro_cache me method \<and> uploaded_macro_code me' method = uploaded_macro_code me method"
  using assms
  by (auto simp: MacroEngine_Execute_def Let_def dest!: run_cached_frame [OF _ assms(2)]
      split: option.splits)

text \<open>
  What may happen to the engine later on, short of touching the code of one method: calls of
  any macro, uploads under other methods, and anything the 3D engine does in between.
\<close>

inductive engine_later ::
  "'g macro_env \<Rightarrow> 'g Maxwell3D \<Rightarrow> u32 \<Rightarrow> 'g MacroEngine \<Rightarrow> 'g MacroEngine \<Rightarrow> bool"
  for menv gpu own me where
  now: "engine_later menv gpu own me me"
| call: "engine_later menv gpu own me me1 \<Longrightarrow>
    MacroEngine_Execute fuel depth menv gpu m params me1 = Some (Inr me2) \<Longrightarrow> engine_later menv gpu own me me2"
| add: "engine_later menv gpu own me me1 \<Longrightarrow> m \<noteq> own \<Longrightarrow> engine_later menv gpu own me (AddCode m data me1)"
| clear: "engine_later menv gpu own me me1 \<Longrightarrow> m \<noteq> own \<Longrightarrow> engine_later menv gpu own me (ClearCode m me1)"
| other: "engine_later menv gpu own me me1 \<Longrightarrow> engine_later menv gpu own me (me1\<lparr> engine := g \<rparr>)"

lemma Execute_installed:
  assumes "MacroEngine_Execute fuel depth menv gpu m params me = Some (Inr me')" "installed method code me"
  shows "installed method code me'"
proof (cases "m = method")
  case True
  obtain cache_info where c: "macro_cache me method = Some cache_info" "interpreted cache_info"
      "interpreter_life (lle_program cache_info)"
    using assms(2) by (rule installedE)
  note u = installed_code [OF assms(2)]
  have "run_lle fuel depth menv gpu cache_info code params method me = Some (Inr me')"
    using Execute_cached [OF c(1,2) u] assms(1) True by simp
  then show ?thesis using c(2,3) u by (rule run_lle_installed)
next
  case False
  then show ?thesis using Execute_frame [OF assms(1) False] assms(2) by (simp add: installed_def)
qed

lemma engine_later_installed:
  "engine_later menv gpu method me me' \<Longrightarrow> installed method code me \<Longrightarrow> installed method code me'"
proof (induction rule: engine_later.induct)
  case (call me1 fuel depth m params me2)
  then show ?case using Execute_installed by blast
qed (simp_all add: installed_def AddCode_def ClearCode_def)

section \<open>Properties\<close>

text \<open>
  Property C39. The cache is never stale for the method that was uploaded: after clearing and
  uploading code, whatever was cached or uploaded before, the next call interprets exactly that
  code with a new interpreter, and every later call, after any calls of this and other macros
  and uploads under other methods, runs exactly that code on the cached interpreter (when no
  high-level replacement is in force for it), one that has only ever been called.
\<close>

theorem reuploaded_macro_runs_new_code:
  assumes "ws \<noteq> []" "no_replacement menv ws"
    "MacroEngine_Execute fuel depth menv gpu method params (upload method ws me) = Some (Inr me')"
    "engine_later menv gpu method me' me''"
  shows "(\<exists>s. Execute fuel depth gpu ws params (new_interpreter (RefreshParameters menv (engine me))) = Some (Inr s) \<and>
      engine me' = maxwell3d s) \<and>
    (\<exists>cache_info. macro_cache me'' method = Some cache_info \<and> interpreter_life (lle_program cache_info) \<and>
      MacroEngine_Execute fuel' depth' menv gpu method params' me'' =
        run_lle fuel' depth' menv gpu cache_info ws params' method me'')"
proof
  let ?me = "upload method ws me" and ?ci = "compile menv (engine me) ws"
  let ?me1 = "?me\<lparr> macro_cache := (macro_cache ?me)(method \<mapsto> ?ci) \<rparr>"
  note up = upload_eq [OF assms(1), of "method" me]
  have "macro_cache ?me method = None" "uploaded_macro_code ?me method = Some ws" by (simp_all add: up)
  from Execute_uncached [OF this assms(2)] assms(3)
  have r: "run_lle fuel depth menv gpu ?ci ws params method ?me1 = Some (Inr me')" by (simp add: up)
  have c: "?ci = \<lparr> lle_program = new_interpreter (engine me), hle_program = None, hash = HashValue menv ws,
      has_hle_program = False \<rparr>" using assms(2) by (rule compile_interpreted)
  show "\<exists>s. Execute fuel depth gpu ws params (new_interpreter (RefreshParameters menv (engine me))) = Some (Inr s) \<and>
      engine me' = maxwell3d s"
    by (rule run_lle_Inr [OF r]) (simp add: c up new_interpreter_def)
  have "installed method ws me'"
    by (rule run_lle_installed [OF r]) (simp_all add: c interpreted_def interpreter_life.made up)
  then have later: "installed method ws me''" by (rule engine_later_installed [OF assms(4)])
  then obtain cache_info where "macro_cache me'' method = Some cache_info" "interpreted cache_info"
      "interpreter_life (lle_program cache_info)" by (rule installedE)
  then show "\<exists>cache_info. macro_cache me'' method = Some cache_info \<and> interpreter_life (lle_program cache_info) \<and>
      MacroEngine_Execute fuel' depth' menv gpu method params' me'' =
        run_lle fuel' depth' menv gpu cache_info ws params' method me''"
    using Execute_cached installed_code [OF later] by blast
qed

text \<open>
  Property C40. A call into the middle of a macro goes stale: the first such call copies the rest
  of the code under the method it was called by, and when the whole macro is cleared and
  uploaded again, calls into the middle keep running the rest of the old code.
\<close>

theorem rebased_macro_stays_stale:
  assumes "macro_cache me = Map.empty" "uploaded_macro_code me = [base \<mapsto> ws]"
    "iteration_order menv [base \<mapsto> ws] = [base]" "base \<le> method" "base \<noteq> method" "unat (method - base) < length ws"
    "no_replacement menv (drop (unat (method - base)) ws)"
    "MacroEngine_Execute fuel depth menv gpu method params me = Some (Inr me')" "vs \<noteq> []"
  shows "\<exists>cache_info. macro_cache (upload base vs me') method = Some cache_info \<and>
    MacroEngine_Execute fuel' depth' menv gpu method params' (upload base vs me') =
      run_lle fuel' depth' menv gpu cache_info (drop (unat (method - base)) ws) params' method (upload base vs me')"
proof -
  let ?rest = "drop (unat (method - base)) ws"
  let ?ci = "compile menv (engine me) ?rest"
  have f: "find_base menv method (uploaded_macro_code me) = Some base"
    using assms(2-4,6) by (simp add: find_base_def)
  have r: "run_lle fuel depth menv gpu ?ci ?rest params method
      (me\<lparr> uploaded_macro_code := (uploaded_macro_code me)(method \<mapsto> ?rest),
          macro_cache := (macro_cache me)(method \<mapsto> ?ci) \<rparr>) = Some (Inr me')"
    using Execute_rebased [OF _ _ f, of ws] assms(1,2,5,7,8) by (simp add: Let_def)
  have "installed method ?rest me'"
    by (rule run_lle_installed [OF r])
       (simp_all add: compile_interpreted [OF assms(7)] interpreted_def interpreter_life.made)
  then have i: "installed method ?rest (upload base vs me')"
    using assms(5) by (simp add: installed_def upload_eq [OF assms(9)])
  then obtain cache_info where "macro_cache (upload base vs me') method = Some cache_info" "interpreted cache_info"
    by (rule installedE)
  then show ?thesis using Execute_cached installed_code [OF i] by blast
qed

section \<open>Witnesses\<close>

definition plain_env :: "(u32 \<times> u32) list macro_env" where
  "plain_env =
     \<lparr> HashValue = (\<lambda>code. of_nat (length code)), GetHLEProgram = (\<lambda>h. None), disable_macro_hle = False,
       RefreshParameters = id, iteration_order = (\<lambda>m. [0x10]) \<rparr>"

definition empty_engine :: "(u32 \<times> u32) list MacroEngine" where
  "empty_engine = \<lparr> macro_cache = Map.empty, uploaded_macro_code = Map.empty, engine = [] \<rparr>"

text \<open>The macro that sends its parameter plus five to method 3, and the run of its last part.\<close>

definition send_macro :: "u32 list" where
  "send_macro = [0xC021, 0x14AC1, 0x11]"

lemma send_uploaded: "send_macro \<noteq> []" "no_replacement plain_env ws"
  by (simp_all add: send_macro_def no_replacement_def plain_env_def)

theorem reuploaded_macro_runs_new_code_witness:
  "\<exists>me' me'' cache_info.
     MacroEngine_Execute 5 2 plain_env recording_engine 0x10 [37] (upload 0x10 send_macro empty_engine) = Some (Inr me') \<and>
     MacroEngine_Execute 5 2 plain_env recording_engine 0x10 [8] me' = Some (Inr me'') \<and>
     engine me'' = [(3, 13), (3, 42)] \<and> macro_cache me'' 0x10 = Some cache_info \<and>
     MacroEngine_Execute 5 2 plain_env recording_engine 0x10 [1] me'' =
       run_lle 5 2 plain_env recording_engine cache_info send_macro [1] 0x10 me''"
proof -
  let ?x = "MacroEngine_Execute 5 2 plain_env recording_engine 0x10"
  let ?r = "?x [37] (upload 0x10 send_macro empty_engine)"
  let ?ok = "\<lambda>me''. engine me'' = [(3, 13), (3, 42 :: u32)]"
  have "case ?r of Some (Inr me') \<Rightarrow> (case ?x [8] me' of Some (Inr me'') \<Rightarrow> ?ok me'' | _ \<Rightarrow> False) | _ \<Rightarrow> False"
    by code_simp
  then obtain me' where r: "?r = Some (Inr me')" and "case ?x [8] me' of Some (Inr me'') \<Rightarrow> ?ok me'' | _ \<Rightarrow> False"
    by (cases ?r) (auto split: sum.splits)
  then obtain me'' where m: "?x [8] me' = Some (Inr me'')" "?ok me''"
    by (cases "?x [8] me'") (auto split: sum.splits)
  have "engine_later plain_env recording_engine 0x10 me' me''"
    using engine_later.call [OF engine_later.now m(1)] .
  from reuploaded_macro_runs_new_code [OF send_uploaded r this, of 5 2 "[1]"] show ?thesis
    using r m by blast
qed

theorem rebased_macro_stays_stale_witness:
  "\<exists>me' cache_info.
     MacroEngine_Execute 5 2 plain_env recording_engine 0x11 [37] (upload 0x10 send_macro empty_engine) = Some (Inr me') \<and>
     engine me' = [(0, 42)] \<and>
     MacroEngine_Execute 5 2 plain_env recording_engine 0x11 [1] (upload 0x10 slot_macro me') =
       run_lle 5 2 plain_env recording_engine cache_info [0x14AC1, 0x11] [1] 0x11 (upload 0x10 slot_macro me')"
proof -
  let ?me = "upload 0x10 send_macro empty_engine"
  let ?r = "MacroEngine_Execute 5 2 plain_env recording_engine 0x11 [37] ?me"
  have "case ?r of Some (Inr me') \<Rightarrow> engine me' = [(0, 42)] | _ \<Rightarrow> False" by code_simp
  then obtain me' where m: "?r = Some (Inr me')" "engine me' = [(0, 42)]"
    by (auto split: option.splits sum.splits)
  have me: "macro_cache ?me = Map.empty" "uploaded_macro_code ?me = [0x10 \<mapsto> send_macro]"
    unfolding upload_eq [OF send_uploaded(1)] by (simp_all add: empty_engine_def)
  have "slot_macro \<noteq> []" by (simp add: slot_macro_def)
  from rebased_macro_stays_stale [OF me _ _ _ _ send_uploaded(2) m(1) this, of 5 2 "[1]"] show ?thesis
    using m by (auto simp: plain_env_def send_macro_def)
qed

end
