(* ===== verification/GuestMemoryScalars.thy ===== *)
theory GuestMemoryScalars
  imports GuestMemoryMarking
begin

text \<open>
  The scalar accesses \<^verbatim>\<open>Read8\<close> to \<^verbatim>\<open>Read64\<close>, \<^verbatim>\<open>Write8\<close> to \<^verbatim>\<open>Write64\<close> and
  \<^verbatim>\<open>WriteExclusive\<close>: at any alignment they agree with the byte-wise translation, so a value
  written reads back.
\<close>

unbundle bit_operations_syntax

section \<open>Little-endian values\<close>

lemma bit_word_of_bytes:
  "bit (word_of_bytes bs) i \<longleftrightarrow> i < 64 \<and> i div 8 < length bs \<and> bit (bs ! (i div 8)) (i mod 8)"
proof (induction bs arbitrary: i)
  case (Cons b bs)
  show ?case
  proof (cases "i < 8")
    case True
    then show ?thesis by (simp add: bit_simps)
  next
    case False
    then have "i div 8 = Suc ((i - 8) div 8)" "(i - 8) mod 8 = i mod 8"
      by (metis le_div_geq not_less zero_less_numeral, metis le_mod_geq not_less)
    then show ?thesis
      using False Cons.IH [of "i - 8"] by (auto simp: bit_simps dest: bit_imp_le_length)
  qed
qed simp

lemma low_bytes_length [simp]: "length (low_bytes n w) = n"
  by (simp add: low_bytes_def)

lemma low_bytes_nth: "j < n \<Longrightarrow> low_bytes n w ! j = ucast (drop_bit (8 * j) w)"
  by (simp add: low_bytes_def)

lemma word_of_low_bytes: "word_of_bytes (low_bytes n w) = take_bit (8 * n) w"
proof (rule bit_word_eqI)
  fix i assume "i < LENGTH(64)"
  have "i div 8 < n \<longleftrightarrow> i < 8 * n" by (auto simp: less_mult_imp_div_less mult.commute div_less_iff_less_mult)
  then show "bit (word_of_bytes (low_bytes n w)) i = bit (take_bit (8 * n) w) i"
    using \<open>i < LENGTH(64)\<close> by (auto simp: bit_word_of_bytes low_bytes_nth bit_simps)
qed

lemma word_of_bytes_append:
  "word_of_bytes (xs @ ys) = word_of_bytes xs OR push_bit (8 * length xs) (word_of_bytes ys)"
  by (induction xs) (simp_all add: push_bit_or or.assoc push_bit_push_bit add.commute)

lemma low_bytes_add: "low_bytes (j + k) w = low_bytes j w @ low_bytes k (drop_bit (8 * j) w)"
proof (rule nth_equalityI)
  fix i assume "i < length (low_bytes (j + k) w)"
  moreover have "\<not> i < j \<Longrightarrow> 8 * j + 8 * (i - j) = 8 * i" by simp
  ultimately show "low_bytes (j + k) w ! i = (low_bytes j w @ low_bytes k (drop_bit (8 * j) w)) ! i"
    by (auto simp: low_bytes_nth nth_append add.commute)
qed simp

lemma low_bytes_cong:
  assumes "\<And>i. i < 8 * n \<Longrightarrow> bit v i = bit w i"
  shows "low_bytes n v = low_bytes n w"
proof (rule nth_equalityI)
  fix j assume "j < length (low_bytes n v)"
  then have j: "j < n" by simp
  have "(ucast (drop_bit (8 * j) v) :: u8) = ucast (drop_bit (8 * j) w)"
    using j by (intro bit_word_eqI) (auto simp: bit_simps assms)
  then show "low_bytes n v ! j = low_bytes n w ! j" using j by (simp add: low_bytes_nth)
qed simp

lemma take_word_of_bytes: "8 * length bs \<le> n \<Longrightarrow> take_bit n (word_of_bytes bs) = word_of_bytes bs"
  by (rule bit_word_eqI) (auto simp: bit_simps bit_word_of_bytes)

section \<open>Pointers\<close>

lemma GetPointerImpl_eq:
  assumes "mem_wf m" "unat addr < 4096 * page_count m"
  shows "GetPointerImpl m addr =
    (if \<not> mapped m (unat addr) then On_Unmapped
     else if page_kind m (unat addr div 4096) = RasterizerCachedMemory
     then On_Rasterizer (guest_ptr m (unat addr)) else On_Memory (guest_ptr m (unat addr)))"
proof -
  let ?a = "unat addr" and ?i = "unat addr div 4096"
  have a48: "?a < 2 ^ 48" using assms(2) mem_wf_count [OF assms(1)] by simp
  have pc: "?i < page_count m" using assms(2) by (simp add: less_mult_imp_div_less mult.commute)
  have "addr AND 0xFFFFFFFFFFFF = take_bit 48 addr" by (simp add: take_bit_eq_mask mask_eq_exp_minus_1)
  then have mk: "addr AND 0xFFFFFFFFFFFF = addr" using take_bit_id_less [OF a48] by simp
  have ct: "AddressSpaceContains (current_page_table m) addr 1"
    using contains_nat(1) [OF assms(1), of ?a 1] assms(2) by simp
  have pg: "unat (drop_bit 12 addr) = ?i" by (rule unat_drop_page)
  have bp: "mapped m ?a \<Longrightarrow> GetPointerFromDebugMemory m addr = guest_ptr m ?a"
    "mapped m ?a \<Longrightarrow> GetPointerFromRasterizerCachedMemory m addr = guest_ptr m ?a"
    using backing_pointer [OF assms(1) pc a48] by simp_all
  have pt: "page_kind m ?i = Memory \<Longrightarrow> page_rel m ?i + addr = guest_ptr m ?a" by (simp add: guest_ptr_def)
  have k: "ExtractType (pointers (current_page_table m) ! ?i) = page_kind m ?i" by (simp add: page_kind_def)
  show ?thesis
    using mem_wf_page [OF assms(1) pc] bp pt
    by (cases "page_kind m ?i")
      (simp_all add: GetPointerImpl_def Let_def mk ct pg page_ok_def mapped_def k)
qed

lemma Read_bytes_eq:
  assumes "mem_wf m" "unat addr + n \<le> 4096 * page_count m" "unat addr mod 4096 + n \<le> 4096" "0 < n"
    "page_kind m (unat addr div 4096) \<noteq> RasterizerCachedMemory"
  shows "Read_bytes n gpu addr m = (map (\<lambda>i. guest_byte m (unat addr + i)) [0..<n], m)"
proof -
  have lt: "unat addr < 4096 * page_count m" using assms(2,4) by simp
  have off: "\<And>i. i < n \<Longrightarrow> unat addr mod 4096 + i < 4096" using assms(3) by simp
  show ?thesis
    using guest_ptr_nonnull [OF assms(1) page_in_range [OF assms(4,2)]] chunk_bytes [of m "unat addr" n, OF _ off]
      chunk_unmapped [of m "unat addr" n, OF _ off] assms(5)
    by (simp add: Read_bytes_def GetPointerImpl_eq [OF assms(1) lt])
qed

lemma Write_bytes_eq:
  assumes "mem_wf m" "unat addr + length bs \<le> 4096 * page_count m" "unat addr mod 4096 + length bs \<le> 4096"
    "bs \<noteq> []" "page_kind m (unat addr div 4096) \<noteq> RasterizerCachedMemory"
  shows "Write_bytes bs gpu addr m =
    m\<lparr> host_memory := guest_write m (unat addr) bs (host_memory m) \<rparr>"
proof -
  have n: "0 < length bs" using assms(4) by simp
  then have lt: "unat addr < 4096 * page_count m" using assms(2) by linarith
  show ?thesis
    using guest_ptr_nonnull [OF assms(1) page_in_range [OF n assms(2)]] guest_write_chunk [OF assms(3), of m] assms(5)
    by (simp add: Write_bytes_def GetPointerImpl_eq [OF assms(1) lt])
qed

section \<open>Reads at any alignment\<close>

text \<open>A range of bytes inside the address space that does not involve the GPU.\<close>

definition direct_range :: "'g Memory_Impl \<Rightarrow> u64 \<Rightarrow> nat \<Rightarrow> bool" where
  "direct_range m addr n \<longleftrightarrow>
     mem_wf m \<and> unat addr + n \<le> 4096 * page_count m \<and> plain_range m (unat addr) n"

definition guest_bytes :: "'g Memory_Impl \<Rightarrow> u64 \<Rightarrow> nat \<Rightarrow> u8 list" where
  "guest_bytes m addr n = map (\<lambda>i. guest_byte m (unat addr + i)) [0..<n]"

lemma guest_bytes_length [simp]: "length (guest_bytes m addr n) = n"
  by (simp add: guest_bytes_def)

lemma direct_range_split:
  assumes "direct_range m addr (j + k)" "j \<le> 8"
  shows "direct_range m addr j" "direct_range m (addr + word_of_nat j) k"
    "unat (addr + word_of_nat j) = unat addr + j"
proof -
  note d = assms(1) [unfolded direct_range_def]
  have "4096 * page_count m \<le> 2 ^ 48" using d mem_wf_count [of m] by simp
  then have a: "unat addr + j < 2 ^ 64" using d by simp
  have "unat (word_of_nat j :: u64) = j" using assms(2) by (intro unat_u64_of_nat) simp
  then show u: "unat (addr + word_of_nat j) = unat addr + j" using a by (simp add: unat_word_ariths(1))
  show "direct_range m addr j" using d by (auto simp: direct_range_def plain_range_def)
  show "direct_range m (addr + word_of_nat j) k"
    using d plain_range_parts(1) [of m "unat addr" "j + k" j] by (simp add: direct_range_def u)
qed

lemma direct_range_mono:
  assumes "direct_range m addr n" "k \<le> n"
  shows "direct_range m addr k"
  using assms order_less_le_trans [of _ k n] unfolding direct_range_def plain_range_def by force

lemma guest_bytes_add:
  assumes "direct_range m addr (j + k)" "j \<le> 8"
  shows "guest_bytes m addr (j + k) = guest_bytes m addr j @ guest_bytes m (addr + word_of_nat j) k"
  unfolding guest_bytes_def direct_range_split(3) [OF assms]
  using upt_split [of j "j + k" "\<lambda>i. guest_byte m (unat addr + i)"] by (simp add: add.assoc)

lemma aligned_in_page:
  assumes "a mod d = 0" "d dvd 4096" "0 < d"
  shows "a mod 4096 + d \<le> (4096 :: nat)"
proof -
  from assms(2) obtain c where c: "4096 = d * c" by blast
  have "a mod 4096 = d * (a div d mod c)" using assms(1) by (simp add: c mod_mult2_eq)
  moreover have "a div d mod c < c" using c by (metis mod_less_divisor mult_0_right not_gr_zero zero_neq_numeral)
  ultimately have "a mod 4096 + d \<le> d * c"
    by (metis Suc_leI mult_Suc_right add.commute mult_le_mono2)
  with c show ?thesis by simp
qed

lemma aligned_mod: "addr AND 1 = 0 \<Longrightarrow> unat addr mod 2 = 0" "addr AND 3 = 0 \<Longrightarrow> unat addr mod 4 = 0"
  "addr AND 7 = 0 \<Longrightarrow> unat addr mod 8 = 0" for addr :: u64
proof -
  have t: "unat (take_bit k addr) = unat addr mod 2 ^ k" for k
    by (subst unsigned_take_bit_eq) (simp add: take_bit_eq_mod)
  have m: "addr AND 1 = take_bit 1 addr" "addr AND 3 = take_bit 2 addr" "addr AND 7 = take_bit 3 addr"
    by (simp_all only: take_bit_eq_mask mask_eq_exp_minus_1) simp_all
  show "addr AND 1 = 0 \<Longrightarrow> unat addr mod 2 = 0" "addr AND 3 = 0 \<Longrightarrow> unat addr mod 4 = 0"
    "addr AND 7 = 0 \<Longrightarrow> unat addr mod 8 = 0"
    unfolding m using t [of 1] t [of 2] t [of 3] by simp_all
qed

lemma Read_bytes_direct:
  assumes "direct_range m addr n" "unat addr mod n = 0" "n dvd 4096" "0 < n"
  shows "Read_bytes n gpu addr m = (guest_bytes m addr n, m)"
  using assms(1) aligned_in_page [OF assms(2-4)] plain_range_parts(2) [of m "unat addr" n 0] assms(4)
    Read_bytes_eq [of m addr n gpu] by (simp add: direct_range_def guest_bytes_def)

lemma Read8_eq:
  assumes "direct_range m addr 1"
  shows "Read8 gpu addr m = (guest_byte m (unat addr), m)"
proof -
  have "(ucast (ucast b :: u64) :: u8) = b" for b :: u8 by (rule bit_word_eqI) (simp add: bit_simps)
  then show ?thesis
    using Read_bytes_direct [OF assms] by (simp add: Read8_def guest_bytes_def)
qed

lemma Read16_eq:
  assumes "direct_range m addr 2"
  shows "Read16 gpu addr m = (ucast (word_of_bytes (guest_bytes m addr 2)), m)"
proof (cases "addr AND 1 = 0")
  case True
  then show ?thesis using Read_bytes_direct [OF assms aligned_mod(1) [OF True]] by (simp add: Read16_def)
next
  case False
  note s = direct_range_split [of m addr 1 1, unfolded one_add_one of_nat_1, OF assms one_le_numeral]
  have "(ucast (push_bit 8 (ucast b :: u32) OR ucast a) :: u16) = ucast (word_of_bytes [a, b])" for a b
    by (rule bit_word_eqI) (auto simp: bit_simps bit_word_of_bytes dest: bit_imp_le_length)
  moreover have "guest_bytes m addr 2 = [guest_byte m (unat addr), guest_byte m (unat addr + 1)]"
    by (simp add: guest_bytes_def upt_conv_Cons)
  ultimately show ?thesis using False Read8_eq [OF s(1)] Read8_eq [OF s(2)] s(3) by (simp add: Read16_def)
qed

text \<open>Joining two halves, each known up to its own width.\<close>

lemma join_halves:
  "word_of_bytes (xs @ ys) = push_bit (8 * length xs) (word_of_bytes ys) OR word_of_bytes xs"
  by (simp add: word_of_bytes_append or.commute)

lemma Read32_eq:
  assumes "direct_range m addr 4"
  shows "Read32 gpu addr m = (ucast (word_of_bytes (guest_bytes m addr 4)), m)"
proof (cases "addr AND 3 = 0")
  case True
  then show ?thesis using Read_bytes_direct [OF assms aligned_mod(2) [OF True]] by (simp add: Read32_def)
next
  case False
  have d: "direct_range m addr (2 + 2)" using assms by simp
  note s = direct_range_split [OF d, simplified] and g = guest_bytes_add [OF d, simplified]
  have "(push_bit 16 (ucast (ucast y :: u16)) OR ucast (ucast x :: u16) :: u32) =
      ucast (push_bit 16 y OR x)" if "take_bit 16 x = x" for x y :: u64
    using that by (intro bit_word_eqI) (auto simp: bit_simps bit_eq_iff dest: bit_imp_le_length)
  then show ?thesis
    using False Read16_eq [OF s(1)] Read16_eq [OF s(2)] take_word_of_bytes [of "guest_bytes m addr 2" 16]
    by (simp add: Read32_def g join_halves)
qed

lemma Read64_eq:
  assumes "direct_range m addr 8"
  shows "Read64 gpu addr m = (word_of_bytes (guest_bytes m addr 8), m)"
proof (cases "addr AND 7 = 0")
  case True
  then show ?thesis using Read_bytes_direct [OF assms aligned_mod(3) [OF True]] by (simp add: Read64_def)
next
  case False
  have d: "direct_range m addr (4 + 4)" using assms by simp
  note s = direct_range_split [OF d, simplified] and g = guest_bytes_add [OF d, simplified]
  have "(push_bit 32 (ucast (ucast y :: u32)) OR ucast (ucast x :: u32) :: u64) = push_bit 32 y OR x"
    if "take_bit 32 x = x" "take_bit 32 y = y" for x y :: u64
    using that by (intro bit_word_eqI) (auto simp: bit_simps bit_eq_iff dest: bit_imp_le_length)
  then show ?thesis
    using False Read32_eq [OF s(1)] Read32_eq [OF s(2)] take_word_of_bytes [of "guest_bytes m addr 4" 32]
      take_word_of_bytes [of "guest_bytes m (addr + 4) 4" 32]
    by (simp add: Read64_def g join_halves)
qed

section \<open>Writes at any alignment\<close>

definition put_bytes :: "'g Memory_Impl \<Rightarrow> u64 \<Rightarrow> u8 list \<Rightarrow> 'g Memory_Impl" where
  "put_bytes m addr bs = m\<lparr> host_memory := guest_write m (unat addr) bs (host_memory m) \<rparr>"

lemma put_bytes_append:
  assumes "unat (addr + word_of_nat (length xs)) = unat addr + length xs"
  shows "put_bytes m addr (xs @ ys) = put_bytes (put_bytes m addr xs) (addr + word_of_nat (length xs)) ys"
  by (simp add: put_bytes_def assms guest_write_append)

lemma put_bytes_direct [simp]: "direct_range (put_bytes m a bs) addr n = direct_range m addr n"
  by (simp add: direct_range_def put_bytes_def)

lemma Write_bytes_direct:
  assumes "direct_range m addr (length bs)" "unat addr mod length bs = 0" "length bs dvd 4096" "0 < length bs"
  shows "Write_bytes bs gpu addr m = put_bytes m addr bs"
  using assms(1) aligned_in_page [OF assms(2-4)] plain_range_parts(2) [of m "unat addr" "length bs" 0] assms(4)
    Write_bytes_eq [of m addr bs gpu] by (auto simp: direct_range_def put_bytes_def)

lemma Write8_eq: "direct_range m addr 1 \<Longrightarrow> Write8 gpu addr x m = put_bytes m addr (low_bytes 1 (ucast x))"
  by (simp add: Write8_def Write_bytes_direct)

lemma Write16_eq:
  assumes "direct_range m addr 2"
  shows "Write16 gpu addr x m = put_bytes m addr (low_bytes 2 (ucast x))"
proof (cases "addr AND 1 = 0")
  case True
  then show ?thesis using Write_bytes_direct [of m addr "low_bytes 2 (ucast x)" gpu] assms aligned_mod(1)
    by (simp add: Write16_def)
next
  case False
  note s = direct_range_split [of m addr 1 1, unfolded one_add_one of_nat_1, OF assms one_le_numeral]
  have "low_bytes 2 (ucast x) = low_bytes 1 (ucast (ucast x :: u8)) @ low_bytes 1 (ucast (ucast (drop_bit 8 x) :: u8))"
    by (rule nth_equalityI) (auto simp: low_bytes_nth nth_append less_2_cases_iff intro!: bit_word_eqI simp: bit_simps)
  then show ?thesis
    using False Write8_eq [OF s(1)] Write8_eq [of "put_bytes m addr (low_bytes 1 (ucast (ucast x :: u8)))" "addr + 1"]
      put_bytes_append [of addr "low_bytes 1 (ucast (ucast x :: u8))" m] s(2,3)
    by (simp add: Write16_def)
qed

lemma Write32_eq:
  assumes "direct_range m addr 4"
  shows "Write32 gpu addr x m = put_bytes m addr (low_bytes 4 (ucast x))"
proof (cases "addr AND 3 = 0")
  case True
  then show ?thesis using Write_bytes_direct [of m addr "low_bytes 4 (ucast x)" gpu] assms aligned_mod(2)
    by (simp add: Write32_def)
next
  case False
  have d: "direct_range m addr (2 + 2)" using assms by simp
  note s = direct_range_split [OF d, simplified]
  have "low_bytes 4 (ucast x) = low_bytes 2 (ucast (ucast x :: u16)) @ low_bytes 2 (ucast (ucast (drop_bit 16 x) :: u16))"
    using low_bytes_add [of 2 2 "ucast x"]
      low_bytes_cong [of 2 "ucast (ucast x :: u16)" "ucast x"]
      low_bytes_cong [of 2 "ucast (ucast (drop_bit 16 x) :: u16)" "drop_bit 16 (ucast x)"]
    by (simp add: bit_simps)
  then show ?thesis
    using False Write16_eq [OF s(1)] Write16_eq [of "put_bytes m addr (low_bytes 2 (ucast (ucast x :: u16)))" "addr + 2"]
      put_bytes_append [of addr "low_bytes 2 (ucast (ucast x :: u16))" m] s(2,3)
    by (simp add: Write32_def)
qed

lemma Write64_eq:
  assumes "direct_range m addr 8"
  shows "Write64 gpu addr x m = put_bytes m addr (low_bytes 8 x)"
proof (cases "addr AND 7 = 0")
  case True
  then show ?thesis using Write_bytes_direct [of m addr "low_bytes 8 x" gpu] assms aligned_mod(3)
    by (simp add: Write64_def)
next
  case False
  have d: "direct_range m addr (4 + 4)" using assms by simp
  note s = direct_range_split [OF d, simplified]
  have "low_bytes 8 x = low_bytes 4 (ucast (ucast x :: u32)) @ low_bytes 4 (ucast (ucast (drop_bit 32 x) :: u32))"
    using low_bytes_add [of 4 4 x] low_bytes_cong [of 4 "ucast (ucast x :: u32)" x]
      low_bytes_cong [of 4 "ucast (ucast (drop_bit 32 x) :: u32)" "drop_bit 32 x"]
    by (simp add: bit_simps)
  then show ?thesis
    using False Write32_eq [OF s(1)] Write32_eq [of "put_bytes m addr (low_bytes 4 (ucast (ucast x :: u32)))" "addr + 4"]
      put_bytes_append [of addr "low_bytes 4 (ucast (ucast x :: u32))" m] s(2,3)
    by (simp add: Write64_def)
qed

lemma guest_bytes_put:
  assumes "length bs = n" "\<And>i. i < n \<Longrightarrow> mapped m (unat addr + i)"
    "inj_on (guest_ptr m) {unat addr ..< unat addr + n}"
  shows "guest_bytes (put_bytes m addr bs) addr n = bs"
proof (rule nth_equalityI)
  fix i assume "i < length (guest_bytes (put_bytes m addr bs) addr n)"
  then have i: "i < n" by simp
  then show "guest_bytes (put_bytes m addr bs) addr n ! i = bs ! i"
    using guest_write_same [of m "unat addr" bs i "host_memory m"] assms
    by (simp add: guest_bytes_def put_bytes_def guest_byte_def)
qed (simp add: assms(1))

section \<open>Properties\<close>

text \<open>
  Property C33. Scalar reads do not depend on alignment: for any address whose eight bytes lie
  in the address space, the halfword, word and doubleword reads return the little-endian
  value of the bytes their addresses translate to, also when the access is split into
  smaller ones, crosses a page, or touches unmapped pages, which read as zero.
\<close>

theorem scalar_reads_little_endian:
  assumes "direct_range m addr 8"
  shows "Read8 gpu addr m = (guest_byte m (unat addr), m) \<and>
    Read16 gpu addr m = (ucast (word_of_bytes (guest_bytes m addr 2)), m) \<and>
    Read32 gpu addr m = (ucast (word_of_bytes (guest_bytes m addr 4)), m) \<and>
    Read64 gpu addr m = (word_of_bytes (guest_bytes m addr 8), m)"
proof -
  have "direct_range m addr 1" "direct_range m addr 2" "direct_range m addr 4"
    using direct_range_mono [OF assms] by simp_all
  then show ?thesis using assms Read8_eq Read16_eq Read32_eq Read64_eq by blast
qed

text \<open>
  Property C34. Scalar writes round trip at any alignment: on eight mapped bytes with distinct
  translations, a doubleword written with \<^verbatim>\<open>Write64\<close> is read back by \<^verbatim>\<open>Read64\<close>, and its two
  halves by \<^verbatim>\<open>Read32\<close>.
\<close>

theorem scalar_write_read:
  assumes "direct_range m addr 8" "\<forall>i < 8. mapped m (unat addr + i)"
    "inj_on (guest_ptr m) {unat addr ..< unat addr + 8}"
  shows "fst (Read64 gpu addr (Write64 gpu addr x m)) = x \<and>
    fst (Read32 gpu addr (Write64 gpu addr x m)) = ucast x \<and>
    fst (Read32 gpu (addr + 4) (Write64 gpu addr x m)) = ucast (drop_bit 32 x)"
proof -
  let ?m = "put_bytes m addr (low_bytes 8 x)"
  have b: "guest_bytes ?m addr 8 = low_bytes 8 x"
    using assms(2,3) by (intro guest_bytes_put) auto
  have d: "direct_range ?m addr (4 + 4)" using assms(1) by simp
  note s = direct_range_split [OF d, simplified]
  have "guest_bytes ?m addr 4 @ guest_bytes ?m (addr + 4) 4 = low_bytes 4 x @ low_bytes 4 (drop_bit 32 x)"
    using guest_bytes_add [OF d, simplified] b low_bytes_add [of 4 4 x] by simp
  then have h: "guest_bytes ?m addr 4 = low_bytes 4 x" "guest_bytes ?m (addr + 4) 4 = low_bytes 4 (drop_bit 32 x)"
    by (simp_all add: append_eq_append_conv)
  have u: "(ucast (take_bit 32 w) :: u32) = ucast w" for w :: u64
    by (rule bit_word_eqI) (simp add: bit_simps)
  have "take_bit 64 x = x" by (rule bit_word_eqI) (simp add: bit_simps)
  then show ?thesis
    using Read64_eq [of ?m addr gpu] Read32_eq [of ?m addr gpu] Read32_eq [of ?m "addr + 4" gpu] s assms(1)
    by (simp add: Write64_eq [OF assms(1)] b h word_of_low_bytes u)
qed

section \<open>Witnesses\<close>

lemma all_less_8: "(\<forall>i < (8 :: nat). P i) \<longleftrightarrow> P 0 \<and> P 1 \<and> P 2 \<and> P 3 \<and> P 4 \<and> P 5 \<and> P 6 \<and> P 7"
  by (simp add: numeral_eq_Suc All_less_Suc conj_ac)

lemma tiny_direct: "direct_range tiny_memory 0x1FFD 8" "direct_range tiny_memory 0xFFD 8"
  by (simp_all add: direct_range_def tiny_wf plain_range_def all_less_8 tiny_kinds)

theorem scalar_reads_little_endian_witness:
  "fst (Read32 silent_gpu 0xFFD tiny_memory) = 0x02000000"
proof -
  have "guest_bytes tiny_memory 0xFFD 4 = [0, 0, 0, 2]"
    by (simp add: guest_bytes_def upt_conv_Cons mapped_def tiny_kinds guest_byte_def guest_ptr_def
        page_rel_def DramBase_def)
  then show ?thesis
    using scalar_reads_little_endian [OF tiny_direct(2), of silent_gpu] by simp
qed

theorem scalar_write_read_witness:
  "fst (Read64 silent_gpu 0x1FFD (Write64 silent_gpu 0x1FFD 0x0123456789ABCDEF tiny_memory)) = 0x0123456789ABCDEF"
proof -
  have m: "\<forall>i < 8. mapped tiny_memory (unat (0x1FFD :: u64) + i)"
    by (simp add: all_less_8 mapped_def tiny_kinds)
  have "distinct (map (guest_ptr tiny_memory) [0x1FFD ..< 0x2005])"
    by (simp add: upt_conv_Cons guest_ptr_def page_rel_def)
  then have "inj_on (guest_ptr tiny_memory) {0x1FFD ..< 0x2005}" by (simp only: distinct_map set_upt)
  then show ?thesis using scalar_write_read [OF tiny_direct(1) m, of silent_gpu "0x0123456789ABCDEF"] by simp
qed

end
