(* ===== verification/BufferQueueTypes.thy ===== *)
theory BufferQueueTypes
  imports Prelude
begin

text \<open>
  The data of the display service's buffer queue, \<^verbatim>\<open>core/hle/service/nvnflinger\<close>:
  status codes, fences, graphic buffers, slots, queued items, the shared core
  (\<^verbatim>\<open>buffer_queue_core.h\<close>, \<^verbatim>\<open>.cpp\<close>) with its operations, and the producer's own members.

  Enumerations that arrive from the guest (\<^verbatim>\<open>NativeWindowApi\<close>, \<^verbatim>\<open>PixelFormat\<close>,
  \<^verbatim>\<open>NativeWindowScalingMode\<close>, \<^verbatim>\<open>NativeWindow\<close>) are their underlying 32-bit integers, as the
  code casts them without a check. A \<^verbatim>\<open>shared_ptr<GraphicBuffer>\<close> is an optional value
  that carries the identity of the object it points to in \<open>gb_object\<close>; pointer equality is
  equality of identities, and \<open>next_object\<close> names the objects that \<^verbatim>\<open>make_shared\<close> creates.
  Calls to listeners, to the wait event and to the memory map are recorded in \<open>calls\<close>,
  newest first.
\<close>

unbundle bit_operations_syntax

section \<open>Status codes\<close>

type_synonym Status = "32 word"

definition Status_NoError :: Status where "Status_NoError = 0"
definition Status_StaleBufferSlot :: Status where "Status_StaleBufferSlot = 1"
definition Status_NoBufferAvailable :: Status where "Status_NoBufferAvailable = 2"
definition Status_PresentLater :: Status where "Status_PresentLater = 3"
definition Status_WouldBlock :: Status where "Status_WouldBlock = - 11"
definition Status_NoMemory :: Status where "Status_NoMemory = - 12"
definition Status_Busy :: Status where "Status_Busy = - 16"
definition Status_NoInit :: Status where "Status_NoInit = - 19"
definition Status_BadValue :: Status where "Status_BadValue = - 22"
definition Status_InvalidOperation :: Status where "Status_InvalidOperation = - 38"
definition Status_BufferNeedsReallocation :: Status where "Status_BufferNeedsReallocation = 1"
definition Status_ReleaseAllBuffers :: Status where "Status_ReleaseAllBuffers = 2"

lemmas status_defs =
  Status_NoError_def Status_StaleBufferSlot_def Status_NoBufferAvailable_def
  Status_PresentLater_def Status_WouldBlock_def Status_NoMemory_def Status_Busy_def
  Status_NoInit_def Status_BadValue_def Status_InvalidOperation_def
  Status_BufferNeedsReallocation_def Status_ReleaseAllBuffers_def

section \<open>Window enumerations\<close>

definition NativeWindow_Width :: u32 where "NativeWindow_Width = 0"
definition NativeWindow_Height :: u32 where "NativeWindow_Height = 1"
definition NativeWindow_Format :: u32 where "NativeWindow_Format = 2"
definition NativeWindow_MinUndequeedBuffers :: u32 where "NativeWindow_MinUndequeedBuffers = 3"
definition NativeWindow_ConsumerRunningBehind :: u32 where "NativeWindow_ConsumerRunningBehind = 9"
definition NativeWindow_ConsumerUsageBits :: u32 where "NativeWindow_ConsumerUsageBits = 10"
definition NativeWindow_StickyTransform :: u32 where "NativeWindow_StickyTransform = 11"

definition NoConnectedApi :: u32 where "NoConnectedApi = 0"

definition known_api :: "u32 \<Rightarrow> bool" where
  "known_api api \<longleftrightarrow> api \<in> {1, 2, 3, 4}"

definition known_scaling_mode :: "u32 \<Rightarrow> bool" where
  "known_scaling_mode mode \<longleftrightarrow> mode \<in> {0, 1, 2, 3, 4}"

definition InverseDisplay :: u32 where "InverseDisplay = 0x08"

definition PixelFormat_NoFormat :: u32 where "PixelFormat_NoFormat = 0"
definition PixelFormat_Rgba8888 :: u32 where "PixelFormat_Rgba8888 = 1"

section \<open>Fences, rectangles, graphic buffers\<close>

record NvFence =
  nvf_id :: u32
  nvf_value :: u32

record Fence =
  num_fences :: u32
  fences :: "NvFence list"

definition NoFence :: Fence where
  "NoFence = \<lparr>num_fences = 0, fences = replicate 4 \<lparr>nvf_id = - 1, nvf_value = 0\<rparr>\<rparr>"

definition Fence_ctor :: Fence where
  "Fence_ctor = \<lparr>num_fences = 0, fences = replicate 4 \<lparr>nvf_id = 0, nvf_value = 0\<rparr>\<rparr>"

record Rectangle =
  left :: int
  top :: int
  right :: int
  bottom :: int

definition Rectangle_of_size :: "int \<Rightarrow> int \<Rightarrow> Rectangle" where
  "Rectangle_of_size width height = \<lparr>left = 0, top = 0, right = width, bottom = height\<rparr>"

definition Intersect :: "Rectangle \<Rightarrow> Rectangle \<Rightarrow> Rectangle" where
  "Intersect r with_r =
     \<lparr>left = max (left r) (left with_r), top = max (top r) (top with_r),
      right = min (right r) (right with_r), bottom = min (bottom r) (bottom with_r)\<rparr>"

text \<open>
  \<^verbatim>\<open>NvGraphicBuffer\<close> with its signed members as bit patterns (every accessor casts them to
  unsigned); \<open>padding\<close> holds the five padding areas in order.
\<close>

record NvGraphicBuffer =
  magic :: u32
  gb_width :: u32
  gb_height :: u32
  gb_stride :: u32
  gb_format :: u32
  gb_usage :: u32
  gb_index :: u32
  gb_buffer_id :: u32
  gb_external_format :: u32
  gb_handle :: u32
  gb_offset :: u32
  padding :: "u32 list"

definition NvGraphicBuffer_ctor :: NvGraphicBuffer where
  "NvGraphicBuffer_ctor =
     \<lparr>magic = 0, gb_width = 0, gb_height = 0, gb_stride = 0, gb_format = 0, gb_usage = 0,
      gb_index = 0, gb_buffer_id = 0, gb_external_format = 0, gb_handle = 0, gb_offset = 0,
      padding = replicate 80 0\<rparr>"

record GraphicBuffer = NvGraphicBuffer +
  gb_object :: nat
  gb_has_nvmap :: bool

definition GetBuffer :: "NvGraphicBuffer option \<Rightarrow> NvGraphicBuffer" where
  "GetBuffer buffer = (case buffer of Some b \<Rightarrow> b | None \<Rightarrow> NvGraphicBuffer_ctor)"

definition GraphicBuffer_of_size :: "nat \<Rightarrow> u32 \<Rightarrow> u32 \<Rightarrow> u32 \<Rightarrow> u32 \<Rightarrow> GraphicBuffer" where
  "GraphicBuffer_of_size obj width height format usage =
     NvGraphicBuffer.extend
       (NvGraphicBuffer_ctor
         \<lparr>gb_width := width, gb_height := height, gb_format := format, gb_usage := usage\<rparr>)
       (GraphicBuffer.fields obj False)"

definition GraphicBuffer_of_nv :: "nat \<Rightarrow> NvGraphicBuffer option \<Rightarrow> GraphicBuffer" where
  "GraphicBuffer_of_nv obj buffer =
     NvGraphicBuffer.extend (GetBuffer buffer) (GraphicBuffer.fields obj True)"

section \<open>Slots and items\<close>

datatype BufferState = Free | Dequeued | Queued | Acquired

record BufferSlot =
  graphic_buffer :: "GraphicBuffer option"
  buffer_state :: BufferState
  request_buffer_called :: bool
  frame_number :: u64
  fence :: Fence
  acquire_called :: bool
  needs_cleanup_on_release :: bool
  attached_by_consumer :: bool
  is_preallocated :: bool

definition BufferSlot_ctor :: BufferSlot where
  "BufferSlot_ctor =
     \<lparr>graphic_buffer = None, buffer_state = Free, request_buffer_called = False,
      frame_number = 0, fence = Fence_ctor, acquire_called = False,
      needs_cleanup_on_release = False, attached_by_consumer = False, is_preallocated = False\<rparr>"

record BufferItem =
  item_graphic_buffer :: "GraphicBuffer option"
  item_fence :: Fence
  item_crop :: Rectangle
  item_transform :: u32
  item_scaling_mode :: u32
  item_timestamp :: int
  item_is_auto_timestamp :: bool
  item_frame_number :: u64
  item_slot :: int
  item_is_droppable :: bool
  item_acquire_called :: bool
  item_transform_to_display_inverse :: bool
  item_swap_interval :: int

definition INVALID_BUFFER_SLOT :: int where "INVALID_BUFFER_SLOT = - 1"

definition BufferItem_ctor :: BufferItem where
  "BufferItem_ctor =
     \<lparr>item_graphic_buffer = None, item_fence = Fence_ctor,
      item_crop = \<lparr>left = 0, top = 0, right = 0, bottom = 0\<rparr>, item_transform = 0,
      item_scaling_mode = 0, item_timestamp = 0, item_is_auto_timestamp = False,
      item_frame_number = 0, item_slot = INVALID_BUFFER_SLOT, item_is_droppable = False,
      item_acquire_called = False, item_transform_to_display_inverse = False,
      item_swap_interval = 0\<rparr>"

definition NUM_BUFFER_SLOTS :: nat where "NUM_BUFFER_SLOTS = 64"

record QueueBufferInput =
  in_timestamp :: int
  in_is_auto_timestamp :: bool
  in_crop :: Rectangle
  in_scaling_mode :: u32
  in_transform :: u32
  in_sticky_transform :: u32
  in_async :: bool
  in_swap_interval :: int
  in_fence :: Fence

record QueueBufferOutput =
  out_width :: u32
  out_height :: u32
  out_transform_hint :: u32
  out_num_pending_buffers :: u32

definition QueueBufferOutput_ctor :: QueueBufferOutput where
  "QueueBufferOutput_ctor =
     \<lparr>out_width = 0, out_height = 0, out_transform_hint = 0, out_num_pending_buffers = 0\<rparr>"

section \<open>The shared core and the producer\<close>

datatype queue_call =
    OnFrameAvailable nat BufferItem
  | OnFrameReplaced nat BufferItem
  | OnBuffersReleased nat
  | OnBufferReleased nat
  | BufferWaitEvent_Signal
  | NvMap_DuplicateHandle u32 bool
  | NvMap_PinHandle u32 bool

record BufferQueueCore =
  is_abandoned :: bool
  consumer_controlled_by_app :: bool
  consumer_listener :: "nat option"
  consumer_usage_bit :: u32
  connected_api :: u32
  connected_producer_listener :: "nat option"
  slots :: "BufferSlot list"
  queue :: "BufferItem list"
  override_max_buffer_count :: int
  dequeue_possible :: bool
  dequeue_buffer_cannot_block :: bool
  default_buffer_format :: u32
  default_width :: u32
  default_height :: u32
  default_max_buffer_count :: int
  buffer_has_been_queued :: bool
  frame_counter :: u64
  transform_hint :: u32
  is_allocating :: bool
  next_object :: nat
  calls :: "queue_call list"

record BufferQueueProducer = BufferQueueCore +
  sticky_transform :: u32
  next_callback_ticket :: u32
  current_callback_ticket :: u32

definition use_async_buffer :: bool where "use_async_buffer = False"

definition max_acquired_buffer_count :: int where "max_acquired_buffer_count = 0"

definition BufferQueueProducer_ctor :: BufferQueueProducer where
  "BufferQueueProducer_ctor =
     \<lparr>is_abandoned = False, consumer_controlled_by_app = False, consumer_listener = None,
      consumer_usage_bit = 0, connected_api = NoConnectedApi, connected_producer_listener = None,
      slots = replicate NUM_BUFFER_SLOTS BufferSlot_ctor, queue = [],
      override_max_buffer_count = 0, dequeue_possible = False,
      dequeue_buffer_cannot_block = False, default_buffer_format = PixelFormat_Rgba8888,
      default_width = 1, default_height = 1, default_max_buffer_count = 2,
      buffer_has_been_queued = False, frame_counter = 0, transform_hint = 0,
      is_allocating = False, next_object = 0, calls = [], sticky_transform = 0,
      next_callback_ticket = 0, current_callback_ticket = 0\<rparr>"

section \<open>Operations of the core\<close>

type_synonym 'a core = "'a BufferQueueCore_scheme"

definition update_slot :: "nat \<Rightarrow> (BufferSlot \<Rightarrow> BufferSlot) \<Rightarrow> 'a core \<Rightarrow> 'a core" where
  "update_slot i f s = s\<lparr>slots := (slots s)[i := f (slots s ! i)]\<rparr>"

definition SignalDequeueCondition :: "'a core \<Rightarrow> 'a core" where
  "SignalDequeueCondition s = s\<lparr>dequeue_possible := True\<rparr>"

definition GetMinUndequeuedBufferCountLocked :: "bool \<Rightarrow> 'a core \<Rightarrow> int" where
  "GetMinUndequeuedBufferCountLocked async s =
     (if \<not> use_async_buffer then 0
      else if dequeue_buffer_cannot_block s \<or> async then max_acquired_buffer_count + 1
      else max_acquired_buffer_count)"

definition GetMinMaxBufferCountLocked :: "bool \<Rightarrow> 'a core \<Rightarrow> int" where
  "GetMinMaxBufferCountLocked async s = GetMinUndequeuedBufferCountLocked async s"

fun GetMaxBufferCount_loop :: "nat list \<Rightarrow> BufferSlot list \<Rightarrow> int \<Rightarrow> int" where
  "GetMaxBufferCount_loop [] ss max_buffer_count = max_buffer_count"
| "GetMaxBufferCount_loop (slot # rest) ss max_buffer_count =
     GetMaxBufferCount_loop rest ss
       (if buffer_state (ss ! slot) = Queued \<or> buffer_state (ss ! slot) = Dequeued
        then int slot + 1 else max_buffer_count)"

definition GetMaxBufferCountLocked :: "bool \<Rightarrow> 'a core \<Rightarrow> int" where
  "GetMaxBufferCountLocked async s =
     (let min_buffer_count = GetMinMaxBufferCountLocked async s;
          max_buffer_count = max (default_max_buffer_count s) min_buffer_count
      in if override_max_buffer_count s \<noteq> 0 then override_max_buffer_count s
         else GetMaxBufferCount_loop [nat max_buffer_count..<NUM_BUFFER_SLOTS] (slots s)
                max_buffer_count)"

definition GetPreallocatedBufferCountLocked :: "'a core \<Rightarrow> int" where
  "GetPreallocatedBufferCountLocked s = int (length (filter is_preallocated (slots s)))"

definition FreeBuffer_slot :: "BufferSlot \<Rightarrow> BufferSlot" where
  "FreeBuffer_slot b =
     b\<lparr>graphic_buffer := None,
       needs_cleanup_on_release :=
         (if buffer_state b = Acquired then True else needs_cleanup_on_release b),
       buffer_state := Free, frame_number := 0xFFFFFFFF, acquire_called := False,
       fence := NoFence\<rparr>"

definition FreeBufferLocked :: "nat \<Rightarrow> 'a core \<Rightarrow> 'a core" where
  "FreeBufferLocked slot s = update_slot slot FreeBuffer_slot s"

definition FreeAllBuffersLocked :: "'a core \<Rightarrow> 'a core" where
  "FreeAllBuffersLocked s =
     fold FreeBufferLocked [0..<NUM_BUFFER_SLOTS] (s\<lparr>buffer_has_been_queued := False\<rparr>)"

definition StillTracking :: "'a core \<Rightarrow> BufferItem \<Rightarrow> bool" where
  "StillTracking s item =
     (case graphic_buffer (slots s ! nat (item_slot item)) of
        None \<Rightarrow> False
      | Some b \<Rightarrow>
          (case item_graphic_buffer item of
             None \<Rightarrow> False
           | Some b' \<Rightarrow> gb_object b' = gb_object b))"

definition notify :: "queue_call \<Rightarrow> 'a core \<Rightarrow> 'a core" where
  "notify c s = s\<lparr>calls := c # calls s\<rparr>"

end
