(* ===== verification/BufferQueue.thy ===== *)
theory BufferQueue
  imports BufferQueueTypes
begin

text \<open>
  The operations of the buffer queue: \<^verbatim>\<open>buffer_queue_consumer.cpp\<close> and
  \<^verbatim>\<open>buffer_queue_producer.cpp\<close>. Each operation holds the core's mutex, so it is one
  function on the core's state; the two operations that release the mutex half-way are cut
  there. \<^verbatim>\<open>WaitForFreeSlotThenRelock\<close> yields \<open>Wait_again\<close> where the code sleeps on the
  dequeue condition, and \<^verbatim>\<open>DequeueBuffer\<close> yields \<open>Dequeue_allocating\<close> where it leaves the
  lock to allocate a buffer.

  \<^verbatim>\<open>ASSERT\<close> logs and continues, so it has no branch. Dereferencing a null graphic buffer is
  the outcome \<open>Crashed\<close>, and an operation that sleeps is \<open>Blocked\<close>. Out-parameters are
  results; the null checks on them (a caller never passes null) take the non-null branch.
\<close>

unbundle bit_operations_syntax

datatype 'a outcome = Returned 'a | Blocked | Crashed

definition valid_slot :: "int \<Rightarrow> bool" where
  "valid_slot slot \<longleftrightarrow> \<not> (slot < 0 \<or> slot \<ge> int NUM_BUFFER_SLOTS)"

section \<open>The consumer\<close>

definition MAX_REASONABLE_NSEC :: int where "MAX_REASONABLE_NSEC = 1000000000"

definition num_acquired_buffers :: "'a core \<Rightarrow> int" where
  "num_acquired_buffers s = int (length (filter (\<lambda>b. buffer_state b = Acquired) (slots s)))"

text \<open>One turn of the drop loop frees the front item when the next one is timely.\<close>

definition drop_front :: "BufferItem \<Rightarrow> 'a core \<Rightarrow> 'a core" where
  "drop_front front s =
     (if StillTracking s front
      then update_slot (nat (item_slot front)) (\<lambda>b. b\<lparr>buffer_state := Free\<rparr>) s else s)"

fun AcquireBuffer_drop :: "int \<Rightarrow> BufferItem list \<Rightarrow> 'a core \<Rightarrow> BufferItem list \<times> 'a core" where
  "AcquireBuffer_drop expected (front # item # rest) s =
     (if item_is_auto_timestamp front then (front # item # rest, s)
      else if item_timestamp item < expected - MAX_REASONABLE_NSEC
              \<or> item_timestamp item > expected then (front # item # rest, s)
      else AcquireBuffer_drop expected (item # rest) (drop_front front s))"
| "AcquireBuffer_drop expected q s = (q, s)"

definition acquire_front :: "BufferItem \<Rightarrow> 'a core \<Rightarrow> 'a core" where
  "acquire_front front s =
     (if StillTracking s front
      then update_slot (nat (item_slot front))
             (\<lambda>b. b\<lparr>acquire_called := True, needs_cleanup_on_release := False,
                    buffer_state := Acquired\<rparr>) s
      else s)"

definition out_item :: "BufferItem \<Rightarrow> BufferItem" where
  "out_item front =
     (if item_acquire_called front then front\<lparr>item_graphic_buffer := None\<rparr> else front)"

definition AcquireBuffer :: "int \<Rightarrow> 'a core \<Rightarrow> (Status \<times> BufferItem option) \<times> 'a core" where
  "AcquireBuffer expected_present s =
     (if num_acquired_buffers s \<ge> max_acquired_buffer_count + 1
      then ((Status_InvalidOperation, None), s)
      else if queue s = [] then ((Status_NoBufferAvailable, None), s)
      else
        let (q, s1) = (if expected_present \<noteq> 0
                       then AcquireBuffer_drop expected_present (queue s) s else (queue s, s));
            s2 = s1\<lparr>queue := q\<rparr>;
            front = hd q
        in if expected_present \<noteq> 0 \<and> item_timestamp front > expected_present
              \<and> item_timestamp front < expected_present + MAX_REASONABLE_NSEC
           then ((Status_PresentLater, None), s2)
           else ((Status_NoError, Some (out_item front)),
                 SignalDequeueCondition ((acquire_front front s2)\<lparr>queue := tl q\<rparr>)))"

definition ReleaseBuffer :: "int \<Rightarrow> u64 \<Rightarrow> Fence \<Rightarrow> 'a core \<Rightarrow> Status \<times> 'a core" where
  "ReleaseBuffer slot frame release_fence s =
     (if \<not> valid_slot slot then (Status_BadValue, s)
      else
        let b = slots s ! nat slot
        in if frame \<noteq> frame_number b then (Status_StaleBufferSlot, s)
           else if \<exists>item \<in> set (queue s). item_slot item = slot then (Status_BadValue, s)
           else if buffer_state b = Acquired then
             let s1 = SignalDequeueCondition
                        (update_slot (nat slot) (\<lambda>b. b\<lparr>buffer_state := Free\<rparr>) s)
             in (Status_NoError,
                 case connected_producer_listener s of
                   None \<Rightarrow> s1 | Some l \<Rightarrow> notify (OnBufferReleased l) s1)
           else if needs_cleanup_on_release b then
             (Status_StaleBufferSlot,
              update_slot (nat slot) (\<lambda>b. b\<lparr>needs_cleanup_on_release := False\<rparr>) s)
           else (Status_BadValue, s))"

definition Consumer_Connect :: "nat option \<Rightarrow> bool \<Rightarrow> 'a core \<Rightarrow> Status \<times> 'a core" where
  "Consumer_Connect listener controlled_by_app s =
     (if listener = None then (Status_BadValue, s)
      else if is_abandoned s then (Status_NoInit, s)
      else (Status_NoError,
            s\<lparr>consumer_listener := listener, consumer_controlled_by_app := controlled_by_app\<rparr>))"

definition Consumer_Disconnect :: "'a core \<Rightarrow> Status \<times> 'a core" where
  "Consumer_Disconnect s =
     (if consumer_listener s = None then (Status_BadValue, s)
      else (Status_NoError,
            SignalDequeueCondition (FreeAllBuffersLocked
              (s\<lparr>is_abandoned := True, consumer_listener := None, queue := []\<rparr>))))"

fun released_mask :: "nat list \<Rightarrow> BufferSlot list \<Rightarrow> u64 \<Rightarrow> u64" where
  "released_mask [] ss mask_bits = mask_bits"
| "released_mask (i # rest) ss mask_bits =
     released_mask rest ss
       (if acquire_called (ss ! i) then mask_bits else mask_bits OR push_bit i 1)"

fun retain_queued :: "BufferItem list \<Rightarrow> u64 \<Rightarrow> u64" where
  "retain_queued [] mask_bits = mask_bits"
| "retain_queued (item # rest) mask_bits =
     retain_queued rest
       (if item_acquire_called item
        then mask_bits AND NOT (push_bit (nat (item_slot item)) 1) else mask_bits)"

definition GetReleasedBuffers :: "'a core \<Rightarrow> Status \<times> u64 option" where
  "GetReleasedBuffers s =
     (if is_abandoned s then (Status_NoInit, None)
      else (Status_NoError,
            Some (retain_queued (queue s) (released_mask [0..<NUM_BUFFER_SLOTS] (slots s) 0))))"

section \<open>Producer: requesting and sizing\<close>

type_synonym 'a producer = "'a BufferQueueProducer_scheme"

definition RequestBuffer :: "int \<Rightarrow> 'a core \<Rightarrow> (Status \<times> GraphicBuffer option) \<times> 'a core" where
  "RequestBuffer slot s =
     (if is_abandoned s then ((Status_NoInit, None), s)
      else if \<not> valid_slot slot then ((Status_BadValue, None), s)
      else if buffer_state (slots s ! nat slot) \<noteq> Dequeued then ((Status_BadValue, None), s)
      else ((Status_NoError, graphic_buffer (slots s ! nat slot)),
            update_slot (nat slot) (\<lambda>b. b\<lparr>request_buffer_called := True\<rparr>) s))"

definition notify_released :: "'a core \<Rightarrow> 'a core" where
  "notify_released s =
     (case consumer_listener s of None \<Rightarrow> s | Some l \<Rightarrow> notify (OnBuffersReleased l) s)"

definition SetBufferCount :: "int \<Rightarrow> 'a core \<Rightarrow> Status outcome \<times> 'a core" where
  "SetBufferCount buffer_count s =
     (if is_allocating s then (Blocked, s)
      else if is_abandoned s then (Returned Status_NoInit, s)
      else if buffer_count > int NUM_BUFFER_SLOTS then (Returned Status_BadValue, s)
      else if \<exists>b \<in> set (slots s). buffer_state b = Dequeued then (Returned Status_BadValue, s)
      else if buffer_count = 0 then
        (Returned Status_NoError, SignalDequeueCondition (s\<lparr>override_max_buffer_count := 0\<rparr>))
      else if buffer_count < GetMinMaxBufferCountLocked False s then (Returned Status_BadValue, s)
      else
        let s1 = (if GetPreallocatedBufferCountLocked s \<le> 0 then FreeAllBuffersLocked s else s);
            s2 = SignalDequeueCondition (s1\<lparr>override_max_buffer_count := buffer_count\<rparr>)
        in (Returned Status_NoError, notify_released (notify BufferWaitEvent_Signal s2)))"

section \<open>Producer: finding a free slot\<close>

fun FreeBeyond_loop :: "nat list \<Rightarrow> Status \<Rightarrow> 'a core \<Rightarrow> Status \<times> 'a core" where
  "FreeBeyond_loop [] flags s = (flags, s)"
| "FreeBeyond_loop (i # rest) flags s =
     (let b = slots s ! i
      in if graphic_buffer b \<noteq> None \<and> buffer_state b = Free \<and> \<not> is_preallocated b
         then FreeBeyond_loop rest (flags OR Status_ReleaseAllBuffers) (FreeBufferLocked i s)
         else FreeBeyond_loop rest flags s)"

fun FindFree_loop ::
  "nat list \<Rightarrow> BufferSlot list \<Rightarrow> int \<Rightarrow> int \<Rightarrow> int \<Rightarrow> int \<times> int \<times> int" where
  "FindFree_loop [] ss found dequeued acquired = (found, dequeued, acquired)"
| "FindFree_loop (i # rest) ss found dequeued acquired =
     (case buffer_state (ss ! i) of
        Dequeued \<Rightarrow> FindFree_loop rest ss found (dequeued + 1) acquired
      | Acquired \<Rightarrow> FindFree_loop rest ss found dequeued (acquired + 1)
      | Free \<Rightarrow>
          FindFree_loop rest ss
            (if found = INVALID_BUFFER_SLOT \<or> frame_number (ss ! i) < frame_number (ss ! nat found)
             then int i else found) dequeued acquired
      | Queued \<Rightarrow> FindFree_loop rest ss found dequeued acquired)"

datatype wait_result = Wait_return Status int Status | Wait_again Status

definition WaitForFreeSlot_turn ::
  "bool \<Rightarrow> Status \<Rightarrow> 'a core \<Rightarrow> wait_result \<times> 'a core" where
  "WaitForFreeSlot_turn async flags s =
     (if is_abandoned s then (Wait_return Status_NoInit 0 flags, s)
      else
        let max_buffer_count = GetMaxBufferCountLocked async s
        in if async \<and> override_max_buffer_count s \<noteq> 0
              \<and> override_max_buffer_count s < max_buffer_count
           then (Wait_return Status_BadValue INVALID_BUFFER_SLOT flags, s)
           else
             let (flags1, s1) =
                   FreeBeyond_loop [nat max_buffer_count..<NUM_BUFFER_SLOTS] flags s;
                 (found, dequeued_count, acquired_count) =
                   FindFree_loop [0..<nat max_buffer_count] (slots s1) INVALID_BUFFER_SLOT 0 0;
                 too_many_buffers = int (length (queue s1)) > max_buffer_count
             in if override_max_buffer_count s1 = 0 \<and> dequeued_count \<noteq> 0
                then (Wait_return Status_InvalidOperation found flags1, s1)
                else if buffer_has_been_queued s1
                        \<and> max_buffer_count - (dequeued_count + 1)
                          < GetMinUndequeuedBufferCountLocked async s1
                then (Wait_return Status_InvalidOperation found flags1, s1)
                else if found = INVALID_BUFFER_SLOT \<or> too_many_buffers then
                  (if dequeue_buffer_cannot_block s1
                      \<and> acquired_count \<le> max_acquired_buffer_count
                   then (Wait_return Status_WouldBlock found flags1, s1)
                   else (Wait_again flags1, s1))
                else (Wait_return Status_NoError found flags1, s1))"

lemma FreeBeyond_dequeue_possible:
  "dequeue_possible (snd (FreeBeyond_loop is flags s)) = dequeue_possible s"
  by (induction "is" flags s rule: FreeBeyond_loop.induct)
     (simp_all add: Let_def FreeBufferLocked_def update_slot_def)

lemma turn_dequeue_possible:
  "dequeue_possible (snd (WaitForFreeSlot_turn async flags s)) = dequeue_possible s"
  by (simp add: WaitForFreeSlot_turn_def Let_def split_beta FreeBeyond_dequeue_possible)

text \<open>
  The loop, as far as the calling thread gets without another thread: a sleep ends at once
  when the condition was signalled before (\<^verbatim>\<open>dequeue_possible\<close>), and clears it.
\<close>

function WaitForFreeSlotThenRelock ::
  "bool \<Rightarrow> Status \<Rightarrow> 'a core \<Rightarrow> wait_result \<times> 'a core" where
  "WaitForFreeSlotThenRelock async flags s =
     (case WaitForFreeSlot_turn async flags s of
        (Wait_return status found flags1, s1) \<Rightarrow> (Wait_return status found flags1, s1)
      | (Wait_again flags1, s1) \<Rightarrow>
          if dequeue_possible s1
          then WaitForFreeSlotThenRelock async flags1 (s1\<lparr>dequeue_possible := False\<rparr>)
          else (Wait_again flags1, s1))"
  by pat_completeness auto
termination
  by (relation "measure (\<lambda>(_, _, s). if dequeue_possible s then 1 else 0)")
     (auto, metis snd_conv turn_dequeue_possible)

declare WaitForFreeSlotThenRelock.simps [simp del]

section \<open>Producer: dequeueing\<close>

record dequeue_locals =
  dq_async :: bool
  dq_width :: u32
  dq_height :: u32
  dq_format :: u32
  dq_usage :: u32
  dq_flags :: Status

datatype dequeue_result =
    Dequeue_returned Status
  | Dequeue_sleeping dequeue_locals
  | Dequeue_allocating dequeue_locals int Fence bool
  | Dequeue_found Status int Fence

definition needs_reallocation :: "GraphicBuffer option \<Rightarrow> u32 \<Rightarrow> u32 \<Rightarrow> u32 \<Rightarrow> u32 \<Rightarrow> bool" where
  "needs_reallocation buffer width height format usage =
     (case buffer of
        None \<Rightarrow> True
      | Some b \<Rightarrow> gb_width b \<noteq> width \<or> gb_height b \<noteq> height \<or> gb_format b \<noteq> format
                  \<or> (gb_usage b AND usage) \<noteq> usage)"

definition clear_for_reallocation :: "BufferSlot \<Rightarrow> BufferSlot" where
  "clear_for_reallocation b =
     b\<lparr>acquire_called := False, graphic_buffer := None, request_buffer_called := False,
       fence := NoFence\<rparr>"

definition finish_flags :: "bool \<Rightarrow> Status \<Rightarrow> Status" where
  "finish_flags attached flags =
     (if attached then flags OR Status_BufferNeedsReallocation else flags)"

definition DequeueBuffer_locked ::
  "dequeue_locals \<Rightarrow> 'a core \<Rightarrow> dequeue_result \<times> 'a core" where
  "DequeueBuffer_locked l s =
     (case WaitForFreeSlotThenRelock (dq_async l) (dq_flags l) s of
        (Wait_again flags, s1) \<Rightarrow> (Dequeue_sleeping (l\<lparr>dq_flags := flags\<rparr>), s1)
      | (Wait_return status found flags, s1) \<Rightarrow>
          if status \<noteq> Status_NoError then (Dequeue_returned status, s1)
          else if found = INVALID_BUFFER_SLOT then (Dequeue_returned Status_Busy, s1)
          else
            let attached = attached_by_consumer (slots s1 ! nat found);
                use_default_size = (dq_width l = 0 \<and> dq_height l = 0);
                width = (if use_default_size then default_width s1 else dq_width l);
                height = (if use_default_size then default_height s1 else dq_height l);
                s2 = update_slot (nat found) (\<lambda>b. b\<lparr>buffer_state := Dequeued\<rparr>) s1;
                realloc = needs_reallocation (graphic_buffer (slots s2 ! nat found))
                            width height (dq_format l) (dq_usage l);
                s3 = (if realloc then update_slot (nat found) clear_for_reallocation s2 else s2);
                flags1 = (if realloc then flags OR Status_BufferNeedsReallocation else flags);
                out_fence = fence (slots s3 ! nat found);
                s4 = update_slot (nat found) (\<lambda>b. b\<lparr>fence := NoFence\<rparr>) s3
            in if (flags1 AND Status_BufferNeedsReallocation) \<noteq> Status_NoError
               then (Dequeue_allocating
                       (l\<lparr>dq_width := width, dq_height := height, dq_flags := flags1\<rparr>)
                       found out_fence attached, s4)
               else (Dequeue_found (finish_flags attached flags1) found out_fence, s4))"

definition DequeueBuffer_allocate ::
  "dequeue_locals \<Rightarrow> int \<Rightarrow> Fence \<Rightarrow> bool \<Rightarrow> 'a core \<Rightarrow> dequeue_result \<times> 'a core" where
  "DequeueBuffer_allocate l slot out_fence attached s =
     (let gb = GraphicBuffer_of_size (next_object s) (dq_width l) (dq_height l) (dq_format l)
                 (dq_usage l);
          s1 = s\<lparr>next_object := next_object s + 1\<rparr>
      in if is_abandoned s1 then (Dequeue_returned Status_NoInit, s1)
         else (Dequeue_found (finish_flags attached (dq_flags l)) slot out_fence,
               update_slot (nat slot)
                 (\<lambda>b. b\<lparr>frame_number := 0xFFFFFFFF, graphic_buffer := Some gb\<rparr>) s1))"

definition DequeueBuffer_enter ::
  "bool \<Rightarrow> u32 \<Rightarrow> u32 \<Rightarrow> u32 \<Rightarrow> u32 \<Rightarrow> 'a core \<Rightarrow> (Status + dequeue_locals) outcome" where
  "DequeueBuffer_enter async width height format usage s =
     (if (width \<noteq> 0 \<and> height = 0) \<or> (width = 0 \<and> height \<noteq> 0)
      then Returned (Inl Status_BadValue)
      else if is_allocating s then Blocked
      else Returned (Inr
        \<lparr>dq_async = async, dq_width = width, dq_height = height,
         dq_format = (if format = PixelFormat_NoFormat then default_buffer_format s else format),
         dq_usage = usage OR consumer_usage_bit s, dq_flags = Status_NoError\<rparr>))"

definition DequeueBuffer_finish ::
  "dequeue_result \<times> 'a core \<Rightarrow> dequeue_result \<times> 'a core" where
  "DequeueBuffer_finish r =
     (case r of
        (Dequeue_allocating l slot out_fence attached, s) \<Rightarrow>
          DequeueBuffer_allocate l slot out_fence attached s
      | _ \<Rightarrow> r)"

text \<open>The whole call, when no other thread runs between its two locked sections.\<close>

definition DequeueBuffer ::
  "bool \<Rightarrow> u32 \<Rightarrow> u32 \<Rightarrow> u32 \<Rightarrow> u32 \<Rightarrow> 'a core \<Rightarrow> dequeue_result outcome \<times> 'a core" where
  "DequeueBuffer async width height format usage s =
     (case DequeueBuffer_enter async width height format usage s of
        Blocked \<Rightarrow> (Blocked, s)
      | Crashed \<Rightarrow> (Crashed, s)
      | Returned (Inl status) \<Rightarrow> (Returned (Dequeue_returned status), s)
      | Returned (Inr l) \<Rightarrow>
          let (r, s1) = DequeueBuffer_finish (DequeueBuffer_locked l s)
          in ((case r of Dequeue_sleeping _ \<Rightarrow> Blocked | _ \<Rightarrow> Returned r), s1))"

section \<open>Producer: detaching and attaching\<close>

definition DetachBuffer :: "int \<Rightarrow> 'a core \<Rightarrow> Status \<times> 'a core" where
  "DetachBuffer slot s =
     (if is_abandoned s then (Status_NoInit, s)
      else if \<not> valid_slot slot then (Status_BadValue, s)
      else if buffer_state (slots s ! nat slot) \<noteq> Dequeued then (Status_BadValue, s)
      else if \<not> request_buffer_called (slots s ! nat slot) then (Status_BadValue, s)
      else (Status_NoError, SignalDequeueCondition (FreeBufferLocked (nat slot) s)))"

fun OldestValid_loop :: "nat list \<Rightarrow> BufferSlot list \<Rightarrow> int \<Rightarrow> int" where
  "OldestValid_loop [] ss found = found"
| "OldestValid_loop (i # rest) ss found =
     OldestValid_loop rest ss
       (if buffer_state (ss ! i) = Free \<and> graphic_buffer (ss ! i) \<noteq> None
           \<and> (found = INVALID_BUFFER_SLOT
              \<or> frame_number (ss ! i) < frame_number (ss ! nat found))
        then int i else found)"

definition DetachNextBuffer ::
  "'a core \<Rightarrow> (Status \<times> (GraphicBuffer \<times> Fence) option) outcome \<times> 'a core" where
  "DetachNextBuffer s =
     (if is_allocating s then (Blocked, s)
      else if is_abandoned s then (Returned (Status_NoInit, None), s)
      else
        let found = OldestValid_loop [0..<NUM_BUFFER_SLOTS] (slots s) INVALID_BUFFER_SLOT
        in if found = INVALID_BUFFER_SLOT then (Returned (Status_NoMemory, None), s)
           else
             let b = slots s ! nat found
             in (Returned (Status_NoError, map_option (\<lambda>g. (g, fence b)) (graphic_buffer b)),
                 FreeBufferLocked (nat found) s))"

definition AttachBuffer ::
  "GraphicBuffer option \<Rightarrow> 'a core \<Rightarrow> (Status \<times> int) outcome \<times> 'a core" where
  "AttachBuffer buffer s =
     (if buffer = None then (Returned (Status_BadValue, 0), s)
      else if is_allocating s then (Blocked, s)
      else
        (case WaitForFreeSlotThenRelock False Status_NoError s of
           (Wait_again flags, s1) \<Rightarrow> (Blocked, s1)
         | (Wait_return status found flags, s1) \<Rightarrow>
             if status \<noteq> Status_NoError then (Returned (status, 0), s1)
             else if found = INVALID_BUFFER_SLOT then (Returned (Status_Busy, 0), s1)
             else
               (Returned (flags, found),
                update_slot (nat found)
                  (\<lambda>b. b\<lparr>graphic_buffer := buffer, buffer_state := Dequeued, fence := NoFence,
                         request_buffer_called := True\<rparr>) s1)))"

section \<open>Producer: queueing\<close>

definition Inflate :: "'a core \<Rightarrow> QueueBufferOutput" where
  "Inflate s =
     \<lparr>out_width = default_width s, out_height = default_height s,
      out_transform_hint = transform_hint s,
      out_num_pending_buffers = word_of_nat (length (queue s))\<rparr>"

definition queue_item :: "int \<Rightarrow> QueueBufferInput \<Rightarrow> 'a core \<Rightarrow> BufferItem" where
  "queue_item slot input s =
     (let b = slots s ! nat slot
      in \<lparr>item_graphic_buffer = graphic_buffer b, item_fence = in_fence input,
          item_crop = in_crop input,
          item_transform = in_transform input AND NOT InverseDisplay,
          item_scaling_mode = in_scaling_mode input, item_timestamp = in_timestamp input,
          item_is_auto_timestamp = in_is_auto_timestamp input,
          item_frame_number = frame_counter s, item_slot = slot,
          item_is_droppable = (dequeue_buffer_cannot_block s \<or> in_async input),
          item_acquire_called = acquire_called b,
          item_transform_to_display_inverse = ((in_transform input AND InverseDisplay) \<noteq> 0),
          item_swap_interval = in_swap_interval input\<rparr>)"

text \<open>
  The item enters the queue: behind the others, or in place of a droppable front item,
  whose slot becomes free and first in line. The flag tells whether the front was replaced.
\<close>

definition replace_front :: "BufferItem \<Rightarrow> 'a core \<Rightarrow> 'a core" where
  "replace_front front s =
     (if StillTracking s front
      then update_slot (nat (item_slot front)) (\<lambda>b. b\<lparr>buffer_state := Free, frame_number := 0\<rparr>) s
      else s)"

definition enqueue_item :: "BufferItem \<Rightarrow> 'a core \<Rightarrow> bool \<times> 'a core" where
  "enqueue_item item s =
     (case queue s of
        [] \<Rightarrow> (False, s\<lparr>queue := [item]\<rparr>)
      | front # rest \<Rightarrow>
          if item_is_droppable front
          then (True, (replace_front front s)\<lparr>queue := item # rest\<rparr>)
          else (False, s\<lparr>queue := queue s @ [item]\<rparr>))"

text \<open>The section after the lock: callbacks run in the order of their tickets.\<close>

definition QueueBuffer_callback ::
  "bool \<Rightarrow> BufferItem \<Rightarrow> nat option \<Rightarrow> u32 \<Rightarrow> 'a producer \<Rightarrow> unit outcome \<times> 'a producer" where
  "QueueBuffer_callback replaced item listener ticket s =
     (if ticket \<noteq> current_callback_ticket s then (Blocked, s)
      else
        let s1 = (case listener of
                    None \<Rightarrow> s
                  | Some l \<Rightarrow>
                      notify ((if replaced then OnFrameReplaced else OnFrameAvailable) l item) s)
        in (Returned (), s1\<lparr>current_callback_ticket := current_callback_ticket s1 + 1\<rparr>))"

definition QueueBuffer_accept ::
  "int \<Rightarrow> QueueBufferInput \<Rightarrow> 'a producer
    \<Rightarrow> (Status \<times> QueueBufferOutput option) outcome \<times> 'a producer" where
  "QueueBuffer_accept slot input s =
     (let s1 = update_slot (nat slot)
                 (\<lambda>b. b\<lparr>fence := in_fence input, buffer_state := Queued,
                        frame_number := frame_counter s + 1\<rparr>)
                 (s\<lparr>frame_counter := frame_counter s + 1\<rparr>);
          item = queue_item slot input s1;
          (replaced, s2) = enqueue_item item (s1\<lparr>sticky_transform := in_sticky_transform input\<rparr>);
          s3 = SignalDequeueCondition (s2\<lparr>buffer_has_been_queued := True\<rparr>);
          output = Inflate s3;
          ticket = next_callback_ticket s3;
          s4 = s3\<lparr>next_callback_ticket := ticket + 1\<rparr>;
          sent = item\<lparr>item_graphic_buffer := None, item_slot := INVALID_BUFFER_SLOT\<rparr>
      in case QueueBuffer_callback replaced sent (consumer_listener s3) ticket s4 of
           (Returned _, s5) \<Rightarrow> (Returned (Status_NoError, Some output), s5)
         | (Blocked, s5) \<Rightarrow> (Blocked, s5)
         | (Crashed, s5) \<Rightarrow> (Crashed, s5))"

definition QueueBuffer ::
  "int \<Rightarrow> QueueBufferInput \<Rightarrow> 'a producer
    \<Rightarrow> (Status \<times> QueueBufferOutput option) outcome \<times> 'a producer" where
  "QueueBuffer slot input s =
     (if \<not> known_scaling_mode (in_scaling_mode input) then (Returned (Status_BadValue, None), s)
      else if is_abandoned s then (Returned (Status_NoInit, None), s)
      else
        let max_buffer_count = GetMaxBufferCountLocked (in_async input) s
        in if in_async input \<and> override_max_buffer_count s \<noteq> 0
              \<and> override_max_buffer_count s < max_buffer_count
           then (Returned (Status_BadValue, None), s)
           else if slot < 0 \<or> slot \<ge> max_buffer_count then (Returned (Status_BadValue, None), s)
           else if buffer_state (slots s ! nat slot) \<noteq> Dequeued
           then (Returned (Status_BadValue, None), s)
           else if \<not> request_buffer_called (slots s ! nat slot)
           then (Returned (Status_BadValue, None), s)
           else
             (case graphic_buffer (slots s ! nat slot) of
                None \<Rightarrow> (Crashed, s)
              | Some gb \<Rightarrow>
                  let buffer_rect = Rectangle_of_size (sint (gb_width gb)) (sint (gb_height gb))
                  in if Intersect (in_crop input) buffer_rect \<noteq> in_crop input
                     then (Returned (Status_BadValue, None), s)
                     else QueueBuffer_accept slot input s))"

section \<open>Producer: cancelling, querying, connecting\<close>

definition CancelBuffer :: "int \<Rightarrow> Fence \<Rightarrow> 'a core \<Rightarrow> 'a core" where
  "CancelBuffer slot cancel_fence s =
     (if is_abandoned s then s
      else if \<not> valid_slot slot then s
      else if buffer_state (slots s ! nat slot) \<noteq> Dequeued then s
      else notify BufferWaitEvent_Signal (SignalDequeueCondition
             (update_slot (nat slot)
               (\<lambda>b. b\<lparr>buffer_state := Free, frame_number := 0, fence := cancel_fence\<rparr>) s)))"

definition Query :: "u32 \<Rightarrow> 'a producer \<Rightarrow> Status \<times> u32 option" where
  "Query what s =
     (if is_abandoned s then (Status_NoInit, None)
      else
        let ok = (\<lambda>value. (Status_NoError, Some value))
        in if what = NativeWindow_Width then ok (default_width s)
           else if what = NativeWindow_Height then ok (default_height s)
           else if what = NativeWindow_Format then ok (default_buffer_format s)
           else if what = NativeWindow_MinUndequeedBuffers
           then ok (word_of_int (GetMinUndequeuedBufferCountLocked False s))
           else if what = NativeWindow_StickyTransform then ok (sticky_transform s)
           else if what = NativeWindow_ConsumerRunningBehind
           then ok (if length (queue s) > 1 then 1 else 0)
           else if what = NativeWindow_ConsumerUsageBits then ok (consumer_usage_bit s)
           else (Status_BadValue, None))"

definition Producer_Connect ::
  "nat option \<Rightarrow> u32 \<Rightarrow> bool \<Rightarrow> 'a core \<Rightarrow> (Status \<times> QueueBufferOutput option) \<times> 'a core" where
  "Producer_Connect listener api producer_controlled_by_app s =
     (if is_abandoned s then ((Status_NoInit, None), s)
      else if consumer_listener s = None then ((Status_NoInit, None), s)
      else if connected_api s \<noteq> NoConnectedApi then ((Status_BadValue, None), s)
      else
        let (r, s1) =
              (if known_api api
               then ((Status_NoError, Some (Inflate (s\<lparr>connected_api := api\<rparr>))),
                     s\<lparr>connected_api := api, connected_producer_listener := listener\<rparr>)
               else ((Status_BadValue, None), s))
        in (r, s1\<lparr>buffer_has_been_queued := False,
                  dequeue_buffer_cannot_block :=
                    (consumer_controlled_by_app s1 \<and> producer_controlled_by_app)\<rparr>))"

definition Producer_Disconnect :: "u32 \<Rightarrow> 'a core \<Rightarrow> Status outcome \<times> 'a core" where
  "Producer_Disconnect api s =
     (if is_allocating s then (Blocked, s)
      else if is_abandoned s then (Returned Status_NoError, s)
      else if known_api api \<and> connected_api s = api then
        let s1 = FreeAllBuffersLocked (s\<lparr>queue := []\<rparr>);
            s2 = SignalDequeueCondition
                   (s1\<lparr>connected_producer_listener := None, connected_api := NoConnectedApi\<rparr>)
        in (Returned Status_NoError, notify_released (notify BufferWaitEvent_Signal s2))
      else (Returned Status_BadValue, s))"

text \<open>\<^verbatim>\<open>make_shared<GraphicBuffer>(nvmap, buffer)\<close> duplicates and pins the buffer's handle.\<close>

definition make_GraphicBuffer ::
  "NvGraphicBuffer option \<Rightarrow> 'a core \<Rightarrow> GraphicBuffer \<times> 'a core" where
  "make_GraphicBuffer buffer s =
     (let gb = GraphicBuffer_of_nv (next_object s) buffer;
          s1 = s\<lparr>next_object := next_object s + 1\<rparr>
      in (gb, if gb_buffer_id gb > 0
              then notify (NvMap_PinHandle (gb_buffer_id gb) False)
                     (notify (NvMap_DuplicateHandle (gb_buffer_id gb) True) s1)
              else s1))"

definition SetPreallocatedBuffer ::
  "int \<Rightarrow> NvGraphicBuffer option \<Rightarrow> 'a core \<Rightarrow> Status \<times> 'a core" where
  "SetPreallocatedBuffer slot buffer s =
     (if \<not> valid_slot slot then (Status_BadValue, s)
      else
        let s1 = update_slot (nat slot) (\<lambda>_. BufferSlot_ctor\<lparr>fence := NoFence\<rparr>) s;
            (gb, s2) = make_GraphicBuffer buffer s1;
            s3 = update_slot (nat slot) (\<lambda>b. b\<lparr>graphic_buffer := Some gb, frame_number := 0\<rparr>) s2;
            s4 = (case buffer of
                    None \<Rightarrow> s3
                  | Some nv \<Rightarrow>
                      let t = update_slot (nat slot) (\<lambda>b. b\<lparr>is_preallocated := True\<rparr>) s3
                      in t\<lparr>override_max_buffer_count := GetPreallocatedBufferCountLocked t,
                           default_width := gb_width nv, default_height := gb_height nv,
                           default_buffer_format := gb_format nv\<rparr>)
        in (Status_NoError, notify BufferWaitEvent_Signal (SignalDequeueCondition s4)))"

end
