(* ===== verification/BufferQueueInvariant.thy ===== *)
theory BufferQueueInvariant
  imports BufferQueue
begin

text \<open>
  What holds of the buffer queue at all times. \<open>coherent\<close> relates the slots to the items in
  the queue; the transition lemmas \<open>coherent_pop\<close>, \<open>coherent_set\<close>, \<open>coherent_keep\<close> and
  \<open>coherent_push\<close> say how it survives the four ways in which operations touch a slot.
  The step relation runs one producer thread against one consumer thread: the consumer may
  act while the producer sleeps in \<^verbatim>\<open>WaitForFreeSlotThenRelock\<close> and while it has left the
  lock of \<^verbatim>\<open>DequeueBuffer\<close> to allocate a buffer.
\<close>

section \<open>Coherence of slots and queue\<close>

definition tracked :: "BufferSlot list \<Rightarrow> BufferItem \<Rightarrow> bool" where
  "tracked ss item \<longleftrightarrow>
     (\<exists>b b'. graphic_buffer (ss ! nat (item_slot item)) = Some b
        \<and> item_graphic_buffer item = Some b' \<and> gb_object b' = gb_object b)"

lemma StillTracking_tracked: "StillTracking s item \<longleftrightarrow> tracked (slots s) item"
  by (simp add: StillTracking_def tracked_def split: option.splits)

definition item_ok :: "nat \<Rightarrow> BufferItem \<Rightarrow> bool" where
  "item_ok n item \<longleftrightarrow>
     valid_slot (item_slot item)
     \<and> (\<exists>b. item_graphic_buffer item = Some b \<and> gb_object b < n)"

definition slot_ok :: "nat \<Rightarrow> BufferSlot \<Rightarrow> bool" where
  "slot_ok n b \<longleftrightarrow> (\<forall>g. graphic_buffer b = Some g \<longrightarrow> gb_object g < n)"

definition slot_has_item :: "BufferSlot list \<Rightarrow> BufferItem list \<Rightarrow> nat \<Rightarrow> bool" where
  "slot_has_item ss q i \<longleftrightarrow> (\<exists>item \<in> set q. nat (item_slot item) = i \<and> tracked ss item)"

definition coherent :: "BufferSlot list \<Rightarrow> BufferItem list \<Rightarrow> nat \<Rightarrow> bool" where
  "coherent ss q n \<longleftrightarrow>
     length ss = NUM_BUFFER_SLOTS
     \<and> (\<forall>item \<in> set q. item_ok n item)
     \<and> (\<forall>item \<in> set q. tracked ss item \<longrightarrow> buffer_state (ss ! nat (item_slot item)) = Queued)
     \<and> distinct (map (nat \<circ> item_slot) (filter (tracked ss) q))
     \<and> (\<forall>i < NUM_BUFFER_SLOTS. buffer_state (ss ! i) = Queued \<longrightarrow> slot_has_item ss q i)
     \<and> (\<forall>i < NUM_BUFFER_SLOTS. slot_ok n (ss ! i))"

lemma valid_slot_nat: "valid_slot slot \<Longrightarrow> nat slot < NUM_BUFFER_SLOTS"
  by (auto simp: valid_slot_def)

lemma tracked_update_other:
  "nat (item_slot item) \<noteq> i \<Longrightarrow> tracked (ss[i := b]) item = tracked ss item"
  by (simp add: tracked_def)

lemma tracked_update_same_buffer:
  "graphic_buffer b = graphic_buffer (ss ! i) \<Longrightarrow> tracked (ss[i := b]) item = tracked ss item"
  by (cases "nat (item_slot item) = i"; cases "i < length ss")
     (simp_all add: tracked_def list_update_beyond)

lemma not_tracked_update:
  assumes "item_ok n item" "nat (item_slot item) = i" "i < length ss"
    "\<And>g. graphic_buffer b = Some g \<Longrightarrow> n \<le> gb_object g"
  shows "\<not> tracked (ss[i := b]) item"
  using assms by (force simp: tracked_def item_ok_def)

text \<open>Setting a slot to a state other than \<open>Queued\<close>, with no item left to track it.\<close>

lemma coherent_set:
  assumes c: "coherent ss q n" and i: "i < NUM_BUFFER_SLOTS" and nq: "buffer_state b \<noteq> Queued"
    and ok: "slot_ok n' b" and le: "n \<le> n'"
    and untracked: "\<And>item. item \<in> set q \<Longrightarrow> nat (item_slot item) = i \<Longrightarrow> \<not> tracked (ss[i := b]) item"
  shows "coherent (ss[i := b]) q n'"
proof -
  have len: "length ss = NUM_BUFFER_SLOTS" using c by (simp add: coherent_def)
  have tr: "tracked (ss[i := b]) item \<longleftrightarrow> nat (item_slot item) \<noteq> i \<and> tracked ss item"
    if "item \<in> set q" for item
    using untracked [OF that] tracked_update_other by (cases "nat (item_slot item) = i") auto
  have filt: "filter (tracked (ss[i := b])) q
        = filter (\<lambda>it. nat (item_slot it) \<noteq> i) (filter (tracked ss) q)"
    by (simp add: tr cong: filter_cong) (metis (mono_tags, lifting))
  have dist: "distinct (map (nat \<circ> item_slot) (filter (tracked (ss[i := b])) q))"
    unfolding filt by (rule distinct_map_filter) (use c in \<open>simp add: coherent_def\<close>)
  have has: "slot_has_item (ss[i := b]) q j"
    if "j < NUM_BUFFER_SLOTS" "buffer_state (ss[i := b] ! j) = Queued" for j
  proof -
    have "j \<noteq> i" using that nq len i by auto
    then show ?thesis using c that len tr by (fastforce simp: coherent_def slot_has_item_def)
  qed
  show ?thesis
    using c len dist has tr ok le i
    by (auto simp: coherent_def item_ok_def slot_ok_def nth_list_update)
qed

text \<open>Changing other fields of a slot.\<close>

lemma coherent_keep:
  assumes c: "coherent ss q n" and i: "i < NUM_BUFFER_SLOTS"
    and same: "buffer_state b = buffer_state (ss ! i)" "graphic_buffer b = graphic_buffer (ss ! i)"
  shows "coherent (ss[i := b]) q n"
proof -
  have tr: "tracked (ss[i := b]) = tracked ss"
    using tracked_update_same_buffer [OF same(2)] by (rule ext)
  have st: "buffer_state (ss[i := b] ! j) = buffer_state (ss ! j)" for j
    using same(1) by (cases "i < length ss") (auto simp: nth_list_update list_update_beyond)
  have sl: "slot_ok m (ss[i := b] ! j) = slot_ok m (ss ! j)" for j m
    using same(2) by (cases "i < length ss") (auto simp: slot_ok_def nth_list_update list_update_beyond)
  show ?thesis using c by (simp add: coherent_def slot_has_item_def tr st sl)
qed

text \<open>Removing the front item, which releases the slot it tracks.\<close>

lemma coherent_pop_tracked:
  assumes c: "coherent ss (front # rest) n" and t: "tracked ss front"
    and nq: "buffer_state b \<noteq> Queued"
    and same: "graphic_buffer b = graphic_buffer (ss ! nat (item_slot front))"
  shows "coherent (ss[nat (item_slot front) := b]) rest n"
proof -
  let ?i = "nat (item_slot front)"
  have i: "?i < NUM_BUFFER_SLOTS"
    using c by (auto simp: coherent_def item_ok_def dest: valid_slot_nat)
  have tr: "tracked (ss[?i := b]) = tracked ss"
    using tracked_update_same_buffer [OF same] by (rule ext)
  have other: "nat (item_slot item) \<noteq> ?i" if "item \<in> set rest" "tracked ss item" for item
  proof -
    have "distinct (map (nat \<circ> item_slot) (front # filter (tracked ss) rest))"
      using c t by (simp add: coherent_def)
    then show ?thesis using that by (auto simp: image_iff)
  qed
  have q: "buffer_state (ss[?i := b] ! nat (item_slot item)) = Queued"
    if "item \<in> set rest" "tracked ss item" for item
    using c that other [OF that] by (simp add: coherent_def)
  have dist: "distinct (map (nat \<circ> item_slot) (filter (tracked ss) rest))"
    using c by (cases "tracked ss front") (simp_all add: coherent_def)
  have sl: "slot_ok n (ss[?i := b] ! j)" if "j < NUM_BUFFER_SLOTS" for j
    using c that i same by (cases "j = ?i") (simp_all add: coherent_def slot_ok_def)
  have len: "length ss = NUM_BUFFER_SLOTS" and items: "\<forall>item \<in> set rest. item_ok n item"
    using c by (simp_all add: coherent_def)
  have has: "slot_has_item ss rest j"
    if "j < NUM_BUFFER_SLOTS" "buffer_state (ss[?i := b] ! j) = Queued" for j
  proof -
    have "j \<noteq> ?i" using that nq len i by auto
    then have "slot_has_item ss (front # rest) j" using c that by (simp add: coherent_def)
    then show ?thesis using \<open>j \<noteq> ?i\<close> by (auto simp: slot_has_item_def)
  qed
  show ?thesis
    unfolding coherent_def slot_has_item_def tr
    using items q dist has sl len by (auto simp: slot_has_item_def)
qed

lemma coherent_pop_untracked:
  assumes c: "coherent ss (front # rest) n" and t: "\<not> tracked ss front"
  shows "coherent ss rest n"
  using c t by (auto simp: coherent_def slot_has_item_def)

text \<open>Putting an item for a dequeued slot into the queue.\<close>

lemma coherent_push:
  assumes c: "coherent ss (q1 @ q2) n" and i: "nat (item_slot item) = i" "valid_slot (item_slot item)"
    and d: "buffer_state (ss ! i) \<noteq> Queued"
    and g: "graphic_buffer (ss ! i) = Some gb" "item_graphic_buffer item = Some gb"
    and b: "buffer_state b = Queued" "graphic_buffer b = Some gb"
  shows "coherent (ss[i := b]) (q1 @ item # q2) n"
proof -
  have len: "length ss = NUM_BUFFER_SLOTS" and bound: "i < NUM_BUFFER_SLOTS"
    using c i by (auto simp: coherent_def dest: valid_slot_nat)
  have tr: "tracked (ss[i := b]) = tracked ss"
    using g(1) b(2) tracked_update_same_buffer [of b ss i] by auto
  have tri: "tracked ss item" using i g by (simp add: tracked_def)
  have other: "nat (item_slot it) \<noteq> i" if "it \<in> set q1 \<union> set q2" "tracked ss it" for it
    using c d that by (auto simp: coherent_def)
  have ok: "item_ok n item" "slot_ok n b"
    using c i g b bound by (auto simp: coherent_def item_ok_def slot_ok_def)
  have dist: "distinct (map (nat \<circ> item_slot) (filter (tracked ss) (q1 @ item # q2)))"
    using c other i tri by (auto simp: coherent_def) metis+
  have has: "slot_has_item ss (q1 @ item # q2) j"
    if "j < NUM_BUFFER_SLOTS" "buffer_state (ss[i := b] ! j) = Queued" for j
    using c that i tri len by (cases "j = i") (auto simp: coherent_def slot_has_item_def)
  have q: "buffer_state (ss[i := b] ! nat (item_slot it)) = Queued"
    if "it \<in> set (q1 @ item # q2)" "tracked ss it" for it
    using c that b i len bound by (auto simp: coherent_def nth_list_update)
  have sl: "slot_ok n (ss[i := b] ! j)" if "j < NUM_BUFFER_SLOTS" for j
    using c that ok len by (cases "j = i") (simp_all add: coherent_def)
  show ?thesis
    using c ok dist has q sl len unfolding coherent_def slot_has_item_def tr by auto
qed

lemma coherent_empty:
  "length ss = NUM_BUFFER_SLOTS \<Longrightarrow>
   (\<And>i. i < NUM_BUFFER_SLOTS \<Longrightarrow> buffer_state (ss ! i) \<noteq> Queued \<and> slot_ok n (ss ! i)) \<Longrightarrow>
   coherent ss [] n"
  by (simp add: coherent_def)

section \<open>The invariant of the core\<close>

definition one_acquired :: "BufferSlot list \<Rightarrow> bool" where
  "one_acquired ss \<longleftrightarrow>
     (\<forall>i < NUM_BUFFER_SLOTS. \<forall>j < NUM_BUFFER_SLOTS.
        buffer_state (ss ! i) = Acquired \<longrightarrow> buffer_state (ss ! j) = Acquired \<longrightarrow> i = j)"

text \<open>
  \<open>A\<close> is the set of slots that the producer took and is still allocating a buffer for;
  every other slot it owns holds a buffer.
\<close>

definition owned_ok :: "nat set \<Rightarrow> bool \<Rightarrow> BufferSlot list \<Rightarrow> bool" where
  "owned_ok A abandoned ss \<longleftrightarrow>
     (\<forall>i \<in> A. i < NUM_BUFFER_SLOTS)
     \<and> (\<not> abandoned \<longrightarrow>
          (\<forall>i \<in> A. buffer_state (ss ! i) = Dequeued)
          \<and> (\<forall>i < NUM_BUFFER_SLOTS. i \<notin> A \<longrightarrow> buffer_state (ss ! i) = Dequeued \<longrightarrow>
               graphic_buffer (ss ! i) \<noteq> None))"

definition queue_inv :: "nat set \<Rightarrow> 'a core \<Rightarrow> bool" where
  "queue_inv A s \<longleftrightarrow>
     coherent (slots s) (queue s) (next_object s)
     \<and> one_acquired (slots s)
     \<and> owned_ok A (is_abandoned s) (slots s)
     \<and> 0 \<le> override_max_buffer_count s \<and> override_max_buffer_count s \<le> int NUM_BUFFER_SLOTS
     \<and> default_max_buffer_count s = 2
     \<and> \<not> is_allocating s"

named_theorems queue_field_simps "fields that small updates of the core leave alone"

lemma update_slot_fields [queue_field_simps, simp]:
  "slots (update_slot i f s) = (slots s)[i := f (slots s ! i)]"
  "queue (update_slot i f s) = queue s"
  "next_object (update_slot i f s) = next_object s"
  "is_abandoned (update_slot i f s) = is_abandoned s"
  "override_max_buffer_count (update_slot i f s) = override_max_buffer_count s"
  "default_max_buffer_count (update_slot i f s) = default_max_buffer_count s"
  "is_allocating (update_slot i f s) = is_allocating s"
  "dequeue_possible (update_slot i f s) = dequeue_possible s"
  "consumer_listener (update_slot i f s) = consumer_listener s"
  "buffer_has_been_queued (update_slot i f s) = buffer_has_been_queued s"
  "dequeue_buffer_cannot_block (update_slot i f s) = dequeue_buffer_cannot_block s"
  "frame_counter (update_slot i f s) = frame_counter s"
  by (simp_all add: update_slot_def)

text \<open>Operations that change none of the fields the invariant reads keep it.\<close>

lemma queue_inv_cong:
  assumes "queue_inv A s" "slots t = slots s" "queue t = queue s" "next_object t = next_object s"
    "is_abandoned t = is_abandoned s"
    "override_max_buffer_count t = override_max_buffer_count s"
    "default_max_buffer_count t = default_max_buffer_count s" "is_allocating t = is_allocating s"
  shows "queue_inv A t"
  using assms by (simp add: queue_inv_def)

lemma queue_inv_Signal: "queue_inv A s \<Longrightarrow> queue_inv A (SignalDequeueCondition s)"
  by (erule queue_inv_cong) (simp_all add: SignalDequeueCondition_def)

lemma queue_inv_notify: "queue_inv A s \<Longrightarrow> queue_inv A (notify c s)"
  by (erule queue_inv_cong) (simp_all add: notify_def)

lemma queue_inv_notify_released: "queue_inv A s \<Longrightarrow> queue_inv A (notify_released s)"
  by (simp add: notify_released_def queue_inv_notify split: option.splits)

lemma queue_inv_length: "queue_inv A s \<Longrightarrow> length (slots s) = NUM_BUFFER_SLOTS"
  by (simp add: queue_inv_def coherent_def)

lemma coherent_not_tracked:
  assumes "coherent ss q n" "item \<in> set q" "buffer_state (ss ! nat (item_slot item)) \<noteq> Queued"
  shows "\<not> tracked ss item"
  using assms by (auto simp: coherent_def)

text \<open>Taking a slot out of circulation or between owners, without queueing it.\<close>

lemma coherent_release:
  assumes c: "coherent ss q n" and i: "i < NUM_BUFFER_SLOTS" and nq: "buffer_state b \<noteq> Queued"
    and g: "graphic_buffer b = None \<or>
            graphic_buffer b = graphic_buffer (ss ! i) \<and> buffer_state (ss ! i) \<noteq> Queued"
  shows "coherent (ss[i := b]) q n"
proof (rule coherent_set [OF c i nq])
  show "slot_ok n b" using c i g by (auto simp: coherent_def slot_ok_def)
  fix item assume it: "item \<in> set q" "nat (item_slot item) = i"
  have "i < length ss" using c i by (simp add: coherent_def)
  then show "\<not> tracked (ss[i := b]) item"
    using g it coherent_not_tracked [OF c it(1)] tracked_update_same_buffer [of b ss i item]
    by (auto simp: tracked_def)
qed simp

lemma coherent_fresh:
  assumes c: "coherent ss q n" and i: "i < NUM_BUFFER_SLOTS" and nq: "buffer_state b \<noteq> Queued"
    and g: "graphic_buffer b = Some gb" "gb_object gb = n"
  shows "coherent (ss[i := b]) q (n + 1)"
proof (rule coherent_set [OF c i nq])
  show "slot_ok (n + 1) b" using g by (simp add: slot_ok_def)
  fix item assume it: "item \<in> set q" "nat (item_slot item) = i"
  have "i < length ss" "item_ok n item" using c i it by (simp_all add: coherent_def)
  then show "\<not> tracked (ss[i := b]) item"
    using g it by (intro not_tracked_update) auto
qed simp

lemma queue_inv_release:
  assumes s: "queue_inv A s" and i: "i < NUM_BUFFER_SLOTS"
    and st: "buffer_state (f (slots s ! i)) = Free" and out: "i \<in> A \<Longrightarrow> is_abandoned s"
    and g: "graphic_buffer (f (slots s ! i)) = None \<or>
            graphic_buffer (f (slots s ! i)) = graphic_buffer (slots s ! i)
              \<and> buffer_state (slots s ! i) \<noteq> Queued"
  shows "queue_inv A (update_slot i f s)"
proof -
  have "coherent ((slots s)[i := f (slots s ! i)]) (queue s) (next_object s)"
    using s i st g by (intro coherent_release) (auto simp: queue_inv_def)
  then show ?thesis
    using s i st out by (auto simp: queue_inv_def one_acquired_def owned_ok_def nth_list_update
      coherent_def)
qed

lemma queue_inv_keep:
  assumes s: "queue_inv A s" and i: "i < NUM_BUFFER_SLOTS"
    and same: "buffer_state (f (slots s ! i)) = buffer_state (slots s ! i)"
      "graphic_buffer (f (slots s ! i)) = graphic_buffer (slots s ! i)"
  shows "queue_inv A (update_slot i f s)"
proof -
  have "coherent ((slots s)[i := f (slots s ! i)]) (queue s) (next_object s)"
    using s i same by (intro coherent_keep) (auto simp: queue_inv_def)
  moreover have "length (slots s) = NUM_BUFFER_SLOTS" using s by (rule queue_inv_length)
  ultimately show ?thesis
    using s i same by (auto simp: queue_inv_def one_acquired_def owned_ok_def nth_list_update)
qed

section \<open>Freeing every buffer\<close>

lemma fold_FreeBufferLocked:
  "n \<le> length (slots s) \<Longrightarrow>
   fold FreeBufferLocked [0..<n] s
     = s\<lparr>slots := map FreeBuffer_slot (take n (slots s)) @ drop n (slots s)\<rparr>"
proof (induction n)
  case 0
  then show ?case by simp
next
  case (Suc n)
  then have n: "n < length (slots s)" by simp
  have ih: "fold FreeBufferLocked [0..<n] s
      = s\<lparr>slots := map FreeBuffer_slot (take n (slots s)) @ drop n (slots s)\<rparr>"
    using Suc by simp
  have "fold FreeBufferLocked [0..<Suc n] s = FreeBufferLocked n (fold FreeBufferLocked [0..<n] s)"
    by simp
  also have "\<dots> = s\<lparr>slots := map FreeBuffer_slot (take (Suc n) (slots s)) @ drop (Suc n) (slots s)\<rparr>"
    unfolding ih using n
    by (simp add: FreeBufferLocked_def update_slot_def nth_append list_update_append
        take_Suc_conv_app_nth Cons_nth_drop_Suc [symmetric])
  finally show ?case .
qed

lemma FreeAllBuffersLocked_eq:
  "length (slots s) = NUM_BUFFER_SLOTS \<Longrightarrow>
   FreeAllBuffersLocked s = s\<lparr>buffer_has_been_queued := False, slots := map FreeBuffer_slot (slots s)\<rparr>"
  by (simp add: FreeAllBuffersLocked_def fold_FreeBufferLocked)

lemma FreeBuffer_slot_fields [simp]:
  "buffer_state (FreeBuffer_slot b) = Free" "graphic_buffer (FreeBuffer_slot b) = None"
  by (simp_all add: FreeBuffer_slot_def)

lemma coherent_FreeAll:
  assumes "coherent ss q n"
  shows "coherent (map FreeBuffer_slot ss) q n"
proof -
  have "\<not> tracked (map FreeBuffer_slot ss) item" if "item \<in> set q" for item
    using assms that
    by (auto simp: tracked_def coherent_def item_ok_def dest!: valid_slot_nat bspec)
  then show ?thesis using assms by (auto simp: coherent_def slot_ok_def slot_has_item_def)
qed

lemma queue_inv_FreeAll:
  assumes s: "queue_inv A s" and A: "A = {} \<or> is_abandoned s"
  shows "queue_inv A (FreeAllBuffersLocked s)"
  using s A coherent_FreeAll
  by (auto simp: queue_inv_def FreeAllBuffersLocked_eq coherent_def one_acquired_def owned_ok_def)

lemma queue_inv_clear:
  assumes "queue_inv A s" "A = {} \<or> is_abandoned s"
  shows "queue_inv A (FreeAllBuffersLocked (s\<lparr>queue := []\<rparr>))"
  using assms
  by (auto simp: queue_inv_def FreeAllBuffersLocked_eq coherent_def one_acquired_def owned_ok_def
      slot_ok_def)

section \<open>Consumer operations\<close>

lemma pop_front:
  assumes s: "queue_inv A (s\<lparr>queue := front # rest\<rparr>)"
    and f: "\<And>b. graphic_buffer (f b) = graphic_buffer b" "\<And>b. buffer_state (f b) = st"
    and st: "st = Free \<or> st = Acquired \<and> (\<forall>i < NUM_BUFFER_SLOTS. buffer_state (slots s ! i) \<noteq> Acquired)"
  shows "queue_inv A ((if StillTracking s front then update_slot (nat (item_slot front)) f s else s)
           \<lparr>queue := rest\<rparr>)"
proof (cases "tracked (slots s) front")
  case False
  have "coherent (slots s) (front # rest) (next_object s)" using s by (simp add: queue_inv_def)
  from coherent_pop_untracked [OF this False] s False show ?thesis
    by (simp add: queue_inv_def StillTracking_tracked)
next
  case True
  let ?i = "nat (item_slot front)"
  have c: "coherent (slots s) (front # rest) (next_object s)" using s by (simp add: queue_inv_def)
  then have q: "buffer_state (slots s ! ?i) = Queued" and i: "?i < NUM_BUFFER_SLOTS"
    and len: "length (slots s) = NUM_BUFFER_SLOTS"
    using True by (auto simp: coherent_def item_ok_def dest: valid_slot_nat)
  have "coherent ((slots s)[?i := f (slots s ! ?i)]) rest (next_object s)"
    using st f by (intro coherent_pop_tracked [OF c True]) auto
  moreover have "one_acquired ((slots s)[?i := f (slots s ! ?i)])"
    using s st f(2) len i by (auto simp: queue_inv_def one_acquired_def nth_list_update)
  moreover have "owned_ok A (is_abandoned s) ((slots s)[?i := f (slots s ! ?i)])"
    using s st f(2) len i q by (auto simp: queue_inv_def owned_ok_def nth_list_update)
  ultimately show ?thesis using s True by (simp add: queue_inv_def StillTracking_tracked)
qed

definition none_acquired :: "'a core \<Rightarrow> bool" where
  "none_acquired s \<longleftrightarrow> (\<forall>i < NUM_BUFFER_SLOTS. buffer_state (slots s ! i) \<noteq> Acquired)"

lemma num_acquired_none:
  "length (slots s) = NUM_BUFFER_SLOTS \<Longrightarrow> \<not> num_acquired_buffers s \<ge> max_acquired_buffer_count + 1 \<Longrightarrow>
   none_acquired s"
  by (fastforce simp: num_acquired_buffers_def max_acquired_buffer_count_def none_acquired_def
      not_less_eq_eq filter_empty_conv)

lemma drop_front_none_acquired: "none_acquired s \<Longrightarrow> none_acquired (drop_front front s)"
  by (cases "nat (item_slot front) < length (slots s)")
     (auto simp: none_acquired_def drop_front_def nth_list_update list_update_beyond)

lemma AcquireBuffer_drop_inv:
  assumes "queue_inv A (s\<lparr>queue := q\<rparr>)" "none_acquired s" "AcquireBuffer_drop e q s = (q', s')"
  shows "queue_inv A (s'\<lparr>queue := q'\<rparr>) \<and> none_acquired s' \<and> (q \<noteq> [] \<longrightarrow> q' \<noteq> [])"
  using assms
proof (induction e q s rule: AcquireBuffer_drop.induct)
  case (1 e front item rest s)
  have inv: "queue_inv A ((drop_front front s)\<lparr>queue := item # rest\<rparr>)"
    using pop_front [OF "1.prems"(1), of "\<lambda>b. b\<lparr>buffer_state := Free\<rparr>" Free]
    by (simp add: drop_front_def)
  show ?case
    using 1 inv drop_front_none_acquired [OF "1.prems"(2)] by (auto split: if_splits)
qed auto

lemma AcquireBuffer_inv:
  assumes s: "queue_inv A s"
  shows "queue_inv A (snd (AcquireBuffer e s))"
proof (cases "num_acquired_buffers s \<ge> max_acquired_buffer_count + 1 \<or> queue s = []")
  case True
  then show ?thesis using s by (auto simp: AcquireBuffer_def)
next
  case False
  obtain q s1 where q: "(if e \<noteq> 0 then AcquireBuffer_drop e (queue s) s else (queue s, s)) = (q, s1)"
    by fastforce
  have none: "none_acquired s" using False num_acquired_none [OF queue_inv_length [OF s]] by blast
  have "queue_inv A (s1\<lparr>queue := q\<rparr>) \<and> none_acquired s1 \<and> q \<noteq> []"
  proof (cases "e = 0")
    case True
    then show ?thesis using q s none False by auto
  next
    case nz: False
    have "queue_inv A (s\<lparr>queue := queue s\<rparr>)" using s by simp
    from AcquireBuffer_drop_inv [OF this none] q nz False show ?thesis by auto
  qed
  then obtain front rest where fr: "q = front # rest"
    and inv: "queue_inv A (s1\<lparr>queue := front # rest\<rparr>)" and n1: "none_acquired s1"
    by (cases q) auto
  have "queue_inv A ((acquire_front front (s1\<lparr>queue := front # rest\<rparr>))\<lparr>queue := rest\<rparr>)"
    using pop_front [where s = "s1\<lparr>queue := front # rest\<rparr>" and st = Acquired and A = A
        and f = "\<lambda>b. b\<lparr>acquire_called := True, needs_cleanup_on_release := False,
                       buffer_state := Acquired\<rparr>"
        and front = front and rest = rest] inv n1
    by (simp add: acquire_front_def none_acquired_def)
  then show ?thesis
    using False q fr inv by (simp add: AcquireBuffer_def Let_def queue_inv_Signal)
qed

lemma ReleaseBuffer_inv:
  assumes s: "queue_inv A s"
  shows "queue_inv A (snd (ReleaseBuffer slot frame f s))"
proof (cases "valid_slot slot \<and> buffer_state (slots s ! nat slot) = Acquired")
  case True
  have "nat slot \<notin> A \<or> is_abandoned s"
    using s True by (auto simp: queue_inv_def owned_ok_def)
  then have "queue_inv A (update_slot (nat slot) (\<lambda>b. b\<lparr>buffer_state := Free\<rparr>) s)"
    using True s by (intro queue_inv_release) (auto dest: valid_slot_nat)
  then show ?thesis
    using s True
    by (simp add: ReleaseBuffer_def Let_def queue_inv_Signal queue_inv_notify split: option.splits)
next
  case False
  have "queue_inv A (update_slot (nat slot) (\<lambda>b. b\<lparr>needs_cleanup_on_release := False\<rparr>) s)"
    if "valid_slot slot"
    using that s by (intro queue_inv_keep) (auto dest: valid_slot_nat)
  then show ?thesis using s False by (auto simp: ReleaseBuffer_def Let_def)
qed

lemma Consumer_Connect_inv: "queue_inv A s \<Longrightarrow> queue_inv A (snd (Consumer_Connect l c s))"
  by (auto simp: Consumer_Connect_def queue_inv_def)

lemma Consumer_Disconnect_inv:
  assumes s: "queue_inv A s"
  shows "queue_inv A (snd (Consumer_Disconnect s))"
proof -
  have "queue_inv A (s\<lparr>is_abandoned := True, consumer_listener := None\<rparr>)"
    using s by (simp add: queue_inv_def owned_ok_def)
  from queue_inv_clear [OF this] s show ?thesis
    by (simp add: Consumer_Disconnect_def queue_inv_Signal)
qed

section \<open>Producer operations\<close>

lemma RequestBuffer_inv:
  assumes s: "queue_inv A s"
  shows "queue_inv A (snd (RequestBuffer slot s))"
proof -
  have "queue_inv A (update_slot (nat slot) (\<lambda>b. b\<lparr>request_buffer_called := True\<rparr>) s)"
    if "valid_slot slot"
    using that s by (intro queue_inv_keep) (auto dest: valid_slot_nat)
  then show ?thesis using s by (auto simp: RequestBuffer_def)
qed

lemma queue_inv_override:
  "queue_inv A s \<Longrightarrow> 0 \<le> c \<Longrightarrow> c \<le> int NUM_BUFFER_SLOTS \<Longrightarrow>
   queue_inv A (s\<lparr>override_max_buffer_count := c\<rparr>)"
  by (simp add: queue_inv_def)

lemma min_counts [simp]:
  "GetMinUndequeuedBufferCountLocked async s = 0" "GetMinMaxBufferCountLocked async s = 0"
  by (simp_all add: GetMinUndequeuedBufferCountLocked_def GetMinMaxBufferCountLocked_def
      use_async_buffer_def)

lemma SetBufferCount_inv:
  assumes s: "queue_inv {} s"
  shows "queue_inv {} (snd (SetBufferCount c s))"
proof -
  have "queue_inv {} (if GetPreallocatedBufferCountLocked s \<le> 0 then FreeAllBuffersLocked s else s)"
    using s queue_inv_FreeAll [OF s] by simp
  then show ?thesis
    using s
    by (simp add: SetBufferCount_def Let_def queue_inv_Signal queue_inv_notify
        queue_inv_notify_released queue_inv_override)
qed

lemma DetachBuffer_inv:
  assumes s: "queue_inv {} s"
  shows "queue_inv {} (snd (DetachBuffer slot s))"
proof -
  have "queue_inv {} (FreeBufferLocked (nat slot) s)" if "valid_slot slot"
    unfolding FreeBufferLocked_def using s that
    by (intro queue_inv_release) (auto dest: valid_slot_nat)
  then show ?thesis using s by (auto simp: DetachBuffer_def queue_inv_Signal)
qed

lemma CancelBuffer_inv:
  assumes s: "queue_inv {} s"
  shows "queue_inv {} (CancelBuffer slot f s)"
proof (cases "valid_slot slot \<and> buffer_state (slots s ! nat slot) = Dequeued")
  case True
  then have "queue_inv {}
      (update_slot (nat slot) (\<lambda>b. b\<lparr>buffer_state := Free, frame_number := 0, fence := f\<rparr>) s)"
    using s by (intro queue_inv_release) (auto dest: valid_slot_nat)
  then show ?thesis using s by (simp add: CancelBuffer_def queue_inv_Signal queue_inv_notify)
qed (use s in \<open>auto simp: CancelBuffer_def\<close>)

lemma Producer_Connect_inv: "queue_inv A s \<Longrightarrow> queue_inv A (snd (Producer_Connect l api c s))"
  by (auto simp: Producer_Connect_def queue_inv_def)

lemma Producer_Disconnect_inv:
  assumes s: "queue_inv {} s"
  shows "queue_inv {} (snd (Producer_Disconnect api s))"
proof -
  have "queue_inv {} (FreeAllBuffersLocked (s\<lparr>queue := []\<rparr>)
      \<lparr>connected_producer_listener := None, connected_api := NoConnectedApi\<rparr>)"
    by (rule queue_inv_cong [OF queue_inv_clear [OF s]]) simp_all
  then show ?thesis
    using s by (simp add: Producer_Disconnect_def Let_def queue_inv_Signal queue_inv_notify
        queue_inv_notify_released)
qed

lemma queue_inv_fresh:
  assumes s: "queue_inv A s" and i: "i < NUM_BUFFER_SLOTS"
    and A: "A \<subseteq> {i}" and nq: "buffer_state b \<noteq> Queued"
    and st: "buffer_state b = Free \<or> buffer_state b = buffer_state (slots s ! i)"
    and g: "graphic_buffer b = Some gb" "gb_object gb = next_object s"
  shows "queue_inv {} (s\<lparr>slots := (slots s)[i := b], next_object := next_object s + 1\<rparr>)"
proof -
  have "coherent ((slots s)[i := b]) (queue s) (next_object s + 1)"
    using s i nq g by (intro coherent_fresh) (auto simp: queue_inv_def)
  moreover have "length (slots s) = NUM_BUFFER_SLOTS" using s by (rule queue_inv_length)
  ultimately show ?thesis
    using s i st g A
    by (auto simp: queue_inv_def one_acquired_def owned_ok_def nth_list_update)
qed

lemma preallocated_bounds:
  "length (slots s) = NUM_BUFFER_SLOTS \<Longrightarrow>
   0 \<le> GetPreallocatedBufferCountLocked s \<and> GetPreallocatedBufferCountLocked s \<le> int NUM_BUFFER_SLOTS"
  using length_filter_le [of is_preallocated "slots s"]
  by (simp add: GetPreallocatedBufferCountLocked_def)

lemma SetPreallocatedBuffer_inv:
  assumes s: "queue_inv {} s"
  shows "queue_inv {} (snd (SetPreallocatedBuffer slot buffer s))"
proof (cases "valid_slot slot")
  case True
  let ?i = "nat slot" and ?gb = "GraphicBuffer_of_nv (next_object s) buffer"
  let ?b = "BufferSlot_ctor\<lparr>fence := NoFence, graphic_buffer := Some ?gb, frame_number := 0\<rparr>"
  have i: "?i < NUM_BUFFER_SLOTS" and len: "length (slots s) = NUM_BUFFER_SLOTS"
    using True s by (auto dest: valid_slot_nat queue_inv_length)
  have obj: "gb_object ?gb = next_object s"
    by (simp add: GraphicBuffer_of_nv_def GetBuffer_def NvGraphicBuffer.extend_def
        GraphicBuffer.fields_def NvGraphicBuffer_ctor_def split: option.splits)
  have base: "queue_inv {} (s\<lparr>slots := (slots s)[?i := b], next_object := next_object s + 1\<rparr>)"
    if "graphic_buffer b = Some ?gb" "buffer_state b = Free" for b
    using that obj by (intro queue_inv_fresh [OF s i]) auto
  have "queue_inv {} t" if "slots t = (slots s)[?i := b]" "graphic_buffer b = Some ?gb"
      "buffer_state b = Free" "next_object t = next_object s + 1" "queue t = queue s"
      "is_abandoned t = is_abandoned s"
      "override_max_buffer_count t = override_max_buffer_count s
       \<or> override_max_buffer_count t = GetPreallocatedBufferCountLocked t"
      "default_max_buffer_count t = default_max_buffer_count s" "is_allocating t = is_allocating s"
    for b and t :: "'a core"
    using base [OF that(2,3)] that(1,4-9) s len preallocated_bounds [of t]
    by (auto simp: queue_inv_def)
  note inv = this
  show ?thesis
    using True len i
    by (cases buffer)
       (auto simp: SetPreallocatedBuffer_def make_GraphicBuffer_def Let_def SignalDequeueCondition_def
         notify_def BufferSlot_ctor_def GetPreallocatedBufferCountLocked_def intro!: inv)
qed (use s in \<open>simp add: SetPreallocatedBuffer_def\<close>)

section \<open>Finding a free slot\<close>

lemma GetMaxBufferCount_loop_bounds:
  "(\<forall>i \<in> set is. i < NUM_BUFFER_SLOTS) \<Longrightarrow> 0 \<le> m \<Longrightarrow> m \<le> int NUM_BUFFER_SLOTS \<Longrightarrow>
   0 \<le> GetMaxBufferCount_loop is ss m \<and> GetMaxBufferCount_loop is ss m \<le> int NUM_BUFFER_SLOTS"
  by (induction "is" ss m rule: GetMaxBufferCount_loop.induct) auto

lemma GetMaxBufferCount_bounds:
  assumes "queue_inv A s"
  shows "0 \<le> GetMaxBufferCountLocked async s" "GetMaxBufferCountLocked async s \<le> int NUM_BUFFER_SLOTS"
  using assms GetMaxBufferCount_loop_bounds [of "[2..<NUM_BUFFER_SLOTS]" 2 "slots s"]
  by (auto simp: GetMaxBufferCountLocked_def queue_inv_def NUM_BUFFER_SLOTS_def)

lemma FreeBeyond_inv:
  "queue_inv {} s \<Longrightarrow> \<forall>i \<in> set is. i < NUM_BUFFER_SLOTS \<Longrightarrow>
   queue_inv {} (snd (FreeBeyond_loop is flags s))"
proof (induction "is" flags s rule: FreeBeyond_loop.induct)
  case (2 i rest flags s)
  have "queue_inv {} (FreeBufferLocked i s)"
    unfolding FreeBufferLocked_def using 2 by (intro queue_inv_release) auto
  then show ?case using 2 by (simp add: Let_def)
qed simp

text \<open>The scan returns the oldest free slot, the first one among equals.\<close>

lemma FindFree_spec:
  assumes "FindFree_loop is ss found d a = (f, d', a')" "\<forall>i \<in> set is. i < NUM_BUFFER_SLOTS"
    "found = INVALID_BUFFER_SLOT \<or> valid_slot found \<and> buffer_state (ss ! nat found) = Free"
  shows "(f = INVALID_BUFFER_SLOT \<or> valid_slot f \<and> buffer_state (ss ! nat f) = Free)
    \<and> (found \<noteq> INVALID_BUFFER_SLOT \<longrightarrow>
         f \<noteq> INVALID_BUFFER_SLOT \<and> frame_number (ss ! nat f) \<le> frame_number (ss ! nat found))
    \<and> (\<forall>i \<in> set is. buffer_state (ss ! i) = Free \<longrightarrow>
         f \<noteq> INVALID_BUFFER_SLOT \<and> frame_number (ss ! nat f) \<le> frame_number (ss ! i))"
  using assms
proof (induction "is" ss found d a rule: FindFree_loop.induct)
  case (2 i rest ss found d a)
  show ?case
  proof (cases "buffer_state (ss ! i)")
    case Free
    have "INVALID_BUFFER_SLOT \<noteq> int i" "valid_slot (int i)"
      using "2.prems" by (auto simp: INVALID_BUFFER_SLOT_def valid_slot_def)
    then show ?thesis
      using "2.IH"(1) [OF Free] "2.prems" Free by (auto split: if_splits)
  qed (use "2.IH" "2.prems" in auto)
qed auto

lemma FindFree_range:
  "FindFree_loop is ss found d a = (f, d', a') \<Longrightarrow> f = found \<or> (\<exists>i \<in> set is. f = int i)"
  by (induction "is" ss found d a rule: FindFree_loop.induct)
     (auto split: BufferState.splits if_splits)

lemma FindFree_count:
  "FindFree_loop is ss found d a = (f, d', a') \<Longrightarrow>
   d' = d + int (length (filter (\<lambda>i. buffer_state (ss ! i) = Dequeued) is))
   \<and> a' = a + int (length (filter (\<lambda>i. buffer_state (ss ! i) = Acquired) is))"
proof (induction "is" ss found d a rule: FindFree_loop.induct)
  case (2 i rest ss found d a)
  then show ?case by (cases "buffer_state (ss ! i)") simp_all
qed simp

text \<open>What one turn of the waiting loop does, by its result.\<close>

lemma WaitForFreeSlot_turn_inv:
  assumes s: "queue_inv {} s"
  shows "queue_inv {} (snd (WaitForFreeSlot_turn async flags s))"
proof -
  have "queue_inv {} (snd (FreeBeyond_loop [nat (GetMaxBufferCountLocked async s)..<NUM_BUFFER_SLOTS] flags s))"
    using s by (intro FreeBeyond_inv) auto
  then show ?thesis using s by (simp add: WaitForFreeSlot_turn_def Let_def split_beta)
qed

lemma FreeBeyond_fields:
  "queue (snd (FreeBeyond_loop is flags s)) = queue s"
  "is_abandoned (snd (FreeBeyond_loop is flags s)) = is_abandoned s"
  "override_max_buffer_count (snd (FreeBeyond_loop is flags s)) = override_max_buffer_count s"
  "default_width (snd (FreeBeyond_loop is flags s)) = default_width s"
  "default_height (snd (FreeBeyond_loop is flags s)) = default_height s"
  by (induction "is" flags s rule: FreeBeyond_loop.induct)
     (simp_all add: Let_def FreeBufferLocked_def update_slot_def)

lemma FreeBeyond_state:
  "buffer_state (slots (snd (FreeBeyond_loop is flags s)) ! i) = buffer_state (slots s ! i)"
proof (induction "is" flags s rule: FreeBeyond_loop.induct)
  case (2 j rest flags s)
  show ?case
  proof (cases "graphic_buffer (slots s ! j) \<noteq> None \<and> buffer_state (slots s ! j) = Free
      \<and> \<not> is_preallocated (slots s ! j)")
    case True
    have "buffer_state (slots (FreeBufferLocked j s) ! i) = buffer_state (slots s ! i)"
      using True by (cases "j = i"; cases "j < length (slots s)")
        (auto simp: FreeBufferLocked_def list_update_beyond)
    then show ?thesis using 2 True by simp
  next
    case False
    then show ?thesis using "2.IH"(2) by (auto simp: Let_def)
  qed
qed simp

lemma FreeBeyond_inside:
  "i \<notin> set is \<Longrightarrow> slots (snd (FreeBeyond_loop is flags s)) ! i = slots s ! i"
  by (induction "is" flags s rule: FreeBeyond_loop.induct)
     (simp_all add: Let_def FreeBufferLocked_def)

definition oldest_free :: "nat \<Rightarrow> 'a core \<Rightarrow> int \<Rightarrow> bool" where
  "oldest_free m s found \<longleftrightarrow>
     valid_slot found \<and> nat found < m \<and> buffer_state (slots s ! nat found) = Free
     \<and> (\<forall>i < m. buffer_state (slots s ! i) = Free \<longrightarrow>
          frame_number (slots s ! nat found) \<le> frame_number (slots s ! i))"

lemma status_distinct [simp]:
  "Status_NoInit \<noteq> Status_NoError" "Status_BadValue \<noteq> Status_NoError"
  "Status_InvalidOperation \<noteq> Status_NoError" "Status_WouldBlock \<noteq> Status_NoError"
  "Status_Busy \<noteq> Status_NoError" "Status_NoMemory \<noteq> Status_NoError"
  "Status_StaleBufferSlot \<noteq> Status_NoError" "Status_NoBufferAvailable \<noteq> Status_NoError"
  "Status_PresentLater \<noteq> Status_NoError"
  by (simp_all add: status_defs)

lemma turn_found:
  assumes s: "queue_inv {} s"
    and t: "WaitForFreeSlot_turn async flags s = (Wait_return Status_NoError found fl, s')"
  shows "\<not> is_abandoned s' \<and> queue s' = queue s
    \<and> oldest_free (nat (GetMaxBufferCountLocked async s)) s' found"
proof -
  let ?m = "GetMaxBufferCountLocked async s"
  obtain fl1 s1 where fb: "FreeBeyond_loop [nat ?m..<NUM_BUFFER_SLOTS] flags s = (fl1, s1)"
    by fastforce
  obtain f d a where ff: "FindFree_loop [0..<nat ?m] (slots s1) INVALID_BUFFER_SLOT 0 0 = (f, d, a)"
    using prod_cases3 by blast
  have b: "\<forall>i \<in> set [0..<nat ?m]. i < NUM_BUFFER_SLOTS"
    using GetMaxBufferCount_bounds [OF s, of async] by auto
  have res: "s' = s1" "found = f" "f \<noteq> INVALID_BUFFER_SLOT" "\<not> is_abandoned s"
    using t fb ff by (auto simp: WaitForFreeSlot_turn_def Let_def split: if_splits)
  have "queue s1 = queue s" "is_abandoned s1 = is_abandoned s"
    using FreeBeyond_fields(1,2) [of "[nat ?m..<NUM_BUFFER_SLOTS]" flags s] fb by simp_all
  then show ?thesis
    using res FindFree_spec [OF ff b] FindFree_range [OF ff]
    by (auto simp: oldest_free_def)
qed

lemma Wait_inv:
  "queue_inv {} s \<Longrightarrow> queue_inv {} (snd (WaitForFreeSlotThenRelock async flags s))"
proof (induction async flags s rule: WaitForFreeSlotThenRelock.induct)
  case (1 async flags s)
  obtain r s1 where t: "WaitForFreeSlot_turn async flags s = (r, s1)" by fastforce
  have i: "queue_inv {} s1" using WaitForFreeSlot_turn_inv [OF 1(2)] t by (metis snd_conv)
  have "queue_inv {} (s1\<lparr>dequeue_possible := False\<rparr>)" by (rule queue_inv_cong [OF i]) simp_all
  then show ?case
    using 1(1) [OF t [symmetric]] i t
    by (subst WaitForFreeSlotThenRelock.simps) (auto split: wait_result.splits)
qed

lemma Wait_found:
  assumes "queue_inv {} s"
    "WaitForFreeSlotThenRelock async flags s = (Wait_return Status_NoError found fl, s')"
  shows "\<not> is_abandoned s' \<and> queue s' = queue s
    \<and> (\<exists>m. oldest_free (nat m) s' found \<and> m \<le> int NUM_BUFFER_SLOTS)"
  using assms
proof (induction async flags s rule: WaitForFreeSlotThenRelock.induct)
  case (1 async flags s)
  obtain r s1 where t: "WaitForFreeSlot_turn async flags s = (r, s1)" by fastforce
  have i: "queue_inv {} s1" using WaitForFreeSlot_turn_inv [OF 1(2)] t by (metis snd_conv)
  have i': "queue_inv {} (s1\<lparr>dequeue_possible := False\<rparr>)" by (rule queue_inv_cong [OF i]) simp_all
  have q: "queue s1 = queue s"
    using t FreeBeyond_fields(1) [of _ flags s]
    by (auto simp: WaitForFreeSlot_turn_def Let_def split_beta split: if_splits)
  show ?case
  proof (cases r)
    case (Wait_return st f fl')
    then have "WaitForFreeSlot_turn async flags s = (Wait_return Status_NoError found fl, s')"
      using "1.prems"(2) t by (simp add: WaitForFreeSlotThenRelock.simps)
    then show ?thesis using turn_found [OF "1.prems"(1)] GetMaxBufferCount_bounds [OF "1.prems"(1)] by blast
  next
    case (Wait_again fl')
    then show ?thesis
      using "1.prems"(2) t q 1(1) [OF t [symmetric] Wait_again _ i']
      by (subst (asm) WaitForFreeSlotThenRelock.simps) (auto split: if_splits)
  qed
qed

section \<open>Dequeueing\<close>

lemma update_slot_twice:
  "i < length (slots s) \<Longrightarrow> update_slot i g (update_slot i f s) = update_slot i (\<lambda>b. g (f b)) s"
  by (simp add: update_slot_def)

text \<open>A free slot goes to the producer, with its buffer or with none.\<close>

lemma queue_inv_take:
  assumes s: "queue_inv {} s" and i: "i < NUM_BUFFER_SLOTS" and fr: "buffer_state (slots s ! i) = Free"
    and f: "buffer_state (f (slots s ! i)) = Dequeued"
    and g: "graphic_buffer (f (slots s ! i)) = graphic_buffer (slots s ! i)
            \<or> graphic_buffer (f (slots s ! i)) = None"
    and A: "A = {i} \<or> A = {} \<and> graphic_buffer (f (slots s ! i)) \<noteq> None"
  shows "queue_inv A (update_slot i f s)"
proof -
  have "coherent ((slots s)[i := f (slots s ! i)]) (queue s) (next_object s)"
    using s i f g fr by (intro coherent_release) (auto simp: queue_inv_def)
  moreover have "length (slots s) = NUM_BUFFER_SLOTS" using s by (rule queue_inv_length)
  ultimately show ?thesis
    using s i f A by (auto simp: queue_inv_def one_acquired_def owned_ok_def nth_list_update)
qed

fun result_slots :: "dequeue_result \<Rightarrow> nat set" where
  "result_slots (Dequeue_allocating l slot f attached) = {nat slot}"
| "result_slots _ = {}"

lemma realloc_flag_set:
  "(flags OR Status_BufferNeedsReallocation) AND Status_BufferNeedsReallocation \<noteq> Status_NoError"
proof -
  have "bit ((flags OR Status_BufferNeedsReallocation) AND Status_BufferNeedsReallocation) 0"
    by (simp add: status_defs bit_simps)
  then show ?thesis by (auto simp: Status_NoError_def)
qed

lemma DequeueBuffer_locked_inv:
  assumes s: "queue_inv {} s" and r: "DequeueBuffer_locked l s = (r, s')"
  shows "queue_inv (result_slots r) s'"
proof -
  obtain w s1 where w: "WaitForFreeSlotThenRelock (dq_async l) (dq_flags l) s = (w, s1)" by fastforce
  have i1: "queue_inv {} s1" using Wait_inv [OF s, of "dq_async l" "dq_flags l"] w by simp
  show ?thesis
  proof (cases "\<exists>found fl. w = Wait_return Status_NoError found fl \<and> found \<noteq> INVALID_BUFFER_SLOT")
    case False
    then show ?thesis
      using r w i1 by (auto simp: DequeueBuffer_locked_def split: wait_result.splits if_splits)
  next
    case True
    then obtain found fl where found: "w = Wait_return Status_NoError found fl"
      "found \<noteq> INVALID_BUFFER_SLOT" by blast
    have v: "valid_slot found" "buffer_state (slots s1 ! nat found) = Free"
      using Wait_found [OF s w [unfolded found]] by (auto simp: oldest_free_def)
    have i: "nat found < NUM_BUFFER_SLOTS" and len: "nat found < length (slots s1)"
      using v valid_slot_nat queue_inv_length [OF i1] by auto
    define taken where "taken = (\<lambda>b :: BufferSlot. b\<lparr>buffer_state := Dequeued\<rparr>)"
    define unfence where "unfence = (\<lambda>b :: BufferSlot. b\<lparr>fence := NoFence\<rparr>)"
    note upd = update_slot_twice [OF len]
    have keep: "queue_inv {} (update_slot (nat found) (\<lambda>b. unfence (taken b)) s1)"
      if "graphic_buffer (taken (slots s1 ! nat found)) \<noteq> None"
      using that i1 i v by (intro queue_inv_take) (auto simp: taken_def unfence_def)
    have one: "queue_inv {nat found} (update_slot (nat found) (\<lambda>b. unfence (taken b)) s1)"
      using i1 i v by (intro queue_inv_take) (auto simp: taken_def unfence_def)
    have two: "queue_inv {nat found}
        (update_slot (nat found) (\<lambda>b. unfence (clear_for_reallocation (taken b))) s1)"
      using i1 i v
      by (intro queue_inv_take) (auto simp: taken_def unfence_def clear_for_reallocation_def)
    show ?thesis
      using r w found keep one two len realloc_flag_set
      by (auto simp: DequeueBuffer_locked_def Let_def needs_reallocation_def upd
          taken_def [symmetric] unfence_def [symmetric] split: if_splits option.splits)
  qed
qed

lemma GraphicBuffer_of_size_object [simp]: "gb_object (GraphicBuffer_of_size n w h f u) = n"
  by (simp add: GraphicBuffer_of_size_def NvGraphicBuffer.extend_def GraphicBuffer.fields_def
      NvGraphicBuffer_ctor_def)

lemma DequeueBuffer_allocate_inv:
  assumes s: "queue_inv {nat slot} s" and r: "DequeueBuffer_allocate l slot f attached s = (r, s')"
  shows "queue_inv {} s'"
proof (cases "is_abandoned s")
  case True
  then have "s' = s\<lparr>next_object := next_object s + 1\<rparr>" using r by (simp add: DequeueBuffer_allocate_def Let_def)
  then show ?thesis
    using s True
    by (auto simp: queue_inv_def owned_ok_def coherent_def item_ok_def slot_ok_def intro: less_SucI)
next
  case False
  let ?b = "(slots s ! nat slot)\<lparr>frame_number := 0xFFFFFFFF,
    graphic_buffer := Some (GraphicBuffer_of_size (next_object s) (dq_width l) (dq_height l)
      (dq_format l) (dq_usage l))\<rparr>"
  have "nat slot < NUM_BUFFER_SLOTS" "buffer_state (slots s ! nat slot) = Dequeued"
    using s False by (auto simp: queue_inv_def owned_ok_def)
  then have "queue_inv {} (s\<lparr>slots := (slots s)[nat slot := ?b], next_object := next_object s + 1\<rparr>)"
    by (intro queue_inv_fresh [OF s]) auto
  then show ?thesis
    by (rule queue_inv_cong)
       (use r False in \<open>auto simp: DequeueBuffer_allocate_def Let_def update_slot_def\<close>)
qed

end
