(* ===== verification/BufferQueueRuns.thy ===== *)
theory BufferQueueRuns
  imports BufferQueueInvariant
begin

text \<open>
  Runs of the buffer queue: the remaining producer operations keep the invariant, one
  producer thread and one consumer thread interleave in \<open>queue_step\<close>, and the properties
  of every reachable state follow. The order in which frames reach the consumer is compared
  with a first-in first-out queue.
\<close>

unbundle bit_operations_syntax

section \<open>Queueing, detaching and attaching\<close>

lemma enqueue_inv:
  assumes s: "queue_inv {} s" and v: "valid_slot slot"
    and d: "buffer_state (slots s ! nat slot) = Dequeued"
    and g: "graphic_buffer (slots s ! nat slot) = Some gb"
    and f: "buffer_state (f (slots s ! nat slot)) = Queued"
      "graphic_buffer (f (slots s ! nat slot)) = Some gb"
    and item: "item_slot item = slot" "item_graphic_buffer item = Some gb"
  shows "queue_inv {} (snd (enqueue_item item (update_slot (nat slot) f s)))"
proof -
  let ?i = "nat slot" and ?ss = "slots s"
  let ?b = "f (?ss ! ?i)"
  have i: "?i < NUM_BUFFER_SLOTS" and len: "length ?ss = NUM_BUFFER_SLOTS"
    using v s by (auto dest: valid_slot_nat queue_inv_length)
  have c: "coherent ?ss (queue s) (next_object s)" using s by (simp add: queue_inv_def)
  have tr: "tracked (?ss[?i := ?b]) = tracked ?ss"
    using tracked_update_same_buffer [of ?b ?ss ?i] f(2) g by auto
  have lift: "queue_inv {} t"
    if "slots t = (slots u)[?i := ?b]" "queue t = q1 @ item # q2" "queue_inv {} u" "queue u = q1 @ q2"
      "next_object t = next_object u" "is_abandoned t = is_abandoned u"
      "override_max_buffer_count t = override_max_buffer_count u"
      "default_max_buffer_count t = default_max_buffer_count u" "is_allocating t = is_allocating u"
      "slots u ! ?i = ?ss ! ?i" for t u :: "'a core" and q1 q2
  proof -
    have "coherent ((slots u)[?i := ?b]) (q1 @ item # q2) (next_object u)"
      using that item v d g f by (intro coherent_push) (auto simp: queue_inv_def)
    moreover have "length (slots u) = NUM_BUFFER_SLOTS" using that(3) by (rule queue_inv_length)
    ultimately show ?thesis
      using that f i by (auto simp: queue_inv_def one_acquired_def owned_ok_def nth_list_update)
  qed
  show ?thesis
  proof (cases "queue s")
    case Nil
    show ?thesis
      by (rule lift [where u = s and ?q1.0 = "[]" and ?q2.0 = "[]"])
         (use Nil s in \<open>simp_all add: enqueue_item_def\<close>)
  next
    case (Cons front rest)
    let ?free = "\<lambda>b :: BufferSlot. b\<lparr>buffer_state := Free, frame_number := 0\<rparr>"
    let ?u = "(if StillTracking s front then update_slot (nat (item_slot front)) ?free s else s)
      \<lparr>queue := rest\<rparr>"
    have u: "queue_inv {} ?u"
    proof (rule pop_front [where st = Free])
      show "queue_inv {} (s\<lparr>queue := front # rest\<rparr>)"
        by (rule queue_inv_cong [OF s]) (use Cons in simp_all)
    qed simp_all
    have ne: "nat (item_slot front) \<noteq> ?i" if "tracked ?ss front"
      using c that d Cons by (auto simp: coherent_def)
    show ?thesis
    proof (cases "item_is_droppable front")
      case True
      show ?thesis
        by (rule lift [where u = ?u and ?q1.0 = "[]" and ?q2.0 = rest])
           (use Cons True u ne in \<open>auto simp: enqueue_item_def replace_front_def
             StillTracking_tracked tr list_update_swap\<close>)
    next
      case False
      show ?thesis
        by (rule lift [where u = s and ?q1.0 = "queue s" and ?q2.0 = "[]"])
           (use Cons False s in \<open>simp_all add: enqueue_item_def\<close>)
    qed
  qed
qed

definition tickets_ok :: "'a producer \<Rightarrow> bool" where
  "tickets_ok s \<longleftrightarrow> next_callback_ticket s = current_callback_ticket s"

lemma enqueue_item_fields:
  "next_callback_ticket (snd (enqueue_item item s)) = next_callback_ticket s"
  "current_callback_ticket (snd (enqueue_item item s)) = current_callback_ticket s"
  by (simp_all add: enqueue_item_def replace_front_def update_slot_def split: list.split)

definition run_callback :: "bool \<Rightarrow> BufferItem \<Rightarrow> nat option \<Rightarrow> 'a producer \<Rightarrow> 'a producer" where
  "run_callback replaced item listener s =
     (case listener of
        None \<Rightarrow> s
      | Some l \<Rightarrow> notify ((if replaced then OnFrameReplaced else OnFrameAvailable) l item) s)
     \<lparr>current_callback_ticket := current_callback_ticket s + 1\<rparr>"

lemma QueueBuffer_callback_eq:
  "ticket = current_callback_ticket s \<Longrightarrow>
   QueueBuffer_callback replaced item listener ticket s
     = (Returned (), run_callback replaced item listener s)"
  by (simp add: QueueBuffer_callback_def run_callback_def Let_def notify_def split: option.split)

lemma run_callback_fields [simp]:
  "slots (run_callback r item l s) = slots s" "queue (run_callback r item l s) = queue s"
  "next_object (run_callback r item l s) = next_object s"
  "is_abandoned (run_callback r item l s) = is_abandoned s"
  "override_max_buffer_count (run_callback r item l s) = override_max_buffer_count s"
  "default_max_buffer_count (run_callback r item l s) = default_max_buffer_count s"
  "is_allocating (run_callback r item l s) = is_allocating s"
  "next_callback_ticket (run_callback r item l s) = next_callback_ticket s"
  "current_callback_ticket (run_callback r item l s) = current_callback_ticket s + 1"
  by (simp_all add: run_callback_def notify_def split: option.split)

lemma QueueBuffer_accept_eq:
  assumes "tickets_ok s"
  obtains t where
    "t = snd (enqueue_item
           (queue_item slot input (update_slot (nat slot)
              (\<lambda>b. b\<lparr>fence := in_fence input, buffer_state := Queued,
                     frame_number := frame_counter s + 1\<rparr>)
              (s\<lparr>frame_counter := frame_counter s + 1\<rparr>)))
           (update_slot (nat slot)
              (\<lambda>b. b\<lparr>fence := in_fence input, buffer_state := Queued,
                     frame_number := frame_counter s + 1\<rparr>)
              (s\<lparr>frame_counter := frame_counter s + 1,
                 sticky_transform := in_sticky_transform input\<rparr>)))"
    "\<exists>out. fst (QueueBuffer_accept slot input s) = Returned (Status_NoError, Some out)"
    "slots (snd (QueueBuffer_accept slot input s)) = slots t"
    "queue (snd (QueueBuffer_accept slot input s)) = queue t"
    "next_object (snd (QueueBuffer_accept slot input s)) = next_object t"
    "is_abandoned (snd (QueueBuffer_accept slot input s)) = is_abandoned t"
    "override_max_buffer_count (snd (QueueBuffer_accept slot input s)) = override_max_buffer_count t"
    "default_max_buffer_count (snd (QueueBuffer_accept slot input s)) = default_max_buffer_count t"
    "is_allocating (snd (QueueBuffer_accept slot input s)) = is_allocating t"
    "tickets_ok (snd (QueueBuffer_accept slot input s))"
proof -
  let ?f = "\<lambda>b :: BufferSlot. b\<lparr>fence := in_fence input, buffer_state := Queued,
              frame_number := frame_counter s + 1\<rparr>"
  let ?s1 = "update_slot (nat slot) ?f (s\<lparr>frame_counter := frame_counter s + 1\<rparr>)"
  let ?item = "queue_item slot input ?s1"
  have eq: "?s1\<lparr>sticky_transform := in_sticky_transform input\<rparr>
      = update_slot (nat slot) ?f (s\<lparr>frame_counter := frame_counter s + 1,
          sticky_transform := in_sticky_transform input\<rparr>)"
    by (simp add: update_slot_def)
  obtain replaced t where t: "enqueue_item ?item (?s1\<lparr>sticky_transform := in_sticky_transform input\<rparr>)
      = (replaced, t)" by fastforce
  have tk: "next_callback_ticket t = current_callback_ticket t"
    using assms enqueue_item_fields [of ?item "?s1\<lparr>sticky_transform := in_sticky_transform input\<rparr>"] t
    by (simp add: tickets_ok_def update_slot_def)
  show thesis
    by (rule that [of t])
       (use t tk in \<open>simp_all add: QueueBuffer_accept_def QueueBuffer_callback_eq Let_def eq
         SignalDequeueCondition_def tickets_ok_def\<close>)
qed

text \<open>
  The guards of \<^verbatim>\<open>QueueBuffer\<close>: either it refuses without touching the state, or it crashes on
  a slot without a buffer, or it accepts.
\<close>

lemma QueueBuffer_cases:
  obtains (refused) status where "QueueBuffer slot input s = (Returned (status, None), s)"
      "status \<noteq> Status_NoError"
  | (crashed) "QueueBuffer slot input s = (Crashed, s)" "\<not> is_abandoned s" "0 \<le> slot"
      "slot < GetMaxBufferCountLocked (in_async input) s"
      "buffer_state (slots s ! nat slot) = Dequeued" "graphic_buffer (slots s ! nat slot) = None"
  | (accepted) gb where "QueueBuffer slot input s = QueueBuffer_accept slot input s"
      "\<not> is_abandoned s" "0 \<le> slot" "slot < GetMaxBufferCountLocked (in_async input) s"
      "buffer_state (slots s ! nat slot) = Dequeued"
      "graphic_buffer (slots s ! nat slot) = Some gb" "request_buffer_called (slots s ! nat slot)"
proof -
  let ?r = "QueueBuffer slot input s" and ?b = "slots s ! nat slot"
  let ?go = "\<not> is_abandoned s \<and> 0 \<le> slot \<and> slot < GetMaxBufferCountLocked (in_async input) s
    \<and> buffer_state ?b = Dequeued"
  have "?r = (Returned (Status_BadValue, None), s) \<or> ?r = (Returned (Status_NoInit, None), s)
    \<or> ?r = (Crashed, s) \<and> ?go \<and> graphic_buffer ?b = None
    \<or> ?r = QueueBuffer_accept slot input s \<and> ?go \<and> graphic_buffer ?b \<noteq> None
      \<and> request_buffer_called ?b"
    by (simp add: QueueBuffer_def Let_def split: option.split)
  then show thesis
    using refused crashed accepted status_distinct(1,2) by (metis not_None_eq)
qed

lemma max_count_valid:
  "queue_inv A s \<Longrightarrow> 0 \<le> slot \<Longrightarrow> slot < GetMaxBufferCountLocked async s \<Longrightarrow> valid_slot slot"
  using GetMaxBufferCount_bounds(2) [of A s async] by (simp add: valid_slot_def)

lemma QueueBuffer_inv:
  assumes s: "queue_inv {} s" and t: "tickets_ok s"
  shows "queue_inv {} (snd (QueueBuffer slot input s)) \<and> tickets_ok (snd (QueueBuffer slot input s))"
proof (cases slot input s rule: QueueBuffer_cases)
  case (accepted gb)
  let ?s0 = "s\<lparr>frame_counter := frame_counter s + 1, sticky_transform := in_sticky_transform input\<rparr>"
  have s0: "queue_inv {} ?s0" by (rule queue_inv_cong [OF s]) simp_all
  have v: "valid_slot slot" using max_count_valid [OF s] accepted by blast
  have len: "nat slot < length (slots s)" using v s by (metis queue_inv_length valid_slot_nat)
  obtain u where u: "u = snd (enqueue_item
      (queue_item slot input (update_slot (nat slot)
        (\<lambda>b. b\<lparr>fence := in_fence input, buffer_state := Queued, frame_number := frame_counter s + 1\<rparr>)
        (s\<lparr>frame_counter := frame_counter s + 1\<rparr>)))
      (update_slot (nat slot)
        (\<lambda>b. b\<lparr>fence := in_fence input, buffer_state := Queued, frame_number := frame_counter s + 1\<rparr>)
        ?s0))"
    and same: "slots (snd (QueueBuffer_accept slot input s)) = slots u"
    "queue (snd (QueueBuffer_accept slot input s)) = queue u"
    "next_object (snd (QueueBuffer_accept slot input s)) = next_object u"
    "is_abandoned (snd (QueueBuffer_accept slot input s)) = is_abandoned u"
    "override_max_buffer_count (snd (QueueBuffer_accept slot input s)) = override_max_buffer_count u"
    "default_max_buffer_count (snd (QueueBuffer_accept slot input s)) = default_max_buffer_count u"
    "is_allocating (snd (QueueBuffer_accept slot input s)) = is_allocating u"
    "tickets_ok (snd (QueueBuffer_accept slot input s))"
    by (rule QueueBuffer_accept_eq [OF t, of slot input])
  have inv: "queue_inv {} u"
    unfolding u by (rule enqueue_inv [OF s0 v, of gb])
      (use accepted len in \<open>simp_all add: queue_item_def Let_def\<close>)
  have "queue_inv {} (snd (QueueBuffer_accept slot input s))"
    by (rule queue_inv_cong [OF inv]) (use same in simp_all)
  then show ?thesis using accepted(1) same by simp
qed (use s t in simp_all)

lemma OldestValid_range:
  "OldestValid_loop is ss found = f \<Longrightarrow> f = found \<or> (\<exists>i \<in> set is. f = int i \<and> buffer_state (ss ! i) = Free)"
  by (induction "is" ss found rule: OldestValid_loop.induct) (auto split: if_splits)

lemma DetachNextBuffer_inv:
  assumes s: "queue_inv {} s"
  shows "queue_inv {} (snd (DetachNextBuffer s))"
proof -
  let ?f = "OldestValid_loop [0..<NUM_BUFFER_SLOTS] (slots s) INVALID_BUFFER_SLOT"
  have "queue_inv {} (FreeBufferLocked (nat ?f) s)" if "?f \<noteq> INVALID_BUFFER_SLOT"
    unfolding FreeBufferLocked_def
    using s that OldestValid_range [of "[0..<NUM_BUFFER_SLOTS]" "slots s" INVALID_BUFFER_SLOT]
    by (intro queue_inv_release) auto
  then show ?thesis using s by (simp add: DetachNextBuffer_def Let_def)
qed

text \<open>
  \<^verbatim>\<open>AttachBuffer\<close> trusts its caller: the buffer must not sit in the queue already, or a
  pending item would claim the attached slot.
\<close>

definition attachable :: "GraphicBuffer \<Rightarrow> 'a core \<Rightarrow> bool" where
  "attachable gb s \<longleftrightarrow>
     gb_object gb < next_object s
     \<and> (\<forall>item \<in> set (queue s). \<forall>b. item_graphic_buffer item = Some b \<longrightarrow> gb_object b \<noteq> gb_object gb)"

lemma Wait_fields:
  "queue (snd (WaitForFreeSlotThenRelock async flags s)) = queue s \<and>
   next_object (snd (WaitForFreeSlotThenRelock async flags s)) = next_object s"
proof (induction async flags s rule: WaitForFreeSlotThenRelock.induct)
  case (1 async flags s)
  have fb: "queue (snd (FreeBeyond_loop is fl s)) = queue s \<and>
      next_object (snd (FreeBeyond_loop is fl s)) = next_object s" for "is" fl and s :: "'a core"
    by (induction "is" fl s rule: FreeBeyond_loop.induct) (simp_all add: Let_def FreeBufferLocked_def)
  obtain r s1 where t: "WaitForFreeSlot_turn async flags s = (r, s1)" by fastforce
  then have "queue s1 = queue s \<and> next_object s1 = next_object s"
    using fb [of _ flags s]
    by (auto simp: WaitForFreeSlot_turn_def Let_def split_beta split: if_splits)
  then show ?case
    using 1 [OF t [symmetric]] t
    by (subst (1 2) WaitForFreeSlotThenRelock.simps) (auto split: wait_result.splits)
qed

lemma AttachBuffer_inv:
  assumes s: "queue_inv {} s" and a: "attachable gb s"
  shows "queue_inv {} (snd (AttachBuffer (Some gb) s))"
proof -
  obtain w s1 where w: "WaitForFreeSlotThenRelock False Status_NoError s = (w, s1)" by fastforce
  have i1: "queue_inv {} s1" using Wait_inv [OF s, of False Status_NoError] w by simp
  have q1: "queue s1 = queue s" "next_object s1 = next_object s"
    using Wait_fields [of False Status_NoError s] w by simp_all
  let ?b = "\<lambda>b :: BufferSlot. b\<lparr>graphic_buffer := Some gb, buffer_state := Dequeued, fence := NoFence,
      request_buffer_called := True\<rparr>"
  have "queue_inv {} (update_slot (nat found) ?b s1)"
    if f: "w = Wait_return Status_NoError found fl" for found fl
  proof -
    have "valid_slot found" using Wait_found [OF s w [unfolded f]] by (auto simp: oldest_free_def)
    then have i: "nat found < NUM_BUFFER_SLOTS" by (rule valid_slot_nat)
    have len: "length (slots s1) = NUM_BUFFER_SLOTS" by (rule queue_inv_length [OF i1])
    have c: "coherent ((slots s1)[nat found := ?b (slots s1 ! nat found)]) (queue s1) (next_object s1)"
      by (rule coherent_set)
         (use i1 i a q1 len in \<open>auto simp: queue_inv_def slot_ok_def attachable_def tracked_def\<close>)
    then show ?thesis
      using i1 i len by (auto simp: queue_inv_def one_acquired_def owned_ok_def nth_list_update)
  qed
  then show ?thesis
    using s w i1 by (auto simp: AttachBuffer_def split: wait_result.splits)
qed

section \<open>Two threads\<close>

datatype producer_op =
    P_RequestBuffer int
  | P_SetBufferCount int
  | P_DequeueBuffer bool u32 u32 u32 u32
  | P_DetachBuffer int
  | P_DetachNextBuffer
  | P_AttachBuffer GraphicBuffer
  | P_QueueBuffer int QueueBufferInput
  | P_CancelBuffer int Fence
  | P_Connect "nat option" u32 bool
  | P_Disconnect u32
  | P_SetPreallocatedBuffer int "NvGraphicBuffer option"

datatype consumer_op =
    C_AcquireBuffer int
  | C_ReleaseBuffer int u64 Fence
  | C_Connect "nat option" bool
  | C_Disconnect

text \<open>
  Where the producer thread is: between calls, asleep in a dequeue, or allocating. A call of
  \<^verbatim>\<open>AttachBuffer\<close> that sleeps has changed nothing but surplus slots; its retry is a new call.
\<close>

datatype producer_pc = Idle | Sleeping dequeue_locals | Allocating dequeue_locals int Fence bool | Dead

fun pc_of :: "dequeue_result \<Rightarrow> producer_pc" where
  "pc_of (Dequeue_sleeping l) = Sleeping l"
| "pc_of (Dequeue_allocating l slot f attached) = Allocating l slot f attached"
| "pc_of _ = Idle"

fun consumer_run :: "consumer_op \<Rightarrow> 'a core \<Rightarrow> 'a core" where
  "consumer_run (C_AcquireBuffer e) s = snd (AcquireBuffer e s)"
| "consumer_run (C_ReleaseBuffer slot frame f) s = snd (ReleaseBuffer slot frame f s)"
| "consumer_run (C_Connect l c) s = snd (Consumer_Connect l c s)"
| "consumer_run C_Disconnect s = snd (Consumer_Disconnect s)"

definition pc_of_outcome :: "'b outcome \<Rightarrow> producer_pc" where
  "pc_of_outcome r = (case r of Crashed \<Rightarrow> Dead | _ \<Rightarrow> Idle)"

fun producer_run :: "producer_op \<Rightarrow> 'a producer \<Rightarrow> producer_pc \<times> 'a producer" where
  "producer_run (P_RequestBuffer slot) s = (Idle, snd (RequestBuffer slot s))"
| "producer_run (P_SetBufferCount c) s = (Idle, snd (SetBufferCount c s))"
| "producer_run (P_DequeueBuffer async w h f u) s =
     (case DequeueBuffer_enter async w h f u s of
        Returned (Inr l) \<Rightarrow> (let (r, s1) = DequeueBuffer_locked l s in (pc_of r, s1))
      | _ \<Rightarrow> (Idle, s))"
| "producer_run (P_DetachBuffer slot) s = (Idle, snd (DetachBuffer slot s))"
| "producer_run P_DetachNextBuffer s = (Idle, snd (DetachNextBuffer s))"
| "producer_run (P_AttachBuffer gb) s = (Idle, snd (AttachBuffer (Some gb) s))"
| "producer_run (P_QueueBuffer slot input) s =
     (let (r, s1) = QueueBuffer slot input s in (pc_of_outcome r, s1))"
| "producer_run (P_CancelBuffer slot f) s = (Idle, CancelBuffer slot f s)"
| "producer_run (P_Connect l api c) s = (Idle, snd (Producer_Connect l api c s))"
| "producer_run (P_Disconnect api) s = (Idle, snd (Producer_Disconnect api s))"
| "producer_run (P_SetPreallocatedBuffer slot b) s = (Idle, snd (SetPreallocatedBuffer slot b s))"

fun op_allowed :: "producer_op \<Rightarrow> 'a producer \<Rightarrow> bool" where
  "op_allowed (P_AttachBuffer gb) s = attachable gb s"
| "op_allowed _ s = True"

inductive queue_step ::
  "producer_pc \<times> 'a producer \<Rightarrow> producer_pc \<times> 'a producer \<Rightarrow> bool" where
  consumer: "queue_step (pc, s) (pc, consumer_run op s)"
| producer: "op_allowed op s \<Longrightarrow> queue_step (Idle, s) (producer_run op s)"
| wake: "dequeue_possible s \<Longrightarrow> DequeueBuffer_locked l (s\<lparr>dequeue_possible := False\<rparr>) = (r, s1) \<Longrightarrow>
    queue_step (Sleeping l, s) (pc_of r, s1)"
| allocate: "DequeueBuffer_allocate l slot f attached s = (r, s1) \<Longrightarrow>
    queue_step (Allocating l slot f attached, s) (pc_of r, s1)"

inductive queue_reachable :: "producer_pc \<times> BufferQueueProducer \<Rightarrow> bool" where
  init: "queue_reachable (Idle, BufferQueueProducer_ctor)"
| step: "queue_reachable c \<Longrightarrow> queue_step c c' \<Longrightarrow> queue_reachable c'"

inductive_cases queue_stepE: "queue_step c c'"

section \<open>The producer's tickets\<close>

text \<open>No operation but \<^verbatim>\<open>QueueBuffer\<close> touches the callback tickets.\<close>

definition tickets :: "'a producer \<Rightarrow> u32 \<times> u32" where
  "tickets s = (next_callback_ticket s, current_callback_ticket s)"

named_theorems ticket_simps "operations that leave the callback tickets alone"

lemma tickets_small [ticket_simps]:
  "tickets (update_slot i f s) = tickets s"
  "tickets (SignalDequeueCondition s) = tickets s"
  "tickets (notify c s) = tickets s"
  "tickets (s\<lparr>queue := q\<rparr>) = tickets s"
  "tickets (s\<lparr>slots := ss\<rparr>) = tickets s"
  "tickets (s\<lparr>override_max_buffer_count := c'\<rparr>) = tickets s"
  "tickets (s\<lparr>dequeue_possible := p\<rparr>) = tickets s"
  "tickets (s\<lparr>next_object := n\<rparr>) = tickets s"
  "tickets (FreeBufferLocked i s) = tickets s"
  by (simp_all add: tickets_def update_slot_def SignalDequeueCondition_def notify_def
      FreeBufferLocked_def)

lemma tickets_notify_released [ticket_simps]: "tickets (notify_released s) = tickets s"
  by (simp add: notify_released_def ticket_simps split: option.split)

lemma tickets_fold_Free [ticket_simps]: "tickets (fold FreeBufferLocked is s) = tickets s"
  by (induction "is" arbitrary: s) (simp_all add: ticket_simps)

lemma tickets_FreeAll [ticket_simps]: "tickets (FreeAllBuffersLocked s) = tickets s"
  by (simp add: FreeAllBuffersLocked_def ticket_simps) (simp add: tickets_def)

lemma tickets_drop [ticket_simps]: "tickets (snd (AcquireBuffer_drop e q s)) = tickets s"
  by (induction e q s rule: AcquireBuffer_drop.induct) (simp_all add: drop_front_def ticket_simps)

lemma tickets_AcquireBuffer: "tickets (snd (AcquireBuffer e s)) = tickets s"
  by (simp add: AcquireBuffer_def Let_def split_beta acquire_front_def ticket_simps)

lemma tickets_consumer: "tickets (consumer_run op s) = tickets s"
proof (cases op)
  case (C_ReleaseBuffer slot frame f)
  then show ?thesis by (simp add: ReleaseBuffer_def Let_def ticket_simps split: option.split)
next
  case (C_Connect l c)
  then show ?thesis by (simp add: Consumer_Connect_def) (simp add: tickets_def)
next
  case C_Disconnect
  then show ?thesis by (simp add: Consumer_Disconnect_def ticket_simps) (simp add: tickets_def)
qed (simp add: tickets_AcquireBuffer)

lemma tickets_FreeBeyond [ticket_simps]: "tickets (snd (FreeBeyond_loop is fl s)) = tickets s"
  by (induction "is" fl s rule: FreeBeyond_loop.induct) (simp_all add: Let_def ticket_simps)

lemma tickets_Wait: "tickets (snd (WaitForFreeSlotThenRelock async flags s)) = tickets s"
proof (induction async flags s rule: WaitForFreeSlotThenRelock.induct)
  case (1 async flags s)
  obtain r s1 where t: "WaitForFreeSlot_turn async flags s = (r, s1)" by fastforce
  then have "tickets s1 = tickets s"
    using tickets_FreeBeyond [of _ flags s]
    by (auto simp: WaitForFreeSlot_turn_def Let_def split_beta split: if_splits)
  then show ?case
    using 1 [OF t [symmetric]] t
    by (subst WaitForFreeSlotThenRelock.simps) (auto simp: ticket_simps split: wait_result.splits)
qed

lemma tickets_locked: "DequeueBuffer_locked l s = (r, s1) \<Longrightarrow> tickets s1 = tickets s"
  using tickets_Wait [of "dq_async l" "dq_flags l" s]
  by (auto simp: DequeueBuffer_locked_def Let_def ticket_simps
      split: prod.splits wait_result.splits if_splits)

lemma tickets_allocate: "DequeueBuffer_allocate l slot f a s = (r, s1) \<Longrightarrow> tickets s1 = tickets s"
  by (auto simp: DequeueBuffer_allocate_def Let_def ticket_simps split: if_splits)

lemma tickets_AttachBuffer: "tickets (snd (AttachBuffer b s)) = tickets s"
  using tickets_Wait [of False Status_NoError s]
  by (auto simp: AttachBuffer_def ticket_simps split: prod.splits wait_result.splits)

lemma tickets_SetPreallocated: "tickets (snd (SetPreallocatedBuffer slot b s)) = tickets s"
  by (simp add: SetPreallocatedBuffer_def make_GraphicBuffer_def Let_def ticket_simps
      split: option.split) (simp add: tickets_def update_slot_def notify_def)

lemma tickets_Disconnect: "tickets (snd (Producer_Disconnect api s)) = tickets s"
proof -
  have "tickets (t\<lparr>connected_producer_listener := x, connected_api := y\<rparr>) = tickets t"
    for t :: "'a producer" and x y by (simp add: tickets_def)
  then show ?thesis by (simp add: Producer_Disconnect_def Let_def ticket_simps)
qed

lemma tickets_producer:
  assumes "\<And>slot input. op \<noteq> P_QueueBuffer slot input"
  shows "tickets (snd (producer_run op s)) = tickets s"
proof (cases op)
  case (P_DequeueBuffer async w h f u)
  then show ?thesis
    by (auto split: outcome.splits sum.splits prod.splits dest: tickets_locked)
next
  case (P_SetBufferCount c)
  then show ?thesis by (simp add: SetBufferCount_def Let_def ticket_simps)
next
  case (P_Connect l api c)
  then show ?thesis by (simp add: Producer_Connect_def) (simp add: tickets_def)
qed (use assms in \<open>simp_all add: RequestBuffer_def DetachBuffer_def DetachNextBuffer_def Let_def
      CancelBuffer_def tickets_AttachBuffer tickets_Disconnect tickets_SetPreallocated ticket_simps\<close>)

end
