(* ===== verification/BufferQueueSafety.thy ===== *)
theory BufferQueueSafety
  imports BufferQueueRuns
begin

text \<open>
  The properties of the buffer queue: the invariant of every reachable state, the absence of
  crashes and of lost wake-ups, the choice of the oldest free slot, and the order of frames.
\<close>

unbundle bit_operations_syntax

section \<open>Reachable states\<close>

fun pc_slots :: "producer_pc \<Rightarrow> nat set" where
  "pc_slots (Allocating l slot f attached) = {nat slot}"
| "pc_slots _ = {}"

definition run_inv :: "producer_pc \<times> 'a producer \<Rightarrow> bool" where
  "run_inv c \<longleftrightarrow> fst c \<noteq> Dead \<and> queue_inv (pc_slots (fst c)) (snd c) \<and> tickets_ok (snd c)"

lemma tickets_ok_cong: "tickets t = tickets s \<Longrightarrow> tickets_ok t = tickets_ok s"
  by (simp add: tickets_def tickets_ok_def)

lemma pc_slots_pc_of: "pc_slots (pc_of r) = result_slots r"
  by (cases r) auto

lemma pc_of_not_Dead: "pc_of r \<noteq> Dead"
  by (cases r) auto

lemma consumer_run_inv: "queue_inv A s \<Longrightarrow> queue_inv A (consumer_run op s)"
  by (cases op)
     (simp_all add: AcquireBuffer_inv ReleaseBuffer_inv Consumer_Connect_inv Consumer_Disconnect_inv)

text \<open>A slot the producer owns holds a buffer, so queueing it never dereferences null.\<close>

lemma QueueBuffer_not_Crashed:
  assumes s: "queue_inv {} s" and t: "tickets_ok s"
  shows "\<exists>r. fst (QueueBuffer slot input s) = Returned r"
proof (cases slot input s rule: QueueBuffer_cases)
  case crashed
  have "valid_slot slot" using max_count_valid [OF s] crashed by blast
  then show ?thesis
    using s crashed by (auto simp: queue_inv_def owned_ok_def dest: valid_slot_nat)
next
  case (accepted gb)
  then show ?thesis using QueueBuffer_accept_eq [OF t] by metis
qed auto

lemma producer_run_inv:
  assumes s: "queue_inv {} s" and t: "tickets_ok s" and a: "op_allowed op s"
  shows "run_inv (producer_run op s)"
proof -
  have tk: "tickets_ok (snd (producer_run op s))" if "\<And>slot input. op \<noteq> P_QueueBuffer slot input"
    using tickets_ok_cong [OF tickets_producer [OF that, of s]] t by blast
  show ?thesis
  proof (cases op)
    case (P_QueueBuffer slot input)
    then show ?thesis
      using QueueBuffer_inv [OF s t, of slot input] QueueBuffer_not_Crashed [OF s t, of slot input]
      by (auto simp: run_inv_def pc_of_outcome_def split: prod.split)
  next
    case (P_DequeueBuffer async w h f u)
    have "run_inv (pc_of r, s1)" if "DequeueBuffer_locked l s = (r, s1)" for l r s1
      using DequeueBuffer_locked_inv [OF s that] tickets_ok_cong [OF tickets_locked [OF that]] t
      by (simp add: run_inv_def pc_slots_pc_of pc_of_not_Dead)
    moreover have "run_inv (Idle, s)" using s t by (simp add: run_inv_def)
    ultimately show ?thesis
      using P_DequeueBuffer by (auto split: outcome.split sum.split prod.split)
  qed (use s a tk in \<open>simp_all add: run_inv_def RequestBuffer_inv SetBufferCount_inv DetachBuffer_inv
        DetachNextBuffer_inv AttachBuffer_inv CancelBuffer_inv Producer_Connect_inv
        Producer_Disconnect_inv SetPreallocatedBuffer_inv\<close>)
qed

lemma queue_step_inv: "queue_step c c' \<Longrightarrow> run_inv c \<Longrightarrow> run_inv c'"
proof (induction rule: queue_step.induct)
  case (consumer pc s op)
  then show ?case
    using consumer_run_inv [of "pc_slots pc" s op] tickets_ok_cong [OF tickets_consumer [of op s]]
    by (simp add: run_inv_def)
next
  case (producer op s)
  then show ?case using producer_run_inv [of s op] by (simp add: run_inv_def)
next
  case (wake s l r s1)
  have "queue_inv {} (s\<lparr>dequeue_possible := False\<rparr>)"
    by (rule queue_inv_cong [where s = s]) (use wake in \<open>simp_all add: run_inv_def\<close>)
  moreover have "tickets_ok (s\<lparr>dequeue_possible := False\<rparr>)"
    using wake(3) by (simp add: run_inv_def tickets_ok_def)
  ultimately show ?case
    using DequeueBuffer_locked_inv [OF _ wake(2)] tickets_ok_cong [OF tickets_locked [OF wake(2)]]
    by (simp add: run_inv_def pc_slots_pc_of pc_of_not_Dead)
next
  case (allocate l slot f attached s r s1)
  have "result_slots r = {}"
    using allocate(1) by (auto simp: DequeueBuffer_allocate_def Let_def split: if_splits)
  then show ?case
    using allocate DequeueBuffer_allocate_inv [OF _ allocate(1)]
      tickets_ok_cong [OF tickets_allocate [OF allocate(1)]]
    by (simp add: run_inv_def pc_slots_pc_of pc_of_not_Dead)
qed

lemma run_inv_init: "run_inv (Idle, BufferQueueProducer_ctor)"
  by (simp add: run_inv_def queue_inv_def coherent_def one_acquired_def owned_ok_def tickets_ok_def
      BufferQueueProducer_ctor_def BufferSlot_ctor_def slot_ok_def)

lemma reachable_inv: "queue_reachable c \<Longrightarrow> run_inv c"
  by (induction rule: queue_reachable.induct) (simp_all add: run_inv_init queue_step_inv)

section \<open>When the producer sleeps\<close>

definition states :: "'a core \<Rightarrow> BufferState list" where
  "states s = map buffer_state (slots s)"

text \<open>The reasons for which a dequeue sleeps, read off the state.\<close>

definition must_wait :: "bool \<Rightarrow> 'a core \<Rightarrow> bool" where
  "must_wait async s \<longleftrightarrow>
     \<not> is_abandoned s
     \<and> (let m = GetMaxBufferCountLocked async s;
            taken = filter (\<lambda>i. buffer_state (slots s ! i) = Dequeued) [0..<nat m];
            acquired = filter (\<lambda>i. buffer_state (slots s ! i) = Acquired) [0..<nat m]
        in \<not> (override_max_buffer_count s = 0 \<and> taken \<noteq> [])
           \<and> \<not> (buffer_has_been_queued s \<and> m < int (length taken) + 1)
           \<and> ((\<forall>i < nat m. buffer_state (slots s ! i) \<noteq> Free) \<or> int (length (queue s)) > m)
           \<and> \<not> (dequeue_buffer_cannot_block s \<and> acquired = []))"

lemma GetMax_override:
  "override_max_buffer_count s \<noteq> 0 \<Longrightarrow> GetMaxBufferCountLocked async s = override_max_buffer_count s"
  by (simp add: GetMaxBufferCountLocked_def Let_def)

lemma FreeBeyond_more_fields:
  "buffer_has_been_queued (snd (FreeBeyond_loop is flags s)) = buffer_has_been_queued s"
  "dequeue_buffer_cannot_block (snd (FreeBeyond_loop is flags s)) = dequeue_buffer_cannot_block s"
  by (induction "is" flags s rule: FreeBeyond_loop.induct)
     (simp_all add: Let_def FreeBufferLocked_def)

lemma turn_waits_iff:
  assumes s: "queue_inv {} s"
  shows "(\<exists>fl t. WaitForFreeSlot_turn async flags s = (Wait_again fl, t)) \<longleftrightarrow> must_wait async s"
proof -
  obtain m where m: "GetMaxBufferCountLocked async s = m" by blast
  obtain fl1 s1 where fb: "FreeBeyond_loop [nat m..<NUM_BUFFER_SLOTS] flags s = (fl1, s1)"
    by fastforce
  note loop = FreeBeyond_fields [of "[nat m..<NUM_BUFFER_SLOTS]" flags s]
    FreeBeyond_more_fields [of "[nat m..<NUM_BUFFER_SLOTS]" flags s]
    FreeBeyond_state [of "[nat m..<NUM_BUFFER_SLOTS]" flags s]
  have st: "buffer_state (slots s1 ! i) = buffer_state (slots s ! i)" for i
    using loop(8) [of i] fb by simp
  have same: "queue s1 = queue s" "override_max_buffer_count s1 = override_max_buffer_count s"
    "buffer_has_been_queued s1 = buffer_has_been_queued s"
    "dequeue_buffer_cannot_block s1 = dequeue_buffer_cannot_block s"
    using loop(1,3,6,7) fb by simp_all
  obtain f d a where ff: "FindFree_loop [0..<nat m] (slots s1) INVALID_BUFFER_SLOT 0 0 = (f, d, a)"
    using prod_cases3 by blast
  have b: "\<forall>i \<in> set [0..<nat m]. i < NUM_BUFFER_SLOTS"
    using GetMaxBufferCount_bounds [OF s, of async] m by auto
  have none: "f = INVALID_BUFFER_SLOT \<longleftrightarrow> (\<forall>i < nat m. buffer_state (slots s ! i) \<noteq> Free)"
    using FindFree_spec [OF ff b] FindFree_range [OF ff]
    by (auto simp: st INVALID_BUFFER_SLOT_def)
  have cnt: "d = int (length (filter (\<lambda>i. buffer_state (slots s ! i) = Dequeued) [0..<nat m]))"
    "a = int (length (filter (\<lambda>i. buffer_state (slots s ! i) = Acquired) [0..<nat m]))"
    using FindFree_count [OF ff] by (simp_all add: st)
  have ov: "\<not> (async \<and> override_max_buffer_count s \<noteq> 0 \<and> override_max_buffer_count s < m)"
    using GetMax_override [of s async] m by auto
  have turn: "(\<exists>fl t. WaitForFreeSlot_turn async flags s = (Wait_again fl, t)) \<longleftrightarrow>
      \<not> is_abandoned s \<and> \<not> (override_max_buffer_count s = 0 \<and> d \<noteq> 0)
      \<and> \<not> (buffer_has_been_queued s \<and> m - (d + 1) < 0)
      \<and> (f = INVALID_BUFFER_SLOT \<or> int (length (queue s)) > m)
      \<and> \<not> (dequeue_buffer_cannot_block s \<and> a \<le> 0)"
    using ov
    by (simp add: WaitForFreeSlot_turn_def Let_def m fb ff same max_acquired_buffer_count_def) blast
  have empty: "d \<noteq> 0 \<longleftrightarrow> filter (\<lambda>i. buffer_state (slots s ! i) = Dequeued) [0..<nat m] \<noteq> []"
    "a \<le> 0 \<longleftrightarrow> filter (\<lambda>i. buffer_state (slots s ! i) = Acquired) [0..<nat m] = []"
    unfolding cnt by simp_all
  have "m - (d + 1) < 0 \<longleftrightarrow>
      m < int (length (filter (\<lambda>i. buffer_state (slots s ! i) = Dequeued) [0..<nat m])) + 1"
    unfolding cnt by linarith
  then show ?thesis unfolding turn must_wait_def Let_def m none empty by blast
qed

text \<open>What \<open>must_wait\<close> depends on.\<close>

lemma GetMaxBufferCount_loop_cong:
  "(\<And>i. i \<in> set is \<Longrightarrow> buffer_state (tt ! i) = buffer_state (ss ! i)) \<Longrightarrow>
   GetMaxBufferCount_loop is tt m = GetMaxBufferCount_loop is ss m"
  by (induction "is" ss m rule: GetMaxBufferCount_loop.induct) auto

lemma must_wait_cong:
  assumes "\<And>i. buffer_state (slots t ! i) = buffer_state (slots s ! i)"
    "queue t = queue s" "is_abandoned t = is_abandoned s"
    "override_max_buffer_count t = override_max_buffer_count s"
    "default_max_buffer_count t = default_max_buffer_count s"
    "buffer_has_been_queued t = buffer_has_been_queued s"
    "dequeue_buffer_cannot_block t = dequeue_buffer_cannot_block s"
  shows "must_wait async t = must_wait async s"
proof -
  have "GetMaxBufferCountLocked async t = GetMaxBufferCountLocked async s"
    using assms GetMaxBufferCount_loop_cong [of _ "slots t" "slots s"]
    by (simp add: GetMaxBufferCountLocked_def Let_def)
  then show ?thesis using assms by (simp add: must_wait_def Let_def)
qed

text \<open>
  A dropped item makes room, and then the new front is due, so \<^verbatim>\<open>AcquireBuffer\<close> goes on to
  signal: the branch \<^verbatim>\<open>PresentLater\<close> is only taken when nothing was dropped.
\<close>

lemma AcquireBuffer_drop_front:
  "AcquireBuffer_drop e q s = (q', s') \<Longrightarrow>
   q' = q \<and> s' = s \<or> q' \<noteq> [] \<and> item_timestamp (hd q') \<le> e"
proof (induction e q s rule: AcquireBuffer_drop.induct)
  case (1 e front item rest s)
  then show ?case by (fastforce split: if_splits)
qed auto

lemma AcquireBuffer_signals:
  "dequeue_possible (snd (AcquireBuffer e s)) \<or> snd (AcquireBuffer e s) = s"
proof (cases "e \<noteq> 0 \<and> queue s \<noteq> []")
  case True
  obtain q t where q: "AcquireBuffer_drop e (queue s) s = (q, t)" by fastforce
  show ?thesis
    using True q AcquireBuffer_drop_front [OF q]
    by (auto simp: AcquireBuffer_def Let_def SignalDequeueCondition_def)
qed (auto simp: AcquireBuffer_def Let_def SignalDequeueCondition_def)

lemma consumer_signals:
  assumes len: "length (slots s) = NUM_BUFFER_SLOTS"
    and "\<not> dequeue_possible (consumer_run op s)"
  shows "must_wait async (consumer_run op s) = must_wait async s"
proof (cases op)
  case (C_AcquireBuffer e)
  then show ?thesis using AcquireBuffer_signals [of e s] assms by auto
next
  case (C_ReleaseBuffer slot frame f)
  have "snd (ReleaseBuffer slot frame f s) = s
      \<or> snd (ReleaseBuffer slot frame f s)
        = update_slot (nat slot) (\<lambda>b. b\<lparr>needs_cleanup_on_release := False\<rparr>) s \<and> valid_slot slot"
    using assms C_ReleaseBuffer
    by (auto simp: ReleaseBuffer_def Let_def SignalDequeueCondition_def notify_def
        split: option.splits if_splits)
  moreover have "must_wait async (update_slot (nat slot) (\<lambda>b. b\<lparr>needs_cleanup_on_release := False\<rparr>) s)
      = must_wait async s" if "valid_slot slot"
    using valid_slot_nat [OF that] len by (intro must_wait_cong) (auto simp: nth_list_update)
  ultimately show ?thesis using C_ReleaseBuffer by auto
next
  case (C_Connect l c)
  have "must_wait async (s\<lparr>consumer_listener := l, consumer_controlled_by_app := c\<rparr>) = must_wait async s"
    by (rule must_wait_cong) simp_all
  then show ?thesis using C_Connect by (simp add: Consumer_Connect_def)
next
  case C_Disconnect
  then show ?thesis
    using assms by (auto simp: Consumer_Disconnect_def SignalDequeueCondition_def)
qed

text \<open>A thread that goes to sleep has a reason to.\<close>

lemma Wait_sleeps:
  assumes "queue_inv {} s" "WaitForFreeSlotThenRelock async flags s = (Wait_again fl, t)"
  shows "must_wait async t \<and> \<not> dequeue_possible t"
  using assms
proof (induction async flags s rule: WaitForFreeSlotThenRelock.induct)
  case (1 async flags s)
  obtain r s1 where r: "WaitForFreeSlot_turn async flags s = (r, s1)" by fastforce
  have i: "queue_inv {} s1" using WaitForFreeSlot_turn_inv [OF "1.prems"(1)] r by (metis snd_conv)
  have i': "queue_inv {} (s1\<lparr>dequeue_possible := False\<rparr>)" by (rule queue_inv_cong [OF i]) simp_all
  obtain fl' where again: "r = Wait_again fl'"
    using "1.prems"(2) r by (cases r) (auto simp: WaitForFreeSlotThenRelock.simps)
  show ?case
  proof (cases "dequeue_possible s1")
    case True
    then have "WaitForFreeSlotThenRelock async fl' (s1\<lparr>dequeue_possible := False\<rparr>) = (Wait_again fl, t)"
      using "1.prems"(2) r again by (subst (asm) WaitForFreeSlotThenRelock.simps) simp
    then show ?thesis by (rule "1.IH" [OF r [symmetric] again True i'])
  next
    case False
    then have t: "t = s1" using "1.prems"(2) r again by (simp add: WaitForFreeSlotThenRelock.simps)
    have w: "must_wait async s" using turn_waits_iff [OF "1.prems"(1)] r again by blast
    have "must_wait async s1 = must_wait async s"
    proof -
      obtain k where s1: "s1 = snd (FreeBeyond_loop k flags s)"
        using r again
        by (auto simp: WaitForFreeSlot_turn_def Let_def split_beta split: if_splits)
      have "default_max_buffer_count s1 = default_max_buffer_count s"
        using i "1.prems"(1) by (simp add: queue_inv_def)
      then show ?thesis
        unfolding s1
        by (intro must_wait_cong) (simp_all add: FreeBeyond_state FreeBeyond_fields FreeBeyond_more_fields)
    qed
    then show ?thesis using w t False by simp
  qed
qed

definition sleep_ok :: "producer_pc \<times> 'a producer \<Rightarrow> bool" where
  "sleep_ok c = (case c of
      (Sleeping l, s) \<Rightarrow> dequeue_possible s \<or> must_wait (dq_async l) s
    | _ \<Rightarrow> True)"

lemma locked_sleeps:
  assumes "queue_inv {} s" "DequeueBuffer_locked l s = (r, s1)"
  shows "sleep_ok (pc_of r, s1)"
proof (cases r)
  case (Dequeue_sleeping l')
  then obtain fl where "WaitForFreeSlotThenRelock (dq_async l) (dq_flags l) s = (Wait_again fl, s1)"
    and l': "l' = l\<lparr>dq_flags := fl\<rparr>"
    using assms(2)
    by (auto simp: DequeueBuffer_locked_def Let_def split: prod.splits wait_result.splits if_splits)
  from Wait_sleeps [OF assms(1) this(1)] show ?thesis
    using Dequeue_sleeping l' by (simp add: sleep_ok_def)
qed (simp_all add: sleep_ok_def)

lemma producer_sleeps:
  assumes "queue_inv {} s"
  shows "sleep_ok (producer_run op s)"
proof (cases op)
  case (P_DequeueBuffer async w h f u)
  have "sleep_ok (Idle, s)" by (simp add: sleep_ok_def)
  then show ?thesis
    using P_DequeueBuffer locked_sleeps [OF assms]
    by (auto split: outcome.split sum.split prod.split)
qed (auto simp: sleep_ok_def pc_of_outcome_def split: prod.splits outcome.splits)

lemma consumer_keeps_signal: "dequeue_possible s \<Longrightarrow> dequeue_possible (consumer_run op s)"
proof (cases op)
  case (C_AcquireBuffer e)
  assume "dequeue_possible s"
  then show ?thesis using C_AcquireBuffer AcquireBuffer_signals [of e s] by auto
next
  case C_Disconnect
  assume "dequeue_possible s"
  then show ?thesis using C_Disconnect by (simp add: Consumer_Disconnect_def SignalDequeueCondition_def)
qed (simp_all add: ReleaseBuffer_def Let_def SignalDequeueCondition_def notify_def
      Consumer_Connect_def split: option.split)

lemma queue_step_sleeps: "queue_step c c' \<Longrightarrow> run_inv c \<Longrightarrow> sleep_ok c \<Longrightarrow> sleep_ok c'"
proof (induction rule: queue_step.induct)
  case (consumer pc s op)
  have "length (slots s) = NUM_BUFFER_SLOTS"
    using consumer(1) by (auto simp: run_inv_def dest: queue_inv_length)
  then show ?case
    using consumer(2) consumer_signals [of s op] consumer_keeps_signal [of s op]
    by (cases pc) (auto simp: sleep_ok_def)
next
  case (producer op s)
  then show ?case by (simp add: run_inv_def producer_sleeps)
next
  case (wake s l r s1)
  have "queue_inv {} (s\<lparr>dequeue_possible := False\<rparr>)"
    by (rule queue_inv_cong [where s = s]) (use wake in \<open>simp_all add: run_inv_def\<close>)
  then show ?case using wake(2) by (rule locked_sleeps)
next
  case (allocate l slot f attached s r s1)
  then show ?case
    by (auto simp: DequeueBuffer_allocate_def Let_def sleep_ok_def split: if_splits)
qed

lemma reachable_sleeps: "queue_reachable c \<Longrightarrow> sleep_ok c"
proof (induction rule: queue_reachable.induct)
  case init
  show ?case by (simp add: sleep_ok_def)
next
  case (step c c')
  show ?case by (rule queue_step_sleeps [OF step(2) reachable_inv [OF step(1)] step(3)])
qed

section \<open>What every reachable state satisfies\<close>

text \<open>
  Property C3. In every state that one producer thread and one consumer thread can reach,
  whatever calls they make and wherever the producer sleeps or leaves the lock: the producer
  never dereferences a null graphic buffer; there are 64 slots; the consumer holds at most one
  buffer; a slot is in state \<open>Queued\<close> exactly when an item of the queue still tracks it, and no
  two items track the same slot; and, unless the queue is abandoned, every slot the producer
  has dequeued has a buffer, except the one it is allocating for.
\<close>

theorem buffer_queue_invariant:
  assumes "queue_reachable (pc, s)"
  shows "pc \<noteq> Dead
    \<and> length (slots s) = NUM_BUFFER_SLOTS
    \<and> (\<forall>i < NUM_BUFFER_SLOTS. \<forall>j < NUM_BUFFER_SLOTS.
         buffer_state (slots s ! i) = Acquired \<and> buffer_state (slots s ! j) = Acquired \<longrightarrow> i = j)
    \<and> (\<forall>i < NUM_BUFFER_SLOTS. buffer_state (slots s ! i) = Queued \<longleftrightarrow>
         (\<exists>item \<in> set (queue s). item_slot item = int i \<and> StillTracking s item))
    \<and> distinct (map item_slot (filter (StillTracking s) (queue s)))
    \<and> (\<not> is_abandoned s \<longrightarrow>
         (\<forall>i < NUM_BUFFER_SLOTS. buffer_state (slots s ! i) = Dequeued \<longrightarrow>
            graphic_buffer (slots s ! i) \<noteq> None \<or> i \<in> pc_slots pc))"
proof -
  have inv: "queue_inv (pc_slots pc) s" and pc: "pc \<noteq> Dead"
    using reachable_inv [OF assms] by (auto simp: run_inv_def)
  then have c: "coherent (slots s) (queue s) (next_object s)" by (simp add: queue_inv_def)
  have slot: "0 \<le> item_slot item" if "item \<in> set (queue s)" for item
    using c that by (auto simp: coherent_def item_ok_def valid_slot_def)
  have track: "StillTracking s = tracked (slots s)" by (rule ext) (rule StillTracking_tracked)
  have queued: "buffer_state (slots s ! i) = Queued \<longleftrightarrow>
      (\<exists>item \<in> set (queue s). item_slot item = int i \<and> StillTracking s item)"
    if "i < NUM_BUFFER_SLOTS" for i
    using c that slot unfolding track coherent_def slot_has_item_def by (metis int_nat_eq nat_int)
  have "distinct (map (nat \<circ> item_slot) (filter (tracked (slots s)) (queue s)))"
    using c by (simp add: coherent_def)
  then have "distinct (map nat (map item_slot (filter (StillTracking s) (queue s))))"
    by (simp add: track)
  then have dist: "distinct (map item_slot (filter (StillTracking s) (queue s)))"
    by (metis distinct_map)
  show ?thesis
    using pc inv dist queued queue_inv_length [OF inv]
    by (simp add: queue_inv_def one_acquired_def owned_ok_def) blast
qed

text \<open>Scripts of moves of the two threads, for concrete reachable states.\<close>

datatype move = Move_producer producer_op | Move_consumer consumer_op | Move_allocate

fun play :: "move \<Rightarrow> producer_pc \<times> BufferQueueProducer \<Rightarrow> producer_pc \<times> BufferQueueProducer" where
  "play (Move_consumer op) (pc, s) = (pc, consumer_run op s)"
| "play (Move_producer op) (Idle, s) = (case op of P_AttachBuffer gb \<Rightarrow> (Idle, s) | _ \<Rightarrow> producer_run op s)"
| "play Move_allocate (Allocating l slot f a, s) = (Idle, snd (DequeueBuffer_allocate l slot f a s))"
| "play m c = c"

lemma reachable_producer:
  "queue_reachable (Idle, s) \<Longrightarrow> op_allowed op s \<Longrightarrow> queue_reachable (producer_run op s)"
  by (rule queue_reachable.step [OF _ queue_step.producer])

lemma reachable_allocate:
  assumes "queue_reachable (Allocating l slot f a, s)"
  shows "queue_reachable (Idle, snd (DequeueBuffer_allocate l slot f a s))"
proof -
  obtain r t where r: "DequeueBuffer_allocate l slot f a s = (r, t)" by fastforce
  then have "pc_of r = Idle" by (auto simp: DequeueBuffer_allocate_def Let_def split: if_splits)
  then show ?thesis using queue_reachable.step [OF assms queue_step.allocate [OF r]] r by simp
qed

lemma play_reachable: "queue_reachable c \<Longrightarrow> queue_reachable (play m c)"
proof (induction m c rule: play.induct)
  case (1 op pc s)
  then show ?case by (simp add: queue_reachable.step [OF _ queue_step.consumer] del: consumer_run.simps)
next
  case (2 op s)
  then show ?case
    by (cases op) (simp_all add: reachable_producer del: producer_run.simps)
next
  case (3 l slot f a s)
  then show ?case by (simp add: reachable_allocate)
qed simp_all

lemma script_reachable: "queue_reachable c \<Longrightarrow> queue_reachable (fold play ms c)"
  by (induction ms arbitrary: c) (simp_all add: play_reachable)

definition full_frame :: QueueBufferInput where
  "full_frame =
     \<lparr>in_timestamp = 0, in_is_auto_timestamp = False,
      in_crop = \<lparr>left = 0, top = 0, right = 1, bottom = 1\<rparr>, in_scaling_mode = 0,
      in_transform = 0, in_sticky_transform = 0, in_async = False, in_swap_interval = 1,
      in_fence = NoFence\<rparr>"

definition take_slot :: "int \<Rightarrow> move list" where
  "take_slot i =
     [Move_producer (P_DequeueBuffer False 0 0 0 0), Move_allocate, Move_producer (P_RequestBuffer i)]"

text \<open>
  With three buffers, the producer queues frames in the slots 0 and 1, the consumer takes the first of them, and
  the producer dequeues the slot 2.
\<close>

definition busy_run :: "producer_pc \<times> BufferQueueProducer" where
  "busy_run =
     fold play (Move_producer (P_SetBufferCount 3) # take_slot 0 @ Move_producer (P_QueueBuffer 0 full_frame) #
                take_slot 1 @ Move_producer (P_QueueBuffer 1 full_frame) #
                Move_consumer (C_AcquireBuffer 0) # take_slot 2)
       (Idle, BufferQueueProducer_ctor)"

lemma busy_run_state:
  "case busy_run of (pc, s) \<Rightarrow> pc = Idle \<and> \<not> is_abandoned s \<and> buffer_state (slots s ! 0) = Acquired
     \<and> map item_slot (queue s) = [1] \<and> list_all (StillTracking s) (queue s)
     \<and> buffer_state (slots s ! 2) = Dequeued"
  by code_simp

lemma busy_run_reachable: "queue_reachable (Idle, snd busy_run)"
proof -
  have "queue_reachable busy_run"
    unfolding busy_run_def by (rule script_reachable [OF queue_reachable.init])
  moreover have "fst busy_run = Idle" using busy_run_state by (simp add: case_prod_unfold)
  ultimately show ?thesis by (metis prod.collapse)
qed

theorem buffer_queue_invariant_witness:
  "\<exists>s. queue_reachable (Idle, s) \<and> buffer_state (slots s ! 0) = Acquired
     \<and> map item_slot (queue s) = [1] \<and> buffer_state (slots s ! 1) = Queued
     \<and> (\<forall>j < NUM_BUFFER_SLOTS. buffer_state (slots s ! j) = Acquired \<longrightarrow> j = 0)
     \<and> (\<forall>j < NUM_BUFFER_SLOTS. buffer_state (slots s ! j) = Queued \<longrightarrow> j = 1)
     \<and> buffer_state (slots s ! 2) = Dequeued \<and> graphic_buffer (slots s ! 2) \<noteq> None"
proof -
  let ?s = "snd busy_run"
  have q: "queue_reachable (Idle, ?s)" by (rule busy_run_reachable)
  have st: "\<not> is_abandoned ?s" "buffer_state (slots ?s ! 0) = Acquired" "map item_slot (queue ?s) = [1]"
      "list_all (StillTracking ?s) (queue ?s)" "buffer_state (slots ?s ! 2) = Dequeued"
    using busy_run_state unfolding case_prod_unfold by blast+
  obtain item where item: "queue ?s = [item]" "item_slot item = 1" "StillTracking ?s item"
    using st(3,4) by (auto simp: map_eq_Cons_conv)
  note inv = buffer_queue_invariant [OF q]
  note single = inv [THEN conjunct2, THEN conjunct2, THEN conjunct1, rule_format]
  note queued = inv [THEN conjunct2, THEN conjunct2, THEN conjunct2, THEN conjunct1, rule_format]
  note owned = inv [THEN conjunct2, THEN conjunct2, THEN conjunct2, THEN conjunct2, THEN conjunct2, rule_format]
  have n: "(0 :: nat) < NUM_BUFFER_SLOTS" "(1 :: nat) < NUM_BUFFER_SLOTS" "(2 :: nat) < NUM_BUFFER_SLOTS"
    by (simp_all add: NUM_BUFFER_SLOTS_def)
  have a: "\<forall>j < NUM_BUFFER_SLOTS. buffer_state (slots ?s ! j) = Acquired \<longrightarrow> j = 0"
    using single [OF _ n(1)] st(2) by simp
  have qd: "buffer_state (slots ?s ! i) = Queued \<longleftrightarrow> i = 1" if "i < NUM_BUFFER_SLOTS" for i
    using queued [OF that] item by auto
  have "graphic_buffer (slots ?s ! 2) \<noteq> None"
    using owned [OF st(1) n(3) st(5)] by simp
  then show ?thesis
    using q st(2,3,5) a qd n(2) by (intro exI [of _ ?s] conjI) simp_all
qed

text \<open>
  Property C12. No wake-up is lost. Whenever the producer sleeps in a dequeue and the dequeue
  condition is not signalled, another turn of its loop would put it to sleep again: there is
  still no free slot, or still too many queued buffers. In particular \<^verbatim>\<open>AcquireBuffer\<close> may
  return \<^verbatim>\<open>PresentLater\<close> without a signal although its drop loop frees slots.
\<close>

theorem no_lost_wakeup:
  assumes "queue_reachable (Sleeping l, s)" "\<not> dequeue_possible s"
  shows "\<exists>flags t. WaitForFreeSlot_turn (dq_async l) (dq_flags l) s = (Wait_again flags, t)"
proof -
  have "queue_inv {} s" using reachable_inv [OF assms(1)] by (simp add: run_inv_def)
  then show ?thesis
    using reachable_sleeps [OF assms(1)] assms(2) turn_waits_iff [of s "dq_async l" "dq_flags l"]
    by (simp add: sleep_ok_def)
qed

text \<open>A producer with one buffer dequeues it and asks for a second one.\<close>

definition sleeping_run :: "producer_pc \<times> BufferQueueProducer" where
  "sleeping_run =
     (let s1 = snd (producer_run (P_SetBufferCount 1) BufferQueueProducer_ctor)
      in case producer_run (P_DequeueBuffer False 0 0 0 0) s1 of
           (Allocating l slot f a, s2) \<Rightarrow>
             producer_run (P_DequeueBuffer False 0 0 0 0)
               (snd (DequeueBuffer_allocate l slot f a s2))
         | c \<Rightarrow> c)"

lemma sleeping_run_sleeps:
  "(case sleeping_run of (Sleeping l, s) \<Rightarrow> \<not> dequeue_possible s | _ \<Rightarrow> False)"
  by code_simp

lemma sleeping_run_reachable: "queue_reachable sleeping_run"
proof -
  have one: "queue_reachable (Idle, snd (producer_run (P_SetBufferCount 1) BufferQueueProducer_ctor))"
    using reachable_producer [OF queue_reachable.init, of "P_SetBufferCount 1"] by simp
  note two = reachable_producer [OF one, of "P_DequeueBuffer False 0 0 0 0"]
  show ?thesis
    unfolding sleeping_run_def Let_def using two
    by (auto split: prod.split producer_pc.split simp del: producer_run.simps
        intro!: reachable_producer reachable_allocate)
qed

theorem no_lost_wakeup_witness:
  "\<exists>l s. queue_reachable (Sleeping l, s) \<and> \<not> dequeue_possible s
     \<and> (\<exists>flags t. WaitForFreeSlot_turn (dq_async l) (dq_flags l) s = (Wait_again flags, t))"
proof -
  obtain l s where c: "sleeping_run = (Sleeping l, s)" "\<not> dequeue_possible s"
    using sleeping_run_sleeps by (auto split: prod.splits producer_pc.splits)
  then have "queue_reachable (Sleeping l, s)" using sleeping_run_reachable by simp
  then show ?thesis using no_lost_wakeup [OF _ c(2)] c(2) by blast
qed

end
