(* ===== verification/BufferQueueFrames.thy ===== *)
theory BufferQueueFrames
  imports BufferQueueSafety
begin

text \<open>
  What the operations of the buffer queue deliver: a dequeue hands out the oldest free slot
  with a buffer that fits the request, \<^verbatim>\<open>QueueBuffer\<close> accepts exactly the slots the producer
  may queue, and in synchronous mode the queue is a first-in first-out channel of frames,
  stated through the interface \<open>frame_channel\<close>.
\<close>

unbundle bit_operations_syntax

section \<open>Dequeueing\<close>

lemma turn_keeps_waiting:
  assumes s: "queue_inv {} s" and t: "WaitForFreeSlot_turn async flags s = (Wait_again fl, s1)"
  shows "must_wait async s1 \<and> queue_inv {} s1"
proof -
  have i: "queue_inv {} s1" using WaitForFreeSlot_turn_inv [OF s] t by (metis snd_conv)
  have w: "must_wait async s" using turn_waits_iff [OF s] t by blast
  obtain k where s1: "s1 = snd (FreeBeyond_loop k flags s)"
    using t by (auto simp: WaitForFreeSlot_turn_def Let_def split_beta split: if_splits)
  have "default_max_buffer_count s1 = default_max_buffer_count s"
    using i s by (simp add: queue_inv_def)
  then have "must_wait async s1 = must_wait async s"
    unfolding s1
    by (intro must_wait_cong) (simp_all add: FreeBeyond_state FreeBeyond_fields FreeBeyond_more_fields)
  with w i show ?thesis by simp
qed

text \<open>A stale signal does not help: a call that finds a slot finds it in its first turn.\<close>

lemma Wait_return_first:
  assumes s: "queue_inv {} s"
    and r: "WaitForFreeSlotThenRelock async flags s = (Wait_return st found fl, s')"
  shows "WaitForFreeSlot_turn async flags s = (Wait_return st found fl, s')"
proof -
  obtain w s1 where t: "WaitForFreeSlot_turn async flags s = (w, s1)" by fastforce
  show ?thesis
  proof (cases w)
    case (Wait_return a b c)
    then show ?thesis using r t by (simp add: WaitForFreeSlotThenRelock.simps)
  next
    case (Wait_again fl1)
    let ?u = "s1\<lparr>dequeue_possible := False\<rparr>"
    have i1: "must_wait async s1" "queue_inv {} s1" using turn_keeps_waiting [OF s] t Wait_again by auto
    have u: "queue_inv {} ?u" by (rule queue_inv_cong [OF i1(2)]) simp_all
    have "must_wait async ?u = must_wait async s1" by (rule must_wait_cong) simp_all
    then obtain fl2 v where v: "WaitForFreeSlot_turn async fl1 ?u = (Wait_again fl2, v)"
      using i1(1) turn_waits_iff [OF u, of async fl1] by auto
    then have "\<not> dequeue_possible v" using turn_dequeue_possible [of async fl1 ?u] by simp
    then have "WaitForFreeSlotThenRelock async fl1 ?u = (Wait_again fl2, v)"
      using v by (simp add: WaitForFreeSlotThenRelock.simps)
    then have "\<exists>fl3 x. WaitForFreeSlotThenRelock async flags s = (Wait_again fl3, x)"
      using t Wait_again by (subst WaitForFreeSlotThenRelock.simps) auto
    then show ?thesis using r by auto
  qed
qed

lemma turn_return_inside:
  assumes "WaitForFreeSlot_turn async flags s = (Wait_return st found fl, s')"
    "i < nat (GetMaxBufferCountLocked async s)"
  shows "slots s' ! i = slots s ! i"
  using assms FreeBeyond_inside [of i "[nat (GetMaxBufferCountLocked async s)..<NUM_BUFFER_SLOTS]" flags s]
  by (auto simp: WaitForFreeSlot_turn_def Let_def split_beta split: if_splits)

lemma turn_return_state:
  assumes "WaitForFreeSlot_turn async flags s = (Wait_return st found fl, s')"
  shows "buffer_state (slots s' ! i) = buffer_state (slots s ! i)"
    and "default_width s' = default_width s" and "default_height s' = default_height s"
  using assms FreeBeyond_state [of _ flags s i] FreeBeyond_fields(4,5) [of _ flags s]
  by (auto simp: WaitForFreeSlot_turn_def Let_def split_beta split: if_splits)

definition fits :: "GraphicBuffer \<Rightarrow> u32 \<Rightarrow> u32 \<Rightarrow> u32 \<Rightarrow> u32 \<Rightarrow> bool" where
  "fits b width height format usage \<longleftrightarrow>
     gb_width b = width \<and> gb_height b = height \<and> gb_format b = format
     \<and> (gb_usage b AND usage) = usage"

lemma fits_needs: "needs_reallocation (Some b) w h f u \<longleftrightarrow> \<not> fits b w h f u"
  by (auto simp: needs_reallocation_def fits_def)

lemma needs_None [simp]: "needs_reallocation None w h f u"
  by (simp add: needs_reallocation_def)

lemma realloc_flag [simp]: "Status_BufferNeedsReallocation \<noteq> Status_NoError"
  by (simp add: status_defs)

lemma fits_new: "fits (GraphicBuffer_of_size n w h f u) w h f u"
  by (simp add: fits_def GraphicBuffer_of_size_def NvGraphicBuffer.extend_def
      GraphicBuffer.fields_def NvGraphicBuffer_ctor_def)

lemma DequeueBuffer_locked_found:
  assumes s: "queue_inv {} s"
    and w: "WaitForFreeSlot_turn (dq_async l) (dq_flags l) s = (Wait_return Status_NoError found fl, s1)"
    and r: "DequeueBuffer_finish (DequeueBuffer_locked l s) = (Dequeue_found status slot f, s')"
  shows "slot = found \<and> buffer_state (slots s' ! nat found) = Dequeued
    \<and> (\<exists>b. graphic_buffer (slots s' ! nat found) = Some b
         \<and> fits b (if dq_width l = 0 \<and> dq_height l = 0 then default_width s else dq_width l)
                  (if dq_width l = 0 \<and> dq_height l = 0 then default_height s else dq_height l)
                  (dq_format l) (dq_usage l))
    \<and> (\<forall>i. i \<noteq> nat found \<longrightarrow> buffer_state (slots s' ! i) = buffer_state (slots s ! i))"
proof -
  have wait: "WaitForFreeSlotThenRelock (dq_async l) (dq_flags l) s
      = (Wait_return Status_NoError found fl, s1)"
    using w by (simp add: WaitForFreeSlotThenRelock.simps)
  have v: "valid_slot found" using turn_found [OF s w] by (simp add: oldest_free_def)
  have i1: "queue_inv {} s1" using WaitForFreeSlot_turn_inv [OF s] w by (metis snd_conv)
  have len: "nat found < length (slots s1)" using valid_slot_nat [OF v] queue_inv_length [OF i1] by simp
  have inv: "found \<noteq> INVALID_BUFFER_SLOT" using v by (auto simp: valid_slot_def INVALID_BUFFER_SLOT_def)
  note same = turn_return_state [OF w]
  show ?thesis
    using r len inv same fits_new
    by (cases "graphic_buffer (slots s1 ! nat found)")
       (auto simp: DequeueBuffer_locked_def wait Let_def DequeueBuffer_finish_def
         DequeueBuffer_allocate_def clear_for_reallocation_def fits_needs nth_list_update
         split: if_splits)
qed

text \<open>
  Property C35. A dequeue that succeeds hands out a slot below the current buffer count that
  was free and whose frame number is the smallest among the free ones, and takes only that
  slot; the slot then holds a buffer of exactly the requested size and format (the queue's
  defaults where the request gives none) with at least the requested and the consumer's usage
  bits.
\<close>

theorem dequeue_takes_oldest_free:
  assumes reach: "queue_reachable (Idle, s)"
    and r: "DequeueBuffer async width height format usage s
              = (Returned (Dequeue_found status slot f), s')"
  shows "0 \<le> slot \<and> slot < GetMaxBufferCountLocked async s
    \<and> buffer_state (slots s ! nat slot) = Free
    \<and> (\<forall>i < nat (GetMaxBufferCountLocked async s). buffer_state (slots s ! i) = Free \<longrightarrow>
         frame_number (slots s ! nat slot) \<le> frame_number (slots s ! i))
    \<and> buffer_state (slots s' ! nat slot) = Dequeued
    \<and> (\<forall>i. i \<noteq> nat slot \<longrightarrow> buffer_state (slots s' ! i) = buffer_state (slots s ! i))
    \<and> (\<exists>b. graphic_buffer (slots s' ! nat slot) = Some b
         \<and> gb_width b = (if width = 0 then default_width s else width)
         \<and> gb_height b = (if height = 0 then default_height s else height)
         \<and> gb_format b = (if format = PixelFormat_NoFormat then default_buffer_format s else format)
         \<and> (gb_usage b AND (usage OR consumer_usage_bit s)) = (usage OR consumer_usage_bit s))"
proof -
  have s: "queue_inv {} s" using reachable_inv [OF reach] by (simp add: run_inv_def)
  obtain l where l: "DequeueBuffer_enter async width height format usage s = Returned (Inr l)"
    using r by (auto simp: DequeueBuffer_def split: outcome.splits sum.splits)
  have size: "width = 0 \<longleftrightarrow> height = 0"
    and l_eq: "l = \<lparr>dq_async = async, dq_width = width, dq_height = height,
         dq_format = (if format = PixelFormat_NoFormat then default_buffer_format s else format),
         dq_usage = usage OR consumer_usage_bit s, dq_flags = Status_NoError\<rparr>"
    using l by (auto simp: DequeueBuffer_enter_def split: if_splits)
  have fin: "DequeueBuffer_finish (DequeueBuffer_locked l s) = (Dequeue_found status slot f, s')"
    using r l by (auto simp: DequeueBuffer_def split: prod.splits dequeue_result.splits)
  obtain st found fl s1 where w: "WaitForFreeSlotThenRelock async Status_NoError s
      = (Wait_return st found fl, s1)" and "st = Status_NoError"
    using fin l_eq
    by (auto simp: DequeueBuffer_locked_def DequeueBuffer_finish_def Let_def
        split: prod.splits wait_result.splits if_splits)
  then have t: "WaitForFreeSlot_turn async Status_NoError s = (Wait_return Status_NoError found fl, s1)"
    using Wait_return_first [OF s] by blast
  have t': "WaitForFreeSlot_turn (dq_async l) (dq_flags l) s = (Wait_return Status_NoError found fl, s1)"
    using t l_eq by simp
  note out = DequeueBuffer_locked_found [OF s t' fin]
  have old: "oldest_free (nat (GetMaxBufferCountLocked async s)) s found"
    using turn_found [OF s t] turn_return_inside [OF t] by (auto simp: oldest_free_def)
  show ?thesis
    using old out size l_eq GetMaxBufferCount_bounds(1) [OF s, of async]
    by (auto simp: oldest_free_def valid_slot_def fits_def)
qed

lemma dequeue_example:
  "(case DequeueBuffer False 640 480 1 0 BufferQueueProducer_ctor of
      (Returned (Dequeue_found status slot f), s') \<Rightarrow> True | _ \<Rightarrow> False)"
  by code_simp

theorem dequeue_takes_oldest_free_witness:
  "\<exists>status slot f s'. DequeueBuffer False 640 480 1 0 BufferQueueProducer_ctor
       = (Returned (Dequeue_found status slot f), s')
     \<and> buffer_state (slots s' ! nat slot) = Dequeued"
proof -
  obtain status slot f s' where r: "DequeueBuffer False 640 480 1 0 BufferQueueProducer_ctor
      = (Returned (Dequeue_found status slot f), s')"
    using dequeue_example by (auto split: prod.splits outcome.splits dequeue_result.splits)
  then show ?thesis using dequeue_takes_oldest_free [OF queue_reachable.init r] by blast
qed

section \<open>Queueing\<close>

lemma crop_inside:
  "Intersect crop (Rectangle_of_size w h) = crop \<longleftrightarrow>
     0 \<le> left crop \<and> 0 \<le> top crop \<and> right crop \<le> w \<and> bottom crop \<le> h"
  by (cases crop) (auto simp: Intersect_def Rectangle_of_size_def max_def min_def)

text \<open>
  Property C36. \<^verbatim>\<open>QueueBuffer\<close> always returns, and it succeeds exactly when the queue is not
  abandoned, the scaling mode is known, and the slot is one the producer dequeued and
  requested, with the crop rectangle inside its buffer. Otherwise nothing changes and the
  status is \<^verbatim>\<open>NoInit\<close> for an abandoned queue with a known scaling mode and \<^verbatim>\<open>BadValue\<close> in
  every other case.
\<close>

theorem queue_buffer_accepts_iff:
  assumes reach: "queue_reachable (Idle, s)"
  shows "\<exists>status out s'. QueueBuffer slot input s = (Returned (status, out), s')
    \<and> (status = Status_NoError \<longleftrightarrow>
         known_scaling_mode (in_scaling_mode input) \<and> \<not> is_abandoned s
         \<and> 0 \<le> slot \<and> slot < GetMaxBufferCountLocked (in_async input) s
         \<and> buffer_state (slots s ! nat slot) = Dequeued
         \<and> request_buffer_called (slots s ! nat slot)
         \<and> (\<exists>b. graphic_buffer (slots s ! nat slot) = Some b
              \<and> 0 \<le> left (in_crop input) \<and> 0 \<le> top (in_crop input)
              \<and> right (in_crop input) \<le> sint (gb_width b)
              \<and> bottom (in_crop input) \<le> sint (gb_height b)))
    \<and> (status \<noteq> Status_NoError \<longrightarrow> out = None \<and> s' = s
         \<and> status = (if known_scaling_mode (in_scaling_mode input) \<and> is_abandoned s
                     then Status_NoInit else Status_BadValue))"
proof -
  have s: "queue_inv {} s" and t: "tickets_ok s"
    using reachable_inv [OF reach] by (auto simp: run_inv_def)
  have acc: "\<exists>out s'. QueueBuffer_accept slot input s = (Returned (Status_NoError, Some out), s')"
    by (rule QueueBuffer_accept_eq [OF t, of slot input]) (metis prod.collapse)
  have ov: "\<not> (in_async input \<and> override_max_buffer_count s \<noteq> 0
      \<and> override_max_buffer_count s < GetMaxBufferCountLocked (in_async input) s)"
    using GetMax_override [of s "in_async input"] by auto
  have nc: "fst (QueueBuffer slot input s) \<noteq> Crashed"
    using QueueBuffer_not_Crashed [OF s t, of slot input] by auto
  show ?thesis
    using acc ov nc
    by (cases "graphic_buffer (slots s ! nat slot)")
       (auto simp: QueueBuffer_def Let_def crop_inside split: if_splits)
qed

theorem queue_buffer_accepts_iff_witness:
  "fst (QueueBuffer 0 full_frame BufferQueueProducer_ctor) = Returned (Status_BadValue, None) \<and>
   (\<exists>out s'. QueueBuffer 2 full_frame (snd busy_run) = (Returned (Status_NoError, out), s'))"
proof
  have "buffer_state (slots BufferQueueProducer_ctor ! nat 0) = Free"
    by (simp add: BufferQueueProducer_ctor_def BufferSlot_ctor_def NUM_BUFFER_SLOTS_def)
  moreover have "\<not> is_abandoned BufferQueueProducer_ctor" by (simp add: BufferQueueProducer_ctor_def)
  ultimately show "fst (QueueBuffer 0 full_frame BufferQueueProducer_ctor) = Returned (Status_BadValue, None)"
    using queue_buffer_accepts_iff [OF queue_reachable.init, of 0 full_frame] by fastforce
  have "queue_reachable (Idle, snd busy_run)" by (rule busy_run_reachable)
  note iff = queue_buffer_accepts_iff [OF this, of 2 full_frame]
  have "known_scaling_mode (in_scaling_mode full_frame) \<and> \<not> is_abandoned (snd busy_run)
      \<and> 2 < GetMaxBufferCountLocked (in_async full_frame) (snd busy_run)
      \<and> buffer_state (slots (snd busy_run) ! 2) = Dequeued \<and> request_buffer_called (slots (snd busy_run) ! 2)"
    "case graphic_buffer (slots (snd busy_run) ! 2) of None \<Rightarrow> False
      | Some b \<Rightarrow> 0 \<le> left (in_crop full_frame) \<and> 0 \<le> top (in_crop full_frame)
          \<and> right (in_crop full_frame) \<le> sint (gb_width b) \<and> bottom (in_crop full_frame) \<le> sint (gb_height b)"
    by code_simp+
  then show "\<exists>out s'. QueueBuffer 2 full_frame (snd busy_run) = (Returned (Status_NoError, out), s')"
    using iff by (auto split: option.splits)
qed

section \<open>The order of frames\<close>

text \<open>
  A channel of frames: an operation may send frames, deliver frames or do neither, and what
  was pending followed by what is sent is what is delivered followed by what stays pending.
\<close>

locale frame_channel =
  fixes valid :: "'s \<Rightarrow> bool"
    and pending :: "'s \<Rightarrow> 'f list"
    and perform :: "'op \<Rightarrow> 's \<Rightarrow> 'f list \<times> 'f list \<times> 's"
  assumes valid_perform: "valid s \<Longrightarrow> perform op s = (sent, got, s') \<Longrightarrow> valid s'"
    and in_order: "valid s \<Longrightarrow> perform op s = (sent, got, s') \<Longrightarrow> pending s @ sent = got @ pending s'"
begin

fun run :: "'op list \<Rightarrow> 's \<Rightarrow> 'f list \<times> 'f list \<times> 's" where
  "run [] s = ([], [], s)"
| "run (op # ops) s =
     (let (sent, got, s1) = perform op s; (sent', got', s') = run ops s1
      in (sent @ sent', got @ got', s'))"

lemma run_in_order:
  "valid s \<Longrightarrow> run ops s = (sent, got, s') \<Longrightarrow> valid s' \<and> pending s @ sent = got @ pending s'"
proof (induction ops arbitrary: s sent got s')
  case (Cons op ops)
  obtain sent1 got1 s1 where p: "perform op s = (sent1, got1, s1)" using prod_cases3 by blast
  obtain sent2 got2 s2 where r: "run ops s1 = (sent2, got2, s2)" using prod_cases3 by blast
  have "valid s1" using valid_perform [OF Cons.prems(1) p] .
  note ih = Cons.IH [OF this r]
  have eq: "sent = sent1 @ sent2" "got = got1 @ got2" "s' = s2"
    using Cons.prems(2) p r by (auto simp: Let_def)
  have "pending s @ sent1 @ sent2 = got1 @ (pending s1 @ sent2)"
    using in_order [OF Cons.prems(1) p] by (metis append.assoc)
  then show ?case using ih eq by simp
qed simp

end

text \<open>The calls of a synchronous producer and of a consumer that takes frames as they come.\<close>

datatype sync_op =
    S_DequeueBuffer u32 u32 u32 u32
  | S_RequestBuffer int
  | S_QueueBuffer int QueueBufferInput
  | S_CancelBuffer int Fence
  | S_AcquireBuffer
  | S_ReleaseBuffer int u64 Fence

fun sync_perform ::
  "sync_op \<Rightarrow> 'a producer \<Rightarrow> u64 list \<times> u64 list \<times> 'a producer" where
  "sync_perform (S_DequeueBuffer w h f u) s = ([], [], snd (DequeueBuffer False w h f u s))"
| "sync_perform (S_RequestBuffer slot) s = ([], [], snd (RequestBuffer slot s))"
| "sync_perform (S_QueueBuffer slot input) s =
     (case QueueBuffer slot (input\<lparr>in_async := False\<rparr>) s of
        (Returned (status, _), s') \<Rightarrow>
          (if status = Status_NoError then ([frame_counter s'], [], s') else ([], [], s'))
      | (_, s') \<Rightarrow> ([], [], s'))"
| "sync_perform (S_CancelBuffer slot f) s = ([], [], CancelBuffer slot f s)"
| "sync_perform S_AcquireBuffer s =
     (case AcquireBuffer 0 s of
        ((_, Some item), s') \<Rightarrow> ([], [item_frame_number item], s')
      | (_, s') \<Rightarrow> ([], [], s'))"
| "sync_perform (S_ReleaseBuffer slot frame f) s = ([], [], snd (ReleaseBuffer slot frame f s))"

definition sync_mode :: "'a producer \<Rightarrow> bool" where
  "sync_mode s \<longleftrightarrow>
     tickets_ok s \<and> \<not> dequeue_buffer_cannot_block s
     \<and> (\<forall>item \<in> set (queue s). \<not> item_is_droppable item)"

definition pending_frames :: "'a producer \<Rightarrow> u64 list" where
  "pending_frames s = map item_frame_number (queue s)"

text \<open>The operations that do not touch the queue.\<close>

definition same_queue :: "'a producer \<Rightarrow> 'a producer \<Rightarrow> bool" where
  "same_queue s t \<longleftrightarrow>
     queue t = queue s \<and> dequeue_buffer_cannot_block t = dequeue_buffer_cannot_block s
     \<and> frame_counter t = frame_counter s \<and> tickets t = tickets s"

lemma same_queue_trans: "same_queue s t \<Longrightarrow> same_queue t u \<Longrightarrow> same_queue s u"
  by (simp add: same_queue_def)

lemma same_queue_in_order:
  "same_queue s t \<Longrightarrow> sync_mode s \<Longrightarrow> sync_mode t \<and> pending_frames t = pending_frames s"
  by (auto simp: same_queue_def sync_mode_def pending_frames_def tickets_ok_def tickets_def)

lemma FreeBeyond_counter: "frame_counter (snd (FreeBeyond_loop is flags s)) = frame_counter s"
  by (induction "is" flags s rule: FreeBeyond_loop.induct)
     (simp_all add: Let_def FreeBufferLocked_def)

lemma Wait_cannot_block:
  "dequeue_buffer_cannot_block (snd (WaitForFreeSlotThenRelock async flags s))
     = dequeue_buffer_cannot_block s
   \<and> frame_counter (snd (WaitForFreeSlotThenRelock async flags s)) = frame_counter s"
proof (induction async flags s rule: WaitForFreeSlotThenRelock.induct)
  case (1 async flags s)
  obtain r s1 where t: "WaitForFreeSlot_turn async flags s = (r, s1)" by fastforce
  then have "dequeue_buffer_cannot_block s1 = dequeue_buffer_cannot_block s
      \<and> frame_counter s1 = frame_counter s"
    using FreeBeyond_more_fields(2) [of _ flags s] FreeBeyond_counter [of _ flags s]
    by (auto simp: WaitForFreeSlot_turn_def Let_def split_beta split: if_splits)
  then show ?case
    using 1 [OF t [symmetric]] t
    by (subst (1 2) WaitForFreeSlotThenRelock.simps) (auto split: wait_result.splits)
qed

lemma same_queue_Dequeue: "same_queue s (snd (DequeueBuffer async w h f u s))"
proof -
  have locked: "same_queue s t" if "DequeueBuffer_locked l s = (r, t)" for l r t
    using that Wait_fields [of "dq_async l" "dq_flags l" s] tickets_locked [OF that]
      Wait_cannot_block [of "dq_async l" "dq_flags l" s]
    by (auto simp: same_queue_def DequeueBuffer_locked_def Let_def
        split: prod.splits wait_result.splits if_splits)
  have alloc: "same_queue t (snd (DequeueBuffer_allocate l slot g a t))"
    for l slot g a and t :: "'a producer"
    using tickets_allocate [of l slot g a t]
    by (auto simp: same_queue_def DequeueBuffer_allocate_def Let_def)
  have fin: "same_queue s (snd (DequeueBuffer_finish (DequeueBuffer_locked l s)))" for l
  proof -
    obtain r t where r: "DequeueBuffer_locked l s = (r, t)" by fastforce
    show ?thesis
      using locked [OF r] same_queue_trans [OF locked [OF r] alloc] r
      by (cases r) (simp_all add: DequeueBuffer_finish_def)
  qed
  show ?thesis
    using fin by (auto simp: DequeueBuffer_def same_queue_def Let_def
        split: outcome.split sum.split prod.split) (metis snd_conv)+
qed

lemma same_queue_others:
  "same_queue s (snd (RequestBuffer slot s))" "same_queue s (CancelBuffer slot f s)"
  "same_queue s (snd (ReleaseBuffer slot frame f s))"
  by (simp_all add: same_queue_def RequestBuffer_def CancelBuffer_def ReleaseBuffer_def Let_def
      ticket_simps SignalDequeueCondition_def notify_def tickets_def split: option.split)
     (simp_all add: update_slot_def)

lemma sync_Acquire:
  assumes "sync_mode s" "AcquireBuffer 0 s = ((status, item), s')"
  shows "sync_mode s' \<and> pending_frames s = (case item of None \<Rightarrow> [] | Some i \<Rightarrow> [item_frame_number i])
           @ pending_frames s'"
proof (cases "num_acquired_buffers s \<ge> max_acquired_buffer_count + 1 \<or> queue s = []")
  case True
  then show ?thesis using assms by (auto simp: AcquireBuffer_def split: if_splits)
next
  case False
  then obtain front rest where q: "queue s = front # rest" by (cases "queue s") auto
  have tk: "tickets s' = tickets s" using tickets_AcquireBuffer [of 0 s] assms by simp
  have "queue s' = rest" "item = Some (out_item front)"
    "dequeue_buffer_cannot_block s' = dequeue_buffer_cannot_block s"
    using assms(2) False q
    by (auto simp: AcquireBuffer_def Let_def acquire_front_def SignalDequeueCondition_def
        split: if_splits)
  then show ?thesis
    using assms(1) q tk
    by (simp add: sync_mode_def pending_frames_def tickets_ok_def tickets_def out_item_def)
qed

lemma sync_Queue:
  assumes s: "sync_mode s" and r: "QueueBuffer slot (input\<lparr>in_async := False\<rparr>) s = (Returned (status, out), s')"
  shows "sync_mode s' \<and> pending_frames s'
    = pending_frames s @ (if status = Status_NoError then [frame_counter s'] else [])
    \<and> frame_counter s' = (if status = Status_NoError then frame_counter s + 1 else frame_counter s)"
proof (cases slot "input\<lparr>in_async := False\<rparr>" s rule: QueueBuffer_cases)
  case (accepted gb)
  have t: "tickets_ok s" using s by (simp add: sync_mode_def)
  let ?in = "input\<lparr>in_async := False\<rparr>"
  have st: "status = Status_NoError" and s': "s' = snd (QueueBuffer_accept slot ?in s)"
    using QueueBuffer_accept_eq [OF t, of slot ?in] accepted(1) r by (metis fst_conv outcome.inject prod.inject, metis snd_conv)
  have tk: "tickets_ok s'" using QueueBuffer_accept_eq [OF t, of slot ?in] s' by metis
  have nd: "queue s = [] \<or> \<not> item_is_droppable (hd (queue s))"
    using s by (cases "queue s") (auto simp: sync_mode_def)
  have fields: "frame_counter (run_callback x y z v) = frame_counter v"
    "dequeue_buffer_cannot_block (run_callback x y z v) = dequeue_buffer_cannot_block v"
    for x y z and v :: "'a producer"
    by (simp_all add: run_callback_def notify_def split: option.split)
  show ?thesis
    using nd s t tk st unfolding s'
    by (cases "queue s")
       (auto simp: QueueBuffer_accept_def Let_def enqueue_item_def QueueBuffer_callback_eq
         SignalDequeueCondition_def queue_item_def sync_mode_def pending_frames_def tickets_ok_def
         fields update_slot_def)
qed (use assms in auto)

lemma QueueBuffer_unreturned:
  assumes "tickets_ok s" "QueueBuffer slot input s = (r, s')" "\<And>x. r \<noteq> Returned x"
  shows "s' = s"
proof (cases slot input s rule: QueueBuffer_cases)
  case (accepted gb)
  then show ?thesis using QueueBuffer_accept_eq [OF assms(1), of slot input] assms(2,3) by (metis fst_conv)
qed (use assms in auto)

interpretation fifo: frame_channel sync_mode pending_frames sync_perform
proof unfold_locales
  fix s s' :: "'a producer" and op sent got
  assume v: "sync_mode s" and p: "sync_perform op s = (sent, got, s')"
  have "sync_mode s' \<and> pending_frames s @ sent = got @ pending_frames s'"
  proof (cases op)
    case (S_DequeueBuffer w h f u)
    then show ?thesis using p same_queue_in_order [OF same_queue_Dequeue v] by auto
  next
    case (S_QueueBuffer slot input)
    then show ?thesis
      using p v sync_Queue [OF v, of slot input]
        QueueBuffer_unreturned [of s slot "input\<lparr>in_async := False\<rparr>"]
      by (cases "QueueBuffer slot (input\<lparr>in_async := False\<rparr>) s" rule: prod.exhaust)
         (auto simp: sync_mode_def split: outcome.splits if_splits)
  next
    case S_AcquireBuffer
    then show ?thesis
      using p sync_Acquire [OF v] by (auto split: prod.splits option.splits)
  qed (use p same_queue_in_order [OF same_queue_others(1) v]
        same_queue_in_order [OF same_queue_others(2) v]
        same_queue_in_order [OF same_queue_others(3) v] in auto)
  then show "sync_mode s'" "pending_frames s @ sent = got @ pending_frames s'" by auto
qed

fun sync_run :: "sync_op list \<Rightarrow> 'a producer \<Rightarrow> u64 list \<times> u64 list \<times> 'a producer" where
  "sync_run [] s = ([], [], s)"
| "sync_run (op # ops) s =
     (let (sent, got, s1) = sync_perform op s; (sent', got', s') = sync_run ops s1
      in (sent @ sent', got @ got', s'))"

lemma sync_run_eq: "sync_run ops s = fifo.run ops s"
  by (induction ops arbitrary: s) (simp_all add: Let_def split_beta)

lemma sync_Acquire_counter: "frame_counter (snd (AcquireBuffer 0 s)) = frame_counter s"
  by (simp add: AcquireBuffer_def Let_def acquire_front_def SignalDequeueCondition_def)

lemma sync_perform_counter:
  assumes v: "sync_mode s" and p: "sync_perform op s = (sent, got, s')"
  shows "sent = [] \<and> frame_counter s' = frame_counter s
    \<or> sent = [frame_counter s + 1] \<and> frame_counter s' = frame_counter s + 1"
proof (cases op)
  case (S_QueueBuffer slot input)
  then show ?thesis
    using p sync_Queue [OF v, of slot input] v
      QueueBuffer_unreturned [of s slot "input\<lparr>in_async := False\<rparr>"]
    by (cases "QueueBuffer slot (input\<lparr>in_async := False\<rparr>) s" rule: prod.exhaust)
       (auto simp: sync_mode_def split: outcome.splits if_splits)
next
  case S_AcquireBuffer
  then show ?thesis
    using p sync_Acquire_counter [of s] by (auto split: prod.splits option.splits)
next
  case (S_DequeueBuffer w h f u)
  then show ?thesis using p same_queue_Dequeue [of s False w h f u] by (auto simp: same_queue_def)
next
  case (S_RequestBuffer slot)
  then show ?thesis using p same_queue_others(1) [of s slot] by (auto simp: same_queue_def)
next
  case (S_CancelBuffer slot f)
  then show ?thesis using p same_queue_others(2) [of s slot f] by (auto simp: same_queue_def)
next
  case (S_ReleaseBuffer slot frame f)
  then show ?thesis using p same_queue_others(3) [of s slot frame f] by (auto simp: same_queue_def)
qed

lemma sync_run_counter:
  "sync_mode s \<Longrightarrow> sync_run ops s = (sent, got, s') \<Longrightarrow>
   sent = map (\<lambda>k. frame_counter s + 1 + word_of_nat k) [0..<length sent]"
proof (induction ops arbitrary: s sent got s')
  case (Cons op ops)
  obtain sent1 got1 s1 where p: "sync_perform op s = (sent1, got1, s1)" using prod_cases3 by blast
  obtain sent2 got2 s2 where r: "sync_run ops s1 = (sent2, got2, s2)" using prod_cases3 by blast
  have eq: "sent = sent1 @ sent2" using Cons.prems(2) p r by (auto simp: Let_def)
  have ih: "sent2 = map (\<lambda>k. frame_counter s1 + 1 + word_of_nat k) [0..<length sent2]"
    using Cons.IH [OF fifo.valid_perform [OF Cons.prems(1) p] r] .
  show ?case
  proof (cases "sent1 = []")
    case True
    then show ?thesis using eq ih sync_perform_counter [OF Cons.prems(1) p] by simp
  next
    case False
    then have s1: "sent1 = [frame_counter s + 1]" "frame_counter s1 = frame_counter s + 1"
      using sync_perform_counter [OF Cons.prems(1) p] by auto
    have "[0..<length sent] = 0 # map Suc [0..<length sent2]"
      using s1 eq by (simp add: map_Suc_upt upt_conv_Cons del: upt_Suc)
    then have "map (\<lambda>k. frame_counter s + 1 + word_of_nat k) [0..<length sent]
        = (frame_counter s + 1) # map (\<lambda>k. frame_counter s1 + 1 + word_of_nat k) [0..<length sent2]"
      by (simp add: comp_def s1(2) ac_simps)
    also have "\<dots> = sent" using ih s1(1) eq by simp
    finally show ?thesis by (rule sym)
  qed
qed simp

text \<open>
  Property C15. In synchronous mode the buffer queue is a first-in first-out channel: over any
  sequence of dequeue, request, queue, cancel, acquire and release calls, whatever fails among
  them, the frames that were pending followed by the frames queued are the frames acquired
  followed by the frames still pending, and the frames queued carry consecutive numbers. No
  frame is lost, repeated or reordered.
\<close>

theorem sync_frames_in_order:
  assumes "sync_mode s" "sync_run ops s = (sent, got, s')"
  shows "pending_frames s @ sent = got @ pending_frames s'
    \<and> sent = map (\<lambda>k. frame_counter s + 1 + word_of_nat k) [0..<length sent]"
  using fifo.run_in_order [OF assms(1) assms(2) [unfolded sync_run_eq]] sync_run_counter [OF assms]
  by (intro conjI) simp_all

definition one_frame :: "sync_op list" where
  "one_frame =
     [S_DequeueBuffer 0 0 0 0, S_RequestBuffer 0, S_QueueBuffer 0 full_frame, S_AcquireBuffer]"

theorem sync_frames_in_order_witness:
  "fst (snd (sync_run one_frame BufferQueueProducer_ctor)) = [1]
   \<and> pending_frames BufferQueueProducer_ctor @ fst (sync_run one_frame BufferQueueProducer_ctor)
     = fst (snd (sync_run one_frame BufferQueueProducer_ctor))
       @ pending_frames (snd (snd (sync_run one_frame BufferQueueProducer_ctor)))"
proof -
  have "sync_mode BufferQueueProducer_ctor"
    by (simp add: sync_mode_def tickets_ok_def BufferQueueProducer_ctor_def)
  moreover have "fst (snd (sync_run one_frame BufferQueueProducer_ctor)) = [1]" by code_simp
  ultimately show ?thesis
    using sync_frames_in_order [where s = BufferQueueProducer_ctor and ops = one_frame] by (metis prod.collapse)
qed

section \<open>Mixing synchronous and asynchronous frames\<close>

text \<open>The producer dequeues a slot, requests its buffer and queues a frame.\<close>

definition feed :: "bool \<Rightarrow> BufferQueueProducer \<Rightarrow> BufferQueueProducer" where
  "feed async s =
     (case DequeueBuffer async 0 0 0 0 s of
        (Returned (Dequeue_found status slot f), s1) \<Rightarrow>
          snd (QueueBuffer slot (full_frame\<lparr>in_async := async\<rparr>) (snd (RequestBuffer slot s1)))
      | (_, s1) \<Rightarrow> s1)"

text \<open>
  With \<^verbatim>\<open>async\<close> frames the order is not kept: a droppable front item is
  overwritten in place by the newest frame, also when older frames wait behind it. The
  producer queues one synchronous and two asynchronous frames, the consumer takes the first,
  and the producer queues a fourth: it comes before the third.
\<close>

theorem async_frames_out_of_order:
  "pending_frames (feed True (snd (AcquireBuffer 0 (feed True (feed True (feed False
     (snd (SetBufferCount 5 BufferQueueProducer_ctor))))))))
   = [4, 3]"
  by code_simp

end
