(* ===== verification/Spec2Isabelle.thy ===== *)
theory Spec2Isabelle
  imports Prelude KHandleTable KResourceLimit KPageTableAliasCalls KPageBitmapProofs CheatEngine MacroEngine GuestMemoryMarking GuestMemoryScalars BufferQueueFrames
begin

text \<open>
  A verification development for torzu, an emulator of the Nintendo Switch. The program runs
  guest code on the host: \<^verbatim>\<open>src/core\<close> holds the emulated kernel, the system services, guest memory
  and the loaders, \<^verbatim>\<open>src/video_core\<close> and \<^verbatim>\<open>src/shader_recompiler\<close> the GPU, \<^verbatim>\<open>src/audio_core\<close> the
  audio renderer, \<^verbatim>\<open>src/common\<close> what they share, and several frontends drive them. The
  development follows the parts that keep state of their own and whose mistakes a guest program can
  reach: kernel objects, address spaces, guest memory, the queue of display buffers, the
  cheat interpreter and the macro processor of the GPU.

  \<^bold>\<open>Parts and theories.\<close>

  \<^item> \<open>Prelude\<close>: integers of fixed width, the bit fields of \<^verbatim>\<open>common/bit_field.h\<close>, lemmas on lists,
    words and results that several parts use.

  \<^item> Kernel handle table (\<open>KHandleTable\<close>; \<^verbatim>\<open>core/hle/kernel/k_handle_table.h\<close> and \<^verbatim>\<open>.cpp\<close>). The record
    has the arrays, the free list threaded through them and the serial number. Shown: the
    table refines a finite map from handles to objects, a removed handle resolves to
    nothing until the serial numbers wrap or it is registered again, opens and closes balance, reserving and registering
    equal adding.

  \<^item> Resource limits (\<open>KResourceLimit\<close>; \<^verbatim>\<open>k_resource_limit.cpp\<close>, \<^verbatim>\<open>k_scoped_resource_reservation.h\<close>). A
    call that has to wait is cut at the wait, and threads interleave in a step relation.
    Shown: the accounts stay within their bounds in every reachable state, the hints too as long
    as callers hint before they give back, a reservation is granted exactly when integer arithmetic says so, and no waiter is forgotten.

  \<^item> Memory blocks (\<open>KMemoryBlock\<close>, \<open>KMemoryBlockManager\<close>, then \<open>KMemoryBlockViews\<close>, \<open>KMemoryBlockCoalesce\<close>,
    \<open>KMemoryBlockUpdate\<close>, \<open>KMemoryBlockProofs\<close>, \<open>KMemoryBlockSearch\<close>; \<^verbatim>\<open>k_memory_block.h\<close>,
    \<^verbatim>\<open>k_memory_block_manager.cpp\<close>). The tree is the list of its blocks; iterators that leave it and an
    allocator that runs dry are error values. The abstract view is a map from addresses to page
    properties. The locale \<open>block_change\<close> states what the shared update loop needs of a test and a
    change; the four updates interpret it. Shown: each update changes exactly the pages of its range,
    every sequence of updates passes the check of the code, locks undo each other, and a free area
    that is found is free.

  \<^item> Kernel page table (\<open>KPageGroup\<close>, \<open>KPageTableBase\<close>, then \<open>KPageGroupProofs\<close>, \<open>KPageTableProofs\<close>,
    \<open>KPageTableLocks\<close>, \<open>KPageTableCalls\<close>; for mappings \<open>KPageTableMapping\<close>, then \<open>KPageGroupTargets\<close>,
    \<open>KPageTableAliases\<close>, \<open>KPageTableAliasCalls\<close>; \<^verbatim>\<open>k_page_table_base.cpp\<close>, \<^verbatim>\<open>k_page_group.cpp\<close>,
    \<^verbatim>\<open>svc/svc_memory.cpp\<close>). It joins the block manager with the page table and guest memory: an operation checks
    a range, takes the blocks it will need and updates the tree. Shown: the check accepts exactly the
    uniform ranges and counts enough blocks, the system calls for permissions and attributes
    change exactly their range or fail without a change, with the one case where a call crashes the
    emulator, and memory locked for a transfer stays locked until it is unlocked, which restores it.
    An alias of memory has the physical pages of its source in order, and unmapping it gives back the
    space that was there before; a destination outside of the address space crashes the emulator.

  \<^item> Physical memory (\<open>KPageBitmap\<close>, \<open>KPageBitmapProofs\<close>; \<^verbatim>\<open>k_page_bitmap.h\<close>, \<^verbatim>\<open>common/tiny_mt.h\<close>). A bitmap
    of several levels lies in a vector of words that is shared by the bitmaps of a heap. Shown: it stands for a set
    of blocks, which setting and clearing change and in which a search always finds a member.

  \<^item> Guest memory (\<open>PageTable\<close>, \<open>GuestMemory\<close>, \<open>GuestMemoryWalk\<close>, \<open>GuestMemoryBlocks\<close>,
    \<open>GuestMemoryMarking\<close>, \<open>GuestMemoryScalars\<close>; \<^verbatim>\<open>common/page_table.h\<close>, \<^verbatim>\<open>core/memory.cpp\<close>). Host memory is a
    function from addresses to bytes, the rasterizer's side of an access is an argument. Shown:
    block and scalar accesses agree with translating every byte on its own, what is written is
    read back, and marking pages is invisible to unsafe block reads.

  \<^item> Display buffer queue (\<open>BufferQueueTypes\<close>, \<open>BufferQueue\<close>, \<open>BufferQueueInvariant\<close>, \<open>BufferQueueRuns\<close>,
    \<open>BufferQueueSafety\<close>, \<open>BufferQueueFrames\<close>; \<^verbatim>\<open>core/hle/service/nvnflinger\<close>). Producer and consumer
    calls are cut where they sleep or leave the lock, and interleave in \<open>queue_step\<close>. Shown: the
    invariant of every reachable state, no lost wake-up, frames in order, the choice of slots.

  \<^item> Cheats (\<open>DmntCheatTypes\<close>, \<open>DmntCheatDecode\<close>, \<open>DmntCheatLog\<close>, \<open>DmntCheatVm\<close>, \<open>DmntCheatSafety\<close>,
    \<open>CheatVmEnvironment\<close>, \<open>CheatParser\<close>, \<open>CheatEngine\<close>; \<^verbatim>\<open>core/memory/dmnt_cheat_vm.cpp\<close>,
    \<^verbatim>\<open>core/memory/cheat_engine.cpp\<close>). The interpreter runs over a record of callbacks; the locale
    \<open>vm_environment\<close> carries a relation the callbacks respect through a whole run, and the engine
    interprets it on its own callbacks over guest memory. Shown: what a cheat can write, when a
    program ends, that cheat text is parsed back, and which words a frame runs.

  \<^item> GPU macros (\<open>MacroInterpreter\<close>, \<open>MacroEngine\<close>; \<^verbatim>\<open>video_core/macro\<close>). The interpreter object of a
    macro lives in the cache between calls and keeps its parameter buffer. Shown: the state invariant of
    the interpreter over its whole life, exact arithmetic over carries, delay slots, termination of forward macros, and
    which code a call runs after an upload.

  \<^bold>\<open>How code is modelled.\<close> A class is a record and each member function a definition on it. \<^verbatim>\<open>Result\<close>
  codes, null pointers and fatal errors are values of sum types. An \<^verbatim>\<open>ASSERT\<close> of the code logs and goes
  on; where a property needs one it is a hypothesis. Integers keep their width; lemmas that
  move to natural numbers carry the bounds. Calls into parts that are not modelled are arguments
  (the GPU, callbacks of services, random numbers) or entries of a log (host memory mappings).

  \<^bold>\<open>Fuel.\<close> The loops of the interpreters may run forever and take fuel, and termination theorems state how much
  is enough: one turn per word or instruction. The block loops visit every block at most once, so the length
  of the list plus one is always enough, and their theorems say that they return. The loops over the pages of a
  group take one turn per page; more fuel changes nothing.

  \<^bold>\<open>Not modelled.\<close> The frontends (\<^verbatim>\<open>yuzu\<close>, \<^verbatim>\<open>yuzu_cmd\<close>, \<^verbatim>\<open>android\<close>), the dedicated room and the web service are
  user interface and network code. Renderers, texture and buffer caches and the shader recompiler depend on graphics
  drivers and shader semantics outside of the sources. The CPU is dynarmic, a vendored library, or native execution.
  Audio rendering, input devices, file systems, loaders and cryptography move data between host and guest. Of the
  kernel, scheduling, threads, synchronization objects and IPC sessions are left out: they rest on host fibers and
  on hand-over of locks between threads. Within the parts above: the pages that the kernel
  page table newly allocates, its heap, physical memory and IPC transfers; the binder transactions around the buffer
  queue, the separate heap of host memory and native code patching, the x64 compiler of macros.
\<close>

end
